(* ===== verification/Prelude.thy ===== *)
theory Prelude
  imports Main "HOL-Library.Word" "HOL-Library.Multiset" "HOL-Library.Monad_Syntax"
    "HOL-Library.Code_Target_Nat"
begin

text \<open>
  The vocabulary every component shares: the machine types of the Rust code, the saturating
  arithmetic of the standard library on them, the list operations of \<open>Vec\<close> that the code uses
  (\<open>position\<close>, \<open>swap_remove\<close>, \<open>find\<close>), and the locale of a state machine whose
  invariant every operation keeps.
\<close>

unbundle bit_operations_syntax

section \<open>Machine types\<close>

type_synonym u8 = "8 word"
type_synonym u16 = "16 word"
type_synonym u32 = "32 word"
type_synonym u64 = "64 word"

text \<open>\<open>std::net::Ipv4Addr\<close>: the address as its 32-bit big-endian number (\<open>u32::from\<close>).\<close>

type_synonym ipv4 = "32 word"

text \<open>\<open>std::net::SocketAddrV4\<close> and the \<open>(Ipv4Addr, u16)\<close> tuples of the code.\<close>

type_synonym tuple4 = "ipv4 \<times> u16"

named_theorems sat_simps \<open>reading saturating arithmetic as arithmetic on naturals\<close>
named_theorems vec_simps \<open>facts on the list operations of Vec\<close>

section \<open>Saturating arithmetic\<close>

definition sat_add :: "'a::len word \<Rightarrow> 'a word \<Rightarrow> 'a word" where
  "sat_add a b = (if a \<le> - 1 - b then a + b else - 1)"

definition sat_sub :: "'a::len word \<Rightarrow> 'a word \<Rightarrow> 'a word" where
  "sat_sub a b = (if b \<le> a then a - b else 0)"

definition sat_mul :: "'a::len word \<Rightarrow> 'a word \<Rightarrow> 'a word" where
  "sat_mul a b = (if unat a * unat b < 2 ^ LENGTH('a) then a * b else - 1)"

lemma unat_max_word: "unat (- 1 :: 'a::len word) = 2 ^ LENGTH('a) - 1"
  by (simp add: unsigned_minus_1_eq_mask mask_eq_exp_minus_1)

lemma unat_bound: "unat (a::'a::len word) < 2 ^ LENGTH('a)"
  by (rule unsigned_less)

lemma unat_le_max: "unat (a::'a::len word) \<le> 2 ^ LENGTH('a) - 1"
  using unat_bound [of a] by linarith

lemma unat_sat_sub [sat_simps]: "unat (sat_sub a b) = unat a - unat b"
  by (auto simp: sat_sub_def unat_sub word_le_nat_alt)

lemma unat_sat_add [sat_simps]:
  "unat (sat_add a (b::'a::len word)) = min (unat a + unat b) (2 ^ LENGTH('a) - 1)"
proof -
  have room: "unat (- 1 - b) = 2 ^ LENGTH('a) - 1 - unat b"
    by (simp add: unat_sub unat_max_word)
  show ?thesis
  proof (cases "unat a + unat b < 2 ^ LENGTH('a)")
    case True
    then have "a \<le> - 1 - b" and "unat (a + b) = unat a + unat b"
      using room by (simp_all add: word_le_nat_alt unat_word_ariths)
    moreover from True have "unat a + unat b \<le> 2 ^ LENGTH('a) - 1" by linarith
    ultimately show ?thesis by (simp add: sat_add_def min_absorb1)
  next
    case False
    with room unat_bound [of b] have "\<not> unat a \<le> unat (- 1 - b)" by linarith
    then have "\<not> a \<le> - 1 - b" by (simp add: word_le_nat_alt)
    moreover from False have "2 ^ LENGTH('a) - 1 \<le> unat a + unat b" by linarith
    ultimately show ?thesis by (simp add: sat_add_def unat_max_word min_absorb2)
  qed
qed

lemma unat_sat_mul [sat_simps]:
  "unat (sat_mul a (b::'a::len word)) = min (unat a * unat b) (2 ^ LENGTH('a) - 1)"
proof (cases "unat a * unat b < 2 ^ LENGTH('a)")
  case True
  then have "unat (a * b) = unat a * unat b" by (simp add: unat_word_ariths)
  moreover from True have "unat a * unat b \<le> 2 ^ LENGTH('a) - 1" by linarith
  ultimately show ?thesis using True by (simp add: sat_mul_def min_absorb1)
next
  case False
  moreover from False have "2 ^ LENGTH('a) - 1 \<le> unat a * unat b" by linarith
  ultimately show ?thesis by (simp add: sat_mul_def unat_max_word min_absorb2)
qed

lemma unat_succ_below:
  assumes "(r::'a::len word) < m"
  shows "unat (r + 1) = Suc (unat r)"
proof -
  from assms unat_bound [of m] have "Suc (unat r) < 2 ^ LENGTH('a)"
    unfolding word_less_nat_alt by linarith
  then show ?thesis by (simp add: unat_word_ariths)
qed

lemma sat_sub_le: "sat_sub a b \<le> a"
  by (simp add: word_le_nat_alt unat_sat_sub)

lemma sat_add_ge: "(a::'a::len word) \<le> sat_add a b"
  using unat_le_max [of a] by (simp add: word_le_nat_alt unat_sat_add)

lemma unat_widen:
  assumes "LENGTH('a) \<le> LENGTH('b)"
  shows "unat (ucast (x::'a::len word) :: 'b::len word) = unat x"
proof -
  have "(2::nat) ^ LENGTH('a) \<le> 2 ^ LENGTH('b)"
    using assms by (simp add: power_increasing)
  with unat_bound [of x] have "unat x < 2 ^ LENGTH('b)" by linarith
  then show ?thesis by (simp add: unsigned_ucast_eq unsigned_take_bit_eq take_bit_nat_eq_self)
qed

section \<open>The list operations of \<open>Vec\<close>\<close>

lemma fold_keeps: "(\<And>x s. P s \<Longrightarrow> P (f x s)) \<Longrightarrow> P s \<Longrightarrow> P (fold f xs s)"
  by (induction xs arbitrary: s) simp_all

text \<open>\<open>iter().position(p)\<close>: the index of the first element that satisfies \<open>p\<close>.\<close>

primrec position :: "('a \<Rightarrow> bool) \<Rightarrow> 'a list \<Rightarrow> nat option" where
  "position P [] = None"
| "position P (x # xs) = (if P x then Some 0 else map_option Suc (position P xs))"

text \<open>\<open>Vec::swap_remove(i)\<close>: the last element takes the place of the removed one.\<close>

definition swap_remove :: "'a list \<Rightarrow> nat \<Rightarrow> 'a list" where
  "swap_remove xs i = butlast (xs[i := last xs])"

lemma position_None_iff [vec_simps]: "position P xs = None \<longleftrightarrow> (\<forall>x \<in> set xs. \<not> P x)"
  by (induction xs) auto

lemma position_SomeD:
  "position P xs = Some i \<Longrightarrow> i < length xs \<and> P (xs ! i) \<and> (\<forall>j < i. \<not> P (xs ! j))"
proof (induction xs arbitrary: i)
  case (Cons x xs)
  then show ?case
    by (auto split: if_splits simp: nth_Cons split: nat.splits)
qed simp

lemma position_Some_find:
  "position P xs = Some i \<Longrightarrow> find P xs = Some (xs ! i)"
  by (induction xs arbitrary: i) (auto split: if_splits)

lemma position_None_find: "position P xs = None \<longleftrightarrow> find P xs = None"
  by (induction xs) auto

lemma find_None_all [vec_simps]: "find P xs = None \<longleftrightarrow> (\<forall>x \<in> set xs. \<not> P x)"
  by (auto simp: find_None_iff)

lemma find_SomeD: "find P xs = Some x \<Longrightarrow> x \<in> set xs \<and> P x"
  by (auto simp: find_Some_iff)

lemma mset_swap_remove:
  assumes "i < length xs"
  shows "mset (swap_remove xs i) = mset xs - {#xs ! i#}"
proof -
  from assms have ne: "xs \<noteq> []" by auto
  let ?ys = "xs[i := last xs]"
  from assms ne have l: "last ?ys = last xs"
    by (simp add: last_conv_nth nth_list_update)
  from ne have "?ys \<noteq> []" by simp
  then have "mset ?ys = mset (butlast ?ys @ [last ?ys])" by simp
  then have "mset (butlast ?ys) = mset ?ys - {#last ?ys#}" by simp
  also have "\<dots> = mset xs - {#xs ! i#}"
    using assms by (simp add: l mset_update)
  finally show ?thesis by (simp add: swap_remove_def)
qed

lemma set_swap_remove_subset: "i < length xs \<Longrightarrow> set (swap_remove xs i) \<subseteq> set xs"
  by (metis mset_swap_remove set_mset_mset diff_subset_eq_self set_mset_mono)

lemma distinct_map_mset:
  assumes "mset ys \<subseteq># mset xs" and "distinct (map f xs)"
  shows "distinct (map f ys)"
proof -
  from assms(1) obtain M where "mset xs = mset ys + M" by (metis mset_subset_eq_exists_conv)
  moreover obtain zs where "M = mset zs" by (metis ex_mset)
  ultimately have "mset (map f xs) = mset (map f (ys @ zs))" by simp
  then have "distinct (map f (ys @ zs))" using assms(2) by (metis mset_eq_imp_distinct_iff)
  then show ?thesis by simp
qed

lemma distinct_map_swap_remove:
  "i < length xs \<Longrightarrow> distinct (map f xs) \<Longrightarrow> distinct (map f (swap_remove xs i))"
  by (rule distinct_map_mset [of _ xs]) (simp_all add: mset_swap_remove)

lemma set_swap_remove_distinct:
  assumes "i < length xs" and "distinct (map f xs)"
  shows "set (swap_remove xs i) = {x \<in> set xs. f x \<noteq> f (xs ! i)}"
proof -
  from assms(2) have d: "distinct xs" by (simp add: distinct_map)
  have "mset (swap_remove xs i) = mset (remove1 (xs ! i) xs)"
    using assms(1) by (simp add: mset_swap_remove)
  then have "set (swap_remove xs i) = set (remove1 (xs ! i) xs)" by (rule mset_eq_setD)
  also have "\<dots> = set xs - {xs ! i}" using d by simp
  finally show ?thesis
    using assms by (auto simp: distinct_map inj_on_def)
qed

section \<open>State machines and their invariants\<close>

text \<open>
  A component with state is a start state and a step function over its operations. What every
  step keeps holds after any sequence of operations.
\<close>

locale machine =
  fixes step :: "'op \<Rightarrow> 's \<Rightarrow> 's"
    and inv :: "'s \<Rightarrow> bool"
  assumes step_inv: "inv s \<Longrightarrow> inv (step x s)"
begin

lemma run_inv: "inv s \<Longrightarrow> inv (fold step xs s)"
  by (induction xs arbitrary: s) (simp_all add: step_inv)

lemma run_append_inv: "inv (fold step xs s) \<Longrightarrow> inv (fold step (xs @ ys) s)"
  by (simp add: run_inv)

end

end
