(* ===== verification/Vote.thy ===== *)
theory Vote
  imports Prelude
begin

text \<open>
  The STUN majority vote (\<open>src/src/vote.rs\<close>): the confirmed external tuple, the last
  differing report of each server, and the decision on a new report. The invariant says which
  reports may be pending; a ghost history of the reports ties a pending entry to the server
  that made it.
\<close>

definition MAX_VOTE_SERVERS :: nat where
  "MAX_VOTE_SERVERS = 4"

datatype VoteDecision = Stable | Disagree nat | Churn tuple4

record VoteState =
  v_confirmed :: "tuple4 option"
  v_pend :: "tuple4 option list"

definition VoteState_new :: VoteState where
  "VoteState_new = \<lparr>v_confirmed = None, v_pend = replicate MAX_VOTE_SERVERS None\<rparr>"

definition clear_pend :: "VoteState \<Rightarrow> VoteState" where
  "clear_pend v = v\<lparr>v_pend := replicate MAX_VOTE_SERVERS None\<rparr>"

definition observe :: "nat \<Rightarrow> tuple4 \<Rightarrow> VoteState \<Rightarrow> VoteDecision \<times> VoteState" where
  "observe server t v =
     (if v_confirmed v = Some t then (Stable, clear_pend v)
      else
        let v1 = (if server < MAX_VOTE_SERVERS then v\<lparr>v_pend := (v_pend v)[server := Some t]\<rparr> else v);
            agreeing = length (filter (\<lambda>slot. slot = Some t) (v_pend v1))
        in if 2 \<le> agreeing then (Churn t, clear_pend (v1\<lparr>v_confirmed := Some t\<rparr>))
           else if v_confirmed v1 = None then (Churn t, clear_pend (v1\<lparr>v_confirmed := Some t\<rparr>))
           else (Disagree server, v1))"

text \<open>A run of reports, as \<open>run_slot\<close> and \<open>run_connection\<close> feed them in.\<close>

definition vote_step :: "nat \<times> tuple4 \<Rightarrow> VoteState \<Rightarrow> VoteState" where
  "vote_step r v = snd (observe (fst r) (snd r) v)"

definition vote_run :: "(nat \<times> tuple4) list \<Rightarrow> VoteState" where
  "vote_run rs = fold vote_step rs VoteState_new"

section \<open>The invariant\<close>

text \<open>At most one server is pending for any value, and never for the confirmed one.\<close>

definition vote_inv :: "VoteState \<Rightarrow> bool" where
  "vote_inv v \<longleftrightarrow> length (v_pend v) = MAX_VOTE_SERVERS
     \<and> (\<forall>t. length (filter (\<lambda>s. s = Some t) (v_pend v)) \<le> 1)
     \<and> (v_confirmed v = None \<longrightarrow> v_pend v = replicate MAX_VOTE_SERVERS None)
     \<and> (\<forall>t. v_confirmed v = Some t \<longrightarrow> Some t \<notin> set (v_pend v))"

lemma vote_inv_one: "vote_inv v \<Longrightarrow> length (filter (\<lambda>s. s = Some t) (v_pend v)) \<le> 1"
  unfolding vote_inv_def by blast

lemma filter_replicate_None: "filter (\<lambda>s. s = Some t) (replicate n None) = []"
  by (induction n) auto

lemma vote_inv_clear [simp]: "vote_inv (clear_pend v)"
  by (simp add: vote_inv_def clear_pend_def filter_replicate_None)

lemma vote_inv_new [simp]: "vote_inv VoteState_new"
  by (simp add: vote_inv_def VoteState_new_def filter_replicate_None)

lemma filter_update_le:
  "length (filter P (xs[i := y])) \<le> length (filter P xs) + (if P y then 1 else 0)"
  by (induction xs arbitrary: i) (auto split: nat.splits intro: le_SucI)

lemma observe_inv: "vote_inv v \<Longrightarrow> vote_inv (snd (observe s t v))"
proof -
  assume inv: "vote_inv v"
  show ?thesis
  proof (cases "fst (observe s t v)")
    case (Disagree k)
    then have nc: "v_confirmed v \<noteq> Some t" "v_confirmed v \<noteq> None"
      by (auto simp: observe_def Let_def split: if_splits)
    define v1 where
      "v1 = (if s < MAX_VOTE_SERVERS then v\<lparr>v_pend := (v_pend v)[s := Some t]\<rparr> else v)"
    from Disagree have few: "length (filter (\<lambda>x. x = Some t) (v_pend v1)) \<le> 1"
      and res: "snd (observe s t v) = v1"
      by (auto simp: observe_def Let_def v1_def split: if_splits)
    have "length (filter (\<lambda>x. x = Some u) (v_pend v1)) \<le> 1" for u
    proof (cases "u = t")
      case False
      then have "length (filter (\<lambda>x. x = Some u) (v_pend v1))
          \<le> length (filter (\<lambda>x. x = Some u) (v_pend v))"
        using filter_update_le [of "\<lambda>x. x = Some u" "v_pend v" s "Some t"]
        by (auto simp: v1_def)
      also have "\<dots> \<le> 1" by (rule vote_inv_one [OF inv])
      finally show ?thesis .
    next
      case True
      with few show ?thesis by simp
    qed
    moreover have "set (v_pend v1) \<subseteq> insert (Some t) (set (v_pend v))"
      by (auto simp: v1_def dest: set_update_subset_insert [THEN subsetD])
    ultimately show ?thesis
      using inv nc by (auto simp: vote_inv_def res v1_def)
  qed (auto simp: observe_def Let_def split: if_splits)
qed

interpretation vote: machine vote_step vote_inv
  by unfold_locales (simp add: vote_step_def observe_inv)

lemma vote_run_inv: "vote_inv (vote_run rs)"
  unfolding vote_run_def by (rule vote.run_inv) simp

section \<open>Where a pending report came from\<close>

definition vote_hist :: "(nat \<times> tuple4) list \<Rightarrow> VoteState \<Rightarrow> bool" where
  "vote_hist rs v \<longleftrightarrow>
     (\<forall>i t. i < length (v_pend v) \<longrightarrow> v_pend v ! i = Some t \<longrightarrow> (i, t) \<in> set rs)
     \<and> (\<forall>t. v_confirmed v = Some t \<longrightarrow> t \<in> snd ` set rs)"

lemma vote_hist_step: "vote_hist rs v \<Longrightarrow> vote_hist (rs @ [r]) (vote_step r v)"
proof -
  assume h: "vote_hist rs v"
  obtain s t where r: "r = (s, t)" by (cases r)
  have upd: "(v_pend v)[s := Some t] ! i = Some u \<Longrightarrow> i < length (v_pend v) \<Longrightarrow>
      (i, u) = (s, t) \<or> (i, u) \<in> set rs" for i u
    using h by (cases "i = s"; cases u) (auto simp: vote_hist_def)
  from h upd show ?thesis
    unfolding vote_hist_def vote_step_def observe_def Let_def clear_pend_def r
    by (auto split: if_splits)
qed

lemma vote_run_hist: "vote_hist rs (vote_run rs)"
proof (induction rs rule: rev_induct)
  case Nil
  show ?case by (simp add: vote_hist_def vote_run_def VoteState_new_def)
next
  case (snoc r rs)
  then show ?case by (simp add: vote_run_def vote_hist_step)
qed

lemma filter_one_index:
  "1 \<le> length (filter P xs) \<Longrightarrow> \<exists>i < length xs. P (xs ! i)"
  by (metis (no_types, lifting) filter_False in_set_conv_nth list.size(3) not_one_le_zero)

lemma observe_churn_other:
  assumes inv: "vote_inv v" and c: "v_confirmed v = Some c"
    and ch: "fst (observe s t v) = Churn u"
  shows "u = t \<and> t \<noteq> c \<and> s < MAX_VOTE_SERVERS
    \<and> (\<exists>i < MAX_VOTE_SERVERS. i \<noteq> s \<and> v_pend v ! i = Some t)"
proof -
  let ?P = "\<lambda>x. x = Some t"
  define p where "p = (if s < MAX_VOTE_SERVERS then (v_pend v)[s := Some t] else v_pend v)"
  have one: "length (filter ?P (v_pend v)) \<le> 1" by (rule vote_inv_one [OF inv])
  from inv have len: "length (v_pend v) = MAX_VOTE_SERVERS" by (simp add: vote_inv_def)
  from ch c have ut: "u = t" "t \<noteq> c" and two: "2 \<le> length (filter ?P p)"
    by (auto simp: observe_def Let_def p_def split: if_splits)
  from two one have s: "s < MAX_VOTE_SERVERS" by (auto simp: p_def split: if_splits)
  have "1 \<le> length (filter ?P ((v_pend v)[s := None]))"
    using two filter_update_le [of ?P "(v_pend v)[s := None]" s "Some t"] s by (simp add: p_def)
  from filter_one_index [OF this]
  obtain i where i: "i < length (v_pend v)" "(v_pend v)[s := None] ! i = Some t" by auto
  then have "i \<noteq> s" by auto
  moreover from this i have "v_pend v ! i = Some t" by simp
  ultimately show ?thesis using i(1) ut s len by auto
qed

lemma churn_two_reports:
  assumes "v_confirmed (vote_run rs) = Some c"
    and "fst (observe s t (vote_run rs)) = Churn u"
  shows "u = t \<and> u \<noteq> c \<and> s < MAX_VOTE_SERVERS
    \<and> (\<exists>i. i \<noteq> s \<and> i < MAX_VOTE_SERVERS \<and> (i, t) \<in> set rs)"
proof -
  have "vote_inv (vote_run rs)" by (rule vote_run_inv)
  from observe_churn_other [OF this assms] obtain i where
    i: "u = t" "t \<noteq> c" "s < MAX_VOTE_SERVERS" "i < MAX_VOTE_SERVERS" "i \<noteq> s"
      "v_pend (vote_run rs) ! i = Some t" by blast
  moreover from vote_run_inv have "length (v_pend (vote_run rs)) = MAX_VOTE_SERVERS"
    by (simp add: vote_inv_def)
  ultimately have "(i, t) \<in> set rs"
    using vote_run_hist [of rs] by (cases t) (auto simp: vote_hist_def)
  with i show ?thesis by blast
qed

section \<open>Properties\<close>

text \<open>Once an external tuple is confirmed, a later report moves the confirmed
  tuple only to the value reported, and only when a second, different server among the first
  four has itself reported that same value earlier in the run. One server alone, however often
  it repeats a wrong address, never moves the published tuple.\<close>

theorem churn_needs_two_servers:
  assumes "v_confirmed (vote_run rs) = Some c"
    and "fst (observe s t (vote_run rs)) = Churn u"
  shows "u = t \<and> u \<noteq> c \<and> s < MAX_VOTE_SERVERS
    \<and> (\<exists>i. i \<noteq> s \<and> i < MAX_VOTE_SERVERS \<and> (i, t) \<in> set rs)"
  using assms by (rule churn_two_reports)

theorem churn_needs_two_servers_witness:
  "\<exists>i. i \<noteq> 0 \<and> i < MAX_VOTE_SERVERS \<and> (i, (2, 2)) \<in> set [(0, (1, 1)), (1, (2::ipv4, 2::u16))]"
proof -
  have run: "v_confirmed (vote_run [(0, (1, 1)), (1, (2, 2))]) = Some (1, 1)"
    "fst (observe 0 (2, 2) (vote_run [(0, (1, 1)), (1, (2, 2))])) = Churn (2, 2)"
    by code_simp+
  show ?thesis
    by (rule churn_needs_two_servers [OF run, THEN conjunct2, THEN conjunct2, THEN conjunct2])
qed

text \<open>Two different servers among the first four that report the same value one
  after the other make it the confirmed tuple, whatever was confirmed or pending before, and
  clear every suspicion.\<close>

theorem two_servers_confirm:
  assumes "s1 < MAX_VOTE_SERVERS" and "s2 < MAX_VOTE_SERVERS" and "s1 \<noteq> s2"
  shows "let v = vote_run (rs @ [(s1, t), (s2, t)])
         in v_confirmed v = Some t \<and> v_pend v = replicate MAX_VOTE_SERVERS None"
proof -
  define v where "v = vote_run rs"
  define w where "w = vote_step (s1, t) v"
  have lv: "length (v_pend v) = MAX_VOTE_SERVERS"
    using vote_run_inv [of rs] by (simp add: vote_inv_def v_def)
  have ge: "2 \<le> length (filter (\<lambda>x. x = Some t) (p[s1 := Some t, s2 := Some t]))"
    if "length p = MAX_VOTE_SERVERS" for p
  proof -
    let ?q = "p[s1 := Some t, s2 := Some t]"
    have "{s1, s2} \<subseteq> {k. k < length ?q \<and> ?q ! k = Some t}"
      using assms that by (auto simp: nth_list_update)
    then have "card {s1, s2} \<le> card {k. k < length ?q \<and> ?q ! k = Some t}"
      by (rule card_mono [rotated]) simp
    then show ?thesis using assms(3) by (simp add: length_filter_conv_card)
  qed
  have "v_confirmed w = Some t \<or>
      (v_confirmed w \<noteq> None \<and> v_pend w = (v_pend v)[s1 := Some t])"
    using assms(1) by (auto simp: w_def vote_step_def observe_def Let_def clear_pend_def)
  then have "v_confirmed (vote_step (s2, t) w) = Some t
      \<and> v_pend (vote_step (s2, t) w) = replicate MAX_VOTE_SERVERS None"
    using ge [OF lv] assms(2) by (auto simp: vote_step_def observe_def Let_def clear_pend_def)
  then show ?thesis by (simp add: vote_run_def v_def w_def)
qed

theorem two_servers_confirm_witness:
  "v_confirmed (vote_run [(2, (7, 7)), (0, (9, 9)), (3, (9, 9))]) = Some (9, 9)"
  using two_servers_confirm [of 0 3 "[(2, (7, 7))]" "(9, 9)"]
  by (simp add: MAX_VOTE_SERVERS_def Let_def)

end
