(* ===== verification/Health.thy ===== *)
theory Health
  imports Vote
begin

text \<open>
  The per-slot health state (\<open>src/src/mapping.rs\<close>), the presence rule
  (\<open>src/src/presence.rs\<close>), the carrier watch (\<open>src/src/carrier.rs\<close>) and the tick of a
  TCP slot's held connection (\<open>src/src/tcpslot.rs\<close>). The daemon is built in release mode, so
  an unsigned addition wraps.
\<close>

section \<open>The tuple health machine (\<open>mapping.rs\<close>)\<close>

text \<open>\<open>last_response\<close> is the reading of a monotonic clock, given as a number.\<close>

record State =
  st_servers :: "tuple4 list"
  st_server_idx :: nat
  st_tuple :: "tuple4 option"
  st_last_response :: "nat option"
  st_silent_ticks :: u32
  st_rotate_after :: u32
  st_poke :: "tuple4 option"

definition State_new :: "tuple4 list \<Rightarrow> State" where
  "State_new servers = \<lparr>st_servers = servers, st_server_idx = 0, st_tuple = None,
     st_last_response = None, st_silent_ticks = 0, st_rotate_after = 3, st_poke = None\<rparr>"

text \<open>Indexing the server list panics out of range: \<open>None\<close>.\<close>

definition current_server :: "State \<Rightarrow> tuple4 option" where
  "current_server s =
     (if st_server_idx s < length (st_servers s) then Some (st_servers s ! st_server_idx s) else None)"

definition is_stun_server :: "tuple4 \<Rightarrow> State \<Rightarrow> bool" where
  "is_stun_server a s \<longleftrightarrow> a \<in> set (st_servers s)"

definition note_silence :: "State \<Rightarrow> bool \<times> State" where
  "note_silence s =
     (let s1 = s\<lparr>st_silent_ticks := st_silent_ticks s + 1\<rparr>
      in if st_rotate_after s1 \<le> st_silent_ticks s1 \<and> 1 < length (st_servers s1)
         then (True, s1\<lparr>st_server_idx := Suc (st_server_idx s1) mod length (st_servers s1),
                        st_silent_ticks := 0\<rparr>)
         else (False, s1))"

definition note_response :: "nat \<Rightarrow> tuple4 \<Rightarrow> State \<Rightarrow> bool \<times> State" where
  "note_response now t s =
     (st_tuple s \<noteq> Some t,
      s\<lparr>st_silent_ticks := 0, st_last_response := Some now, st_tuple := Some t\<rparr>)"

definition server_index :: "tuple4 \<Rightarrow> State \<Rightarrow> nat option" where
  "server_index a s = position (\<lambda>x. x = a) (st_servers s)"

definition mark_suspect :: "State \<Rightarrow> bool \<times> State" where
  "mark_suspect s =
     (if 1 < length (st_servers s)
      then (True, s\<lparr>st_server_idx := Suc (st_server_idx s) mod length (st_servers s),
                    st_silent_ticks := 0\<rparr>)
      else (False, s))"

datatype st_op = Silence | Response nat tuple4 | Suspect

fun st_step :: "st_op \<Rightarrow> State \<Rightarrow> State" where
  "st_step Silence s = snd (note_silence s)"
| "st_step (Response now t) s = snd (note_response now t s)"
| "st_step Suspect s = snd (mark_suspect s)"

lemmas st_defs = note_silence_def note_response_def mark_suspect_def Let_def

definition st_inv :: "tuple4 list \<Rightarrow> State \<Rightarrow> bool" where
  "st_inv servers s \<longleftrightarrow> st_servers s = servers \<and> st_server_idx s < length servers"

interpretation health: machine st_step "st_inv servers"
proof
  fix s x assume "st_inv servers s"
  moreover from this have "0 < length servers" by (auto simp: st_inv_def)
  ultimately show "st_inv servers (st_step x s)"
    by (cases x) (auto simp: st_inv_def st_defs)
qed

lemma st_new_inv: "servers \<noteq> [] \<Longrightarrow> st_inv servers (State_new servers)"
  by (simp add: st_inv_def State_new_def)

text \<open>Reading the current STUN server never indexes out of range, after any
  sequence of silent keepalives, responses and suspicions, and it is one of the configured
  servers.\<close>

theorem current_server_total:
  assumes "servers \<noteq> []"
  shows "\<exists>a \<in> set servers. current_server (fold st_step ops (State_new servers)) = Some a"
proof -
  have "st_inv servers (fold st_step ops (State_new servers))"
    by (rule health.run_inv) (rule st_new_inv [OF assms])
  then show ?thesis by (auto simp: st_inv_def current_server_def)
qed

theorem current_server_total_witness:
  "\<exists>a \<in> set [(5::ipv4, 3478::u16), (6, 3478)].
     current_server (fold st_step [Silence, Silence, Silence, Suspect, Silence]
       (State_new [(5, 3478), (6, 3478)])) = Some a"
  by (rule current_server_total) simp

text \<open>Three silent keepalives in a row rotate a multi-server list by exactly one.\<close>

lemma three_silences:
  assumes "st_silent_ticks s = 0" and "st_rotate_after s = 3" and "1 < length (st_servers s)"
  shows "(st_step Silence ^^ 3) s =
     s\<lparr>st_server_idx := Suc (st_server_idx s) mod length (st_servers s), st_silent_ticks := 0\<rparr>"
proof -
  have "\<not> (3::u32) \<le> 1" by code_simp
  with assms show ?thesis by (simp add: st_defs numeral_3_eq_3 del: One_nat_def)
qed

lemma silence_rounds:
  assumes "st_inv servers s" and "st_silent_ticks s = 0" and "st_rotate_after s = 3"
    and "1 < length servers"
  shows "(st_step Silence ^^ (3 * k)) s =
     s\<lparr>st_server_idx := (st_server_idx s + k) mod length servers\<rparr>"
proof (induction k)
  case 0
  with assms show ?case by (simp add: st_inv_def)
next
  case (Suc k)
  have "(st_step Silence ^^ (3 * Suc k)) s = (st_step Silence ^^ 3) ((st_step Silence ^^ (3 * k)) s)"
    by (simp add: funpow_add [symmetric, THEN fun_cong, unfolded comp_def])
  also have "\<dots> = s\<lparr>st_server_idx := (st_server_idx s + Suc k) mod length servers\<rparr>"
    unfolding Suc using assms
    by (subst three_silences) (auto simp: st_inv_def mod_Suc_eq)
  finally show ?case .
qed

text \<open>A line whose servers have all gone quiet tries each of them: for every
  configured server some number of silent keepalives, at most three per server, makes it the
  current one.\<close>

theorem silence_reaches_every_server:
  assumes "1 < length servers" and "j < length servers"
  shows "\<exists>k < length servers.
    current_server ((st_step Silence ^^ (3 * k)) (State_new servers)) = Some (servers ! j)"
proof (intro exI conjI)
  show "j < length servers" by (rule assms(2))
  have inv: "st_inv servers (State_new servers)"
    using assms by (intro st_new_inv) auto
  show "current_server ((st_step Silence ^^ (3 * j)) (State_new servers)) = Some (servers ! j)"
    using assms silence_rounds [OF inv, of j]
    by (simp add: State_new_def current_server_def)
qed

theorem silence_reaches_every_server_witness:
  "\<exists>k < length [(1::ipv4, 1::u16), (2, 2), (3, 3)].
     current_server ((st_step Silence ^^ (3 * k)) (State_new [(1, 1), (2, 2), (3, 3)])) = Some (3, 3)"
  using silence_reaches_every_server [of "[(1, 1), (2, 2), (3, 3)]" 2] by simp

section \<open>Presence (\<open>presence.rs\<close>)\<close>

definition MISSES_TO_ABSENT :: u8 where
  "MISSES_TO_ABSENT = 2"

definition release_absent :: "bool \<Rightarrow> u8 \<Rightarrow> bool" where
  "release_absent is_static misses \<longleftrightarrow> \<not> is_static \<and> MISSES_TO_ABSENT \<le> misses"

section \<open>The carrier watch (\<open>carrier.rs\<close>)\<close>

datatype Event = Probe u64 | Silent "u64 option" u64

record Watch =
  w_count :: u64
  w_last_seen :: "u64 option"
  w_started :: u64
  w_alarmed :: bool
  w_primed :: bool

definition Watch_new :: "u64 \<Rightarrow> Watch" where
  "Watch_new now = \<lparr>w_count = 0, w_last_seen = None, w_started = now, w_alarmed = False,
     w_primed = False\<rparr>"

definition poll :: "u64 \<Rightarrow> u64 \<Rightarrow> u64 \<Rightarrow> u64 \<Rightarrow> Watch \<Rightarrow> Event list \<times> Watch" where
  "poll now reading interval misses w =
     (if \<not> w_primed w then ([], w\<lparr>w_primed := True, w_count := reading\<rparr>)
      else if w_count w < reading
      then ([Probe reading], w\<lparr>w_count := reading, w_last_seen := Some now, w_alarmed := False\<rparr>)
      else
        let since = (case w_last_seen w of Some t \<Rightarrow> t | None \<Rightarrow> w_started w);
            waited = sat_sub now since
        in if \<not> w_alarmed w \<and> sat_mul interval misses \<le> waited
           then ([Silent (w_last_seen w) waited], w\<lparr>w_alarmed := True\<rparr>)
           else ([], w))"

text \<open>The watch task: one reading of the clock and the counter per poll, the events in order.\<close>

fun watch_run :: "u64 \<Rightarrow> u64 \<Rightarrow> (u64 \<times> u64) list \<Rightarrow> Watch \<Rightarrow> Event list \<times> Watch" where
  "watch_run interval misses [] w = ([], w)"
| "watch_run interval misses ((now, reading) # rs) w =
     (let (es, w1) = poll now reading interval misses w;
          (fs, w2) = watch_run interval misses rs w1
      in (es @ fs, w2))"

fun is_silent :: "Event \<Rightarrow> bool" where
  "is_silent (Silent _ _) = True"
| "is_silent (Probe _) = False"

text \<open>No two silences in a row, and after an alarm the next event is a probe.\<close>

fun alarms_once :: "bool \<Rightarrow> Event list \<Rightarrow> bool" where
  "alarms_once alarmed [] = True"
| "alarms_once alarmed (e # es) = (\<not> (alarmed \<and> is_silent e) \<and> alarms_once (is_silent e) es)"

lemma watch_alarms_once: "alarms_once (w_alarmed w) (fst (watch_run interval misses rs w))"
proof (induction rs arbitrary: w)
  case (Cons r rs)
  obtain now reading where r: "r = (now, reading)" by (cases r)
  obtain es w1 where p: "poll now reading interval misses w = (es, w1)" by fastforce
  have "es = [] \<and> w_alarmed w1 = w_alarmed w \<or> (\<exists>e. es = [e] \<and> w_alarmed w1 = is_silent e
      \<and> \<not> (w_alarmed w \<and> is_silent e))"
    using p by (auto simp: poll_def Let_def split: if_splits)
  with Cons [of w1] show ?case by (auto simp: r p split: prod.splits)
qed simp

text \<open>A silence of the carrier is reported once: in the event log of any sequence
  of polls, two silent alarms always have a probe between them.\<close>

theorem watch_one_alarm_per_silence:
  "successively (\<lambda>a b. \<not> (is_silent a \<and> is_silent b)) (fst (watch_run interval misses rs (Watch_new now)))"
proof -
  have "alarms_once a es \<Longrightarrow> successively (\<lambda>a b. \<not> (is_silent a \<and> is_silent b)) es" for a es
    by (induction a es rule: alarms_once.induct)
      (auto simp: successively_Cons elim: alarms_once.elims)
  with watch_alarms_once show ?thesis by blast
qed

text \<open>The watch only follows a counter upwards. Once it has remembered a
  count, readings at or below it never produce a probe event and never change the remembered
  count, so the probes that arrive after the firewall is rebuilt and its counter restarts at
  zero go unseen until the new counter passes the old reading.\<close>

theorem watch_ignores_restarted_counter:
  assumes "w_primed w" and "\<forall>r \<in> set rs. snd r \<le> w_count w"
  shows "w_count (snd (watch_run interval misses rs w)) = w_count w
    \<and> (\<forall>e \<in> set (fst (watch_run interval misses rs w)). is_silent e)"
  using assms
proof (induction rs arbitrary: w)
  case (Cons r rs)
  obtain now reading where r: "r = (now, reading)" by (cases r)
  obtain es w1 where p: "poll now reading interval misses w = (es, w1)" by fastforce
  from Cons.prems have "reading \<le> w_count w" by (simp add: r)
  with p Cons.prems(1) have "w_primed w1 \<and> w_count w1 = w_count w \<and> (\<forall>e \<in> set es. is_silent e)"
    by (auto simp: poll_def Let_def split: if_splits)
  with Cons.IH [of w1] Cons.prems show ?case by (auto simp: r p split: prod.splits)
qed simp

theorem watch_ignores_restarted_counter_witness:
  "let w = snd (poll 0 7 20 3 (Watch_new 0))
   in w_count (snd (watch_run 20 3 [(5, 0), (10, 3), (65, 6)] w)) = 7
      \<and> (\<forall>e \<in> set (fst (watch_run 20 3 [(5, 0), (10, 3), (65, 6)] w)). is_silent e)"
proof -
  have h: "w_primed (snd (poll 0 7 20 3 (Watch_new 0)))"
    "\<forall>r \<in> set [(5, 0), (10, 3), (65, 6)]. snd r \<le> w_count (snd (poll 0 7 20 3 (Watch_new 0)))"
    by code_simp+
  show ?thesis
    using watch_ignores_restarted_counter [OF h, of 20 3]
    by (simp add: Let_def poll_def Watch_new_def)
qed

section \<open>The held connection of a TCP slot (\<open>tcpslot.rs\<close>)\<close>

datatype ConnectionState = Live | Dead

definition is_live :: "ConnectionState \<Rightarrow> bool" where
  "is_live c \<longleftrightarrow> c = Live"

definition on_error :: "ConnectionState \<Rightarrow> ConnectionState" where
  "on_error c = (if c = Live then Dead else c)"

definition on_established :: "ConnectionState \<Rightarrow> ConnectionState" where
  "on_established c = Live"

text \<open>
  The loop variables of \<open>run_connection\<close>, whether a stream is held (\<open>conn\<close>), the fold pins
  the task has installed in \<open>nft\<close> and not deleted, and the tuples it has published.
  \<open>c_stuck\<close> records the pins whose deletion failed, a result the code ignores.
\<close>

record Conn =
  c_state :: ConnectionState
  c_held :: bool
  c_last_local :: "u16 option"
  c_server_idx :: nat
  c_vote :: VoteState
  c_pins :: "u16 set"
  c_stuck :: "u16 set"
  c_published :: "tuple4 list"

definition Conn_start :: "VoteState \<Rightarrow> Conn" where
  "Conn_start v = \<lparr>c_state = Dead, c_held = False, c_last_local = None, c_server_idx = 0,
     c_vote = v, c_pins = {}, c_stuck = {}, c_published = []\<rparr>"

text \<open>
  What the kernel and the network answer during one tick: the ephemeral port of the dial
  (\<open>None\<close>: no socket), whether \<open>nft\<close> took the pin and its deletion, and what came back (\<open>None\<close>: an error or the
  timeout).
\<close>

record dial =
  d_port :: "u16 option"
  d_pin_ok :: bool
  d_del_ok :: bool
  d_reply :: "tuple4 option"

definition del_pin :: "bool \<Rightarrow> u16 \<Rightarrow> Conn \<Rightarrow> Conn" where
  "del_pin ok lp s = (if ok then s\<lparr>c_pins := c_pins s - {lp}\<rparr> else s\<lparr>c_stuck := insert lp (c_stuck s)\<rparr>)"

text \<open>Both kinds of dial add a pin and delete it again when the dial is over or has failed.\<close>

definition poke_round :: "dial \<Rightarrow> Conn \<Rightarrow> Conn" where
  "poke_round d s =
     (case d_port d of
        None \<Rightarrow> s
      | Some lp \<Rightarrow>
          if \<not> d_pin_ok d then s
          else del_pin (d_del_ok d) lp (s\<lparr>c_pins := insert lp (c_pins s)\<rparr>))"

definition connection_round :: "dial \<Rightarrow> Conn \<Rightarrow> (tuple4 \<times> u16) option \<times> Conn" where
  "connection_round d s =
     (case d_port d of
        None \<Rightarrow> (None, s)
      | Some lp \<Rightarrow>
          if \<not> d_pin_ok d then (None, s)
          else
            let s1 = s\<lparr>c_pins := insert lp (c_pins s)\<rparr>
            in (case d_reply d of
                  Some t \<Rightarrow> (Some (t, lp), s1)
                | None \<Rightarrow> (None, del_pin (d_del_ok d) lp s1)))"

definition vote_publish :: "tuple4 \<Rightarrow> Conn \<Rightarrow> Conn" where
  "vote_publish t s =
     (let (d, v) = observe (c_server_idx s) t (c_vote s);
          s1 = s\<lparr>c_vote := v\<rparr>
      in case d of Churn u \<Rightarrow> s1\<lparr>c_published := c_published s1 @ [u]\<rparr> | _ \<Rightarrow> s1)"

text \<open>
  One pass of the loop of \<open>run_connection\<close>: the poke, then either the refresh of the held
  connection (\<open>refresh\<close> is the parsed answer) or a new dial on the next server. The remainder
  by the number of servers panics when there is none: \<open>None\<close>.
\<close>

record tick_env =
  t_poke :: "dial option"
  t_refresh :: "tuple4 option"
  t_del_ok :: bool
  t_dial :: dial

definition run_connection :: "nat \<Rightarrow> tick_env \<Rightarrow> Conn \<Rightarrow> Conn option" where
  "run_connection servers env s =
     (let s1 = (case t_poke env of Some d \<Rightarrow> poke_round d s | None \<Rightarrow> s)
      in if is_live (c_state s1) \<and> c_held s1
         then (case t_refresh env of
                 Some t \<Rightarrow> Some (vote_publish t s1)
               | None \<Rightarrow> Some (s1\<lparr>c_state := on_error (c_state s1), c_held := False\<rparr>))
         else
           let s2 = s1\<lparr>c_state := on_error (c_state s1), c_held := False\<rparr>;
               s3 = (case c_last_local s2 of
                       Some lp \<Rightarrow> del_pin (t_del_ok env) lp (s2\<lparr>c_last_local := None\<rparr>)
                     | None \<Rightarrow> s2)
           in if servers = 0 then None
              else
                let s4 = s3\<lparr>c_server_idx := Suc (c_server_idx s3) mod servers\<rparr>
                in (case connection_round (t_dial env) s4 of
                      (Some (t, lp), s5) \<Rightarrow>
                        Some (vote_publish t (s5\<lparr>c_held := True, c_last_local := Some lp,
                                                  c_state := on_established (c_state s5)\<rparr>))
                    | (None, s5) \<Rightarrow> Some s5))"

definition conn_step :: "nat \<Rightarrow> tick_env \<Rightarrow> Conn option \<Rightarrow> Conn option" where
  "conn_step servers env s = Option.bind s (run_connection servers env)"

definition conn_ok :: "nat \<Rightarrow> Conn \<Rightarrow> bool" where
  "conn_ok servers s \<longleftrightarrow>
     c_pins s \<subseteq> set_option (c_last_local s) \<union> c_stuck s
     \<and> (c_state s = Live \<longleftrightarrow> c_held s) \<and> (c_held s \<longrightarrow> c_last_local s \<noteq> None)
     \<and> c_server_idx s < servers"

definition conn_inv :: "nat \<Rightarrow> Conn option \<Rightarrow> bool" where
  "conn_inv servers o' \<longleftrightarrow> (\<exists>s. o' = Some s \<and> conn_ok servers s)"

lemma vote_publish_frame [simp]:
  "c_pins (vote_publish t s) = c_pins s" "c_last_local (vote_publish t s) = c_last_local s"
  "c_state (vote_publish t s) = c_state s" "c_held (vote_publish t s) = c_held s"
  "c_server_idx (vote_publish t s) = c_server_idx s" "c_stuck (vote_publish t s) = c_stuck s"
  by (simp_all add: vote_publish_def Let_def split: prod.splits VoteDecision.splits)

lemma poke_round_frame [simp]:
  "c_last_local (poke_round d s) = c_last_local s" "c_state (poke_round d s) = c_state s"
  "c_held (poke_round d s) = c_held s" "c_server_idx (poke_round d s) = c_server_idx s"
  by (simp_all add: poke_round_def del_pin_def split: option.splits)

lemma poke_round_pins: "c_pins s \<subseteq> A \<union> c_stuck s \<Longrightarrow> c_pins (poke_round d s) \<subseteq> A \<union> c_stuck (poke_round d s)"
  by (auto simp: poke_round_def del_pin_def split: option.splits)

lemma vote_publish_ok [simp]: "conn_ok servers (vote_publish t s) \<longleftrightarrow> conn_ok servers s"
  by (simp add: conn_ok_def)

lemma drop_held_ok: "conn_ok servers s \<Longrightarrow> conn_ok servers (s\<lparr>c_state := on_error (c_state s), c_held := False\<rparr>)"
  by (cases "c_state s") (auto simp: conn_ok_def on_error_def)

lemma forget_pin_ok:
  assumes "conn_ok servers s" and "\<not> c_held s"
  shows "conn_ok servers (case c_last_local s of
      Some lp \<Rightarrow> del_pin ok lp (s\<lparr>c_last_local := None\<rparr>) | None \<Rightarrow> s)"
    and "c_last_local (case c_last_local s of
      Some lp \<Rightarrow> del_pin ok lp (s\<lparr>c_last_local := None\<rparr>) | None \<Rightarrow> s) = None"
    and "\<not> c_held (case c_last_local s of
      Some lp \<Rightarrow> del_pin ok lp (s\<lparr>c_last_local := None\<rparr>) | None \<Rightarrow> s)"
  using assms by (auto simp: conn_ok_def del_pin_def split: option.split)

lemma redial_ok:
  assumes "conn_ok servers s" and "\<not> c_held s" and "c_last_local s = None"
  shows "case connection_round d s of
      (Some (t, lp), s') \<Rightarrow>
        conn_ok servers (s'\<lparr>c_held := True, c_last_local := Some lp, c_state := on_established (c_state s')\<rparr>)
    | (None, s') \<Rightarrow> conn_ok servers s'"
  using assms
  by (auto simp: conn_ok_def connection_round_def del_pin_def on_established_def Let_def
      split: option.split)

lemma run_connection_ok:
  assumes "conn_ok servers s"
  shows "\<exists>s'. run_connection servers env s = Some s' \<and> conn_ok servers s'"
proof -
  define s1 where "s1 = (case t_poke env of Some d \<Rightarrow> poke_round d s | None \<Rightarrow> s)"
  have s1: "conn_ok servers s1"
    using assms by (auto simp: s1_def conn_ok_def poke_round_pins split: option.split)
  show ?thesis
  proof (cases "is_live (c_state s1) \<and> c_held s1")
    case True
    with s1 show ?thesis
      by (simp add: run_connection_def s1_def [symmetric] Let_def drop_held_ok split: option.split)
  next
    case False
    define s2 where "s2 = s1\<lparr>c_state := on_error (c_state s1), c_held := False\<rparr>"
    define s3 where "s3 = (case c_last_local s2 of
        Some lp \<Rightarrow> del_pin (t_del_ok env) lp (s2\<lparr>c_last_local := None\<rparr>) | None \<Rightarrow> s2)"
    define s4 where "s4 = s3\<lparr>c_server_idx := Suc (c_server_idx s3) mod servers\<rparr>"
    have s2: "conn_ok servers s2" "\<not> c_held s2"
      using drop_held_ok [OF s1] by (simp_all add: s2_def)
    note s3 = forget_pin_ok [OF s2, of "t_del_ok env", folded s3_def]
    from s3 have n: "0 < servers" by (auto simp: conn_ok_def)
    with s3 have s4: "conn_ok servers s4" "\<not> c_held s4" "c_last_local s4 = None"
      by (simp_all add: s4_def conn_ok_def)
    have "run_connection servers env s =
        (case connection_round (t_dial env) s4 of
           (Some (t, lp), s5) \<Rightarrow>
             Some (vote_publish t (s5\<lparr>c_held := True, c_last_local := Some lp,
                                       c_state := on_established (c_state s5)\<rparr>))
         | (None, s5) \<Rightarrow> Some s5)"
      unfolding run_connection_def s1_def [symmetric] Let_def s2_def [symmetric]
        s3_def [symmetric] s4_def [symmetric]
      using False n by (simp only: if_False neq0_conv [symmetric])
    with redial_ok [OF s4, of "t_dial env"] show ?thesis
      by (auto split: prod.splits option.splits)
  qed
qed

interpretation conn: machine "conn_step servers" "conn_inv servers"
  by unfold_locales (use run_connection_ok in \<open>fastforce simp: conn_inv_def conn_step_def\<close>)

text \<open>The task of a TCP slot leaks no fold pin. After any sequence of ticks,
  whatever sockets, pins and answers fail, a pin left in the kernel is the one of the last
  connection dialled or one whose deletion the kernel itself refused, the connection is held exactly in the live state, a held
  connection has its pin recorded, and the server index is in range.\<close>

theorem connection_leaks_no_pin:
  assumes "0 < servers"
  shows "\<exists>s. fold (conn_step servers) envs (Some (Conn_start v)) = Some s
    \<and> c_pins s \<subseteq> set_option (c_last_local s) \<union> c_stuck s \<and> (c_state s = Live \<longleftrightarrow> c_held s)
    \<and> (c_held s \<longrightarrow> c_last_local s \<noteq> None) \<and> c_server_idx s < servers"
proof -
  have "conn_inv servers (fold (conn_step servers) envs (Some (Conn_start v)))"
    by (rule conn.run_inv) (simp add: conn_inv_def conn_ok_def Conn_start_def assms)
  then show ?thesis unfolding conn_inv_def conn_ok_def by blast
qed

theorem connection_leaks_no_pin_witness:
  "\<exists>s. fold (conn_step 2)
      [\<lparr>t_poke = Some \<lparr>d_port = Some 9, d_pin_ok = True, d_del_ok = True, d_reply = None\<rparr>, t_refresh = None, t_del_ok = True,
        t_dial = \<lparr>d_port = Some 40000, d_pin_ok = True, d_del_ok = True, d_reply = Some (7, 7)\<rparr>\<rparr>,
       \<lparr>t_poke = None, t_refresh = None, t_del_ok = True,
        t_dial = \<lparr>d_port = None, d_pin_ok = False, d_del_ok = False, d_reply = None\<rparr>\<rparr>]
      (Some (Conn_start VoteState_new)) = Some s
    \<and> c_pins s \<subseteq> set_option (c_last_local s) \<union> c_stuck s \<and> (c_state s = Live \<longleftrightarrow> c_held s)
    \<and> (c_held s \<longrightarrow> c_last_local s \<noteq> None) \<and> c_server_idx s < 2"
  by (rule connection_leaks_no_pin) simp

end
