(* ===== verification/Bytes.thy ===== *)
theory Bytes
  imports Prelude
begin

text \<open>
  \<open>to_be_bytes\<close> and \<open>from_be_bytes\<close> of the standard library at every width, with both
  round trips proved once for all widths by looking at single bits, and the locale
  \<open>wire_codec\<close> of a fixed-width field of a packet, interpreted at the three widths the
  protocols use.
\<close>

definition to_be :: "'a::len word \<Rightarrow> u8 list" where
  "to_be w = map (\<lambda>k. ucast (drop_bit (8 * k) w)) (rev [0..<LENGTH('a) div 8])"

definition from_be :: "u8 list \<Rightarrow> 'a::len word" where
  "from_be bs = foldl (\<lambda>v b. push_bit 8 v OR ucast b) 0 bs"

lemma length_to_be [simp]: "length (to_be (w::'a::len word)) = LENGTH('a) div 8"
  by (simp add: to_be_def)

lemma from_be_snoc: "from_be (bs @ [b]) = push_bit 8 (from_be bs) OR ucast b"
  by (simp add: from_be_def)

lemma u8_bit_beyond: "8 \<le> n \<Longrightarrow> \<not> bit (b::u8) n"
  using bit_imp_le_length [of b n] by auto

lemma bit_from_be:
  "bit (from_be bs :: 'a::len word) n \<longleftrightarrow>
     n < LENGTH('a) \<and> n div 8 < length bs \<and> bit (rev bs ! (n div 8)) (n mod 8)"
proof (induction bs arbitrary: n rule: rev_induct)
  case Nil
  then show ?case by (simp add: from_be_def)
next
  case (snoc b bs)
  show ?case
  proof (cases "n < 8")
    case True
    then show ?thesis
      by (auto simp: from_be_snoc bit_simps dest: bit_imp_le_length)
  next
    case False
    then obtain m where m: "n = 8 + m" by (metis le_Suc_ex not_less)
    have "(8 + m) div 8 = Suc (m div 8)" by simp
    then show ?thesis
      using m u8_bit_beyond [of n b] snoc.IH [of m]
      by (auto simp: from_be_snoc bit_simps dest: bit_imp_le_length)
  qed
qed

lemma from_to_be:
  assumes "8 dvd LENGTH('a)"
  shows "from_be (to_be (w::'a::len word)) = w"
proof (rule bit_eqI)
  fix n assume "possible_bit TYPE('a word) n"
  then have n: "n < LENGTH('a)" by simp
  with assms have k: "n div 8 < LENGTH('a) div 8"
    by (auto elim!: dvdE simp: less_mult_imp_div_less mult.commute)
  have "rev (to_be w) ! (n div 8) = (ucast (drop_bit (8 * (n div 8)) w) :: u8)"
    using k by (simp add: to_be_def rev_map)
  moreover have "bit \<dots> (n mod 8) \<longleftrightarrow> bit w n"
    using n by (simp add: bit_simps)
  ultimately show "bit (from_be (to_be w) :: 'a word) n \<longleftrightarrow> bit w n"
    using n k by (simp add: bit_from_be)
qed

lemma to_from_be:
  assumes "8 * length bs = LENGTH('a)"
  shows "to_be (from_be bs :: 'a::len word) = bs"
proof (rule nth_equalityI)
  have len: "LENGTH('a) div 8 = length bs" using assms by linarith
  then show "length (to_be (from_be bs :: 'a word)) = length bs" by simp
  fix i assume "i < length (to_be (from_be bs :: 'a word))"
  with len have i: "i < length bs" by simp
  let ?k = "length bs - Suc i"
  have nth: "to_be (from_be bs :: 'a word) ! i = ucast (drop_bit (8 * ?k) (from_be bs :: 'a word))"
    using i len by (simp add: to_be_def rev_nth)
  show "to_be (from_be bs :: 'a word) ! i = bs ! i"
    unfolding nth
  proof (rule bit_eqI)
    fix n assume "possible_bit TYPE(u8) n"
    then have n: "n < 8" by simp
    have "(8 * ?k + n) div 8 = ?k" and "(8 * ?k + n) mod 8 = n" using n by simp_all
    moreover have "8 * ?k + n < LENGTH('a)" using i n assms by linarith
    moreover have "rev bs ! ?k = bs ! i" and "?k < length bs"
      using i by (simp_all add: rev_nth)
    ultimately show "bit (ucast (drop_bit (8 * ?k) (from_be bs :: 'a word)) :: u8) n \<longleftrightarrow> bit (bs ! i) n"
      using i n by (simp add: bit_simps bit_from_be)
  qed
qed

section \<open>Fields of a packet\<close>

text \<open>
  A field at offset \<open>i\<close> of a packet is a slice of fixed width. A decoder that reads a
  field where the encoder put it gets the field's value back.
\<close>

definition slice :: "nat \<Rightarrow> nat \<Rightarrow> 'a list \<Rightarrow> 'a list" where
  "slice i j xs = take (j - i) (drop i xs)"

lemma length_slice: "j \<le> length xs \<Longrightarrow> length (slice i j xs) = j - i"
  by (simp add: slice_def)

lemma slice_append_left: "j \<le> length xs \<Longrightarrow> slice i j (xs @ ys) = slice i j xs"
  by (simp add: slice_def)

lemma slice_append_right:
  "length xs \<le> i \<Longrightarrow> slice i j (xs @ ys) = slice (i - length xs) (j - length xs) ys"
  by (simp add: slice_def)

lemma slice_all: "slice 0 (length xs) xs = xs"
  by (simp add: slice_def)

locale wire_codec =
  fixes enc :: "'v \<Rightarrow> u8 list"
    and dec :: "u8 list \<Rightarrow> 'v"
    and width :: nat
  assumes enc_width: "length (enc v) = width"
    and dec_enc: "dec (enc v) = v"
    and enc_dec: "length bs = width \<Longrightarrow> enc (dec bs) = bs"
begin

lemma enc_inj: "enc v = enc w \<longleftrightarrow> v = w"
  by (metis dec_enc)

lemma field_back:
  "length pre = i \<Longrightarrow> j = i + width \<Longrightarrow> dec (slice i j (pre @ enc v @ post)) = v"
  by (simp add: slice_def enc_width dec_enc)

end

interpretation w16: wire_codec "to_be :: u16 \<Rightarrow> u8 list" from_be 2
  by unfold_locales (simp_all add: from_to_be to_from_be)

interpretation w32: wire_codec "to_be :: u32 \<Rightarrow> u8 list" from_be 4
  by unfold_locales (simp_all add: from_to_be to_from_be)

interpretation w64: wire_codec "to_be :: u64 \<Rightarrow> u8 list" from_be 8
  by unfold_locales (simp_all add: from_to_be to_from_be)

text \<open>The octets of an address (\<open>Ipv4Addr::octets\<close>, \<open>Ipv4Addr::from\<close>).\<close>

definition octets :: "ipv4 \<Rightarrow> u8 list" where
  "octets a = to_be a"

definition ipv4_of :: "u8 \<Rightarrow> u8 \<Rightarrow> u8 \<Rightarrow> u8 \<Rightarrow> ipv4" where
  "ipv4_of a b c d = from_be [a, b, c, d]"

lemma octets_ipv4_of: "octets (ipv4_of a b c d) = [a, b, c, d]"
  by (simp add: octets_def ipv4_of_def w32.enc_dec)

lemma ipv4_of_octets: "octets x = [a, b, c, d] \<Longrightarrow> ipv4_of a b c d = x"
  by (metis octets_def ipv4_of_def w32.dec_enc)

lemma octets_cases: obtains a b c d where "octets x = [a, b, c, d]"
proof -
  have "length (octets x) = 4" by (simp add: octets_def)
  then show ?thesis using that
    by (auto simp: length_Suc_conv numeral_eq_Suc)
qed

end
