(* ===== verification/Stun.thy ===== *)
theory Stun
  imports Bytes
begin

text \<open>
  The STUN codec (\<open>src/src/stun.rs\<close>): the Binding Request, the walk over the attributes of a
  Binding Success Response, and the response builder of the source. The packet is a byte list;
  an address is read from its four octets.
\<close>

definition MAGIC :: u32 where "MAGIC = 0x2112A442"
definition BINDING_REQUEST :: u16 where "BINDING_REQUEST = 0x0001"
definition BINDING_SUCCESS_RESPONSE :: u16 where "BINDING_SUCCESS_RESPONSE = 0x0101"
definition ATTR_MAPPED :: u16 where "ATTR_MAPPED = 0x0001"
definition ATTR_XOR_MAPPED :: u16 where "ATTR_XOR_MAPPED = 0x0020"
definition FAMILY_V4 :: u8 where "FAMILY_V4 = 0x01"

definition binding_request :: "u8 list \<Rightarrow> u8 list" where
  "binding_request txn = to_be BINDING_REQUEST @ to_be (0::u16) @ to_be MAGIC @ txn"

text \<open>The linear congruential generator of \<open>random_txn\<close>, from the clock reading \<open>seed\<close>.\<close>

definition lcg :: "u64 \<Rightarrow> u64" where
  "lcg x = x * 6364136223846793005 + 1442695040888963407"

primrec txn_bytes :: "nat \<Rightarrow> u64 \<Rightarrow> u8 list" where
  "txn_bytes 0 x = []"
| "txn_bytes (Suc n) x = ucast (drop_bit 33 (lcg x)) # txn_bytes n (lcg x)"

definition random_txn :: "u64 \<Rightarrow> u8 list" where
  "random_txn seed = txn_bytes 12 (seed OR 1)"

text \<open>\<open>u16::from_be_bytes\<close> at an offset, and the four octets at an offset.\<close>

definition be16 :: "u8 list \<Rightarrow> nat \<Rightarrow> u16" where
  "be16 b i = from_be (slice i (i + 2) b)"

definition be32 :: "u8 list \<Rightarrow> nat \<Rightarrow> u32" where
  "be32 b i = from_be (slice i (i + 4) b)"

text \<open>The value of one attribute, when it is a mapped address of the right family.\<close>

definition mapped_value :: "u16 \<Rightarrow> u8 list \<Rightarrow> tuple4 option" where
  "mapped_value atype val =
     (if (atype = ATTR_XOR_MAPPED \<or> atype = ATTR_MAPPED) \<and> 8 \<le> length val \<and> val ! 1 = FAMILY_V4
      then
        let port = be16 val 2;
            ip = slice 4 8 val
        in if atype = ATTR_XOR_MAPPED
           then Some (from_be (map2 (XOR) ip (to_be MAGIC)), port XOR ucast (drop_bit 16 MAGIC))
           else Some (from_be ip, port)
      else None)"

text \<open>The attribute loop: values are padded to four bytes.\<close>

function mapped_from :: "u8 list \<Rightarrow> nat \<Rightarrow> tuple4 option" where
  "mapped_from attrs i =
     (if i + 4 \<le> length attrs
      then
        let atype = be16 attrs i;
            alen = unat (be16 attrs (i + 2));
            vstart = i + 4;
            vend = min (vstart + alen) (length attrs)
        in (case mapped_value atype (slice vstart vend attrs) of
              Some t \<Rightarrow> Some t
            | None \<Rightarrow> mapped_from attrs (i + (4 + (alen + 3) div 4 * 4)))
      else None)"
  by pat_completeness auto
termination by (relation "measure (\<lambda>(attrs, i). length attrs - i)") auto

declare mapped_from.simps [simp del]

definition parse_mapped :: "u8 list \<Rightarrow> tuple4 option" where
  "parse_mapped resp =
     (if length resp < 20 then None
      else if be16 resp 0 \<noteq> BINDING_SUCCESS_RESPONSE then None
      else if be32 resp 4 \<noteq> MAGIC then None
      else mapped_from (slice 20 (min (20 + unat (be16 resp 2)) (length resp)) resp) 0)"

definition build_mapped_response :: "bool \<Rightarrow> u8 list \<Rightarrow> u16 \<Rightarrow> u8 list" where
  "build_mapped_response xored ip port =
     (let attr_type = (if xored then ATTR_XOR_MAPPED else ATTR_MAPPED);
          (eport, eip) = (if xored then (port XOR ucast (drop_bit 16 MAGIC), map2 (XOR) ip (to_be MAGIC))
                          else (port, ip))
      in to_be BINDING_SUCCESS_RESPONSE @ to_be (12::u16) @ to_be MAGIC @ replicate 12 0
         @ to_be attr_type @ to_be (8::u16) @ [0x00, FAMILY_V4] @ to_be eport @ eip)"

section \<open>Reading back what was written\<close>

lemma be16_field: "length pre = i \<Longrightarrow> be16 (pre @ to_be w @ post) i = w"
  unfolding be16_def by (rule w16.field_back) simp_all

lemma be16_head [simp]: "be16 (to_be w @ post) 0 = w"
  using be16_field [of "[]" 0 w post] by simp

lemma be32_field: "length pre = i \<Longrightarrow> be32 (pre @ to_be w @ post) i = w"
  unfolding be32_def by (rule w32.field_back) simp_all

lemma xor_octets_back:
  "length ip = length k \<Longrightarrow> map2 (XOR) (map2 (XOR) ip k) k = (ip :: 'a::len word list)"
  by (induction ip k rule: list_induct2) (simp_all add: xor.assoc)

text \<open>One attribute on the wire, padded to a multiple of four.\<close>

definition attribute :: "u16 \<Rightarrow> u8 list \<Rightarrow> u8 list" where
  "attribute ty val = to_be ty @ to_be (of_nat (length val) :: u16) @ val
     @ replicate ((length val + 3) div 4 * 4 - length val) 0"

lemma length_attribute: "length (attribute ty val) = 4 + (length val + 3) div 4 * 4"
proof -
  have "length val \<le> (length val + 3) div 4 * 4" by presburger
  then show ?thesis by (simp add: attribute_def)
qed

lemma attr_at:
  assumes "length val < 65536"
  shows "mapped_from (pre @ attribute ty val @ post) (length pre) =
    (case mapped_value ty val of Some t \<Rightarrow> Some t
     | None \<Rightarrow> mapped_from (pre @ attribute ty val @ post) (length (pre @ attribute ty val)))"
proof -
  let ?pad = "replicate ((length val + 3) div 4 * 4 - length val) (0::u8)"
  let ?a = "pre @ attribute ty val @ post"
  have split: "?a = pre @ to_be ty @ (to_be (of_nat (length val) :: u16) @ val @ ?pad @ post)"
    "?a = (pre @ to_be ty) @ to_be (of_nat (length val) :: u16) @ (val @ ?pad @ post)"
    "?a = (pre @ to_be ty @ to_be (of_nat (length val) :: u16)) @ val @ (?pad @ post)"
    by (simp_all add: attribute_def)
  have n: "unat (of_nat (length val) :: u16) = length val"
    using assms by (simp add: unat_of_nat)
  have ty: "be16 ?a (length pre) = ty"
    unfolding split(1) by (rule be16_field) simp
  have len: "be16 ?a (length pre + 2) = of_nat (length val)"
    unfolding split(2) by (rule be16_field) simp
  have fits: "length pre + 4 + length val \<le> length ?a" unfolding split(3) by simp
  have val: "slice (length pre + 4) (length pre + 4 + length val) ?a = val"
    unfolding split(3) slice_def by simp
  from fits have "length pre + 4 \<le> length ?a" by linarith
  then show ?thesis
    using fits
    by (subst mapped_from.simps)
      (simp only: if_True Let_def ty len n min_absorb1 val length_append length_attribute)
qed

lemma attrs_skipped:
  assumes "\<forall>(ty, val) \<in> set skipped. length val < 65536 \<and> mapped_value ty val = None"
  shows "mapped_from (pre @ concat (map (\<lambda>(ty, val). attribute ty val) skipped) @ post) (length pre) =
    mapped_from (pre @ concat (map (\<lambda>(ty, val). attribute ty val) skipped) @ post)
      (length (pre @ concat (map (\<lambda>(ty, val). attribute ty val) skipped)))"
  using assms
proof (induction skipped arbitrary: pre)
  case (Cons a skipped)
  obtain ty val where a: "a = (ty, val)" by (cases a)
  with Cons.prems attr_at [of val pre ty "concat (map (\<lambda>(ty, val). attribute ty val) skipped) @ post"]
    Cons.IH [of "pre @ attribute ty val"]
  show ?case by simp
qed simp

lemma mapped_value_back:
  assumes "length ip = 4"
  shows "mapped_value (if xored then ATTR_XOR_MAPPED else ATTR_MAPPED)
    ([r, FAMILY_V4] @ to_be (if xored then port XOR ucast (drop_bit 16 MAGIC) else port)
       @ (if xored then map2 (XOR) ip (to_be MAGIC) else ip)) = Some (from_be ip, port)"
proof -
  have be: "be16 ([r, FAMILY_V4] @ to_be p @ x) 2 = p" for p x
    by (rule be16_field) simp
  have sl: "slice 4 8 ([r, FAMILY_V4] @ to_be (p::u16) @ x) = x" if "length x = 4" for p x
    using that by (simp add: slice_def)
  have "ATTR_XOR_MAPPED \<noteq> ATTR_MAPPED" by (simp add: ATTR_XOR_MAPPED_def ATTR_MAPPED_def)
  then show ?thesis
    using assms be sl
    by (cases xored)
      (simp_all add: mapped_value_def Let_def xor_octets_back xor.assoc del: append_Cons append_Nil,
       simp_all)
qed

lemma parse_mapped_response:
  assumes "length ip = 4" and "length txn = 12"
    and "\<forall>(ty, val) \<in> set skipped. length val < 65536 \<and> mapped_value ty val = None"
    and "attrs = concat (map (\<lambda>(ty, val). attribute ty val) skipped)
       @ attribute (if xored then ATTR_XOR_MAPPED else ATTR_MAPPED)
           ([0, FAMILY_V4] @ to_be (if xored then port XOR ucast (drop_bit 16 MAGIC) else port)
             @ (if xored then map2 (XOR) ip (to_be MAGIC) else ip)) @ rest"
    and "length attrs < 65536"
  shows "parse_mapped (to_be BINDING_SUCCESS_RESPONSE @ to_be (of_nat (length attrs) :: u16)
      @ to_be MAGIC @ txn @ attrs) = Some (from_be ip, port)"
proof -
  let ?h = "to_be BINDING_SUCCESS_RESPONSE @ to_be (of_nat (length attrs) :: u16)
      @ to_be MAGIC @ txn @ attrs"
  have len: "be16 ?h 2 = of_nat (length attrs)"
    using be16_field [of "to_be BINDING_SUCCESS_RESPONSE" 2] by simp
  have n: "unat (of_nat (length attrs) :: u16) = length attrs"
    using assms(5) by (simp add: unat_of_nat)
  have magic: "be32 ?h 4 = MAGIC"
    using be32_field [of "to_be BINDING_SUCCESS_RESPONSE @ to_be (of_nat (length attrs) :: u16)" 4]
    by simp
  have body: "slice 20 (20 + length attrs) ?h = attrs"
    using assms(2) by (simp add: slice_def)
  have "length ?h = 20 + length attrs" using assms(2) by simp
  then have "parse_mapped ?h = mapped_from attrs 0"
    unfolding parse_mapped_def by (simp only: magic len n be16_head min.idem body) simp
  also have "\<dots> = Some (from_be ip, port)"
    using attrs_skipped [OF assms(3), of "[]"] assms(1) mapped_value_back [of ip xored 0 port]
    unfolding assms(4) by (simp add: attr_at)
  finally show ?thesis .
qed

text \<open>The builder of the source is such a response.\<close>

lemma parse_build_mapped:
  assumes "length ip = 4"
  shows "parse_mapped (build_mapped_response xored ip port) = Some (from_be ip, port)"
proof -
  let ?v = "[0, FAMILY_V4] @ to_be (if xored then port XOR ucast (drop_bit 16 MAGIC) else port)
             @ (if xored then map2 (XOR) ip (to_be MAGIC) else ip)"
  let ?a = "attribute (if xored then ATTR_XOR_MAPPED else ATTR_MAPPED) ?v"
  have v: "length ?v = 8" using assms by simp
  then have a: "?a = to_be (if xored then ATTR_XOR_MAPPED else ATTR_MAPPED) @ to_be (8::u16) @ ?v"
    by (simp add: attribute_def)
  from v have l: "length ?a = 12" by (simp add: length_attribute)
  have "build_mapped_response xored ip port = to_be BINDING_SUCCESS_RESPONSE
      @ to_be (of_nat (length ?a) :: u16) @ to_be MAGIC @ replicate 12 0 @ ?a"
    unfolding l unfolding a by (simp add: build_mapped_response_def)
  then show ?thesis
    using parse_mapped_response [of ip "replicate 12 0" "[]" ?a xored port "[]"] assms l by simp
qed

section \<open>Properties\<close>

text \<open>C35 (roundtrip): a success response carries the reflexive tuple to the reader: whatever
  the transaction id and however many attributes the reader does not know stand before it, each
  padded to four bytes, the parser returns the address and port that the server put into its
  MAPPED-ADDRESS or XOR-MAPPED-ADDRESS, whatever follows.\<close>

theorem parse_mapped_back:
  assumes "length ip = 4" and "length txn = 12"
    and "\<forall>(ty, val) \<in> set skipped. length val < 65536 \<and> mapped_value ty val = None"
    and "attrs = concat (map (\<lambda>(ty, val). attribute ty val) skipped)
       @ attribute (if xored then ATTR_XOR_MAPPED else ATTR_MAPPED)
           ([0, FAMILY_V4] @ to_be (if xored then port XOR ucast (drop_bit 16 MAGIC) else port)
             @ (if xored then map2 (XOR) ip (to_be MAGIC) else ip)) @ rest"
    and "length attrs < 65536"
  shows "parse_mapped (to_be BINDING_SUCCESS_RESPONSE @ to_be (of_nat (length attrs) :: u16)
      @ to_be MAGIC @ txn @ attrs) = Some (from_be ip, port)"
  using assms by (rule parse_mapped_response)

theorem parse_mapped_back_witness:
  "parse_mapped (to_be BINDING_SUCCESS_RESPONSE @ to_be (of_nat 20 :: u16) @ to_be MAGIC
      @ replicate 12 7 @ (attribute 0x8022 [1, 2, 3] @ attribute ATTR_MAPPED
        ([0, FAMILY_V4] @ to_be (4096::u16) @ [203, 0, 113, 5])))
    = Some (from_be [203, 0, 113, 5], 4096)"
  using parse_mapped_back [of "[203, 0, 113, 5]" "replicate 12 7" "[(0x8022, [1, 2, 3])]"
      "attribute 0x8022 [1, 2, 3] @ attribute ATTR_MAPPED
        ([0, FAMILY_V4] @ to_be (4096::u16) @ [203, 0, 113, 5])" False 4096 "[]"]
  by (simp add: mapped_value_def ATTR_MAPPED_def ATTR_XOR_MAPPED_def length_attribute)

end
