(* ===== verification/Text.thy ===== *)
theory Text
  imports Bytes
begin

text \<open>
  The operations of Rust's \<open>str\<close> that the parsers and printers of the daemon use, on
  \<open>string\<close> (a list of bytes; every text the code reads or writes here is ASCII, so a
  \<open>char\<close> of Rust is one byte), decimal numbers and dotted-quad addresses as \<open>FromStr\<close> and
  \<open>Display\<close> define them, with the laws that printing and parsing are inverse. The locale
  \<open>row_format\<close> is the interface of the three line-oriented state files.
\<close>

section \<open>Splitting and trimming\<close>

definition is_ws :: "char \<Rightarrow> bool" where
  "is_ws c \<longleftrightarrow> c \<in> set [CHR 0x20, CHR 0x09, CHR 0x0A, CHR 0x0B, CHR 0x0C, CHR 0x0D]"

definition trim_start :: "string \<Rightarrow> string" where
  "trim_start s = dropWhile is_ws s"

definition trim_end :: "string \<Rightarrow> string" where
  "trim_end s = rev (dropWhile is_ws (rev s))"

definition trim :: "string \<Rightarrow> string" where
  "trim s = trim_end (trim_start s)"

text \<open>\<open>split(c)\<close>: always at least one piece.\<close>

fun split_on :: "char \<Rightarrow> string \<Rightarrow> string list" where
  "split_on c [] = [[]]"
| "split_on c (x # xs) =
     (if x = c then [] # split_on c xs
      else (case split_on c xs of [] \<Rightarrow> [[x]] | p # ps \<Rightarrow> (x # p) # ps))"

definition nl :: char where "nl = CHR 0x0A"
definition cr :: char where "cr = CHR 0x0D"
definition tab :: char where "tab = CHR 0x09"

definition strip_cr :: "string \<Rightarrow> string" where
  "strip_cr s = (if s \<noteq> [] \<and> last s = cr then butlast s else s)"

text \<open>\<open>lines()\<close>: the newline ends a line, a \<open>\r\<close> before it goes with it, and a final line
  without a newline is a line when it is not empty.\<close>

definition lines :: "string \<Rightarrow> string list" where
  "lines s = (let ps = split_on nl s
              in map strip_cr (butlast ps) @ (if last ps = [] then [] else [last ps]))"

text \<open>\<open>split_whitespace()\<close>.\<close>

function split_ws :: "string \<Rightarrow> string list" where
  "split_ws s =
     (let t = dropWhile is_ws s
      in if t = [] then []
         else takeWhile (\<lambda>c. \<not> is_ws c) t # split_ws (dropWhile (\<lambda>c. \<not> is_ws c) t))"
  by pat_completeness auto
termination
proof (relation "measure length", goal_cases)
  case (2 s t)
  then obtain c cs where t: "t = c # cs" by (metis list.exhaust)
  with 2 have "\<not> is_ws c" by (metis hd_dropWhile list.sel(1) list.simps(3))
  with t have "length (dropWhile (\<lambda>c. \<not> is_ws c) t) \<le> length cs"
    by (simp add: length_dropWhile_le)
  also have "\<dots> < length t" using t by simp
  also have "\<dots> \<le> length s" using 2 by (simp add: length_dropWhile_le)
  finally show ?case by simp
qed simp

declare split_ws.simps [simp del]

text \<open>\<open>split_once(c)\<close>: at the first occurrence.\<close>

fun split_once :: "char \<Rightarrow> string \<Rightarrow> (string \<times> string) option" where
  "split_once c [] = None"
| "split_once c (x # xs) =
     (if x = c then Some ([], xs) else map_option (\<lambda>(a, b). (x # a, b)) (split_once c xs))"

definition starts_with :: "string \<Rightarrow> string \<Rightarrow> bool" where
  "starts_with s p \<longleftrightarrow> take (length p) s = p"

fun str_contains :: "string \<Rightarrow> string \<Rightarrow> bool" where
  "str_contains [] p = (p = [])"
| "str_contains (x # xs) p = (starts_with (x # xs) p \<or> str_contains xs p)"

fun join :: "string \<Rightarrow> string list \<Rightarrow> string" where
  "join sep [] = []"
| "join sep [x] = x"
| "join sep (x # y # xs) = x @ sep @ join sep (y # xs)"

section \<open>Decimal numbers\<close>

definition is_digit :: "char \<Rightarrow> bool" where
  "is_digit c \<longleftrightarrow> c \<in> set ''0123456789''"

definition digit_val :: "char \<Rightarrow> nat" where
  "digit_val c = of_char c - 48"

definition digit_char :: "nat \<Rightarrow> char" where
  "digit_char d = ''0123456789'' ! d"

text \<open>\<open>Display\<close> of an unsigned integer.\<close>

fun show_nat :: "nat \<Rightarrow> string" where
  "show_nat n = (if n < 10 then [digit_char n] else show_nat (n div 10) @ [digit_char (n mod 10)])"

declare show_nat.simps [simp del]

definition digits_val :: "string \<Rightarrow> nat" where
  "digits_val s = foldl (\<lambda>v c. 10 * v + digit_val c) 0 s"

text \<open>
  \<open>str::parse\<close> into an unsigned integer type whose largest value is \<open>m\<close>: one leading
  plus sign is allowed, then digits only, at least one, and no overflow.
\<close>

definition parse_uint :: "nat \<Rightarrow> string \<Rightarrow> nat option" where
  "parse_uint m s =
     (let ds = (case s of c # cs \<Rightarrow> if c = CHR ''+'' then cs else s | [] \<Rightarrow> [])
      in if ds \<noteq> [] \<and> list_all is_digit ds \<and> digits_val ds \<le> m then Some (digits_val ds)
         else None)"

definition parse_word :: "string \<Rightarrow> 'a::len word option" where
  "parse_word s = map_option of_nat (parse_uint (2 ^ LENGTH('a) - 1) s)"

definition show_word :: "'a::len word \<Rightarrow> string" where
  "show_word w = show_nat (unat w)"

section \<open>Dotted-quad addresses\<close>

definition show_ipv4 :: "ipv4 \<Rightarrow> string" where
  "show_ipv4 a = join ''.'' (map show_word (octets a))"

text \<open>An octet of \<open>Ipv4Addr::from_str\<close>: one to three digits, no leading zero, at most 255.\<close>

definition parse_octet :: "string \<Rightarrow> u8 option" where
  "parse_octet s =
     (if s \<noteq> [] \<and> length s \<le> 3 \<and> list_all is_digit s \<and> (hd s = CHR ''0'' \<longrightarrow> length s = 1)
         \<and> digits_val s \<le> 255
      then Some (of_nat (digits_val s)) else None)"

definition parse_ipv4 :: "string \<Rightarrow> ipv4 option" where
  "parse_ipv4 s = (case map parse_octet (split_on CHR ''.'' s) of
       [Some a, Some b, Some c, Some d] \<Rightarrow> Some (ipv4_of a b c d)
     | _ \<Rightarrow> None)"

section \<open>Joining and splitting are inverse\<close>

lemma split_on_ne [simp]: "split_on c s \<noteq> []"
  by (induction s) (auto split: list.splits)

lemma split_on_plain: "c \<notin> set s \<Longrightarrow> split_on c s = [s]"
  by (induction s) auto

lemma split_on_append: "c \<notin> set s \<Longrightarrow> split_on c (s @ c # t) = s # split_on c t"
  by (induction s) auto

lemma split_on_join:
  "ps \<noteq> [] \<Longrightarrow> \<forall>p \<in> set ps. c \<notin> set p \<Longrightarrow> split_on c (join [c] ps) = ps"
  by (induction "[c]" ps rule: join.induct) (auto simp: split_on_plain split_on_append)

lemma set_join: "set (join sep ps) \<subseteq> set sep \<union> \<Union> (set ` set ps)"
  by (induction sep ps rule: join.induct) auto

lemma split_on_concat:
  "\<forall>r \<in> set rs. c \<notin> set r \<Longrightarrow> split_on c (concat (map (\<lambda>r. r @ [c]) rs)) = rs @ [[]]"
  by (induction rs) (auto simp: split_on_append)

lemma lines_concat:
  assumes "\<forall>r \<in> set rs. nl \<notin> set r \<and> cr \<notin> set r"
  shows "lines (concat (map (\<lambda>r. r @ [nl]) rs)) = rs"
proof -
  have "strip_cr r = r" if "r \<in> set rs" for r
    using assms that last_in_set [of r] by (metis strip_cr_def)
  then have "map strip_cr rs = rs" by (simp add: map_idI)
  with assms show ?thesis by (simp add: lines_def split_on_concat Let_def)
qed

lemma split_once_append: "c \<notin> set a \<Longrightarrow> split_once c (a @ c # b) = Some (a, b)"
  by (induction a) auto

lemma split_once_None_iff: "split_once c s = None \<longleftrightarrow> c \<notin> set s"
  by (induction s) auto

lemma trim_plain:
  assumes "\<forall>c \<in> set s. \<not> is_ws c"
  shows "trim s = s"
proof -
  have keep: "dropWhile is_ws t = t" if "set t = set s" for t
    using assms that by (auto simp: dropWhile_eq_self_iff dest: hd_in_set)
  have "dropWhile is_ws s = s" and "dropWhile is_ws (rev s) = rev s"
    by (simp_all add: keep)
  then show ?thesis by (simp add: trim_def trim_start_def trim_end_def)
qed

section \<open>Printing a number and reading it back\<close>

lemma digit_cases: "d < 10 \<Longrightarrow> P 0 \<Longrightarrow> P 1 \<Longrightarrow> P 2 \<Longrightarrow> P 3 \<Longrightarrow> P 4 \<Longrightarrow> P 5 \<Longrightarrow> P 6 \<Longrightarrow> P 7 \<Longrightarrow> P 8 \<Longrightarrow>
    P 9 \<Longrightarrow> P (d::nat)"
  by (auto simp: less_Suc_eq numeral_eq_Suc)

lemma digit_char_props:
  assumes "d < 10"
  shows "is_digit (digit_char d) \<and> digit_val (digit_char d) = d
    \<and> (digit_char d = CHR ''0'' \<longrightarrow> d = 0)"
  by (rule digit_cases [OF assms]) (simp_all add: is_digit_def digit_char_def digit_val_def)

lemma show_nat_digits: "list_all is_digit (show_nat n)"
proof (induction n rule: show_nat.induct)
  case (1 n)
  then show ?case
    by (simp add: show_nat.simps [of n] digit_char_props)
qed

lemma show_nat_ne [simp]: "show_nat n \<noteq> []"
  by (simp add: show_nat.simps [of n])

lemma digits_val_snoc: "digits_val (s @ [c]) = 10 * digits_val s + digit_val c"
  by (simp add: digits_val_def)

lemma digits_val_show_nat: "digits_val (show_nat n) = n"
proof (induction n rule: show_nat.induct)
  case (1 n)
  show ?case
  proof (cases "n < 10")
    case True
    then show ?thesis
      by (simp add: show_nat.simps [of n] digits_val_def digit_char_props)
  next
    case False
    with 1 show ?thesis
      by (simp add: show_nat.simps [of n] digits_val_snoc digit_char_props)
  qed
qed

lemma show_nat_hd_zero: "hd (show_nat n) = CHR ''0'' \<Longrightarrow> n = 0"
proof (induction n rule: show_nat.induct)
  case (1 n)
  show ?case
  proof (cases "n < 10")
    case True
    with 1 show ?thesis using digit_char_props [of n] by (simp add: show_nat.simps [of n])
  next
    case False
    with 1 have "n div 10 = 0" by (simp add: show_nat.simps [of n])
    with False show ?thesis by simp
  qed
qed

lemma show_nat_length: "n < 10 ^ Suc k \<Longrightarrow> length (show_nat n) \<le> Suc k"
proof (induction k arbitrary: n)
  case 0
  then show ?case by (simp add: show_nat.simps [of n])
next
  case (Suc k)
  then have "n div 10 < 10 ^ Suc k" by (simp add: less_mult_imp_div_less)
  with Suc.IH have "length (show_nat (n div 10)) \<le> Suc k" .
  then show ?case by (simp add: show_nat.simps [of n])
qed

text \<open>No printed number contains a character that separates fields or lines.\<close>

lemma digit_not_special:
  "is_digit c \<Longrightarrow> c \<noteq> nl \<and> c \<noteq> cr \<and> c \<noteq> tab \<and> c \<noteq> CHR ''.'' \<and> c \<noteq> CHR ''+'' \<and> c \<noteq> CHR '':''
    \<and> c \<noteq> CHR '','' \<and> \<not> is_ws c"
  by (auto simp: is_digit_def nl_def cr_def tab_def is_ws_def)

lemma show_nat_chars: "c \<in> set (show_nat n) \<Longrightarrow> is_digit c"
  using show_nat_digits [of n] by (simp add: list_all_iff)

lemma parse_uint_show_nat: "n \<le> m \<Longrightarrow> parse_uint m (show_nat n) = Some n"
proof -
  assume le: "n \<le> m"
  obtain c cs where s: "show_nat n = c # cs" by (meson list.exhaust show_nat_ne)
  have "c \<noteq> CHR ''+''" using show_nat_chars [of c n] s digit_not_special by auto
  with le s show ?thesis
    using show_nat_digits [of n] digits_val_show_nat [of n] by (simp add: parse_uint_def Let_def)
qed

lemma parse_uint_bound: "parse_uint m s = Some n \<Longrightarrow> n \<le> m"
  by (auto simp: parse_uint_def Let_def split: if_splits)

lemma parse_show_word [simp]: "parse_word (show_word w) = Some w"
  using unat_le_max [of w] by (simp add: parse_word_def show_word_def parse_uint_show_nat)

lemma show_word_ne [simp]: "show_word w \<noteq> []"
  by (simp add: show_word_def)

lemma show_word_chars: "c \<in> set (show_word w) \<Longrightarrow> is_digit c"
  by (simp add: show_word_def show_nat_chars)

lemma show_word_inj [simp]: "show_word v = show_word w \<longleftrightarrow> v = w"
  by (metis option.inject parse_show_word)

section \<open>Printing an address and reading it back\<close>

lemma parse_octet_show: "parse_octet (show_word (w::u8)) = Some w"
proof -
  have le: "unat w \<le> 255" using unat_le_max [of w] by simp
  then have "length (show_word w) \<le> 3"
    using show_nat_length [of "unat w" 2] by (simp add: show_word_def)
  moreover have "length (show_word w) = 1" if "hd (show_word w) = CHR ''0''"
    using that show_nat_hd_zero [of "unat w"] by (simp add: show_word_def show_nat.simps [of 0])
  ultimately show ?thesis
    using le by (simp add: parse_octet_def show_word_def show_nat_digits digits_val_show_nat)
qed

lemma parse_show_ipv4 [simp]: "parse_ipv4 (show_ipv4 a) = Some a"
proof -
  obtain p q r s where o4: "octets a = [p, q, r, s]" by (rule octets_cases)
  have nodot: "CHR ''.'' \<notin> set (show_word w)" for w :: u8
    using show_word_chars digit_not_special by blast
  have "split_on CHR ''.'' (show_ipv4 a) = map show_word (octets a)"
    unfolding show_ipv4_def by (rule split_on_join) (auto simp: o4 nodot)
  then show ?thesis
    by (simp add: parse_ipv4_def o4 parse_octet_show ipv4_of_octets [OF o4])
qed

lemma show_ipv4_chars: "c \<in> set (show_ipv4 a) \<Longrightarrow> is_digit c \<or> c = CHR ''.''"
  by (rule octets_cases [of a]) (auto simp: show_ipv4_def dest: show_word_chars)

lemma show_ipv4_plain:
  "c \<in> set (show_ipv4 a) \<Longrightarrow> c \<noteq> nl \<and> c \<noteq> cr \<and> c \<noteq> tab \<and> c \<noteq> CHR '':'' \<and> \<not> is_ws c"
  using show_ipv4_chars [of c a] digit_not_special [of c]
  by (auto simp: nl_def cr_def tab_def is_ws_def)

lemma show_word_plain:
  "c \<in> set (show_word w) \<Longrightarrow> c \<noteq> nl \<and> c \<noteq> cr \<and> c \<noteq> tab \<and> c \<noteq> CHR '':'' \<and> \<not> is_ws c"
  using show_word_chars [of c w] digit_not_special [of c] by blast

section \<open>The interface of a line-oriented state file\<close>

text \<open>
  The three state files hold one record a line. Where a printed record is one line that the
  row parser reads back, the whole file is read back, row for row.
\<close>

locale row_format =
  fixes render :: "'r \<Rightarrow> string"
    and parse_row :: "string \<Rightarrow> 'r option"
    and ok :: "'r \<Rightarrow> bool"
  assumes one_line: "ok x \<Longrightarrow> nl \<notin> set (render x) \<and> cr \<notin> set (render x)"
    and row_back: "ok x \<Longrightarrow> parse_row (render x) = Some x"
begin

lemma file_lines: "\<forall>x \<in> set xs. ok x \<Longrightarrow> lines (concat (map (\<lambda>x. render x @ [nl]) xs)) = map render xs"
  using lines_concat [of "map render xs"] by (simp add: one_line comp_def)

lemma file_back:
  "\<forall>x \<in> set xs. ok x \<Longrightarrow>
     List.map_filter parse_row (lines (concat (map (\<lambda>x. render x @ [nl]) xs))) = xs"
  unfolding file_lines by (induction xs) (simp_all add: row_back)

end

end
