(* ===== verification/Conntrack.thy ===== *)
theory Conntrack
  imports Text
begin

text \<open>
  The conntrack observation (\<open>src/src/obs.rs\<close>) and the change-data-capture that feeds on it
  (\<open>src/src/cdc.rs\<close>): the line parser, the admission predicate, the budgeted scan, and the
  identity cache of the \<open>nft\<close> backend.
\<close>

record CtEntry =
  ct_proto :: u8
  ct_timeout_left :: u32
  ct_orig_src :: ipv4
  ct_orig_sport :: u16
  ct_orig_dst :: ipv4
  ct_orig_dport :: u16
  ct_orig_packets :: u64
  ct_orig_bytes :: u64
  ct_reply_src :: ipv4
  ct_reply_sport :: u16
  ct_reply_dst :: ipv4
  ct_reply_dport :: u16
  ct_reply_packets :: u64
  ct_reply_bytes :: u64
  ct_unreplied :: bool
  ct_assured :: bool

definition is_udp :: "CtEntry \<Rightarrow> bool" where
  "is_udp e \<longleftrightarrow> ct_proto e = 17"

definition nat_src :: "CtEntry \<Rightarrow> tuple4" where
  "nat_src e = (ct_reply_dst e, ct_reply_dport e)"

definition has_seen_reply :: "CtEntry \<Rightarrow> bool" where
  "has_seen_reply e \<longleftrightarrow> 0 < ct_reply_packets e"

record ObsCtx =
  o_allowed :: "ipv4 list"
  o_brlan :: "ipv4 \<times> u8"
  o_vm_nat :: ipv4
  o_owned :: "tuple4 list"
  o_max_refresh :: u32
  o_refreshes :: u32

text \<open>In release mode the shift amount is taken modulo 32.\<close>

definition prefix_mask :: "u8 \<Rightarrow> u32" where
  "prefix_mask bits = (if bits = 0 then 0 else push_bit (unat (32 - bits) mod 32) (- 1))"

definition is_brlan :: "ObsCtx \<Rightarrow> ipv4 \<Rightarrow> bool" where
  "is_brlan ctx a \<longleftrightarrow>
     (case o_brlan ctx of (net, bits) \<Rightarrow> a AND prefix_mask bits = net AND prefix_mask bits)"

definition is_private_local :: "ipv4 \<Rightarrow> bool" where
  "is_private_local v \<longleftrightarrow> v AND 0xff000000 = 0x0a000000 \<or> v AND 0xfff00000 = 0xac100000
     \<or> v AND 0xffff0000 = 0xc0a80000 \<or> v AND 0xff000000 = 0x7f000000"

definition is_owned :: "ObsCtx \<Rightarrow> tuple4 \<Rightarrow> bool" where
  "is_owned ctx t \<longleftrightarrow> list_ex (\<lambda>h. h = t) (o_owned ctx)"

definition should_refresh :: "CtEntry \<Rightarrow> ObsCtx \<Rightarrow> bool" where
  "should_refresh e ctx =
     (if \<not> is_udp e then False
      else if \<not> is_brlan ctx (ct_orig_src e) then False
      else if is_private_local (ct_orig_dst e) then False
      else if \<not> has_seen_reply e \<and> ct_orig_src e \<notin> set (o_allowed ctx) then False
      else if ct_reply_dst e \<noteq> o_vm_nat ctx then False
      else if is_owned ctx (nat_src e) then False
      else if o_max_refresh ctx \<le> o_refreshes ctx then False
      else True)"

record RefreshCandidate =
  rc_bind_tuple :: tuple4
  rc_host :: ipv4
  rc_host_port :: u16
  rc_peer :: tuple4

section \<open>The line parser\<close>

definition kv_of :: "string \<Rightarrow> string \<Rightarrow> string option" where
  "kv_of key f = (case split_once CHR ''='' f of
     Some (k, v) \<Rightarrow> if k = key then Some v else None | None \<Rightarrow> None)"

primrec kv_at :: "string list \<Rightarrow> string \<Rightarrow> string option" where
  "kv_at [] key = None"
| "kv_at (f # fs) key = (case kv_of key f of Some v \<Rightarrow> Some v | None \<Rightarrow> kv_at fs key)"

text \<open>The index of the second token that starts with \<open>src=\<close>, or past the end.\<close>

definition reply_off :: "string list \<Rightarrow> nat" where
  "reply_off t = (case filter (\<lambda>i. starts_with (t ! i) ''src='') [0..<length t] of
     _ # i # _ \<Rightarrow> i | _ \<Rightarrow> length t)"

definition parse_tokens :: "string \<Rightarrow> string list \<Rightarrow> CtEntry option" where
  "parse_tokens line t =
     (if length t < 16 then None
      else do {
        proto \<leftarrow> parse_word (t ! 3);
        timeout_left \<leftarrow> parse_word (t ! 4);
        let orig = drop 5 t;
        orig_src \<leftarrow> Option.bind (kv_at orig ''src'') parse_ipv4;
        orig_dst \<leftarrow> Option.bind (kv_at orig ''dst'') parse_ipv4;
        orig_sport \<leftarrow> Option.bind (kv_at orig ''sport'') parse_word;
        orig_packets \<leftarrow> Option.bind (kv_at orig ''packets'') parse_word;
        orig_bytes \<leftarrow> Option.bind (kv_at orig ''bytes'') parse_word;
        let reply = drop (reply_off t) t;
        reply_src \<leftarrow> Option.bind (kv_at reply ''src'') parse_ipv4;
        reply_sport \<leftarrow> Option.bind (kv_at reply ''sport'') parse_word;
        reply_dst \<leftarrow> Option.bind (kv_at reply ''dst'') parse_ipv4;
        reply_dport \<leftarrow> Option.bind (kv_at reply ''dport'') parse_word;
        reply_packets \<leftarrow> Option.bind (kv_at reply ''packets'') parse_word;
        reply_bytes \<leftarrow> Option.bind (kv_at reply ''bytes'') parse_word;
        Some \<lparr>ct_proto = proto, ct_timeout_left = timeout_left,
          ct_orig_src = orig_src, ct_orig_sport = orig_sport,
          ct_orig_dst = orig_dst, ct_orig_dport = 0,
          ct_orig_packets = orig_packets, ct_orig_bytes = orig_bytes,
          ct_reply_src = reply_src, ct_reply_sport = reply_sport,
          ct_reply_dst = reply_dst, ct_reply_dport = reply_dport,
          ct_reply_packets = reply_packets, ct_reply_bytes = reply_bytes,
          ct_unreplied = str_contains line ''[UNREPLIED]'',
          ct_assured = str_contains line ''[ASSURED]''\<rparr>
      })"

definition parse_line :: "string \<Rightarrow> CtEntry option" where
  "parse_line line = parse_tokens line (split_ws line)"

section \<open>The scan\<close>

definition candidate_of :: "CtEntry \<Rightarrow> RefreshCandidate" where
  "candidate_of e = \<lparr>rc_bind_tuple = nat_src e, rc_host = ct_orig_src e,
     rc_host_port = ct_orig_sport e, rc_peer = (ct_reply_src e, ct_reply_sport e)\<rparr>"

fun scan_from :: "ObsCtx \<Rightarrow> u32 \<Rightarrow> string list \<Rightarrow> RefreshCandidate list" where
  "scan_from ctx refreshes [] = []"
| "scan_from ctx refreshes (line # ls) =
     (case parse_line line of
        None \<Rightarrow> scan_from ctx refreshes ls
      | Some e \<Rightarrow>
          if should_refresh e (ctx\<lparr>o_refreshes := refreshes\<rparr>)
          then candidate_of e #
            (if o_max_refresh ctx \<le> refreshes + 1 then [] else scan_from ctx (refreshes + 1) ls)
          else scan_from ctx refreshes ls)"

definition scan :: "string \<Rightarrow> ObsCtx \<Rightarrow> RefreshCandidate list" where
  "scan f ctx = scan_from ctx 0 (lines f)"

section \<open>Change data capture\<close>

definition BR_LAN :: "ipv4 \<times> u8" where
  "BR_LAN = (ipv4_of 192 168 21 0, 24)"

definition VM_NAT :: ipv4 where
  "VM_NAT = ipv4_of 192 168 0 21"

definition brlan_ctx :: ObsCtx where
  "brlan_ctx = \<lparr>o_allowed = [], o_brlan = (ipv4_of 192 168 21 0, 24),
     o_vm_nat = ipv4_of 192 168 0 21, o_owned = [], o_max_refresh = 8, o_refreshes = 0\<rparr>"

definition cdc_ctx :: "tuple4 list \<Rightarrow> u32 \<Rightarrow> ipv4 list \<Rightarrow> ObsCtx" where
  "cdc_ctx owned max_refresh allowed = \<lparr>o_allowed = allowed, o_brlan = BR_LAN,
     o_vm_nat = VM_NAT, o_owned = owned, o_max_refresh = max_refresh, o_refreshes = 0\<rparr>"

text \<open>\<open>ProcCdc::tick\<close>: an unreadable table yields nothing.\<close>

definition proc_tick :: "tuple4 list \<Rightarrow> u32 \<Rightarrow> ipv4 list \<Rightarrow> string option \<Rightarrow> RefreshCandidate list" where
  "proc_tick owned max_refresh allowed proc_text =
     (case proc_text of None \<Rightarrow> [] | Some f \<Rightarrow> scan f (cdc_ctx owned max_refresh allowed))"

type_synonym identities = "tuple4 \<Rightarrow> RefreshCandidate option"

definition learn :: "tuple4 list \<Rightarrow> RefreshCandidate \<Rightarrow> identities \<Rightarrow> identities" where
  "learn fresh c known =
     (if rc_bind_tuple c \<in> set fresh then known(rc_bind_tuple c \<mapsto> c) else known)"

definition reconcile ::
  "tuple4 list \<Rightarrow> string option \<Rightarrow> tuple4 list \<Rightarrow> u32 \<Rightarrow> ipv4 list \<Rightarrow> identities
    \<Rightarrow> RefreshCandidate list \<times> identities" where
  "reconcile live proc_text owned max_refresh allowed known =
     (let fresh = filter (\<lambda>t. known t = None) live;
          known1 = (if fresh \<noteq> [] then
                      (case proc_text of
                         Some f \<Rightarrow> fold (learn fresh) (scan f (cdc_ctx owned max_refresh allowed)) known
                       | None \<Rightarrow> known)
                    else known);
          known2 = (\<lambda>t. if t \<in> set live then known1 t else None)
      in (List.map_filter known2 live, known2))"

text \<open>\<open>NftCdc::tick\<close>: the listing may fail, and the conntrack table is read only when some
  live tuple has no identity yet.\<close>

definition nft_tick ::
  "tuple4 list option \<Rightarrow> string option \<Rightarrow> tuple4 list \<Rightarrow> u32 \<Rightarrow> ipv4 list \<Rightarrow> identities
    \<Rightarrow> RefreshCandidate list \<times> identities" where
  "nft_tick listing proc_file owned max_refresh allowed known =
     (case listing of
        None \<Rightarrow> ([], known)
      | Some live \<Rightarrow>
          let proc_text = (if list_ex (\<lambda>t. known t = None) live then proc_file else None)
          in reconcile live proc_text owned max_refresh allowed known)"

section \<open>What the scan returns\<close>

text \<open>The admission of a flow, without the budget.\<close>

definition admissible :: "ObsCtx \<Rightarrow> CtEntry \<Rightarrow> bool" where
  "admissible ctx e \<longleftrightarrow> is_udp e \<and> is_brlan ctx (ct_orig_src e)
     \<and> \<not> is_private_local (ct_orig_dst e)
     \<and> (has_seen_reply e \<or> ct_orig_src e \<in> set (o_allowed ctx))
     \<and> ct_reply_dst e = o_vm_nat ctx \<and> nat_src e \<notin> set (o_owned ctx)"

lemma should_refresh_iff:
  "should_refresh e (ctx\<lparr>o_refreshes := r\<rparr>) \<longleftrightarrow> admissible ctx e \<and> r < o_max_refresh ctx"
  by (auto simp: should_refresh_def admissible_def is_owned_def list_ex_iff is_brlan_def)

lemma scan_from_eq:
  "r < o_max_refresh ctx \<Longrightarrow> scan_from ctx r ls =
     take (unat (o_max_refresh ctx) - unat r)
       (map candidate_of (filter (admissible ctx) (List.map_filter parse_line ls)))"
proof (induction ctx r ls rule: scan_from.induct)
  case (2 ctx r line ls)
  have step: "unat (r + 1) = Suc (unat r)"
    using 2(4) by (rule unat_succ_below)
  show ?case
  proof (cases "parse_line line")
    case None
    with 2 show ?thesis by simp
  next
    case (Some e)
    show ?thesis
    proof (cases "admissible ctx e")
      case False
      with Some 2 show ?thesis by (simp add: should_refresh_iff)
    next
      case True
      have take: "unat (o_max_refresh ctx) - unat r = Suc (unat (o_max_refresh ctx) - unat (r + 1))"
        using 2(4) step by (simp add: word_less_nat_alt)
      show ?thesis
      proof (cases "o_max_refresh ctx \<le> r + 1")
        case True
        with \<open>admissible ctx e\<close> Some 2(4) take show ?thesis
          by (simp add: should_refresh_iff word_le_nat_alt)
      next
        case False
        with \<open>admissible ctx e\<close> Some 2(4) take 2(2) [of e] show ?thesis
          by (simp add: should_refresh_iff not_le)
      qed
    qed
  qed
qed simp

lemma scan_from_none: "o_max_refresh ctx = 0 \<Longrightarrow> scan_from ctx r ls = []"
  by (induction ctx r ls rule: scan_from.induct)
    (auto simp: should_refresh_iff split: option.splits)

lemma scan_eq:
  "scan f ctx = take (unat (o_max_refresh ctx))
     (map candidate_of (filter (admissible ctx) (List.map_filter parse_line (lines f))))"
proof (cases "o_max_refresh ctx = 0")
  case True
  then show ?thesis by (simp add: scan_def scan_from_none)
next
  case False
  then show ?thesis by (simp add: scan_def scan_from_eq word_gt_0)
qed

lemma scan_candidates:
  "c \<in> set (scan f ctx) \<Longrightarrow> \<exists>e. c = candidate_of e \<and> admissible ctx e
     \<and> Some e \<in> parse_line ` set (lines f)"
  by (force simp: scan_eq map_filter_def dest!: in_set_takeD)

section \<open>The identity cache\<close>

definition cdc_inv :: "tuple4 list \<Rightarrow> identities \<Rightarrow> bool" where
  "cdc_inv owned known \<longleftrightarrow> (\<forall>t c. known t = Some c \<longrightarrow>
     rc_bind_tuple c = t \<and> fst t = VM_NAT \<and> t \<notin> set owned
     \<and> is_brlan brlan_ctx (rc_host c))"

lemma cdc_invD:
  "cdc_inv owned known \<Longrightarrow> known t = Some c \<Longrightarrow>
     rc_bind_tuple c = t \<and> fst t = VM_NAT \<and> t \<notin> set owned \<and> is_brlan brlan_ctx (rc_host c)"
  unfolding cdc_inv_def by blast

lemma cdc_inv_upd:
  "cdc_inv owned known \<Longrightarrow> fst (rc_bind_tuple c) = VM_NAT \<and> rc_bind_tuple c \<notin> set owned
     \<and> is_brlan brlan_ctx (rc_host c) \<Longrightarrow> cdc_inv owned (known(rc_bind_tuple c \<mapsto> c))"
  unfolding cdc_inv_def by (simp only: fun_upd_apply split: if_split) blast

lemma cdc_scan_ok:
  assumes "c \<in> set (scan f (cdc_ctx owned max_refresh allowed))"
  shows "fst (rc_bind_tuple c) = VM_NAT \<and> rc_bind_tuple c \<notin> set owned
    \<and> is_brlan brlan_ctx (rc_host c)"
  using scan_candidates [OF assms]
  by (auto simp: candidate_of_def admissible_def nat_src_def cdc_ctx_def is_brlan_def
      brlan_ctx_def BR_LAN_def)

lemma learn_inv:
  assumes "cdc_inv owned known" and "set cs \<subseteq> set (scan f (cdc_ctx owned max_refresh allowed))"
  shows "cdc_inv owned (fold (learn fresh) cs known)"
  using assms
proof (induction cs arbitrary: known)
  case (Cons c cs)
  then have "c \<in> set (scan f (cdc_ctx owned max_refresh allowed))" by simp
  from cdc_inv_upd [OF Cons.prems(1)] cdc_scan_ok [OF this]
  have "cdc_inv owned (learn fresh c known)" using Cons.prems(1) by (simp add: learn_def)
  with Cons show ?case by simp
qed simp

lemma reconcile_inv:
  "cdc_inv owned known \<Longrightarrow>
     cdc_inv owned (snd (reconcile live proc_text owned max_refresh allowed known))"
proof -
  assume inv: "cdc_inv owned known"
  define known1 where "known1 = (case proc_text of
      Some f \<Rightarrow> fold (learn (filter (\<lambda>t. known t = None) live))
                  (scan f (cdc_ctx owned max_refresh allowed)) known
    | None \<Rightarrow> known)"
  have "cdc_inv owned known1"
    using inv learn_inv [OF inv, OF subset_refl] by (simp add: known1_def split: option.split)
  with inv show ?thesis
    by (simp add: reconcile_def cdc_inv_def Let_def known1_def [symmetric])
qed

definition cdc_step ::
  "tuple4 list \<Rightarrow> u32 \<Rightarrow> ipv4 list \<Rightarrow> tuple4 list option \<times> string option \<Rightarrow> identities \<Rightarrow> identities"
  where "cdc_step owned max_refresh allowed w known =
    snd (nft_tick (fst w) (snd w) owned max_refresh allowed known)"

interpretation cdc: machine "cdc_step owned max_refresh allowed" "cdc_inv owned"
  by unfold_locales
    (auto simp: cdc_step_def nft_tick_def Let_def split: option.split intro: reconcile_inv)

text \<open>A line of the kernel's table, for the evaluations.\<close>

definition ct_example :: string where
  "ct_example = ''ipv4     2 udp      17 56 src=192.168.21.10 dst=8.8.8.8 sport=54322 dport=53 packets=1 bytes=92 src=8.8.8.8 dst=192.168.0.21 sport=53 dport=54322 [ASSURED] packets=3 bytes=210 mark=0 zone=0 use=2''"

section \<open>Properties\<close>

text \<open>The scan with its running counter and early break returns exactly the
  admissible flows of the table, in line order, cut at the refresh budget.\<close>

theorem scan_is_filter_take:
  "scan f ctx = take (unat (o_max_refresh ctx))
     (map candidate_of (filter (admissible ctx) (List.map_filter parse_line (lines f))))"
  by (rule scan_eq)

text \<open>C31 (safety): the capture never takes a tuple that a slot owns. After any sequence of
  ticks of the \<open>nft\<close> backend, whatever the listing and the conntrack table say, each candidate
  the next tick yields is live in the listing, binds its own tuple on the router's hub address,
  belongs to a LAN host and is none of the owned tuples.\<close>

theorem nft_tick_never_owned:
  assumes "c \<in> set (fst (nft_tick (Some live) proc_file owned max_refresh allowed
      (fold (cdc_step owned max_refresh allowed) ws Map.empty)))"
  shows "rc_bind_tuple c \<in> set live \<and> fst (rc_bind_tuple c) = VM_NAT
    \<and> rc_bind_tuple c \<notin> set owned \<and> is_brlan brlan_ctx (rc_host c)"
proof -
  let ?k = "fold (cdc_step owned max_refresh allowed) ws Map.empty"
  have "cdc_inv owned ?k" by (rule cdc.run_inv) (simp add: cdc_inv_def)
  then have "cdc_inv owned (cdc_step owned max_refresh allowed (Some live, proc_file) ?k)"
    by (rule cdc.step_inv)
  note inv = cdc_invD [OF this]
  obtain t where "t \<in> set live"
    "cdc_step owned max_refresh allowed (Some live, proc_file) ?k t = Some c"
    using assms by (auto simp: cdc_step_def nft_tick_def reconcile_def Let_def map_filter_def)
  with inv [of t c] show ?thesis by simp
qed

theorem nft_tick_never_owned_witness:
  "let c = \<lparr>rc_bind_tuple = (VM_NAT, 54322), rc_host = ipv4_of 192 168 21 10,
        rc_host_port = 54322, rc_peer = (ipv4_of 8 8 8 8, 53)\<rparr>
   in rc_bind_tuple c \<in> set [(VM_NAT, 54322)] \<and> fst (rc_bind_tuple c) = VM_NAT
    \<and> rc_bind_tuple c \<notin> set [(VM_NAT, 80)] \<and> is_brlan brlan_ctx (rc_host c)"
proof -
  have "\<lparr>rc_bind_tuple = (VM_NAT, 54322), rc_host = ipv4_of 192 168 21 10,
        rc_host_port = 54322, rc_peer = (ipv4_of 8 8 8 8, 53)\<rparr>
     \<in> set (fst (nft_tick (Some [(VM_NAT, 54322)]) (Some ct_example) [(VM_NAT, 80)] 8 []
          (fold (cdc_step [(VM_NAT, 80)] 8 []) [(None, None)] Map.empty)))"
    by code_simp
  from nft_tick_never_owned [OF this] show ?thesis by simp
qed

end
