(* ===== verification/Slot_Table.thy ===== *)
theory Slot_Table
  imports Conntrack
begin

text \<open>
  The slot engine core (\<open>src/src/slot.rs\<close>): leases, slots, the port allocator, the lease
  table with every operation on it, and the epoch. A slot list is in insertion order, as the
  vector of the code; a removal by \<open>swap_remove\<close> moves the last slot.
\<close>

section \<open>Leases and slots\<close>

datatype Proto = Udp | Tcp

definition proto_code :: "Proto \<Rightarrow> u8" where
  "proto_code p = (case p of Udp \<Rightarrow> 17 | Tcp \<Rightarrow> 6)"

datatype LeaseKind = KindStatic | KindGranted

datatype Lease = Static | Granted ipv4 u16 u32 u64

fun lease_kind :: "Lease \<Rightarrow> LeaseKind" where
  "lease_kind Static = KindStatic"
| "lease_kind (Granted client int_port granted_lifetime expires_at) = KindGranted"

fun is_expired :: "Lease \<Rightarrow> u64 \<Rightarrow> bool" where
  "is_expired Static now = False"
| "is_expired (Granted client int_port granted_lifetime expires_at) now = (expires_at \<le> now)"

record Slot =
  s_bind_port :: u16
  s_proto :: Proto
  s_target :: ipv4
  s_target_port :: u16
  s_lease :: Lease
  s_phase_ms :: u32
  s_last_activity :: u64

definition is_static :: "Slot \<Rightarrow> bool" where
  "is_static s \<longleftrightarrow> s_lease s = Static"

type_synonym pcp_key = "Proto \<times> u16 \<times> ipv4"

definition slot_key :: "Slot \<Rightarrow> pcp_key option" where
  "slot_key s = (case s_lease s of
     Granted client int_port _ _ \<Rightarrow> Some (s_proto s, int_port, client) | Static \<Rightarrow> None)"

definition slot_client :: "Slot \<Rightarrow> ipv4 option" where
  "slot_client s = (case s_lease s of Granted client _ _ _ \<Rightarrow> Some client | Static \<Rightarrow> None)"

section \<open>The port allocator\<close>

record PortAllocator =
  pa_lo :: u16
  pa_hi :: u16

definition PortAllocator_new :: "u16 \<Rightarrow> u16 \<Rightarrow> PortAllocator option" where
  "PortAllocator_new lo hi = (if lo = 0 \<or> hi < lo then None else Some \<lparr>pa_lo = lo, pa_hi = hi\<rparr>)"

definition port_range :: "u16 \<Rightarrow> u16 \<Rightarrow> u16 list" where
  "port_range lo hi = map of_nat [unat lo..<Suc (unat hi)]"

definition allocate :: "PortAllocator \<Rightarrow> u16 list \<Rightarrow> u16 option" where
  "allocate a used = find (\<lambda>port. port \<notin> set used) (port_range (pa_lo a) (pa_hi a))"

definition pa_contains :: "PortAllocator \<Rightarrow> u16 \<Rightarrow> bool" where
  "pa_contains a port \<longleftrightarrow> pa_lo a \<le> port \<and> port \<le> pa_hi a"

section \<open>The lease table\<close>

datatype UpsertOutcome = Granted_at u16 | Refreshed_at u16 | UserQuotaExceeded | TableFull

datatype StaticMapErr = OutOfRange u16 | InUse u16

record LeaseTable =
  t_slots :: "Slot list"
  t_allocator :: PortAllocator
  t_max_slots :: nat
  t_max_maps_per_client :: u16
  t_avoid :: "u16 list"

definition LeaseTable_new :: "PortAllocator \<Rightarrow> nat \<Rightarrow> u16 \<Rightarrow> LeaseTable" where
  "LeaseTable_new allocator max_slots max_maps = \<lparr>t_slots = [], t_allocator = allocator,
     t_max_slots = max_slots, t_max_maps_per_client = max_maps, t_avoid = []\<rparr>"

definition find_free_bind_port :: "LeaseTable \<Rightarrow> u16 option" where
  "find_free_bind_port T =
     find (\<lambda>port. port \<notin> set (t_avoid T) \<and> \<not> list_ex (\<lambda>s. s_bind_port s = port) (t_slots T))
       (port_range (pa_lo (t_allocator T)) (pa_hi (t_allocator T)))"

definition avoid_ports :: "u16 list \<Rightarrow> LeaseTable \<Rightarrow> LeaseTable" where
  "avoid_ports live T = T\<lparr>t_avoid := remdups_adj (sort (filter (pa_contains (t_allocator T)) live))\<rparr>"

fun collided_from :: "Slot list \<Rightarrow> u16 list \<Rightarrow> string list \<Rightarrow> u16 list" where
  "collided_from slots out [] = out"
| "collided_from slots out (line # ls) =
     (case parse_line line of
        None \<Rightarrow> collided_from slots out ls
      | Some e \<Rightarrow>
          let (nat', port) = nat_src e
          in if nat' \<noteq> o_vm_nat brlan_ctx \<or> \<not> is_brlan brlan_ctx (ct_orig_src e)
             then collided_from slots out ls
             else if list_ex (\<lambda>s. s_bind_port s = port \<and> \<not> is_static s) slots \<and> port \<notin> set out
             then collided_from slots (out @ [port]) ls
             else collided_from slots out ls)"

definition collided :: "string \<Rightarrow> LeaseTable \<Rightarrow> u16 list" where
  "collided proc_text T = sort (collided_from (t_slots T) [] (lines proc_text))"

definition set_bind_port :: "nat \<Rightarrow> u16 \<Rightarrow> LeaseTable \<Rightarrow> LeaseTable" where
  "set_bind_port i p T = T\<lparr>t_slots := (t_slots T)[i := (t_slots T ! i)\<lparr>s_bind_port := p\<rparr>]\<rparr>"

definition move_bind_port :: "u16 \<Rightarrow> LeaseTable \<Rightarrow> u16 option \<times> LeaseTable" where
  "move_bind_port old T =
     (case position (\<lambda>s. s_bind_port s = old) (t_slots T) of
        None \<Rightarrow> (None, T)
      | Some i \<Rightarrow>
          let T1 = (if old \<notin> set (t_avoid T) then T\<lparr>t_avoid := sort (t_avoid T @ [old])\<rparr> else T)
          in (case find_free_bind_port T1 of
                None \<Rightarrow> (None, T1)
              | Some new \<Rightarrow> (Some new, set_bind_port i new T1)))"

definition restore_bind_port :: "u16 \<Rightarrow> u16 \<Rightarrow> LeaseTable \<Rightarrow> LeaseTable" where
  "restore_bind_port from to T =
     (case position (\<lambda>s. s_bind_port s = from) (t_slots T) of
        None \<Rightarrow> T | Some i \<Rightarrow> set_bind_port i to T)"

definition avoid_steering :: "u16 \<Rightarrow> LeaseTable \<Rightarrow> u16 list" where
  "avoid_steering chosen T =
     filter (\<lambda>p. p < chosen \<and> \<not> list_ex (\<lambda>s. s_bind_port s = p) (t_slots T)) (t_avoid T)"

definition by_bind_port :: "u16 \<Rightarrow> LeaseTable \<Rightarrow> Slot option" where
  "by_bind_port port T = find (\<lambda>s. s_bind_port s = port) (t_slots T)"

definition by_pcp_key :: "pcp_key \<Rightarrow> LeaseTable \<Rightarrow> Slot option" where
  "by_pcp_key k T = find (\<lambda>s. slot_key s = Some k) (t_slots T)"

definition by_upnp_key :: "u16 \<Rightarrow> Proto \<Rightarrow> LeaseTable \<Rightarrow> Slot option" where
  "by_upnp_key ext_port proto T = find (\<lambda>s. s_bind_port s = ext_port \<and> s_proto s = proto) (t_slots T)"

definition count_for_client :: "ipv4 \<Rightarrow> LeaseTable \<Rightarrow> nat" where
  "count_for_client client T = length (filter (\<lambda>s. slot_client s = Some client) (t_slots T))"

definition is_full :: "LeaseTable \<Rightarrow> bool" where
  "is_full T \<longleftrightarrow> t_max_slots T \<le> length (t_slots T)"

definition index_of_key :: "pcp_key \<Rightarrow> LeaseTable \<Rightarrow> nat option" where
  "index_of_key k T = position (\<lambda>s. slot_key s = Some k) (t_slots T)"

definition fresh_lease :: "ipv4 \<Rightarrow> u16 \<Rightarrow> u32 \<Rightarrow> u64 \<Rightarrow> Lease" where
  "fresh_lease client int_port lifetime now =
     Granted client int_port lifetime (sat_add now (ucast lifetime))"

definition upsert_pcp ::
  "Proto \<Rightarrow> u16 \<Rightarrow> ipv4 \<Rightarrow> u32 \<Rightarrow> u64 \<Rightarrow> ipv4 \<Rightarrow> u16 \<Rightarrow> LeaseTable \<Rightarrow> UpsertOutcome \<times> LeaseTable"
  where
  "upsert_pcp proto int_port client lifetime now target target_port T =
     (case index_of_key (proto, int_port, client) T of
        Some i \<Rightarrow>
          let s = (t_slots T ! i)\<lparr>s_lease := fresh_lease client int_port lifetime now,
                                  s_last_activity := now\<rparr>
          in (Refreshed_at (s_bind_port s), T\<lparr>t_slots := (t_slots T)[i := s]\<rparr>)
      | None \<Rightarrow>
          if unat (t_max_maps_per_client T) \<le> count_for_client client T then (UserQuotaExceeded, T)
          else if is_full T then (TableFull, T)
          else (case find_free_bind_port T of
                  None \<Rightarrow> (TableFull, T)
                | Some p \<Rightarrow> (Granted_at p, T\<lparr>t_slots := t_slots T @
                    [\<lparr>s_bind_port = p, s_proto = proto, s_target = target,
                      s_target_port = target_port,
                      s_lease = fresh_lease client int_port lifetime now,
                      s_phase_ms = 0, s_last_activity = now\<rparr>]\<rparr>)))"

definition insert_static ::
  "u16 \<Rightarrow> ipv4 \<Rightarrow> u16 \<Rightarrow> LeaseTable \<Rightarrow> (StaticMapErr + u16) \<times> LeaseTable" where
  "insert_static p target target_port T =
     (if \<not> pa_contains (t_allocator T) p then (Inl (OutOfRange p), T)
      else if by_bind_port p T \<noteq> None then (Inl (InUse p), T)
      else (Inr p, T\<lparr>t_slots := t_slots T @
        [\<lparr>s_bind_port = p, s_proto = Udp, s_target = target, s_target_port = target_port,
          s_lease = Static, s_phase_ms = 0, s_last_activity = 0\<rparr>]\<rparr>))"

definition delete_by_bind_port :: "u16 \<Rightarrow> LeaseTable \<Rightarrow> u16 option \<times> LeaseTable" where
  "delete_by_bind_port p T =
     (case position (\<lambda>s. s_bind_port s = p) (t_slots T) of
        None \<Rightarrow> (None, T)
      | Some i \<Rightarrow> (Some (s_bind_port (t_slots T ! i)), T\<lparr>t_slots := swap_remove (t_slots T) i\<rparr>))"

definition gc_keeps :: "u64 \<Rightarrow> u64 \<Rightarrow> Slot \<Rightarrow> bool" where
  "gc_keeps now grace s \<longleftrightarrow>
     is_static s \<or> \<not> is_expired (s_lease s) now
     \<or> \<not> (case s_lease s of Granted _ _ _ expires \<Rightarrow> grace < sat_sub now expires | Static \<Rightarrow> False)
     \<or> sat_sub now grace \<le> s_last_activity s"

definition gc :: "u64 \<Rightarrow> u64 \<Rightarrow> LeaseTable \<Rightarrow> u16 list \<times> LeaseTable" where
  "gc now grace T = (map s_bind_port (filter (\<lambda>s. \<not> gc_keeps now grace s) (t_slots T)),
     T\<lparr>t_slots := filter (gc_keeps now grace) (t_slots T)\<rparr>)"

definition stamp_activity_if_stale :: "u16 \<Rightarrow> u64 \<Rightarrow> u64 \<Rightarrow> LeaseTable \<Rightarrow> LeaseTable" where
  "stamp_activity_if_stale p now min_interval T =
     (case position (\<lambda>s. s_bind_port s = p) (t_slots T) of
        None \<Rightarrow> T
      | Some i \<Rightarrow>
          if min_interval \<le> sat_sub now (s_last_activity (t_slots T ! i))
          then T\<lparr>t_slots := (t_slots T)[i := (t_slots T ! i)\<lparr>s_last_activity := now\<rparr>]\<rparr>
          else T)"

definition is_idle :: "u64 \<Rightarrow> u64 \<Rightarrow> Slot \<Rightarrow> bool" where
  "is_idle now backstop s \<longleftrightarrow> \<not> is_static s \<and> s_proto s = Udp
     \<and> s_last_activity s < sat_sub now backstop"

definition gc_idle :: "u64 \<Rightarrow> u64 \<Rightarrow> LeaseTable \<Rightarrow> u16 list \<times> LeaseTable" where
  "gc_idle now backstop T = (map s_bind_port (filter (is_idle now backstop) (t_slots T)),
     T\<lparr>t_slots := filter (\<lambda>s. \<not> is_idle now backstop s) (t_slots T)\<rparr>)"

text \<open>The eviction scan keeps the best candidate so far: idle time, bind port, client, port.\<close>

definition evict_step ::
  "u64 \<Rightarrow> u64 \<Rightarrow> ipv4 \<Rightarrow> Slot \<Rightarrow> (u64 \<times> u16 \<times> ipv4 \<times> u16) option \<Rightarrow> (u64 \<times> u16 \<times> ipv4 \<times> u16) option"
  where
  "evict_step now grace requester s best =
     (case s_lease s of
        Static \<Rightarrow> best
      | Granted client int_port _ _ \<Rightarrow>
          if client = requester \<or> s_proto s \<noteq> Udp then best
          else if sat_sub now grace \<le> s_last_activity s then best
          else
            let idle = sat_sub now (s_last_activity s)
            in (case best of
                  None \<Rightarrow> Some (idle, s_bind_port s, client, int_port)
                | Some (b, _) \<Rightarrow>
                    if b < idle then Some (idle, s_bind_port s, client, int_port) else best))"

definition evict_idle_client ::
  "u64 \<Rightarrow> u64 \<Rightarrow> ipv4 \<Rightarrow> LeaseTable \<Rightarrow> (u16 \<times> ipv4 \<times> u16 \<times> Proto) option" where
  "evict_idle_client now grace requester T =
     map_option (\<lambda>(_, bind, client, int_port). (bind, client, int_port, Udp))
       (fold (evict_step now grace requester) (t_slots T) None)"

section \<open>Restoring the table\<close>

record GrantedRecord =
  g_bind_port :: u16
  g_proto :: Proto
  g_client :: ipv4
  g_int_port :: u16
  g_target :: ipv4
  g_target_port :: u16
  g_granted_lifetime :: u32
  g_expires_at :: u64

text \<open>
  The caller exits on a rejection, so the table of a failed restore is not kept. \<open>clamp(1, m)\<close>
  of the standard library panics when \<open>m < 1\<close>.
\<close>

datatype restored = Restored LeaseTable | Rejected StaticMapErr | ClampPanic

definition clamp64 :: "u64 \<Rightarrow> u64 \<Rightarrow> u64 \<Rightarrow> u64 option" where
  "clamp64 lo hi x = (if hi < lo then None else Some (if x < lo then lo else if hi < x then hi else x))"

fun restore_statics :: "(u16 \<times> ipv4 \<times> u16) list \<Rightarrow> LeaseTable \<Rightarrow> restored" where
  "restore_statics [] T = Restored T"
| "restore_statics ((p, ip, port) # ms) T =
     (case insert_static p ip port T of
        (Inl e, _) \<Rightarrow> Rejected e
      | (Inr _, T1) \<Rightarrow> restore_statics ms T1)"

definition restored_slot :: "GrantedRecord \<Rightarrow> u64 \<Rightarrow> u64 \<Rightarrow> Slot" where
  "restored_slot r expires now = \<lparr>s_bind_port = g_bind_port r, s_proto = g_proto r,
     s_target = g_target r, s_target_port = g_target_port r,
     s_lease = Granted (g_client r) (g_int_port r) (g_granted_lifetime r) expires,
     s_phase_ms = 0, s_last_activity = now\<rparr>"

fun restore_grants :: "GrantedRecord list \<Rightarrow> u64 \<Rightarrow> LeaseTable \<Rightarrow> restored" where
  "restore_grants [] now T = Restored T"
| "restore_grants (r # rs) now T =
     (if \<not> pa_contains (t_allocator T) (g_bind_port r) then Rejected (OutOfRange (g_bind_port r))
      else if by_bind_port (g_bind_port r) T \<noteq> None then Rejected (InUse (g_bind_port r))
      else (case clamp64 1 (ucast (g_granted_lifetime r)) (sat_sub (g_expires_at r) now) of
              None \<Rightarrow> ClampPanic
            | Some remaining \<Rightarrow>
                restore_grants rs now
                  (T\<lparr>t_slots := t_slots T @ [restored_slot r (sat_add now remaining) now]\<rparr>)))"

definition restore ::
  "(u16 \<times> ipv4 \<times> u16) list \<Rightarrow> GrantedRecord list \<Rightarrow> u64 \<Rightarrow> LeaseTable \<Rightarrow> restored" where
  "restore static_maps granted_records now T =
     (case restore_statics static_maps T of
        Restored T1 \<Rightarrow> restore_grants granted_records now T1
      | other \<Rightarrow> other)"

section \<open>The epoch\<close>

definition epoch_at :: "u64 \<Rightarrow> u64 \<Rightarrow> u32" where
  "epoch_at created now = ucast (min (sat_sub now created) 0xffffffff)"

end
