(* ===== verification/Slot_Facts.thy ===== *)
theory Slot_Facts
  imports Slot_Table
begin

text \<open>
  What holds of the lease table of \<open>Slot_Table\<close>: the allocation rule, the invariant of the bind
  ports and of the lease keys under every operation, the refinement of the slot vector to a map
  from lease keys to slots, and the collection, eviction and move rules. The locale
  \<open>lease_store\<close> is what the grant surfaces rely on.
\<close>

section \<open>The lowest free port\<close>

lemma unat_range: "i < Suc (unat (hi::u16)) \<Longrightarrow> unat (of_nat i :: u16) = i"
  using unat_bound [of hi] by (simp add: unat_of_nat)

lemma set_port_range: "set (port_range lo hi) = {p. lo \<le> p \<and> p \<le> hi}"
proof (intro set_eqI iffI)
  fix p :: u16 assume "p \<in> set (port_range lo hi)"
  then obtain i where "p = of_nat i" "unat lo \<le> i" "i < Suc (unat hi)"
    by (auto simp: port_range_def simp del: upt_Suc)
  then show "p \<in> {p. lo \<le> p \<and> p \<le> hi}"
    using unat_range [of i hi] by (simp add: word_le_nat_alt)
next
  fix p :: u16 assume "p \<in> {p. lo \<le> p \<and> p \<le> hi}"
  then have "unat p \<in> set [unat lo..<Suc (unat hi)]" by (auto simp: word_le_nat_alt less_Suc_eq_le simp del: upt_Suc)
  then show "p \<in> set (port_range lo hi)"
    unfolding port_range_def by (force simp: image_iff simp del: upt_Suc)
qed

lemma sorted_port_range: "sorted_wrt (<) (port_range lo hi)"
proof -
  have "sorted_wrt (\<lambda>i j. (of_nat i :: u16) < of_nat j) [unat lo..<Suc (unat hi)]"
    by (rule sorted_wrt_mono_rel [OF _ sorted_wrt_upt])
      (auto simp: word_less_nat_alt unat_range [of _ hi] simp del: upt_Suc)
  then show ?thesis by (simp add: port_range_def sorted_wrt_map del: upt_Suc)
qed

lemma find_sorted:
  "sorted_wrt (<) (xs :: 'a::linorder list) \<Longrightarrow>
     find P xs = Some x \<longleftrightarrow> x \<in> set xs \<and> P x \<and> (\<forall>y \<in> set xs. y < x \<longrightarrow> \<not> P y)"
  by (induction xs) auto

definition port_free :: "LeaseTable \<Rightarrow> u16 \<Rightarrow> bool" where
  "port_free T p \<longleftrightarrow> pa_contains (t_allocator T) p \<and> p \<notin> set (t_avoid T)
     \<and> p \<notin> s_bind_port ` set (t_slots T)"

lemma find_free_Some:
  "find_free_bind_port T = Some p \<longleftrightarrow> port_free T p \<and> (\<forall>q < p. \<not> port_free T q)"
  unfolding find_free_bind_port_def find_sorted [OF sorted_port_range] set_port_range
    port_free_def pa_contains_def list_ex_iff
  by auto

lemma find_free_None: "find_free_bind_port T = None \<longleftrightarrow> (\<forall>p. \<not> port_free T p)"
  by (auto simp: find_free_bind_port_def find_None_all set_port_range port_free_def
      pa_contains_def list_ex_iff)

text \<open>The stand-alone allocator follows the same rule.\<close>

lemma allocate_Some:
  "allocate a used = Some p \<longleftrightarrow> pa_contains a p \<and> p \<notin> set used
     \<and> (\<forall>q. pa_contains a q \<longrightarrow> q < p \<longrightarrow> q \<in> set used)"
  unfolding allocate_def find_sorted [OF sorted_port_range] set_port_range pa_contains_def by auto

section \<open>The invariant\<close>

definition bound_ports :: "LeaseTable \<Rightarrow> u16 set" where
  "bound_ports T = s_bind_port ` set (t_slots T)"

definition grants :: "Slot list \<Rightarrow> Slot list" where
  "grants ss = filter (\<lambda>s. \<not> is_static s) ss"

definition tbl_inv :: "LeaseTable \<Rightarrow> bool" where
  "tbl_inv T \<longleftrightarrow> distinct (map s_bind_port (t_slots T))
     \<and> (\<forall>s \<in> set (t_slots T). pa_contains (t_allocator T) (s_bind_port s))
     \<and> distinct (map slot_key (grants (t_slots T)))"

lemma slot_key_None [simp]: "slot_key s = None \<longleftrightarrow> is_static s"
  by (simp add: slot_key_def is_static_def split: Lease.split)

lemma key_not_static: "slot_key s = Some k \<Longrightarrow> \<not> is_static s"
  by (metis option.distinct(1) slot_key_None)

lemma tbl_invD:
  assumes "tbl_inv T"
  shows "distinct (map s_bind_port (t_slots T))"
    and "s \<in> set (t_slots T) \<Longrightarrow> pa_contains (t_allocator T) (s_bind_port s)"
    and "distinct (map slot_key (grants (t_slots T)))"
  using assms by (auto simp: tbl_inv_def)

lemma same_port:
  "tbl_inv T \<Longrightarrow> s \<in> set (t_slots T) \<Longrightarrow> s' \<in> set (t_slots T) \<Longrightarrow>
     s_bind_port s = s_bind_port s' \<Longrightarrow> s = s'"
  by (auto simp: tbl_inv_def distinct_map inj_on_def)

lemma same_key:
  assumes "tbl_inv T" and "s \<in> set (t_slots T)" and "s' \<in> set (t_slots T)"
    and "slot_key s = Some k" and "slot_key s' = Some k"
  shows "s = s'"
proof -
  from assms have "s \<in> set (grants (t_slots T))" "s' \<in> set (grants (t_slots T))"
    by (auto simp: grants_def dest: key_not_static)
  with assms show ?thesis
    unfolding tbl_inv_def distinct_map by (metis inj_onD)
qed

text \<open>Keeping some of the slots, in any order, keeps the invariant.\<close>

lemma tbl_inv_sub:
  assumes "tbl_inv T" and "mset ss \<subseteq># mset (t_slots T)"
  shows "tbl_inv (T\<lparr>t_slots := ss\<rparr>)"
proof -
  from assms(2) have "mset (grants ss) \<subseteq># mset (grants (t_slots T))"
    by (simp add: grants_def multiset_filter_mono)
  moreover from assms(2) have "set ss \<subseteq> set (t_slots T)"
    by (metis set_mset_mono set_mset_mset)
  ultimately show ?thesis
    using assms by (auto simp: tbl_inv_def intro: distinct_map_mset)
qed

lemma tbl_inv_filter: "tbl_inv T \<Longrightarrow> tbl_inv (T\<lparr>t_slots := filter P (t_slots T)\<rparr>)"
  by (rule tbl_inv_sub) (simp_all add: multiset_filter_subset)

text \<open>Replacing a slot by one with the same key keeps it as long as the port does not clash.\<close>

lemma map_update_same: "i < length xs \<Longrightarrow> f y = f (xs ! i) \<Longrightarrow> map f (xs[i := y]) = map f xs"
  by (metis list_update_id map_update)

lemma grants_update:
  assumes "i < length ss" and "is_static s \<longleftrightarrow> is_static (ss ! i)"
    and "slot_key s = slot_key (ss ! i)"
  shows "map slot_key (grants (ss[i := s])) = map slot_key (grants ss)"
  using assms
proof (induction ss arbitrary: i)
  case (Cons x ss)
  then show ?case by (cases i) (auto simp: grants_def)
qed simp

lemma tbl_inv_update:
  assumes "tbl_inv T" and "i < length (t_slots T)" and "slot_key s = slot_key (t_slots T ! i)"
    and "s_bind_port s = s_bind_port (t_slots T ! i)
      \<or> pa_contains (t_allocator T) (s_bind_port s) \<and> s_bind_port s \<notin> bound_ports T"
  shows "tbl_inv (T\<lparr>t_slots := (t_slots T)[i := s]\<rparr>)"
proof -
  let ?ss = "t_slots T"
  have st: "is_static s \<longleftrightarrow> is_static (?ss ! i)" using assms(3) by (metis slot_key_None)
  have d: "distinct (map s_bind_port (?ss[i := s]))"
  proof (cases "s_bind_port s = s_bind_port (?ss ! i)")
    case True
    with assms show ?thesis by (simp add: map_update_same tbl_inv_def)
  next
    case False
    with assms have "s_bind_port s \<notin> set (map s_bind_port ?ss)" by (auto simp: bound_ports_def)
    with assms(1) show ?thesis by (simp add: map_update tbl_inv_def distinct_list_update)
  qed
  have "pa_contains (t_allocator T) (s_bind_port s)"
    using assms tbl_invD(2) [OF assms(1), of "t_slots T ! i"] by auto
  then have r: "\<forall>x \<in> set (?ss[i := s]). pa_contains (t_allocator T) (s_bind_port x)"
    using assms(1) set_update_subset_insert [of ?ss i s] by (auto simp: tbl_inv_def)
  show ?thesis
    using d r assms(1) grants_update [OF assms(2) st assms(3)] by (simp add: tbl_inv_def)
qed

lemma tbl_inv_push:
  assumes "tbl_inv T" and "pa_contains (t_allocator T) (s_bind_port s)"
    and "s_bind_port s \<notin> bound_ports T"
    and "\<And>k s'. slot_key s = Some k \<Longrightarrow> s' \<in> set (t_slots T) \<Longrightarrow> slot_key s' \<noteq> Some k"
  shows "tbl_inv (T\<lparr>t_slots := t_slots T @ [s]\<rparr>)"
proof -
  have "slot_key s \<noteq> slot_key x" if "\<not> is_static s" "x \<in> set (t_slots T)" for x
    using that assms(4) [of _ x] by (cases "slot_key s") auto
  then have "\<not> is_static s \<Longrightarrow> slot_key s \<notin> slot_key ` set (grants (t_slots T))"
    by (fastforce simp: grants_def)
  with assms(1-3) show ?thesis by (cases "is_static s") (auto simp: tbl_inv_def bound_ports_def grants_def)
qed

text \<open>The invariant does not look at the reserved ports.\<close>

lemma tbl_inv_avoid [simp]: "tbl_inv (T\<lparr>t_avoid := a\<rparr>) \<longleftrightarrow> tbl_inv T"
  by (simp add: tbl_inv_def)

lemma bound_ports_avoid [simp]: "bound_ports (T\<lparr>t_avoid := a\<rparr>) = bound_ports T"
  by (simp add: bound_ports_def)

lemma tbl_inv_new [simp]: "tbl_inv (LeaseTable_new a m q)"
  by (simp add: tbl_inv_def LeaseTable_new_def grants_def)

section \<open>The map from lease keys to slots\<close>

definition leases :: "LeaseTable \<Rightarrow> pcp_key \<Rightarrow> Slot option" where
  "leases T k = by_pcp_key k T"

lemma leases_SomeD: "leases T k = Some s \<Longrightarrow> s \<in> set (t_slots T) \<and> slot_key s = Some k"
  unfolding leases_def by_pcp_key_def by (rule find_SomeD)

lemma leases_Some_iff:
  assumes "tbl_inv T"
  shows "leases T k = Some s \<longleftrightarrow> s \<in> set (t_slots T) \<and> slot_key s = Some k"
proof
  assume s: "s \<in> set (t_slots T) \<and> slot_key s = Some k"
  then obtain s' where "leases T k = Some s'"
    by (cases "leases T k") (auto simp: leases_def by_pcp_key_def find_None_all)
  moreover from leases_SomeD [OF this] s assms have "s' = s" by (metis same_key)
  ultimately show "leases T k = Some s" by simp
qed (rule leases_SomeD)

lemma leases_None_iff: "leases T k = None \<longleftrightarrow> (\<forall>s \<in> set (t_slots T). slot_key s \<noteq> Some k)"
  unfolding leases_def by_pcp_key_def find_None_all ..

lemma leases_eqI:
  assumes "tbl_inv T" and "\<And>s. s \<in> set (t_slots T) \<and> slot_key s = Some k \<longleftrightarrow> m = Some s"
  shows "leases T k = m"
proof (cases m)
  case None
  with assms(2) show ?thesis by (simp add: leases_None_iff)
next
  case (Some s)
  with assms show ?thesis by (simp add: leases_Some_iff)
qed

lemma index_of_key_Some:
  assumes "tbl_inv T" and "index_of_key k T = Some i"
  shows "i < length (t_slots T)" "leases T k = Some (t_slots T ! i)"
  using position_SomeD [OF assms(2) [unfolded index_of_key_def]] assms(1)
  by (auto simp: leases_Some_iff)

lemma index_of_key_None: "index_of_key k T = None \<longleftrightarrow> leases T k = None"
  by (simp add: index_of_key_def leases_def by_pcp_key_def position_None_find)

text \<open>Filtering, removing, replacing and appending slots, as operations on that map.\<close>

lemma leases_filter:
  assumes "tbl_inv T"
  shows "leases (T\<lparr>t_slots := filter P (t_slots T)\<rparr>) k =
    (case leases T k of Some s \<Rightarrow> if P s then Some s else None | None \<Rightarrow> None)"
proof (rule leases_eqI [OF tbl_inv_filter [OF assms]])
  fix s
  show "s \<in> set (t_slots (T\<lparr>t_slots := filter P (t_slots T)\<rparr>)) \<and> slot_key s = Some k \<longleftrightarrow>
    (case leases T k of Some s \<Rightarrow> if P s then Some s else None | None \<Rightarrow> None) = Some s"
  proof (cases "leases T k")
    case None
    then have "s \<in> set (t_slots T) \<Longrightarrow> slot_key s \<noteq> Some k" by (simp add: leases_None_iff)
    with None show ?thesis by auto
  next
    case (Some s')
    then have "s \<in> set (t_slots T) \<and> slot_key s = Some k \<longleftrightarrow> s' = s"
      using leases_Some_iff [OF assms, of k s] by auto
    with Some show ?thesis by auto
  qed
qed

lemma set_update_nth:
  "i < length xs \<Longrightarrow> distinct xs \<Longrightarrow> set (xs[i := y]) = insert y (set xs - {xs ! i})"
  by (simp add: set_update_distinct)

lemma leases_update:
  assumes "tbl_inv T" and "leases T k = Some (t_slots T ! i)" and "i < length (t_slots T)"
    and "slot_key s = Some k"
    and "tbl_inv (T\<lparr>t_slots := (t_slots T)[i := s]\<rparr>)"
  shows "leases (T\<lparr>t_slots := (t_slots T)[i := s]\<rparr>) = (leases T)(k \<mapsto> s)"
proof
  fix k'
  have "distinct (t_slots T)" using assms(1) by (auto simp: tbl_inv_def distinct_map)
  moreover have "slot_key (t_slots T ! i) = Some k" using leases_SomeD [OF assms(2)] by simp
  ultimately show "leases (T\<lparr>t_slots := (t_slots T)[i := s]\<rparr>) k' = ((leases T)(k \<mapsto> s)) k'"
    using assms
    by (intro leases_eqI) (auto simp: set_update_nth leases_Some_iff dest: same_key)
qed

lemma leases_push:
  assumes "tbl_inv (T\<lparr>t_slots := t_slots T @ [s]\<rparr>)" and "tbl_inv T" and "slot_key s = Some k"
    and "leases T k = None"
  shows "leases (T\<lparr>t_slots := t_slots T @ [s]\<rparr>) = (leases T)(k \<mapsto> s)"
proof (rule ext, rule leases_eqI [OF assms(1)])
  fix k' s'
  have "slot_key s' \<noteq> Some k" if "s' \<in> set (t_slots T)" for s'
    using assms(4) that by (simp add: leases_None_iff)
  then show "s' \<in> set (t_slots (T\<lparr>t_slots := t_slots T @ [s]\<rparr>)) \<and> slot_key s' = Some k' \<longleftrightarrow>
      ((leases T)(k \<mapsto> s)) k' = Some s'"
    using assms(3) by (auto simp: leases_Some_iff [OF assms(2)])
qed

section \<open>The operations keep the invariant\<close>

lemma upsert_inv: "tbl_inv T \<Longrightarrow> tbl_inv (snd (upsert_pcp pr ip c l now tg tp T))"
proof -
  assume inv: "tbl_inv T"
  show ?thesis
  proof (cases "index_of_key (pr, ip, c) T")
    case None
    then have "\<forall>s \<in> set (t_slots T). slot_key s \<noteq> Some (pr, ip, c)"
      by (simp add: index_of_key_None leases_None_iff)
    with inv None show ?thesis
      by (auto simp: upsert_pcp_def find_free_Some port_free_def slot_key_def fresh_lease_def
          bound_ports_def intro!: tbl_inv_push split: option.split)
  next
    case (Some i)
    from index_of_key_Some [OF inv Some] leases_SomeD
    have "i < length (t_slots T)" "slot_key (t_slots T ! i) = Some (pr, ip, c)" by blast+
    moreover from this have "s_proto (t_slots T ! i) = pr"
      by (simp add: slot_key_def split: Lease.splits)
    ultimately show ?thesis using Some inv
      by (auto simp: upsert_pcp_def Let_def slot_key_def fresh_lease_def intro!: tbl_inv_update)
  qed
qed

lemma insert_static_inv: "tbl_inv T \<Longrightarrow> tbl_inv (snd (insert_static p ip port T))"
  by (auto simp: insert_static_def by_bind_port_def find_None_all bound_ports_def slot_key_def
      intro!: tbl_inv_push)

lemma delete_eq_filter:
  assumes "tbl_inv T"
  shows "set (t_slots (snd (delete_by_bind_port p T))) = {s \<in> set (t_slots T). s_bind_port s \<noteq> p}"
proof (cases "position (\<lambda>s. s_bind_port s = p) (t_slots T)")
  case None
  then have "\<forall>s \<in> set (t_slots T). s_bind_port s \<noteq> p" by (simp add: position_None_iff)
  with None show ?thesis by (auto simp: delete_by_bind_port_def)
next
  case (Some i)
  from position_SomeD [OF Some] show ?thesis
    using Some set_swap_remove_distinct [of i "t_slots T" s_bind_port] tbl_invD(1) [OF assms]
    by (simp add: delete_by_bind_port_def)
qed

lemma delete_inv: "tbl_inv T \<Longrightarrow> tbl_inv (snd (delete_by_bind_port p T))"
  by (auto simp: delete_by_bind_port_def mset_swap_remove dest!: position_SomeD
      intro: tbl_inv_sub split: option.split)

lemma gc_inv: "tbl_inv T \<Longrightarrow> tbl_inv (snd (gc now grace T))"
  by (simp add: gc_def tbl_inv_filter)

lemma gc_idle_inv: "tbl_inv T \<Longrightarrow> tbl_inv (snd (gc_idle now backstop T))"
  by (simp add: gc_idle_def tbl_inv_filter)

lemma slot_key_stamp [simp]: "slot_key (s\<lparr>s_last_activity := n\<rparr>) = slot_key s"
  "slot_key (s\<lparr>s_bind_port := p\<rparr>) = slot_key s"
  by (cases "s_lease s"; simp add: slot_key_def)+

lemma stamp_inv: "tbl_inv T \<Longrightarrow> tbl_inv (stamp_activity_if_stale p now m T)"
  by (auto simp: stamp_activity_if_stale_def dest!: position_SomeD intro: tbl_inv_update
      split: option.split)

lemma avoid_inv: "tbl_inv T \<Longrightarrow> tbl_inv (avoid_ports live T)"
  by (simp add: avoid_ports_def)

text \<open>A move takes a port that is free with the old one reserved.\<close>

definition reserve :: "u16 \<Rightarrow> LeaseTable \<Rightarrow> LeaseTable" where
  "reserve p T = (if p \<notin> set (t_avoid T) then T\<lparr>t_avoid := sort (t_avoid T @ [p])\<rparr> else T)"

lemma reserve_frame [simp]: "t_slots (reserve p T) = t_slots T"
  "t_allocator (reserve p T) = t_allocator T" "set (t_avoid (reserve p T)) = insert p (set (t_avoid T))"
  "tbl_inv (reserve p T) \<longleftrightarrow> tbl_inv T" "bound_ports (reserve p T) = bound_ports T"
  by (auto simp: reserve_def)

lemma move_cases:
  obtains (absent) "old \<notin> bound_ports T" "move_bind_port old T = (None, T)"
  | (exhausted) "old \<in> bound_ports T" "\<forall>q. \<not> port_free (reserve old T) q"
      "move_bind_port old T = (None, reserve old T)"
  | (moved) i new where "i < length (t_slots T)" "s_bind_port (t_slots T ! i) = old"
      "position (\<lambda>s. s_bind_port s = old) (t_slots T) = Some i"
      "port_free (reserve old T) new" "\<forall>q < new. \<not> port_free (reserve old T) q"
      "move_bind_port old T = (Some new, set_bind_port i new (reserve old T))"
proof (cases "position (\<lambda>s. s_bind_port s = old) (t_slots T)")
  case None
  then have "old \<notin> bound_ports T" by (auto simp: position_None_iff bound_ports_def)
  with None show ?thesis using absent by (simp add: move_bind_port_def)
next
  case (Some i)
  note i = position_SomeD [OF Some]
  then have b: "old \<in> bound_ports T" by (force simp: bound_ports_def)
  show ?thesis
  proof (cases "find_free_bind_port (reserve old T)")
    case None
    have "move_bind_port old T = (None, reserve old T)"
      using Some None by (simp add: move_bind_port_def reserve_def [symmetric] Let_def)
    with None b show ?thesis by (intro exhausted) (simp_all add: find_free_None)
  next
    case free: (Some new)
    have "move_bind_port old T = (Some new, set_bind_port i new (reserve old T))"
      using Some free by (simp add: move_bind_port_def reserve_def [symmetric] Let_def)
    with Some i free show ?thesis by (intro moved) (auto simp: find_free_Some)
  qed
qed

lemma set_bind_port_inv:
  assumes "tbl_inv T" and "i < length (t_slots T)" and "pa_contains (t_allocator T) p"
    and "p \<notin> bound_ports T"
  shows "tbl_inv (set_bind_port i p T)"
  unfolding set_bind_port_def using assms by (intro tbl_inv_update) simp_all

lemma move_inv: "tbl_inv T \<Longrightarrow> tbl_inv (snd (move_bind_port old T))"
  by (cases rule: move_cases [of old T])
    (auto simp: port_free_def bound_ports_def intro!: set_bind_port_inv)

text \<open>A move that cannot be completed is undone by \<open>restore_bind_port\<close>.\<close>

lemma position_update_fresh:
  "i < length xs \<Longrightarrow> P y \<Longrightarrow> \<forall>x \<in> set xs. \<not> P x \<Longrightarrow> position P (xs[i := y]) = Some i"
  by (induction xs arbitrary: i) (auto split: nat.split)

lemma slot_port_back: "s_bind_port s = p \<Longrightarrow> s\<lparr>s_bind_port := p\<rparr> = s"
  by (cases s) simp

lemma move_back:
  assumes "move_bind_port old T = (Some new, T1)"
  shows "restore_bind_port new old T1 = reserve old T"
proof (cases rule: move_cases [of old T])
  case (moved i new')
  with assms have T1: "T1 = set_bind_port i new (reserve old T)" and n: "new' = new" by auto
  from moved n have "\<forall>s \<in> set (t_slots T). s_bind_port s \<noteq> new"
    by (auto simp: port_free_def)
  with moved(1) have "position (\<lambda>s. s_bind_port s = new)
      ((t_slots T)[i := (t_slots T ! i)\<lparr>s_bind_port := new\<rparr>]) = Some i"
    by (intro position_update_fresh) simp_all
  then show ?thesis
    using moved(1) slot_port_back [OF moved(2)] unfolding T1 restore_bind_port_def set_bind_port_def
    by simp
qed (use assms in simp_all)

section \<open>The machine\<close>

datatype tbl_op =
    Upsert Proto u16 ipv4 u32 u64 ipv4 u16
  | InsertStatic u16 ipv4 u16
  | Delete u16
  | Gc u64 u64
  | GcIdle u64 u64
  | Stamp u16 u64 u64
  | Avoid "u16 list"
  | Move u16
  | MoveBack u16

definition move_and_back :: "u16 \<Rightarrow> LeaseTable \<Rightarrow> LeaseTable" where
  "move_and_back old T = (case move_bind_port old T of
     (Some new, T1) \<Rightarrow> restore_bind_port new old T1 | (None, T1) \<Rightarrow> T1)"

fun tbl_step :: "tbl_op \<Rightarrow> LeaseTable \<Rightarrow> LeaseTable" where
  "tbl_step (Upsert pr ip c l now tg tp) T = snd (upsert_pcp pr ip c l now tg tp T)"
| "tbl_step (InsertStatic p ip port) T = snd (insert_static p ip port T)"
| "tbl_step (Delete p) T = snd (delete_by_bind_port p T)"
| "tbl_step (Gc now grace) T = snd (gc now grace T)"
| "tbl_step (GcIdle now backstop) T = snd (gc_idle now backstop T)"
| "tbl_step (Stamp p now m) T = stamp_activity_if_stale p now m T"
| "tbl_step (Avoid live) T = avoid_ports live T"
| "tbl_step (Move old) T = snd (move_bind_port old T)"
| "tbl_step (MoveBack old) T = move_and_back old T"

lemma move_and_back_eq:
  "old \<in> bound_ports T \<Longrightarrow> move_and_back old T = reserve old T"
  "old \<notin> bound_ports T \<Longrightarrow> move_and_back old T = T"
  by (cases rule: move_cases [of old T];
      force simp: move_and_back_def bound_ports_def dest: move_back)+

lemma move_and_back_inv: "tbl_inv T \<Longrightarrow> tbl_inv (move_and_back old T)"
  by (cases "old \<in> bound_ports T") (simp_all add: move_and_back_eq)

lemmas op_invs = upsert_inv insert_static_inv delete_inv gc_inv gc_idle_inv stamp_inv avoid_inv move_inv

interpretation table: machine tbl_step tbl_inv
proof
  fix T x assume "tbl_inv T"
  then show "tbl_inv (tbl_step x T)"
    by (cases x) (simp_all add: op_invs move_and_back_inv)
qed

end
