(* ===== verification/Lease_Props.thy ===== *)
theory Lease_Props
  imports Slot_Facts
begin

text \<open>
  The properties of the lease table, and the interface \<open>lease_store\<close> that the grant surfaces
  and the boot path use: which port a lease holds, which ports are bound, and what releasing
  ports does. The interface is interpreted on the table of \<open>Slot_Table\<close>.
\<close>

section \<open>The interface of the table\<close>

locale lease_store =
  fixes inv :: "'t \<Rightarrow> bool"
    and lookup :: "'t \<Rightarrow> 'k \<Rightarrow> 'p option"
    and bound :: "'t \<Rightarrow> 'p set"
    and release :: "'p \<Rightarrow> 't \<Rightarrow> 't"
  assumes lookup_bound: "inv t \<Longrightarrow> lookup t k = Some p \<Longrightarrow> p \<in> bound t"
    and lookup_inj: "inv t \<Longrightarrow> lookup t k = Some p \<Longrightarrow> lookup t k' = Some p \<Longrightarrow> k = k'"
    and release_inv: "inv t \<Longrightarrow> inv (release p t)"
    and release_bound: "inv t \<Longrightarrow> bound (release p t) = bound t - {p}"
    and release_lookup: "inv t \<Longrightarrow>
      lookup (release p t) k = (if lookup t k = Some p then None else lookup t k)"
begin

lemma release_all_inv: "inv t \<Longrightarrow> inv (fold release ps t)"
  by (induction ps arbitrary: t) (simp_all add: release_inv)

lemma release_all_bound: "inv t \<Longrightarrow> bound (fold release ps t) = bound t - set ps"
  by (induction ps arbitrary: t) (auto simp: release_inv release_bound)

lemma release_all_lookup:
  "inv t \<Longrightarrow> lookup (fold release ps t) k =
     (case lookup t k of Some p \<Rightarrow> if p \<in> set ps then None else Some p | None \<Rightarrow> None)"
proof (induction ps arbitrary: t)
  case (Cons p ps)
  then show ?case
    by (auto simp: release_inv release_lookup split: option.split)
qed (simp split: option.split)

lemma other_keys_kept:
  "inv t \<Longrightarrow> lookup t k = Some p \<Longrightarrow> k' \<noteq> k \<Longrightarrow> lookup (release p t) k' = lookup t k'"
  by (simp add: release_lookup) (metis lookup_inj)

end

definition lease_port :: "LeaseTable \<Rightarrow> pcp_key \<Rightarrow> u16 option" where
  "lease_port T k = map_option s_bind_port (leases T k)"

definition release_port :: "u16 \<Rightarrow> LeaseTable \<Rightarrow> LeaseTable" where
  "release_port p T = snd (delete_by_bind_port p T)"

lemma leases_release:
  assumes "tbl_inv T"
  shows "leases (release_port p T) k =
    (case leases T k of Some s \<Rightarrow> if s_bind_port s \<noteq> p then Some s else None | None \<Rightarrow> None)"
proof (unfold release_port_def, rule leases_eqI [OF delete_inv [OF assms]])
  fix s
  show "s \<in> set (t_slots (snd (delete_by_bind_port p T))) \<and> slot_key s = Some k \<longleftrightarrow>
    (case leases T k of Some s \<Rightarrow> if s_bind_port s \<noteq> p then Some s else None | None \<Rightarrow> None) = Some s"
  proof (cases "leases T k")
    case None
    then have "s \<in> set (t_slots T) \<Longrightarrow> slot_key s \<noteq> Some k" by (simp add: leases_None_iff)
    with None show ?thesis by (auto simp: delete_eq_filter [OF assms])
  next
    case (Some s')
    then have "s \<in> set (t_slots T) \<and> slot_key s = Some k \<longleftrightarrow> s' = s"
      using leases_Some_iff [OF assms, of k s] by auto
    with Some show ?thesis by (auto simp: delete_eq_filter [OF assms])
  qed
qed

interpretation store: lease_store tbl_inv lease_port bound_ports release_port
proof
  fix T :: LeaseTable and p k k' assume inv: "tbl_inv T"
  show "tbl_inv (release_port p T)" using inv by (simp add: release_port_def delete_inv)
  show "bound_ports (release_port p T) = bound_ports T - {p}"
    by (auto simp: bound_ports_def release_port_def delete_eq_filter [OF inv])
  show "lease_port (release_port p T) k = (if lease_port T k = Some p then None else lease_port T k)"
    by (auto simp: lease_port_def leases_release [OF inv] split: option.splits)
  show "lease_port T k = Some p \<Longrightarrow> p \<in> bound_ports T"
    by (auto simp: lease_port_def bound_ports_def dest: leases_SomeD)
  assume "lease_port T k = Some p" and "lease_port T k' = Some p"
  then obtain s s' where s: "leases T k = Some s" "s_bind_port s = p"
    "leases T k' = Some s'" "s_bind_port s' = p"
    by (auto simp: lease_port_def)
  then have "s = s'" using same_port [OF inv] by (auto dest!: leases_SomeD)
  with s show "k = k'" by (auto dest!: leases_SomeD)
qed

section \<open>Properties of the table\<close>

text \<open>C13 (invariant): no sequence of grants, refreshes, static inserts, deletions, collections,
  moves, undone moves, activity stamps and reservations makes two slots share a bind port,
  binds a port outside the configured range, or gives one lease key two slots.\<close>

theorem table_stays_sound:
  "let T = fold tbl_step ops (LeaseTable_new a m q)
   in distinct (map s_bind_port (t_slots T))
      \<and> (\<forall>s \<in> set (t_slots T). pa_contains (t_allocator T) (s_bind_port s))
      \<and> distinct (map slot_key (filter (\<lambda>s. \<not> is_static s) (t_slots T)))"
proof -
  have "tbl_inv (fold tbl_step ops (LeaseTable_new a m q))"
    by (rule table.run_inv) simp
  then show ?thesis by (simp add: tbl_inv_def grants_def Let_def)
qed

theorem table_stays_sound_witness:
  "let T = fold tbl_step [InsertStatic 5001 9 80, Upsert Udp 7 3 60 100 3 7, Upsert Tcp 7 3 60 100 3 7,
        Move 5000, Delete 5001, Gc 1000 5] (LeaseTable_new \<lparr>pa_lo = 5000, pa_hi = 5003\<rparr> 4 4)
   in distinct (map s_bind_port (t_slots T))
      \<and> (\<forall>s \<in> set (t_slots T). pa_contains (t_allocator T) (s_bind_port s))
      \<and> distinct (map slot_key (filter (\<lambda>s. \<not> is_static s) (t_slots T)))"
  by (rule table_stays_sound)

text \<open>The key of a lease that \<open>fresh_lease\<close> makes.\<close>

lemma slot_key_fresh: "s_lease s = fresh_lease c ip l now \<Longrightarrow> slot_key s = Some (s_proto s, ip, c)"
  by (simp add: slot_key_def fresh_lease_def)

lemma bound_ports_update:
  "i < length (t_slots T) \<Longrightarrow> s_bind_port s = s_bind_port (t_slots T ! i) \<Longrightarrow>
     bound_ports (T\<lparr>t_slots := (t_slots T)[i := s]\<rparr>) = bound_ports T"
  using map_update_same [of i "t_slots T" s_bind_port s]
  by (simp add: bound_ports_def flip: set_map)

lemma upsert_refresh:
  assumes "tbl_inv T" and "leases T (pr, ip, c) = Some s"
  shows "\<exists>T'. upsert_pcp pr ip c l now tg tp T = (Refreshed_at (s_bind_port s), T')
    \<and> leases T' = (leases T)((pr, ip, c) \<mapsto>
        s\<lparr>s_lease := fresh_lease c ip l now, s_last_activity := now\<rparr>)
    \<and> bound_ports T' = bound_ports T"
proof -
  from assms(2) obtain i where i: "index_of_key (pr, ip, c) T = Some i"
    by (cases "index_of_key (pr, ip, c) T") (auto simp: index_of_key_None)
  note f = index_of_key_Some [OF assms(1) i]
  with assms have s: "t_slots T ! i = s" by simp
  define s1 where "s1 = s\<lparr>s_lease := fresh_lease c ip l now, s_last_activity := now\<rparr>"
  have "slot_key s = Some (pr, ip, c)" using assms(2) leases_SomeD by blast
  then have "s_proto s = pr" by (simp add: slot_key_def split: Lease.splits)
  then have k: "slot_key s1 = Some (pr, ip, c)" by (simp add: slot_key_fresh s1_def)
  have u: "upsert_pcp pr ip c l now tg tp T =
      (Refreshed_at (s_bind_port s), T\<lparr>t_slots := (t_slots T)[i := s1]\<rparr>)"
    by (simp add: upsert_pcp_def i s Let_def s1_def)
  have "tbl_inv (T\<lparr>t_slots := (t_slots T)[i := s1]\<rparr>)"
    using upsert_inv [OF assms(1), of pr ip c l now tg tp] by (simp add: u)
  from leases_update [OF assms(1) f(2,1) k this] u f(1) s show ?thesis
    by (simp add: bound_ports_update s1_def)
qed

lemma upsert_grant:
  assumes "tbl_inv T" and "leases T (pr, ip, c) = None"
    and "count_for_client c T < unat (t_max_maps_per_client T)" and "\<not> is_full T"
    and "find_free_bind_port T = Some p"
  shows "\<exists>T'. upsert_pcp pr ip c l now tg tp T = (Granted_at p, T')
    \<and> leases T' = (leases T)((pr, ip, c) \<mapsto> \<lparr>s_bind_port = p, s_proto = pr, s_target = tg,
        s_target_port = tp, s_lease = fresh_lease c ip l now, s_phase_ms = 0,
        s_last_activity = now\<rparr>)
    \<and> bound_ports T' = insert p (bound_ports T)"
proof -
  let ?s = "\<lparr>s_bind_port = p, s_proto = pr, s_target = tg, s_target_port = tp,
    s_lease = fresh_lease c ip l now, s_phase_ms = 0, s_last_activity = now\<rparr>"
  have u: "upsert_pcp pr ip c l now tg tp T = (Granted_at p, T\<lparr>t_slots := t_slots T @ [?s]\<rparr>)"
    using assms index_of_key_None [of "(pr, ip, c)" T] by (simp add: upsert_pcp_def)
  have "tbl_inv (T\<lparr>t_slots := t_slots T @ [?s]\<rparr>)"
    using upsert_inv [OF assms(1), of pr ip c l now tg tp] by (simp add: u)
  from leases_push [OF this assms(1) _ assms(2)] u show ?thesis
    by (simp add: slot_key_fresh bound_ports_def)
qed

text \<open>C2 (refinement): granting implements an update of the abstract map from lease keys to
  slots, on every branch. A known key is refreshed in place and keeps its port and target; an
  unknown key gets the lowest free port of the range if the client is below its quota and the
  table has room; otherwise nothing changes, and the reported reason is the true one.\<close>

theorem upsert_refines_map:
  assumes "tbl_inv T" and "upsert_pcp pr ip c l now tg tp T = (r, T')"
  shows "case r of
      Refreshed_at p \<Rightarrow> \<exists>s. leases T (pr, ip, c) = Some s \<and> s_bind_port s = p
        \<and> leases T' = (leases T)((pr, ip, c) \<mapsto>
            s\<lparr>s_lease := fresh_lease c ip l now, s_last_activity := now\<rparr>)
        \<and> bound_ports T' = bound_ports T
    | Granted_at p \<Rightarrow> leases T (pr, ip, c) = None
        \<and> count_for_client c T < unat (t_max_maps_per_client T) \<and> \<not> is_full T
        \<and> port_free T p \<and> (\<forall>q < p. \<not> port_free T q)
        \<and> leases T' = (leases T)((pr, ip, c) \<mapsto> \<lparr>s_bind_port = p, s_proto = pr,
            s_target = tg, s_target_port = tp, s_lease = fresh_lease c ip l now,
            s_phase_ms = 0, s_last_activity = now\<rparr>)
        \<and> bound_ports T' = insert p (bound_ports T)
    | UserQuotaExceeded \<Rightarrow> T' = T \<and> leases T (pr, ip, c) = None
        \<and> unat (t_max_maps_per_client T) \<le> count_for_client c T
    | TableFull \<Rightarrow> T' = T \<and> leases T (pr, ip, c) = None
        \<and> (is_full T \<or> (\<forall>p. \<not> port_free T p))"
proof (cases "leases T (pr, ip, c)")
  case (Some s)
  from upsert_refresh [OF assms(1) this, of l now tg tp] assms(2) Some show ?thesis by auto
next
  case None
  then have i: "index_of_key (pr, ip, c) T = None" by (simp add: index_of_key_None)
  consider (quota) "unat (t_max_maps_per_client T) \<le> count_for_client c T"
    | (full) "count_for_client c T < unat (t_max_maps_per_client T)" "is_full T"
    | (none) "count_for_client c T < unat (t_max_maps_per_client T)" "\<not> is_full T"
        "find_free_bind_port T = None"
    | (grant) p where "count_for_client c T < unat (t_max_maps_per_client T)" "\<not> is_full T"
        "find_free_bind_port T = Some p"
    by (cases "find_free_bind_port T") fastforce+
  then show ?thesis
  proof cases
    case grant
    from upsert_grant [OF assms(1) None this, of l now tg tp] assms(2) grant None show ?thesis
      by (auto simp: find_free_Some)
  next
    case none
    moreover from this have "\<forall>p. \<not> port_free T p" by (simp add: find_free_None)
    ultimately show ?thesis using assms(2) i None by (auto simp: upsert_pcp_def)
  qed (use assms(2) i None in \<open>auto simp: upsert_pcp_def\<close>)
qed

theorem upsert_refines_map_witness:
  "let T = LeaseTable_new \<lparr>pa_lo = 5000, pa_hi = 5001\<rparr> 4 4
   in port_free T 5000 \<and> (\<forall>q < 5000. \<not> port_free T q)"
proof -
  let ?T = "LeaseTable_new \<lparr>pa_lo = 5000, pa_hi = 5001\<rparr> 4 4"
  have "fst (upsert_pcp Udp 7 3 60 100 3 7 ?T) = Granted_at 5000" by code_simp
  then have "upsert_pcp Udp 7 3 60 100 3 7 ?T =
      (Granted_at 5000, snd (upsert_pcp Udp 7 3 60 100 3 7 ?T))"
    by (metis prod.collapse)
  from upsert_refines_map [OF tbl_inv_new this] show ?thesis by (simp add: Let_def)
qed

lemma gc_keeps_iff:
  "gc_keeps now grace s \<longleftrightarrow> \<not> (\<exists>c ip l e. s_lease s = Granted c ip l e
     \<and> unat e + unat grace < unat now \<and> unat (s_last_activity s) + unat grace < unat now)"
  by (cases "s_lease s")
    (auto simp: gc_keeps_def is_static_def word_le_nat_alt word_less_nat_alt unat_sat_sub)

lemma lease_after_filter:
  assumes "tbl_inv T"
  shows "leases (T\<lparr>t_slots := filter P (t_slots T)\<rparr>) k =
    (case leases T k of None \<Rightarrow> None | Some s \<Rightarrow>
       if s_bind_port s \<in> s_bind_port ` {s \<in> set (t_slots T). \<not> P s} then None else Some s)"
proof (cases "leases T k")
  case (Some s)
  then have "s \<in> set (t_slots T)" using leases_SomeD by blast
  with same_port [OF assms this] have
    "s_bind_port s \<in> s_bind_port ` {s \<in> set (t_slots T). \<not> P s} \<longleftrightarrow> \<not> P s"
    by (auto simp: image_iff)
  with Some show ?thesis by (simp add: leases_filter [OF assms])
qed (simp add: leases_filter [OF assms])

lemma bound_after_filter:
  "tbl_inv T \<Longrightarrow> bound_ports (T\<lparr>t_slots := filter P (t_slots T)\<rparr>) =
     bound_ports T - s_bind_port ` {s \<in> set (t_slots T). \<not> P s}"
  by (auto simp: bound_ports_def image_iff) (metis same_port)

text \<open>C17 (safety): the collection frees exactly the ports of granted leases that expired more
  than the grace period ago and have had no traffic within it, computed without any wrap-around
  of the clock; a static mapping, an unexpired lease and a busy one stay, and every other lease
  is unchanged.\<close>

theorem gc_frees_exactly:
  assumes "tbl_inv T" and "gc now grace T = (freed, T')"
  shows "set freed = s_bind_port ` {s \<in> set (t_slots T). \<exists>c ip l e. s_lease s = Granted c ip l e
      \<and> unat e + unat grace < unat now \<and> unat (s_last_activity s) + unat grace < unat now}
    \<and> bound_ports T' = bound_ports T - set freed
    \<and> leases T' k = (case leases T k of None \<Rightarrow> None | Some s \<Rightarrow>
        if s_bind_port s \<in> set freed then None else Some s)"
proof -
  have f: "freed = map s_bind_port (filter (\<lambda>s. \<not> gc_keeps now grace s) (t_slots T))"
    and T': "T' = T\<lparr>t_slots := filter (gc_keeps now grace) (t_slots T)\<rparr>"
    using assms(2) by (auto simp: gc_def)
  have sf: "set freed = s_bind_port ` {s \<in> set (t_slots T). \<not> gc_keeps now grace s}"
    by (simp add: f)
  note rest = bound_after_filter [OF assms(1), of "gc_keeps now grace", folded sf T']
    lease_after_filter [OF assms(1), of "gc_keeps now grace" k, folded sf T']
  from sf [unfolded gc_keeps_iff not_not] rest show ?thesis by (intro conjI)
qed

theorem gc_frees_exactly_witness:
  "5000 \<notin> bound_ports (snd (gc 1000 100 (fold tbl_step
      [Upsert Udp 7 3 60 100 3 7, InsertStatic 5001 9 80]
      (LeaseTable_new \<lparr>pa_lo = 5000, pa_hi = 5003\<rparr> 4 4))))"
proof -
  let ?T = "fold tbl_step [Upsert Udp 7 3 60 100 3 7, InsertStatic 5001 9 80]
      (LeaseTable_new \<lparr>pa_lo = 5000, pa_hi = 5003\<rparr> 4 4)"
  have inv: "tbl_inv ?T" by (rule table.run_inv) simp
  have "gc 1000 100 ?T = (fst (gc 1000 100 ?T), snd (gc 1000 100 ?T))" by simp
  note g = gc_frees_exactly [OF inv this]
  have "5000 \<in> set (fst (gc 1000 100 ?T))" by code_simp
  with g show ?thesis by blast
qed

section \<open>Eviction under pressure\<close>

definition evictable :: "u64 \<Rightarrow> u64 \<Rightarrow> ipv4 \<Rightarrow> Slot \<Rightarrow> bool" where
  "evictable now grace requester s \<longleftrightarrow> \<not> is_static s \<and> slot_client s \<noteq> Some requester
     \<and> s_proto s = Udp \<and> unat (s_last_activity s) + unat grace < unat now"

definition evict_best :: "u64 \<Rightarrow> Slot list \<Rightarrow> (u64 \<times> u16 \<times> ipv4 \<times> u16) option \<Rightarrow> bool" where
  "evict_best now es best \<longleftrightarrow> (case best of
     None \<Rightarrow> es = []
   | Some (idle, p, c, ip) \<Rightarrow> \<exists>s \<in> set es. s_bind_port s = p \<and> slot_key s = Some (Udp, ip, c)
       \<and> idle = now - s_last_activity s \<and> (\<forall>s' \<in> set es. s_last_activity s \<le> s_last_activity s'))"

lemma evict_step_skip:
  "\<not> evictable now grace requester s \<Longrightarrow> evict_step now grace requester s best = best"
  by (cases "s_lease s")
    (auto simp: evict_step_def evictable_def is_static_def slot_client_def word_le_nat_alt unat_sat_sub)

lemma evict_step_take:
  assumes "evictable now grace requester s"
  shows "\<exists>c ip. slot_key s = Some (Udp, ip, c) \<and> s_last_activity s \<le> now
    \<and> evict_step now grace requester s best = (case best of
        None \<Rightarrow> Some (now - s_last_activity s, s_bind_port s, c, ip)
      | Some (b, _) \<Rightarrow> if b < now - s_last_activity s
          then Some (now - s_last_activity s, s_bind_port s, c, ip) else best)"
proof -
  from assms obtain c ip l e where g: "s_lease s = Granted c ip l e"
    by (cases "s_lease s") (auto simp: evictable_def is_static_def)
  from assms have le: "s_last_activity s \<le> now" by (simp add: evictable_def word_le_nat_alt)
  from assms have "\<not> sat_sub now grace \<le> s_last_activity s"
    by (auto simp: evictable_def word_le_nat_alt unat_sat_sub)
  with assms g le show ?thesis
    by (auto simp: evict_step_def evictable_def slot_key_def slot_client_def sat_sub_def Let_def
        split: option.split)
qed

lemma idle_less: "(a::u64) \<le> now \<Longrightarrow> b \<le> now \<Longrightarrow> now - a < now - b \<longleftrightarrow> b < a"
  by (auto simp: word_less_nat_alt word_le_nat_alt unat_sub)

lemma evict_fold:
  "evict_best now (filter (evictable now grace requester) ss)
     (fold (evict_step now grace requester) ss None)"
proof (induction ss rule: rev_induct)
  case Nil
  show ?case by (simp add: evict_best_def)
next
  case (snoc s ss)
  let ?b = "fold (evict_step now grace requester) ss None"
  let ?es = "filter (evictable now grace requester) ss"
  show ?case
  proof (cases "evictable now grace requester s")
    case False
    with snoc show ?thesis by (simp add: evict_step_skip)
  next
    case True
    from evict_step_take [OF this, of ?b] obtain c ip where
      k: "slot_key s = Some (Udp, ip, c)" and le: "s_last_activity s \<le> now"
      and st: "evict_step now grace requester s ?b = (case ?b of
        None \<Rightarrow> Some (now - s_last_activity s, s_bind_port s, c, ip)
      | Some (b, _) \<Rightarrow> if b < now - s_last_activity s
          then Some (now - s_last_activity s, s_bind_port s, c, ip) else ?b)" by blast
    show ?thesis
    proof (cases ?b)
      case None
      with snoc True k st show ?thesis by (simp add: evict_best_def)
    next
      case (Some x)
      obtain idle p c' ip' where x: "x = (idle, p, c', ip')" by (cases x)
      with snoc Some obtain w where w: "w \<in> set ?es" "s_bind_port w = p"
        "slot_key w = Some (Udp, ip', c')" "idle = now - s_last_activity w"
        "\<forall>s' \<in> set ?es. s_last_activity w \<le> s_last_activity s'"
        by (auto simp: evict_best_def)
      then have "s_last_activity w \<le> now" by (auto simp: evictable_def word_le_nat_alt)
      from idle_less [OF this le] w True k st Some x show ?thesis
        by (auto simp: evict_best_def intro: order_trans less_imp_le)
    qed
  qed
qed

text \<open>The lease evicted under pressure is a granted UDP lease of another
  client, silent for longer than the grace period, and none that could be evicted has been
  silent for longer; there is no candidate only when no lease qualifies.\<close>

theorem evict_longest_idle:
  "case evict_idle_client now grace requester T of
     None \<Rightarrow> \<forall>s \<in> set (t_slots T). \<not> evictable now grace requester s
   | Some (p, c, ip, pr) \<Rightarrow> pr = Udp \<and> (\<exists>s \<in> set (t_slots T). evictable now grace requester s
       \<and> s_bind_port s = p \<and> slot_key s = Some (Udp, ip, c)
       \<and> (\<forall>s' \<in> set (t_slots T). evictable now grace requester s' \<longrightarrow>
            s_last_activity s \<le> s_last_activity s'))"
  using evict_fold [of now grace requester "t_slots T"]
  by (auto simp: evict_idle_client_def evict_best_def filter_empty_conv split: option.splits)

theorem evict_longest_idle_witness:
  "\<exists>s \<in> set (t_slots (fold tbl_step [Upsert Udp 7 3 60 100 3 7, Upsert Udp 8 4 60 50 4 8]
      (LeaseTable_new \<lparr>pa_lo = 5000, pa_hi = 5003\<rparr> 4 4))). s_bind_port s = 5001"
proof -
  let ?T = "fold tbl_step [Upsert Udp 7 3 60 100 3 7, Upsert Udp 8 4 60 50 4 8]
      (LeaseTable_new \<lparr>pa_lo = 5000, pa_hi = 5003\<rparr> 4 4)"
  have "evict_idle_client 1000 100 9 ?T = Some (5001, 4, 8, Udp)" by code_simp
  with evict_longest_idle [where now = 1000 and grace = 100 and requester = 9 and T = ?T] show ?thesis by auto
qed

section \<open>Yielding a port to a device\<close>

lemma leases_set_port:
  assumes "tbl_inv T" and "i < length (t_slots T)" and "pa_contains (t_allocator T) p"
    and "p \<notin> bound_ports T"
  shows "leases (set_bind_port i p T) k =
    map_option (\<lambda>s. if s = t_slots T ! i then s\<lparr>s_bind_port := p\<rparr> else s) (leases T k)"
proof (rule leases_eqI [OF set_bind_port_inv [OF assms]])
  fix s
  let ?s = "t_slots T ! i" and ?S = "set (t_slots T)"
  have d: "distinct (t_slots T)" using assms(1) by (auto simp: tbl_inv_def distinct_map)
  have S: "set (t_slots (set_bind_port i p T)) = insert (?s\<lparr>s_bind_port := p\<rparr>) (?S - {?s})"
    using assms(2) d by (simp add: set_bind_port_def set_update_nth)
  show "s \<in> set (t_slots (set_bind_port i p T)) \<and> slot_key s = Some k \<longleftrightarrow>
    map_option (\<lambda>s. if s = ?s then s\<lparr>s_bind_port := p\<rparr> else s) (leases T k) = Some s"
  proof (cases "leases T k")
    case None
    then have "\<forall>s \<in> ?S. slot_key s \<noteq> Some k" by (simp add: leases_None_iff)
    with assms(2) None show ?thesis unfolding S by auto
  next
    case (Some s')
    then have eq: "x \<in> ?S \<and> slot_key x = Some k \<longleftrightarrow> s' = x" for x
      using leases_Some_iff [OF assms(1), of k x] by auto
    have "?s \<in> ?S" using assms(2) by simp
    with Some eq [of ?s] eq [of s] eq [of s'] show ?thesis
      unfolding S by (cases "s' = ?s") auto
  qed
qed

text \<open>C24 (functional): a lease whose port a device took moves to the lowest port that is free
  and not reserved, with the taken port reserved; every other lease keeps its port. When the
  move cannot be completed, putting the lease back leaves the slots as they were and the taken
  port reserved.\<close>

theorem move_yields_port:
  assumes "tbl_inv T" and "move_bind_port old T = (Some new, T1)"
  shows "old \<in> bound_ports T \<and> new \<noteq> old
    \<and> port_free (reserve old T) new \<and> (\<forall>q < new. \<not> port_free (reserve old T) q)
    \<and> lease_port T1 k = (if lease_port T k = Some old then Some new else lease_port T k)
    \<and> old \<in> set (t_avoid T1) \<and> restore_bind_port new old T1 = reserve old T"
proof (cases rule: move_cases [of old T])
  case (moved i new')
  with assms have T1: "T1 = set_bind_port i new (reserve old T)" and n: "new' = new" by auto
  let ?R = "reserve old T" and ?s = "t_slots T ! i"
  from moved n have f: "pa_contains (t_allocator ?R) new" "new \<notin> bound_ports ?R" "new \<noteq> old"
    by (auto simp: port_free_def bound_ports_def)
  have "leases T1 k = map_option (\<lambda>s. if s = ?s then s\<lparr>s_bind_port := new\<rparr> else s) (leases ?R k)"
    unfolding T1 using leases_set_port [of ?R i new] f assms(1) moved(1) by simp
  moreover have "leases ?R k = leases T k" by (simp add: leases_def by_pcp_key_def)
  moreover have "s = ?s \<longleftrightarrow> s_bind_port s = old" if "leases T k = Some s" for s
    using same_port [OF assms(1), of s ?s] leases_SomeD [OF that] moved(1,2) by auto
  ultimately have "lease_port T1 k = (if lease_port T k = Some old then Some new else lease_port T k)"
    by (cases "leases T k") (auto simp: lease_port_def)
  moreover have "old \<in> bound_ports T" using moved(1,2) by (force simp: bound_ports_def)
  moreover have "old \<in> set (t_avoid T1)" unfolding T1 by (simp add: set_bind_port_def)
  ultimately show ?thesis using moved n f move_back [OF assms(2)] by simp
qed (use assms in simp_all)

theorem move_yields_port_witness:
  "lease_port (snd (move_bind_port 5000 (snd (upsert_pcp Udp 7 3 60 100 3 7
      (LeaseTable_new \<lparr>pa_lo = 5000, pa_hi = 5003\<rparr> 4 4))))) (Udp, 7, 3) = Some 5001"
proof -
  let ?T = "snd (upsert_pcp Udp 7 3 60 100 3 7 (LeaseTable_new \<lparr>pa_lo = 5000, pa_hi = 5003\<rparr> 4 4))"
  have inv: "tbl_inv ?T" by (rule upsert_inv) simp
  have "fst (move_bind_port 5000 ?T) = Some 5001" by code_simp
  then have "move_bind_port 5000 ?T = (Some 5001, snd (move_bind_port 5000 ?T))"
    by (metis prod.collapse)
  from move_yields_port [OF inv this, of "(Udp, 7, 3)"]
  have "lease_port (snd (move_bind_port 5000 ?T)) (Udp, 7, 3) =
    (if lease_port ?T (Udp, 7, 3) = Some 5000 then Some 5001 else lease_port ?T (Udp, 7, 3))" by blast
  moreover have "lease_port ?T (Udp, 7, 3) = Some 5000" by code_simp
  ultimately show ?thesis by simp
qed

end
