(* ===== verification/Persist.thy ===== *)
theory Persist
  imports Lease_Props Text
begin

text \<open>
  The persisted state (\<open>src/src/persist.rs\<close>): the epoch file, the projection of the table, the
  rows of \<open>leases.tsv\<close> and their reader, and the boot path of \<open>src/src/main.rs\<close> that restores
  the table from them. A file is its text, \<open>None\<close> when it cannot be read.
\<close>

text \<open>The epoch kept, and what is written to the file when there was none.\<close>

definition load_epoch :: "string option \<Rightarrow> u64 \<Rightarrow> u64 \<times> string option" where
  "load_epoch file now = (case file of
     Some s \<Rightarrow> (case parse_word (trim s) of Some e \<Rightarrow> e | None \<Rightarrow> now, None)
   | None \<Rightarrow> (now, Some (show_word now @ [nl])))"

record PersistedSlot =
  ps_bind_port :: u16
  ps_proto :: u8
  ps_kind :: u8
  ps_client :: ipv4
  ps_int_port :: u16
  ps_ext_port :: u16
  ps_granted_lifetime :: u32
  ps_expires_at :: u64
  ps_created_at :: u64

definition snapshot_row :: "u64 \<Rightarrow> Slot \<Rightarrow> PersistedSlot" where
  "snapshot_row now s = (case s_lease s of
     Static \<Rightarrow> \<lparr>ps_bind_port = s_bind_port s, ps_proto = proto_code (s_proto s), ps_kind = 0,
       ps_client = 0, ps_int_port = 0, ps_ext_port = 0, ps_granted_lifetime = 0,
       ps_expires_at = 0, ps_created_at = now\<rparr>
   | Granted client int_port lifetime expires \<Rightarrow> \<lparr>ps_bind_port = s_bind_port s,
       ps_proto = proto_code (s_proto s), ps_kind = 1, ps_client = client,
       ps_int_port = int_port, ps_ext_port = 0, ps_granted_lifetime = lifetime,
       ps_expires_at = expires, ps_created_at = now\<rparr>)"

definition snapshot :: "Slot list \<Rightarrow> u64 \<Rightarrow> PersistedSlot list" where
  "snapshot slots now = map (snapshot_row now) slots"

definition render_lease :: "PersistedSlot \<Rightarrow> string" where
  "render_lease s = join [tab] [show_word (ps_bind_port s), show_word (ps_kind s),
     show_ipv4 (ps_client s), show_word (ps_int_port s), show_word (ps_ext_port s),
     show_word (ps_granted_lifetime s), show_word (ps_expires_at s),
     show_word (ps_created_at s), show_word (ps_proto s)]"

definition tsv :: "PersistedSlot list \<Rightarrow> string" where
  "tsv slots = concat (map (\<lambda>s. render_lease s @ [nl]) (sort_key ps_bind_port slots))"

text \<open>One row: eight columns, and the protocol as an appended ninth.\<close>

definition parse_lease :: "string \<Rightarrow> PersistedSlot option" where
  "parse_lease line =
     (let parts = split_on tab line
      in if length parts \<noteq> 8 \<and> length parts \<noteq> 9 then None
         else do {
           proto \<leftarrow> (if 8 < length parts
                    then (case parse_word (parts ! 8) of
                            Some v \<Rightarrow> if v = 17 \<or> v = (6::u8) then Some v else None
                          | None \<Rightarrow> None)
                    else Some 17);
           bind_port \<leftarrow> parse_word (parts ! 0);
           kind \<leftarrow> parse_word (parts ! 1);
           client \<leftarrow> parse_ipv4 (parts ! 2);
           int_port \<leftarrow> parse_word (parts ! 3);
           ext_port \<leftarrow> parse_word (parts ! 4);
           lifetime \<leftarrow> parse_word (parts ! 5);
           expires \<leftarrow> parse_word (parts ! 6);
           created \<leftarrow> parse_word (parts ! 7);
           Some \<lparr>ps_bind_port = bind_port, ps_proto = proto, ps_kind = kind,
             ps_client = client, ps_int_port = int_port, ps_ext_port = ext_port,
             ps_granted_lifetime = lifetime, ps_expires_at = expires, ps_created_at = created\<rparr>
         })"

definition read_leases :: "string option \<Rightarrow> PersistedSlot list \<times> nat" where
  "read_leases file = (case file of
     None \<Rightarrow> ([], 0)
   | Some text \<Rightarrow> (List.map_filter parse_lease (lines text),
       length (filter (\<lambda>l. parse_lease l = None) (lines text))))"

section \<open>Booting from the file (\<open>main.rs\<close>)\<close>

definition record_of :: "PersistedSlot \<Rightarrow> GrantedRecord" where
  "record_of p = \<lparr>g_bind_port = ps_bind_port p, g_proto = (if ps_proto p = 6 then Tcp else Udp),
     g_client = ps_client p, g_int_port = ps_int_port p, g_target = ps_client p,
     g_target_port = ps_int_port p, g_granted_lifetime = ps_granted_lifetime p,
     g_expires_at = ps_expires_at p\<rparr>"

definition boot_table ::
  "(u16 \<times> ipv4 \<times> u16) list \<Rightarrow> string option \<Rightarrow> u64 \<Rightarrow> LeaseTable \<Rightarrow> restored" where
  "boot_table static_maps leases_file now T =
     (let (persisted, skipped) = read_leases leases_file;
          granted = map record_of (filter (\<lambda>p. ps_kind p = 1
            \<and> ps_bind_port p \<notin> set (map fst static_maps)) persisted)
      in restore static_maps granted now T)"

section \<open>Reading a written file back\<close>

definition lease_row_ok :: "PersistedSlot \<Rightarrow> bool" where
  "lease_row_ok s \<longleftrightarrow> ps_proto s = 17 \<or> ps_proto s = 6"

lemma tab_not_special: "tab \<noteq> nl" "tab \<noteq> cr"
  by (simp_all add: tab_def nl_def cr_def)

interpretation lease_row: row_format render_lease parse_lease lease_row_ok
proof
  fix s :: PersistedSlot assume ok: "lease_row_ok s"
  let ?ps = "[show_word (ps_bind_port s), show_word (ps_kind s),
     show_ipv4 (ps_client s), show_word (ps_int_port s), show_word (ps_ext_port s),
     show_word (ps_granted_lifetime s), show_word (ps_expires_at s),
     show_word (ps_created_at s), show_word (ps_proto s)]"
  have plain: "c \<noteq> nl \<and> c \<noteq> cr \<and> c \<noteq> tab" if "p \<in> set ?ps" "c \<in> set p" for p c
    using that by (auto dest: show_word_plain show_ipv4_plain)
  then have "nl \<notin> set p" "cr \<notin> set p" "tab \<notin> set p" if "p \<in> set ?ps" for p
    using that by blast+
  then show "nl \<notin> set (render_lease s) \<and> cr \<notin> set (render_lease s)"
    using set_join [of "[tab]" ?ps] tab_not_special unfolding render_lease_def by fastforce
  have "split_on tab (render_lease s) = ?ps"
    unfolding render_lease_def using plain by (intro split_on_join) blast+
  then show "parse_lease (render_lease s) = Some s"
    using ok by (simp add: parse_lease_def Let_def lease_row_ok_def)
qed

lemma snapshot_ok: "\<forall>s \<in> set (snapshot slots now). lease_row_ok s"
  by (auto simp: snapshot_def snapshot_row_def lease_row_ok_def proto_code_def
      split: Lease.split Proto.split)

lemma read_leases_back:
  assumes "\<forall>s \<in> set rows. lease_row_ok s"
  shows "read_leases (Some (tsv rows)) = (sort_key ps_bind_port rows, 0)"
proof -
  let ?rs = "sort_key ps_bind_port rows"
  have ok: "\<forall>s \<in> set ?rs. lease_row_ok s" using assms by simp
  have "lines (tsv rows) = map render_lease ?rs"
    unfolding tsv_def by (rule lease_row.file_lines [OF ok])
  moreover have "List.map_filter parse_lease (lines (tsv rows)) = ?rs"
    unfolding tsv_def by (rule lease_row.file_back [OF ok])
  ultimately show ?thesis using ok
    by (simp add: read_leases_def filter_empty_conv lease_row.row_back)
qed

section \<open>Restoring the table\<close>

definition static_slot :: "u16 \<times> ipv4 \<times> u16 \<Rightarrow> Slot" where
  "static_slot m = (case m of (p, ip, port) \<Rightarrow> \<lparr>s_bind_port = p, s_proto = Udp, s_target = ip,
     s_target_port = port, s_lease = Static, s_phase_ms = 0, s_last_activity = 0\<rparr>)"

lemma restore_statics_ok:
  assumes "distinct (map fst ms)"
    and "\<forall>m \<in> set ms. pa_contains (t_allocator T) (fst m) \<and> fst m \<notin> bound_ports T"
  shows "restore_statics ms T = Restored (T\<lparr>t_slots := t_slots T @ map static_slot ms\<rparr>)"
  using assms
proof (induction ms arbitrary: T)
  case (Cons m ms)
  obtain p ip port where m: "m = (p, ip, port)" by (cases m)
  let ?T = "T\<lparr>t_slots := t_slots T @ [static_slot m]\<rparr>"
  have "insert_static p ip port T = (Inr p, ?T)"
    using Cons.prems by (auto simp: m insert_static_def by_bind_port_def find_None_all
        bound_ports_def static_slot_def)
  moreover have "restore_statics ms ?T = Restored (?T\<lparr>t_slots := t_slots ?T @ map static_slot ms\<rparr>)"
    using Cons.prems by (intro Cons.IH) (auto simp: m bound_ports_def static_slot_def)
  ultimately show ?case by (simp add: m)
qed simp

text \<open>The remaining seconds of a restored lease, and the expiry they give.\<close>

definition restored_expiry :: "GrantedRecord \<Rightarrow> u64 \<Rightarrow> u64" where
  "restored_expiry r now = sat_add now
     (case clamp64 1 (ucast (g_granted_lifetime r)) (sat_sub (g_expires_at r) now) of
        Some x \<Rightarrow> x | None \<Rightarrow> 0)"

lemma lifetime_clamp:
  "l \<noteq> 0 \<Longrightarrow> clamp64 1 (ucast (l::u32)) x \<noteq> None"
  by (simp add: clamp64_def word_less_nat_alt unat_widen unat_eq_zero)

lemma restore_grants_ok:
  assumes "distinct (map g_bind_port rs)"
    and "\<forall>r \<in> set rs. pa_contains (t_allocator T) (g_bind_port r) \<and> g_bind_port r \<notin> bound_ports T
      \<and> g_granted_lifetime r \<noteq> 0"
  shows "restore_grants rs now T =
    Restored (T\<lparr>t_slots := t_slots T @ map (\<lambda>r. restored_slot r (restored_expiry r now) now) rs\<rparr>)"
  using assms
proof (induction rs arbitrary: T)
  case (Cons r rs)
  let ?T = "T\<lparr>t_slots := t_slots T @ [restored_slot r (restored_expiry r now) now]\<rparr>"
  from Cons.prems lifetime_clamp obtain x where
    x: "clamp64 1 (ucast (g_granted_lifetime r)) (sat_sub (g_expires_at r) now) = Some x" by fastforce
  have ne: "\<forall>r' \<in> set rs. g_bind_port r' \<noteq> g_bind_port r"
    using Cons.prems(1) by (metis distinct.simps(2) image_eqI list.map(2) list.set_map)
  have "restore_grants (r # rs) now T = restore_grants rs now ?T"
    using Cons.prems x by (simp add: by_bind_port_def find_None_all bound_ports_def restored_expiry_def) force
  moreover have "restore_grants rs now ?T = Restored (?T\<lparr>t_slots := t_slots ?T @
      map (\<lambda>r. restored_slot r (restored_expiry r now) now) rs\<rparr>)"
    using Cons.prems ne by (intro Cons.IH) (auto simp: bound_ports_def restored_slot_def)
  ultimately show ?case by simp
qed simp

lemma record_snapshot:
  "\<not> is_static s \<Longrightarrow> g_bind_port (record_of (snapshot_row now s)) = s_bind_port s
     \<and> slot_key (restored_slot (record_of (snapshot_row now s)) e t) = slot_key s
     \<and> s_bind_port (restored_slot (record_of (snapshot_row now s)) e t) = s_bind_port s
     \<and> ps_kind (snapshot_row now s) = 1
     \<and> (\<exists>c ip l x. s_lease s = Granted c ip l x \<and> g_granted_lifetime (record_of (snapshot_row now s)) = l)"
  by (cases "s_lease s"; cases "s_proto s")
    (simp_all add: is_static_def snapshot_row_def record_of_def restored_slot_def slot_key_def
      proto_code_def)

lemma snapshot_row_port [simp]: "ps_bind_port (snapshot_row now s) = s_bind_port s"
  by (simp add: snapshot_row_def split: Lease.split)

lemma snapshot_row_kind: "ps_kind (snapshot_row now s) = 1 \<longleftrightarrow> \<not> is_static s"
  by (simp add: snapshot_row_def is_static_def split: Lease.split)

lemma sort_key_map: "sort_key f (map g xs) = map g (sort_key (f \<circ> g) xs)"
proof -
  have ins: "insort_key f (g x) (map g ys) = map g (insort_key (f \<circ> g) x ys)" for x ys
    by (induction ys) auto
  show ?thesis by (induction xs) (simp_all add: ins [unfolded comp_def] comp_def)
qed

text \<open>Two tables whose slots carry the same keys on the same ports look the same.\<close>

lemma holdings_eq:
  assumes "tbl_inv T" and "tbl_inv T'"
    and "{(slot_key s, s_bind_port s) |s. s \<in> set (t_slots T)} =
      {(slot_key s, s_bind_port s) |s. s \<in> set (t_slots T')}"
  shows "lease_port T = lease_port T' \<and> bound_ports T = bound_ports T'"
proof
  have iff: "lease_port T k = Some p \<longleftrightarrow> (Some k, p) \<in> {(slot_key s, s_bind_port s) |s. s \<in> set (t_slots T)}"
    if "tbl_inv T" for T k p
    using leases_Some_iff [OF that, of k] by (auto simp: lease_port_def) metis
  show "lease_port T = lease_port T'"
    using iff [OF assms(1)] iff [OF assms(2)] assms(3) by (intro ext) (metis (no_types, lifting) not_Some_eq)
  have "bound_ports T = snd ` {(slot_key s, s_bind_port s) |s. s \<in> set (t_slots T)}" for T
    by (force simp: bound_ports_def)
  with assms(3) show "bound_ports T = bound_ports T'" by simp
qed

lemma sorted_grants:
  "filter (\<lambda>p. ps_kind p = 1) (sort_key ps_bind_port (snapshot slots now)) =
     map (snapshot_row now) (sort_key s_bind_port (grants slots))"
proof -
  have "filter (\<lambda>p. ps_kind p = 1) (snapshot slots now) = map (snapshot_row now) (grants slots)"
    by (simp add: snapshot_def filter_map comp_def snapshot_row_kind grants_def)
  then show ?thesis by (simp add: filter_sort sort_key_map comp_def)
qed

text \<open>The configuration that declares exactly the static mappings of a table.\<close>

definition static_config :: "LeaseTable \<Rightarrow> (u16 \<times> ipv4 \<times> u16) list" where
  "static_config T =
     map (\<lambda>s. (s_bind_port s, s_target s, s_target_port s)) (filter is_static (t_slots T))"

lemma boot_slots:
  assumes "tbl_inv T" and "\<forall>s \<in> set (t_slots T). \<forall>c ip e. s_lease s \<noteq> Granted c ip 0 e"
  shows "boot_table (static_config T) (Some (tsv (snapshot (t_slots T) now))) later
      (LeaseTable_new (t_allocator T) m q) =
    Restored ((LeaseTable_new (t_allocator T) m q)\<lparr>t_slots := map static_slot (static_config T) @
      map (\<lambda>s. restored_slot (record_of (snapshot_row now s))
             (restored_expiry (record_of (snapshot_row now s)) later) later)
        (sort_key s_bind_port (grants (t_slots T)))\<rparr>)"
proof -
  let ?ms = "static_config T" and ?N = "LeaseTable_new (t_allocator T) m q"
  let ?rs = "map (\<lambda>s. record_of (snapshot_row now s)) (sort_key s_bind_port (grants (t_slots T)))"
  let ?T1 = "?N\<lparr>t_slots := map static_slot ?ms\<rparr>"
  have d: "distinct (map s_bind_port (t_slots T))" by (rule tbl_invD(1) [OF assms(1)])
  have ms: "map fst ?ms = map s_bind_port (filter is_static (t_slots T))"
    by (simp add: static_config_def comp_def)
  have g: "s \<in> set (t_slots T) \<and> \<not> is_static s" if "s \<in> set (grants (t_slots T))" for s
    using that by (simp add: grants_def)
  have apart: "s_bind_port s \<notin> set (map fst ?ms)" if "s \<in> set (grants (t_slots T))" for s
    using g [OF that] same_port [OF assms(1)] unfolding ms by (auto simp: image_iff)
  have "restore_statics ?ms ?N = Restored ?T1"
    using d by (subst restore_statics_ok)
      (auto simp: ms distinct_map_filter comp_def static_config_def LeaseTable_new_def bound_ports_def
        dest: tbl_invD(2) [OF assms(1)])
  moreover have "restore_grants ?rs later ?T1 = Restored (?T1\<lparr>t_slots := t_slots ?T1 @
      map (\<lambda>r. restored_slot r (restored_expiry r later) later) ?rs\<rparr>)"
  proof (rule restore_grants_ok)
    have p: "map g_bind_port ?rs = map s_bind_port (sort_key s_bind_port (grants (t_slots T)))"
      using g record_snapshot by (auto simp: comp_def)
    have "distinct (map s_bind_port (grants (t_slots T)))"
      using d by (simp add: grants_def distinct_map_filter)
    then show "distinct (map g_bind_port ?rs)" unfolding p by (simp add: distinct_map)
    show "\<forall>r \<in> set ?rs. pa_contains (t_allocator ?T1) (g_bind_port r)
        \<and> g_bind_port r \<notin> bound_ports ?T1 \<and> g_granted_lifetime r \<noteq> 0"
    proof
      fix r assume "r \<in> set ?rs"
      then obtain s where s: "s \<in> set (grants (t_slots T))" "r = record_of (snapshot_row now s)" by auto
      from record_snapshot [of s now] g [OF s(1)] assms(2) s(2)
      have r: "g_bind_port r = s_bind_port s" "g_granted_lifetime r \<noteq> 0" by auto
      have "bound_ports ?T1 = set (map fst ?ms)"
        by (force simp: bound_ports_def static_slot_def)
      with r g [OF s(1)] apart [OF s(1)] show "pa_contains (t_allocator ?T1) (g_bind_port r)
        \<and> g_bind_port r \<notin> bound_ports ?T1 \<and> g_granted_lifetime r \<noteq> 0"
        by (simp add: tbl_invD(2) [OF assms(1)] LeaseTable_new_def)
    qed
  qed
  moreover have "map record_of (filter (\<lambda>p. ps_kind p = 1 \<and> ps_bind_port p \<notin> set (map fst ?ms))
      (sort_key ps_bind_port (snapshot (t_slots T) now))) = ?rs"
    using apart
    by (simp add: filter_filter [symmetric] sorted_grants filter_map comp_def conj_commute
        cong: filter_cong)
  ultimately show ?thesis
    by (simp add: boot_table_def read_leases_back [OF snapshot_ok] restore_def comp_def
        LeaseTable_new_def)
qed

text \<open>What a boot makes of a slot: the key and the port are the ones it had.\<close>

lemma boot_holdings:
  assumes "t_slots T' = map static_slot (static_config T) @
      map (\<lambda>s. restored_slot (record_of (snapshot_row now s)) (f s) later)
        (sort_key s_bind_port (grants (t_slots T)))"
    and "t_allocator T' = t_allocator T" and "tbl_inv T"
  shows "tbl_inv T'" and "lease_port T' = lease_port T \<and> bound_ports T' = bound_ports T"
proof -
  let ?g = "sort_key s_bind_port (grants (t_slots T))"
  let ?B = "map (\<lambda>s. restored_slot (record_of (snapshot_row now s)) (f s) later) ?g"
  let ?h = "\<lambda>s. (slot_key s, s_bind_port s)"
  have ng: "\<not> is_static s" if "s \<in> set ?g" for s using that by (simp add: grants_def)
  have A: "map ?h (map static_slot (static_config T)) = map ?h (filter is_static (t_slots T))"
    by (simp add: static_config_def static_slot_def slot_key_def is_static_def)
  have B: "map ?h ?B = map ?h ?g" using ng record_snapshot by auto
  have "mset (map ?h (t_slots T')) = mset (map ?h (filter is_static (t_slots T) @ grants (t_slots T)))"
    unfolding assms(1) map_append A B by simp
  also have "\<dots> = mset (map ?h (t_slots T))"
    by (simp add: grants_def flip: image_mset_union)
  finally have h: "mset (map ?h (t_slots T')) = mset (map ?h (t_slots T))" .
  have "image_mset snd (mset (map ?h (t_slots T'))) = image_mset snd (mset (map ?h (t_slots T)))"
    by (simp only: h)
  then have ports: "mset (map s_bind_port (t_slots T')) = mset (map s_bind_port (t_slots T))"
    by (simp add: multiset.map_comp comp_def)
  have d: "distinct (map s_bind_port (t_slots T'))"
    using tbl_invD(1) [OF assms(3)] mset_eq_imp_distinct_iff [OF ports] by simp
  have r: "pa_contains (t_allocator T') (s_bind_port s)" if "s \<in> set (t_slots T')" for s
    using mset_eq_setD [OF ports] that tbl_invD(2) [OF assms(3)] assms(2) by force
  have "grants (t_slots T') = ?B"
  proof -
    have "is_static (static_slot m)" for m by (simp add: static_slot_def is_static_def split: prod.split)
    moreover have "\<not> is_static (restored_slot x y z)" for x y z
      by (simp add: restored_slot_def is_static_def)
    ultimately show ?thesis by (simp add: assms(1) grants_def filter_map comp_def)
  qed
  moreover have "map slot_key ?B = map slot_key ?g" using ng record_snapshot by auto
  ultimately have "map slot_key (grants (t_slots T')) = map slot_key ?g" by (simp only:)
  then have "distinct (map slot_key (grants (t_slots T')))"
    using tbl_invD(3) [OF assms(3)] by (simp only: distinct_map set_sort distinct_sort)
  with d r show inv: "tbl_inv T'" by (simp add: tbl_inv_def)
  have "{(slot_key s, s_bind_port s) |s. s \<in> set ss} = set (map ?h ss)" for ss by auto
  with mset_eq_setD [OF h] show "lease_port T' = lease_port T \<and> bound_ports T' = bound_ports T"
    by (intro holdings_eq [OF inv assms(3)]) simp
qed

text \<open>C14 (roundtrip): a restart keeps every mapping. The table that a daemon with the same
  static mappings and port range builds at boot from the written \<open>leases.tsv\<close> is sound, binds
  exactly the same ports, and gives every lease key the port it had, whatever the clock says
  then, as long as no granted lease has a lifetime of zero.\<close>

theorem restart_keeps_leases:
  assumes "tbl_inv T" and "\<forall>s \<in> set (t_slots T). \<forall>c ip e. s_lease s \<noteq> Granted c ip 0 e"
  shows "\<exists>T'. boot_table (static_config T) (Some (tsv (snapshot (t_slots T) now))) later
        (LeaseTable_new (t_allocator T) m q) = Restored T'
      \<and> tbl_inv T' \<and> lease_port T' = lease_port T \<and> bound_ports T' = bound_ports T"
proof -
  from boot_slots [OF assms] obtain T' where
    T': "boot_table (static_config T) (Some (tsv (snapshot (t_slots T) now))) later
        (LeaseTable_new (t_allocator T) m q) = Restored T'"
    "t_slots T' = map static_slot (static_config T) @
      map (\<lambda>s. restored_slot (record_of (snapshot_row now s))
             (restored_expiry (record_of (snapshot_row now s)) later) later)
        (sort_key s_bind_port (grants (t_slots T)))"
    "t_allocator T' = t_allocator T"
    by (auto simp: LeaseTable_new_def)
  from boot_holdings [OF T'(2,3) assms(1)] T'(1) show ?thesis by blast
qed

theorem restart_keeps_leases_witness:
  "\<exists>T'. boot_table (static_config (fold tbl_step [InsertStatic 5001 9 80, Upsert Tcp 7 3 60 100 3 7]
          (LeaseTable_new \<lparr>pa_lo = 5000, pa_hi = 5003\<rparr> 4 4)))
        (Some (tsv (snapshot (t_slots (fold tbl_step [InsertStatic 5001 9 80, Upsert Tcp 7 3 60 100 3 7]
          (LeaseTable_new \<lparr>pa_lo = 5000, pa_hi = 5003\<rparr> 4 4))) 100))) 120
        (LeaseTable_new (t_allocator (fold tbl_step [InsertStatic 5001 9 80, Upsert Tcp 7 3 60 100 3 7]
          (LeaseTable_new \<lparr>pa_lo = 5000, pa_hi = 5003\<rparr> 4 4))) 4 4) = Restored T'
      \<and> 5000 \<in> bound_ports T'"
proof -
  let ?T = "fold tbl_step [InsertStatic 5001 9 80, Upsert Tcp 7 3 60 100 3 7]
          (LeaseTable_new \<lparr>pa_lo = 5000, pa_hi = 5003\<rparr> 4 4)"
  have inv: "tbl_inv ?T" by (rule table.run_inv) simp
  have "list_all (\<lambda>s. case s_lease s of Granted c ip l e \<Rightarrow> l \<noteq> 0 | Static \<Rightarrow> True) (t_slots ?T)"
    by code_simp
  then have "\<forall>s \<in> set (t_slots ?T). \<forall>c ip e. s_lease s \<noteq> Granted c ip 0 e"
    unfolding list_all_iff by fastforce
  note r = restart_keeps_leases [OF inv this, of 100 120 4 4]
  have "list_ex (\<lambda>s. s_bind_port s = 5000) (t_slots ?T)" by code_simp
  then have "5000 \<in> bound_ports ?T" unfolding list_ex_iff bound_ports_def by (metis image_eqI)
  with r show ?thesis by blast
qed

text \<open>A lease row of lifetime zero stops the daemon at boot. Whenever the first
  granted row of \<open>leases.tsv\<close> that is not a static names a port in range and has a granted
  lifetime of zero, a row the reader accepts, the restore panics in \<open>clamp\<close> and no table is
  built.\<close>

theorem zero_lifetime_row_panics:
  assumes "restore_statics static_maps T = Restored T1"
    and "read_leases file = (p # rows, skipped)" and "ps_kind p = 1"
    and "ps_bind_port p \<notin> set (map fst static_maps)" and "ps_granted_lifetime p = 0"
    and "pa_contains (t_allocator T1) (ps_bind_port p)" and "ps_bind_port p \<notin> bound_ports T1"
  shows "boot_table static_maps file now T = ClampPanic"
proof -
  have "by_bind_port (ps_bind_port p) T1 = None"
    using assms(7) unfolding by_bind_port_def find_None_all bound_ports_def by (metis image_eqI)
  with assms show ?thesis
    by (simp add: boot_table_def restore_def record_of_def clamp64_def)
qed

theorem zero_lifetime_row_panics_witness:
  "boot_table [] (Some (tsv [\<lparr>ps_bind_port = 5000, ps_proto = 17, ps_kind = 1, ps_client = 3,
      ps_int_port = 7, ps_ext_port = 0, ps_granted_lifetime = 0, ps_expires_at = 90,
      ps_created_at = 80\<rparr>])) 100 (LeaseTable_new \<lparr>pa_lo = 5000, pa_hi = 5003\<rparr> 4 4) = ClampPanic"
proof (rule zero_lifetime_row_panics [where ?T1.0 = "LeaseTable_new \<lparr>pa_lo = 5000, pa_hi = 5003\<rparr> 4 4"])
  let ?p = "\<lparr>ps_bind_port = 5000, ps_proto = 17, ps_kind = 1, ps_client = 3,
      ps_int_port = 7, ps_ext_port = 0, ps_granted_lifetime = 0, ps_expires_at = 90,
      ps_created_at = 80\<rparr>"
  show "read_leases (Some (tsv [?p])) = (?p # [], 0)"
    by (subst read_leases_back) (simp_all add: lease_row_ok_def)
qed (simp_all add: LeaseTable_new_def pa_contains_def bound_ports_def)

end
