(* ===== verification/Pcp.thy ===== *)
theory Pcp
  imports Stun Slot_Table
begin

text \<open>
  The PCP and NAT-PMP codec (\<open>src/src/pcp.rs\<close>): the dialect sniff, the request parsers with
  the option walk, and the response builders. A datagram is a byte list; where the code indexes
  without a check of its own, the result is \<open>None\<close> for the panic.
\<close>

section \<open>Constants\<close>

definition PORT :: u16 where "PORT = 5351"
definition VERSION :: u8 where "VERSION = 2"
definition MAX_LIFETIME :: u32 where "MAX_LIFETIME = 600"
definition NPMP_LIFETIME :: u32 where "NPMP_LIFETIME = 7200"
definition MAX_MSG :: nat where "MAX_MSG = 1100"
definition HEADER :: nat where "HEADER = 24"
definition OPCODE_DATA :: nat where "OPCODE_DATA = 36"

definition OP_ANNOUNCE :: u8 where "OP_ANNOUNCE = 0"
definition OP_MAP :: u8 where "OP_MAP = 1"
definition OP_PEER :: u8 where "OP_PEER = 2"

definition rc_SUCCESS :: u8 where "rc_SUCCESS = 0"
definition rc_UNSUPP_VERSION :: u8 where "rc_UNSUPP_VERSION = 1"
definition rc_NOT_AUTHORIZED :: u8 where "rc_NOT_AUTHORIZED = 2"
definition rc_MALFORMED_REQUEST :: u8 where "rc_MALFORMED_REQUEST = 3"
definition rc_UNSUPP_OPCODE :: u8 where "rc_UNSUPP_OPCODE = 4"
definition rc_UNSUPP_OPTION :: u8 where "rc_UNSUPP_OPTION = 5"
definition rc_MALFORMED_OPTION :: u8 where "rc_MALFORMED_OPTION = 6"
definition rc_NETWORK_FAILURE :: u8 where "rc_NETWORK_FAILURE = 7"
definition rc_NO_RESOURCES :: u8 where "rc_NO_RESOURCES = 8"
definition rc_UNSUPP_PROTOCOL :: u8 where "rc_UNSUPP_PROTOCOL = 9"
definition rc_USER_EX_QUOTA :: u8 where "rc_USER_EX_QUOTA = 10"
definition rc_CANNOT_PROVIDE_EXTERNAL :: u8 where "rc_CANNOT_PROVIDE_EXTERNAL = 11"
definition rc_ADDRESS_MISMATCH :: u8 where "rc_ADDRESS_MISMATCH = 12"
definition rc_EXCESSIVE_REMOTE_PEERS :: u8 where "rc_EXCESSIVE_REMOTE_PEERS = 13"

lemmas rc_defs = rc_SUCCESS_def rc_UNSUPP_VERSION_def rc_NOT_AUTHORIZED_def
  rc_MALFORMED_REQUEST_def rc_UNSUPP_OPCODE_def rc_UNSUPP_OPTION_def rc_MALFORMED_OPTION_def
  rc_NETWORK_FAILURE_def rc_NO_RESOURCES_def rc_UNSUPP_PROTOCOL_def rc_USER_EX_QUOTA_def
  rc_CANNOT_PROVIDE_EXTERNAL_def rc_ADDRESS_MISMATCH_def

definition np_UNSUPP_VERSION :: u8 where "np_UNSUPP_VERSION = 1"
definition np_NOT_AUTHORIZED :: u8 where "np_NOT_AUTHORIZED = 2"
definition np_NETWORK_FAILURE :: u8 where "np_NETWORK_FAILURE = 3"
definition np_NO_RESOURCES :: u8 where "np_NO_RESOURCES = 4"
definition np_UNSUPP_OPCODE :: u8 where "np_UNSUPP_OPCODE = 5"
definition np_OP_PUBLIC :: u8 where "np_OP_PUBLIC = 0"
definition np_OP_MAP_UDP :: u8 where "np_OP_MAP_UDP = 1"
definition np_OP_MAP_TCP :: u8 where "np_OP_MAP_TCP = 2"
definition np_RESP :: u8 where "np_RESP = 0x80"

definition OPT_THIRD_PARTY :: u8 where "OPT_THIRD_PARTY = 1"
definition OPT_PREFER_FAILURE :: u8 where "OPT_PREFER_FAILURE = 2"
definition OPT_FILTER :: u8 where "OPT_FILTER = 3"
definition OPT_THIRD_PARTY_LEN :: nat where "OPT_THIRD_PARTY_LEN = 16"
definition OPT_FILTER_LEN :: nat where "OPT_FILTER_LEN = 20"

section \<open>Addresses and responses\<close>

definition unmapped :: "u8 list \<Rightarrow> ipv4" where
  "unmapped a =
     (if length a < 16 \<or> a ! 10 \<noteq> 0xff \<or> a ! 11 \<noteq> 0xff \<or> list_ex (\<lambda>b. b \<noteq> 0) (take 10 a) then 0
      else ipv4_of (a ! 12) (a ! 13) (a ! 14) (a ! 15))"

definition mapped :: "ipv4 \<Rightarrow> u8 list" where
  "mapped ip = replicate 10 0 @ [0xff, 0xff] @ octets ip"

definition resp_header :: "u8 \<Rightarrow> u8 \<Rightarrow> u32 \<Rightarrow> u32 \<Rightarrow> u8 list" where
  "resp_header opcode code lifetime epoch =
     [VERSION, opcode OR 0x80, 0, code] @ to_be lifetime @ to_be epoch @ replicate 12 0"

definition resp_body :: "u8 list \<Rightarrow> u8 \<Rightarrow> u16 \<Rightarrow> u16 \<Rightarrow> ipv4 \<Rightarrow> u8 list" where
  "resp_body nonce proto int_port ext_port ext_ip =
     nonce @ [proto] @ replicate 3 0 @ to_be int_port @ to_be ext_port @ mapped ext_ip"

section \<open>Requests\<close>

datatype Refusal = Silent_drop | Code u8 u8

record Filter =
  f_prefix_len :: u8
  f_peer_port :: u16
  f_peer_ip :: ipv4

record MapReq =
  m_lifetime :: u32
  m_nonce :: "u8 list"
  m_proto :: u8
  m_int_port :: u16
  m_sug_ext_port :: u16
  m_sug_ext_ip :: ipv4
  m_prefer_failure :: bool
  m_third_party :: "ipv4 option"
  m_filters :: "Filter list"

record PeerReq =
  p_lifetime :: u32
  p_nonce :: "u8 list"
  p_proto :: u8
  p_int_port :: u16
  p_peer_port :: u16
  p_peer_ip :: ipv4

datatype Req = Announce | Map_req MapReq | Peer_req PeerReq

text \<open>One option of the walk, by its code without the top bit and its length.\<close>

definition apply_option :: "u8 \<Rightarrow> u8 list \<Rightarrow> MapReq \<Rightarrow> Refusal + MapReq" where
  "apply_option code val m =
     (let opt = code AND 0x7f; len = length val
      in if opt = OPT_THIRD_PARTY \<and> len = OPT_THIRD_PARTY_LEN
         then Inr (m\<lparr>m_third_party := Some (unmapped val)\<rparr>)
         else if opt = OPT_PREFER_FAILURE \<and> len = 0 then Inr (m\<lparr>m_prefer_failure := True\<rparr>)
         else if opt = OPT_FILTER \<and> len = OPT_FILTER_LEN
         then if val ! 1 = 0 then Inr (m\<lparr>m_filters := []\<rparr>)
              else Inr (m\<lparr>m_filters := m_filters m @ [\<lparr>f_prefix_len = val ! 1,
                     f_peer_port = be16 val 2, f_peer_ip = unmapped (slice 4 20 val)\<rparr>]\<rparr>)
         else if opt = OPT_THIRD_PARTY \<or> opt = OPT_PREFER_FAILURE \<or> opt = OPT_FILTER
         then Inl (Code OP_MAP rc_MALFORMED_OPTION)
         else if code AND 0x80 = 0 then Inl (Code OP_MAP rc_UNSUPP_OPTION)
         else Inr m)"

function read_options :: "u8 list \<Rightarrow> nat \<Rightarrow> MapReq \<Rightarrow> Refusal + MapReq" where
  "read_options buf i m =
     (if i + 4 \<le> length buf
      then
        let code = buf ! i;
            len = unat (be16 buf (i + 2));
            vstart = i + 4;
            vend = vstart + len
        in if length buf < vend then Inl (Code OP_MAP rc_MALFORMED_OPTION)
           else (case apply_option code (slice vstart vend buf) m of
                   Inl e \<Rightarrow> Inl e
                 | Inr m1 \<Rightarrow> read_options buf (vstart + (len + 3) div 4 * 4) m1)
      else if i \<noteq> length buf then Inl (Code OP_MAP rc_MALFORMED_REQUEST)
      else Inr m)"
  by pat_completeness auto
termination by (relation "measure (\<lambda>(buf, i, m). length buf - i)") auto

declare read_options.simps [simp del]

definition map_of_request :: "u8 list \<Rightarrow> MapReq" where
  "map_of_request buf = \<lparr>m_lifetime = be32 buf 4, m_nonce = slice 24 36 buf, m_proto = buf ! 36,
     m_int_port = be16 buf 40, m_sug_ext_port = be16 buf 42,
     m_sug_ext_ip = unmapped (slice 44 60 buf), m_prefer_failure = False,
     m_third_party = None, m_filters = []\<rparr>"

definition peer_of_request :: "u8 list \<Rightarrow> PeerReq" where
  "peer_of_request buf = \<lparr>p_lifetime = be32 buf 4, p_nonce = slice 24 36 buf, p_proto = buf ! 36,
     p_int_port = be16 buf 40, p_peer_port = be16 buf 60, p_peer_ip = unmapped (slice 64 80 buf)\<rparr>"

definition parse_pcp :: "u8 list \<Rightarrow> ipv4 \<Rightarrow> Refusal + Req" where
  "parse_pcp buf src =
     (if length buf < 2 then Inl Silent_drop
      else
        let version = buf ! 0; opcode = buf ! 1 AND 0x7f
        in if buf ! 1 AND 0x80 \<noteq> 0 then Inl Silent_drop
           else if version \<noteq> VERSION then Inl (Code opcode rc_UNSUPP_VERSION)
           else if length buf < HEADER then Inl Silent_drop
           else if MAX_MSG < length buf \<or> length buf mod 4 \<noteq> 0
           then Inl (Code opcode rc_MALFORMED_REQUEST)
           else if unmapped (slice 8 24 buf) \<noteq> src then Inl (Code opcode rc_ADDRESS_MISMATCH)
           else if opcode = OP_ANNOUNCE then Inr Announce
           else if opcode = OP_MAP \<or> opcode = OP_PEER
           then
             let peer = opcode = OP_PEER
             in if length buf < HEADER + OPCODE_DATA + (if peer then 20 else 0)
                then Inl (Code opcode rc_MALFORMED_REQUEST)
                else if peer then Inr (Peer_req (peer_of_request buf))
                else if be16 buf 40 = 0 \<and> be32 buf 4 \<noteq> 0
                then Inl (Code opcode rc_MALFORMED_REQUEST)
                else (case read_options buf (HEADER + OPCODE_DATA) (map_of_request buf) of
                        Inl e \<Rightarrow> Inl e
                      | Inr m \<Rightarrow> Inr (Map_req m))
           else Inl (Code opcode rc_UNSUPP_OPCODE))"

section \<open>Responses\<close>

definition build_map_response :: "MapReq \<Rightarrow> u32 \<Rightarrow> u8 \<Rightarrow> u32 \<Rightarrow> u16 \<Rightarrow> ipv4 \<Rightarrow> u8 list" where
  "build_map_response req epoch code lifetime ext_port ext_ip =
     resp_header OP_MAP code lifetime epoch
     @ resp_body (m_nonce req) (m_proto req) (m_int_port req) ext_port ext_ip"

definition build_peer_response :: "PeerReq \<Rightarrow> u32 \<Rightarrow> u8 \<Rightarrow> u32 \<Rightarrow> u16 \<Rightarrow> ipv4 \<Rightarrow> u8 list" where
  "build_peer_response req epoch code lifetime ext_port ext_ip =
     resp_header OP_PEER code lifetime epoch
     @ resp_body (p_nonce req) (p_proto req) (p_int_port req) ext_port ext_ip"

definition build_announce_response :: "u32 \<Rightarrow> u8 list" where
  "build_announce_response epoch = resp_header OP_ANNOUNCE rc_SUCCESS 0 epoch"

definition error_lifetime :: "u8 \<Rightarrow> u32" where
  "error_lifetime code =
     (if code = rc_NETWORK_FAILURE \<or> code = rc_NO_RESOURCES \<or> code = rc_USER_EX_QUOTA then 30
      else 1800)"

text \<open>The copy of the client field onto itself changes nothing and is left out; the last slice
  assignment needs twelve octets, and panics without.\<close>

definition build_error :: "u8 list \<Rightarrow> u8 \<Rightarrow> u32 \<Rightarrow> u8 list option" where
  "build_error req code epoch =
     (let keep = min (length req) MAX_MSG;
          out = take keep req @ replicate ((keep + 3) div 4 * 4 - keep) 0
      in if length out < 12 then None
         else Some ([VERSION, (out ! 1 AND 0x7f) OR 0x80, 0, code] @ to_be (error_lifetime code)
                @ to_be epoch @ drop 12 out))"

definition lifetime_cap :: "u32 \<Rightarrow> u32 \<Rightarrow> u32" where
  "lifetime_cap requested cap = (if requested = 0 then 0 else min requested cap)"

definition outcome_code :: "UpsertOutcome \<Rightarrow> u8" where
  "outcome_code r = (case r of Granted_at _ \<Rightarrow> rc_SUCCESS | Refreshed_at _ \<Rightarrow> rc_SUCCESS
     | UserQuotaExceeded \<Rightarrow> rc_USER_EX_QUOTA | TableFull \<Rightarrow> rc_NO_RESOURCES)"

datatype Sniff = Sniff_Pcp | Sniff_Npmp | Sniff_Unknown

definition sniff :: "u8 list \<Rightarrow> Sniff" where
  "sniff buf = (case buf of
     [] \<Rightarrow> Sniff_Unknown
   | b # _ \<Rightarrow> if b = 0 then Sniff_Npmp else if b = VERSION then Sniff_Pcp
       else if HEADER \<le> length buf then Sniff_Pcp else Sniff_Npmp)"

section \<open>NAT-PMP\<close>

datatype NpmpReq = PublicAddress | Npmp_map u8 u16 u16 u32

datatype NpmpErr = Npmp_silent | Npmp_code u8

definition parse_npmp :: "u8 list \<Rightarrow> NpmpErr + NpmpReq" where
  "parse_npmp buf =
     (if length buf < 2 then Inl Npmp_silent
      else
        let op = buf ! 1
        in if op AND np_RESP \<noteq> 0 then Inl Npmp_silent
           else if buf ! 0 \<noteq> 0 then Inl (Npmp_code np_UNSUPP_VERSION)
           else if op = np_OP_PUBLIC then Inr PublicAddress
           else if op = np_OP_MAP_UDP \<or> op = np_OP_MAP_TCP
           then if length buf < 12 then Inl Npmp_silent
                else Inr (Npmp_map op (be16 buf 4) (be16 buf 6) (be32 buf 8))
           else Inl (Npmp_code np_UNSUPP_OPCODE))"

definition build_npmp_map :: "u8 \<Rightarrow> u8 \<Rightarrow> u32 \<Rightarrow> u16 \<Rightarrow> u16 \<Rightarrow> u32 \<Rightarrow> u8 list" where
  "build_npmp_map op code epoch int_port ext_port lifetime =
     [0, op OR np_RESP] @ to_be (ucast code :: u16) @ to_be epoch @ to_be int_port
     @ to_be ext_port @ to_be lifetime"

definition build_npmp_public :: "u8 \<Rightarrow> u32 \<Rightarrow> ipv4 \<Rightarrow> u8 list" where
  "build_npmp_public code epoch ip =
     [0, np_OP_PUBLIC OR np_RESP] @ to_be (ucast code :: u16) @ to_be epoch @ octets ip"

definition build_npmp_version_error :: "u32 \<Rightarrow> u8 list" where
  "build_npmp_version_error epoch =
     [0, np_OP_PUBLIC] @ to_be (ucast np_UNSUPP_VERSION :: u16) @ to_be epoch"

definition build_npmp_echo :: "u8 list \<Rightarrow> u32 \<Rightarrow> u8 list" where
  "build_npmp_echo req epoch =
     (if length req < 12 then build_npmp_public np_UNSUPP_OPCODE epoch 0
      else [req ! 0, req ! 1 OR np_RESP, 0, np_UNSUPP_OPCODE] @ to_be epoch @ slice 8 12 req)"

end
