(* ===== verification/Pcp_Props.thy ===== *)
theory Pcp_Props
  imports Pcp
begin

text \<open>
  What holds of the PCP codec: the walk over the options, the round trip of a MAP request, the
  agreement of a response with the request it answers, and that every refusal of a sniffed
  datagram can be answered.
\<close>

section \<open>Fields\<close>

lemma length_octets [simp]: "length (octets ip) = 4"
  by (simp add: octets_def)

lemma length_mapped [simp]: "length (mapped ip) = 16"
  by (simp add: mapped_def)

lemma unmapped_mapped [simp]: "unmapped (mapped ip) = ip"
proof -
  obtain a b c d where o: "octets ip = [a, b, c, d]" by (rule octets_cases)
  have "mapped ip = [0, 0, 0, 0, 0, 0, 0, 0, 0, 0, 0xff, 0xff, a, b, c, d]"
    by (simp add: mapped_def o numeral_eq_Suc)
  then show ?thesis by (simp add: unmapped_def ipv4_of_octets [OF o])
qed

lemma slice_mid:
  "length pre = i \<Longrightarrow> j = i + length x \<Longrightarrow> slice i j (pre @ x @ post) = x"
  by (simp add: slice_def)

lemma nth_mid: "length pre = i \<Longrightarrow> (pre @ x # post) ! i = x"
  by auto

section \<open>The option walk\<close>

definition option_bytes :: "u8 \<Rightarrow> u8 list \<Rightarrow> u8 list" where
  "option_bytes code val = [code, 0] @ to_be (of_nat (length val) :: u16) @ val
     @ replicate ((length val + 3) div 4 * 4 - length val) 0"

lemma length_option_bytes: "length (option_bytes code val) = 4 + (length val + 3) div 4 * 4"
proof -
  have "length val \<le> (length val + 3) div 4 * 4" by presburger
  then show ?thesis by (simp add: option_bytes_def)
qed

lemma option_at:
  assumes "length val < 65536"
  shows "read_options (pre @ option_bytes code val @ post) (length pre) m =
    (case apply_option code val m of Inl e \<Rightarrow> Inl e
     | Inr m1 \<Rightarrow> read_options (pre @ option_bytes code val @ post)
         (length (pre @ option_bytes code val)) m1)"
proof -
  let ?pad = "replicate ((length val + 3) div 4 * 4 - length val) (0::u8)"
  let ?a = "pre @ option_bytes code val @ post"
  have split: "?a = pre @ code # ([0] @ to_be (of_nat (length val) :: u16) @ val @ ?pad @ post)"
    "?a = (pre @ [code, 0]) @ to_be (of_nat (length val) :: u16) @ (val @ ?pad @ post)"
    "?a = (pre @ [code, 0] @ to_be (of_nat (length val) :: u16)) @ val @ (?pad @ post)"
    by (simp_all add: option_bytes_def)
  have n: "unat (of_nat (length val) :: u16) = length val"
    using assms by (simp add: unat_of_nat)
  have code: "?a ! length pre = code" unfolding split(1) by (rule nth_mid) simp
  have len: "be16 ?a (length pre + 2) = of_nat (length val)"
    unfolding split(2) by (rule be16_field) simp
  have fits: "length pre + 4 + length val \<le> length ?a" unfolding split(3) by simp
  have val: "slice (length pre + 4) (length pre + 4 + length val) ?a = val"
    unfolding split(3) by (rule slice_mid) simp_all
  from fits have i: "length pre + 4 \<le> length ?a" and v: "\<not> length ?a < length pre + 4 + length val"
    by linarith+
  then show ?thesis
    by (subst read_options.simps)
      (simp only: if_True if_False Let_def code len n val, simp only: length_append length_option_bytes add.assoc)
qed

text \<open>The walk only adds what the options say: the fixed fields of the request stay.\<close>

definition same_fixed :: "MapReq \<Rightarrow> MapReq \<Rightarrow> bool" where
  "same_fixed m m' \<longleftrightarrow> m_lifetime m' = m_lifetime m \<and> m_nonce m' = m_nonce m
     \<and> m_proto m' = m_proto m \<and> m_int_port m' = m_int_port m
     \<and> m_sug_ext_port m' = m_sug_ext_port m \<and> m_sug_ext_ip m' = m_sug_ext_ip m"

lemma apply_option_fixed: "apply_option code val m = Inr m' \<Longrightarrow> same_fixed m m'"
  by (auto simp: apply_option_def Let_def same_fixed_def split: if_splits)

lemma read_options_fixed: "read_options buf i m = Inr m' \<Longrightarrow> same_fixed m m'"
proof (induction buf i m rule: read_options.induct)
  case (1 buf i m)
  show ?case
  proof (cases "i + 4 \<le> length buf")
    case False
    with 1(2) show ?thesis by (simp add: read_options.simps same_fixed_def split: if_splits)
  next
    case True
    let ?len = "unat (be16 buf (i + 2))"
    from True 1(2) have v: "\<not> length buf < i + 4 + ?len"
      by (auto simp: read_options.simps Let_def)
    with True 1(2) obtain m1 where
      m1: "apply_option (buf ! i) (slice (i + 4) (i + 4 + ?len) buf) m = Inr m1"
      and rest: "read_options buf (i + 4 + (?len + 3) div 4 * 4) m1 = Inr m'"
      by (auto simp: read_options.simps [of buf i] Let_def split: sum.splits)
    from 1(1) [OF True refl refl refl refl v m1 rest] apply_option_fixed [OF m1]
    show ?thesis by (simp add: same_fixed_def)
  qed
qed

text \<open>On a buffer of whole words the walk ends exactly at the end of the buffer.\<close>

lemma apply_option_code: "apply_option code val m = Inl e \<Longrightarrow> e \<noteq> Code OP_MAP rc_MALFORMED_REQUEST"
  by (auto simp: apply_option_def Let_def rc_defs split: if_splits)

lemma options_never_malformed_request:
  "length buf mod 4 = 0 \<Longrightarrow> i mod 4 = 0 \<Longrightarrow> i \<le> length buf \<Longrightarrow>
     read_options buf i m \<noteq> Inl (Code OP_MAP rc_MALFORMED_REQUEST)"
proof (induction buf i m rule: read_options.induct)
  case (1 buf i m)
  show ?case
  proof (cases "i + 4 \<le> length buf")
    case False
    with 1(2-4) have "i = length buf" by presburger
    with False show ?thesis by (simp add: read_options.simps)
  next
    case True
    let ?len = "unat (be16 buf (i + 2))"
    show ?thesis
    proof (cases "length buf < i + 4 + ?len")
      case over: True
      with True show ?thesis by (simp add: read_options.simps [of buf i] Let_def rc_defs)
    next
      case v: False
      show ?thesis
      proof (cases "apply_option (buf ! i) (slice (i + 4) (i + 4 + ?len) buf) m")
        case (Inl e)
        with True v apply_option_code [OF Inl] show ?thesis
          by (simp add: read_options.simps [of buf i] Let_def)
      next
        case (Inr m1)
        have "i + 4 + (?len + 3) div 4 * 4 \<le> length buf" "(i + 4 + (?len + 3) div 4 * 4) mod 4 = 0"
          using v 1(2,3) by presburger+
        from 1(1) [OF True refl refl refl refl v Inr 1(2) this(2,1)] True v Inr show ?thesis
          by (simp add: read_options.simps [of buf i] Let_def)
      qed
    qed
  qed
qed

section \<open>A MAP request on the wire\<close>

definition filter_value :: "Filter \<Rightarrow> u8 list" where
  "filter_value f = [0, f_prefix_len f] @ to_be (f_peer_port f) @ mapped (f_peer_ip f)"

definition map_options :: "MapReq \<Rightarrow> (u8 \<times> u8 list) list" where
  "map_options r =
     (case m_third_party r of Some ip \<Rightarrow> [(OPT_THIRD_PARTY, mapped ip)] | None \<Rightarrow> [])
     @ (if m_prefer_failure r then [(OPT_PREFER_FAILURE, [])] else [])
     @ map (\<lambda>f. (OPT_FILTER, filter_value f)) (m_filters r)"

definition wire_options :: "(u8 \<times> u8 list) list \<Rightarrow> u8 list" where
  "wire_options opts = concat (map (\<lambda>(code, val). option_bytes code val) opts)"

definition map_request :: "ipv4 \<Rightarrow> MapReq \<Rightarrow> u8 list" where
  "map_request src r = [VERSION, OP_MAP, 0, 0] @ to_be (m_lifetime r) @ mapped src @ m_nonce r
     @ [m_proto r, 0, 0, 0] @ to_be (m_int_port r) @ to_be (m_sug_ext_port r)
     @ mapped (m_sug_ext_ip r) @ wire_options (map_options r)"

primrec apply_options :: "(u8 \<times> u8 list) list \<Rightarrow> MapReq \<Rightarrow> Refusal + MapReq" where
  "apply_options [] m = Inr m"
| "apply_options (x # xs) m =
     (case apply_option (fst x) (snd x) m of Inl e \<Rightarrow> Inl e | Inr m1 \<Rightarrow> apply_options xs m1)"

lemma wire_options_Cons: "wire_options (x # xs) = option_bytes (fst x) (snd x) @ wire_options xs"
  by (simp add: wire_options_def split: prod.split)

lemma read_options_wire:
  "\<forall>x \<in> set opts. length (snd x) < 65536 \<Longrightarrow>
     read_options (pre @ wire_options opts) (length pre) m = apply_options opts m"
proof (induction opts arbitrary: pre m)
  case Nil
  show ?case by (simp add: wire_options_def read_options.simps)
next
  case (Cons x opts)
  obtain code val where x: "x = (code, val)" by (cases x)
  have "read_options (pre @ wire_options (x # opts)) (length pre) m =
    (case apply_option code val m of Inl e \<Rightarrow> Inl e
     | Inr m1 \<Rightarrow> read_options ((pre @ option_bytes code val) @ wire_options opts)
         (length (pre @ option_bytes code val)) m1)"
    using option_at [of val pre code "wire_options opts" m] Cons.prems
    by (simp add: x wire_options_Cons split: sum.split)
  also have "\<dots> = apply_options (x # opts) m"
    using Cons.IH [of "pre @ option_bytes code val"] Cons.prems by (simp add: x split: sum.split)
  finally show ?case .
qed

lemma apply_filter:
  "f_prefix_len f \<noteq> 0 \<Longrightarrow>
     apply_option OPT_FILTER (filter_value f) m = Inr (m\<lparr>m_filters := m_filters m @ [f]\<rparr>)"
proof -
  have port: "be16 (filter_value f) 2 = f_peer_port f"
    unfolding filter_value_def by (rule be16_field) simp
  have ip: "slice 4 20 (filter_value f) = mapped (f_peer_ip f)"
    unfolding filter_value_def append_assoc [symmetric]
    by (rule slice_mid [where post = "[]", simplified]) simp_all
  have p: "filter_value f ! 1 = f_prefix_len f" by (simp add: filter_value_def)
  assume "f_prefix_len f \<noteq> 0"
  moreover have "length (filter_value f) = 20" by (simp add: filter_value_def)
  ultimately show ?thesis using port ip p
    by (simp add: apply_option_def Let_def OPT_FILTER_def OPT_THIRD_PARTY_def
        OPT_PREFER_FAILURE_def OPT_FILTER_LEN_def)
qed

lemma apply_third:
  "apply_option OPT_THIRD_PARTY (mapped ip) m = Inr (m\<lparr>m_third_party := Some ip\<rparr>)"
  by (simp add: apply_option_def OPT_THIRD_PARTY_def OPT_THIRD_PARTY_LEN_def)

lemma apply_prefer: "apply_option OPT_PREFER_FAILURE [] m = Inr (m\<lparr>m_prefer_failure := True\<rparr>)"
  by (simp add: apply_option_def OPT_THIRD_PARTY_def OPT_PREFER_FAILURE_def)

lemma apply_filters:
  "\<forall>f \<in> set fs. f_prefix_len f \<noteq> 0 \<Longrightarrow>
     apply_options (map (\<lambda>f. (OPT_FILTER, filter_value f)) fs) m =
     Inr (m\<lparr>m_filters := m_filters m @ fs\<rparr>)"
  by (induction fs arbitrary: m) (simp_all add: apply_filter)

lemma apply_options_append:
  "apply_options (xs @ ys) m =
     (case apply_options xs m of Inl e \<Rightarrow> Inl e | Inr m1 \<Rightarrow> apply_options ys m1)"
  by (induction xs arbitrary: m) (simp_all split: sum.split)

lemma apply_map_options:
  assumes "\<forall>f \<in> set (m_filters r). f_prefix_len f \<noteq> 0"
  shows "apply_options (map_options r)
      (r\<lparr>m_prefer_failure := False, m_third_party := None, m_filters := []\<rparr>) = Inr r"
  using assms
  by (cases "m_third_party r"; cases "m_prefer_failure r"; cases r)
    (simp_all add: map_options_def apply_options_append apply_filters apply_third apply_prefer)

lemma map_options_short: "\<forall>x \<in> set (map_options r). length (snd x) < 65536"
  by (auto simp: map_options_def filter_value_def split: option.split)

lemma wire_options_mod: "length (wire_options opts) mod 4 = 0"
proof (induction opts)
  case (Cons x xs)
  then show ?case by (simp add: wire_options_Cons length_option_bytes) presburger
qed (simp add: wire_options_def)

text \<open>The fields of the request, at the offsets the parser reads.\<close>

lemma map_request_fields:
  assumes "length (m_nonce r) = 12"
    and b_def: "b = map_request src r"
  shows "b ! 0 = VERSION" "b ! 1 = OP_MAP" "be32 b 4 = m_lifetime r"
    "slice 8 24 b = mapped src" "slice 24 36 b = m_nonce r" "b ! 36 = m_proto r"
    "be16 b 40 = m_int_port r" "be16 b 42 = m_sug_ext_port r"
    "slice 44 60 b = mapped (m_sug_ext_ip r)" "length b = 60 + length (wire_options (map_options r))"
proof -
  let ?o = "wire_options (map_options r)"
  let ?h = "[VERSION, OP_MAP, 0, 0]" and ?p = "[m_proto r, 0, 0, 0]"
  have l: "length (to_be (m_lifetime r)) = 4" by simp
  show "b ! 0 = VERSION" "b ! 1 = OP_MAP" by (simp_all add: b_def map_request_def)
  show "length b = 60 + length ?o" using assms(1) by (simp add: b_def map_request_def)
  show "be32 b 4 = m_lifetime r"
    unfolding b_def map_request_def by (rule be32_field) simp
  have "b = (?h @ to_be (m_lifetime r)) @ mapped src @ (m_nonce r @ ?p @ to_be (m_int_port r)
      @ to_be (m_sug_ext_port r) @ mapped (m_sug_ext_ip r) @ ?o)"
    by (simp add: b_def map_request_def)
  then show "slice 8 24 b = mapped src" by (simp only:) (rule slice_mid; simp)
  have "b = (?h @ to_be (m_lifetime r) @ mapped src) @ m_nonce r @ (?p @ to_be (m_int_port r)
      @ to_be (m_sug_ext_port r) @ mapped (m_sug_ext_ip r) @ ?o)"
    by (simp add: b_def map_request_def)
  then show "slice 24 36 b = m_nonce r" using assms(1) by (simp only:) (rule slice_mid; simp)
  have "b = (?h @ to_be (m_lifetime r) @ mapped src @ m_nonce r) @ m_proto r # ([0, 0, 0]
      @ to_be (m_int_port r) @ to_be (m_sug_ext_port r) @ mapped (m_sug_ext_ip r) @ ?o)"
    by (simp add: b_def map_request_def)
  then show "b ! 36 = m_proto r" using assms(1) by (simp only:) (rule nth_mid; simp)
  have "b = (?h @ to_be (m_lifetime r) @ mapped src @ m_nonce r @ ?p) @ to_be (m_int_port r)
      @ (to_be (m_sug_ext_port r) @ mapped (m_sug_ext_ip r) @ ?o)"
    by (simp add: b_def map_request_def)
  then show "be16 b 40 = m_int_port r" using assms(1) by (simp only:) (rule be16_field; simp)
  have "b = (?h @ to_be (m_lifetime r) @ mapped src @ m_nonce r @ ?p @ to_be (m_int_port r))
      @ to_be (m_sug_ext_port r) @ (mapped (m_sug_ext_ip r) @ ?o)"
    by (simp add: b_def map_request_def)
  then show "be16 b 42 = m_sug_ext_port r" using assms(1) by (simp only:) (rule be16_field; simp)
  have "b = (?h @ to_be (m_lifetime r) @ mapped src @ m_nonce r @ ?p @ to_be (m_int_port r)
      @ to_be (m_sug_ext_port r)) @ mapped (m_sug_ext_ip r) @ ?o"
    by (simp add: b_def map_request_def)
  then show "slice 44 60 b = mapped (m_sug_ext_ip r)"
    using assms(1) by (simp only:) (rule slice_mid; simp)
qed

section \<open>Responses\<close>

lemma length_resp_header [simp]: "length (resp_header op c l e) = 24"
  by (simp add: resp_header_def)

lemma resp_header_fields:
  "(resp_header op c l e @ x) ! 0 = VERSION" "(resp_header op c l e @ x) ! 1 = op OR 0x80"
  "(resp_header op c l e @ x) ! 3 = c"
  "be32 (resp_header op c l e @ x) 4 = l" "be32 (resp_header op c l e @ x) 8 = e"
proof -
  show "(resp_header op c l e @ x) ! 0 = VERSION" "(resp_header op c l e @ x) ! 1 = op OR 0x80"
    "(resp_header op c l e @ x) ! 3 = c" by (simp_all add: resp_header_def)
  let ?h = "[VERSION, op OR 0x80, 0, c]"
  have a: "resp_header op c l e @ x = ?h @ to_be l @ (to_be e @ replicate 12 0 @ x)"
    by (simp add: resp_header_def)
  show "be32 (resp_header op c l e @ x) 4 = l" unfolding a by (rule be32_field) simp
  have b: "resp_header op c l e @ x = (?h @ to_be l) @ to_be e @ (replicate 12 0 @ x)"
    by (simp add: resp_header_def)
  show "be32 (resp_header op c l e @ x) 8 = e" unfolding b by (rule be32_field) simp
qed

lemma resp_body_fields:
  assumes "length nonce = 12" and "length h = 24"
  shows "slice 24 36 (h @ resp_body nonce pr ip ep xip) = nonce"
    "(h @ resp_body nonce pr ip ep xip) ! 36 = pr"
    "be16 (h @ resp_body nonce pr ip ep xip) 40 = ip"
    "be16 (h @ resp_body nonce pr ip ep xip) 42 = ep"
    "unmapped (slice 44 60 (h @ resp_body nonce pr ip ep xip)) = xip"
    "length (h @ resp_body nonce pr ip ep xip) = 60"
proof -
  let ?b = "h @ resp_body nonce pr ip ep xip"
  have a: "?b = h @ nonce @ ([pr] @ replicate 3 0 @ to_be ip @ to_be ep @ mapped xip)"
    by (simp add: resp_body_def)
  show "slice 24 36 ?b = nonce" unfolding a by (rule slice_mid) (simp_all add: assms)
  have b: "?b = (h @ nonce) @ pr # (replicate 3 0 @ to_be ip @ to_be ep @ mapped xip)"
    by (simp add: resp_body_def)
  show "?b ! 36 = pr" unfolding b by (rule nth_mid) (simp add: assms)
  have c: "?b = (h @ nonce @ [pr] @ replicate 3 0) @ to_be ip @ (to_be ep @ mapped xip)"
    by (simp add: resp_body_def)
  show "be16 ?b 40 = ip" unfolding c by (rule be16_field) (simp add: assms)
  have d: "?b = (h @ nonce @ [pr] @ replicate 3 0 @ to_be ip) @ to_be ep @ mapped xip"
    by (simp add: resp_body_def)
  show "be16 ?b 42 = ep" unfolding d by (rule be16_field) (simp add: assms)
  have e: "?b = (h @ nonce @ [pr] @ replicate 3 0 @ to_be ip @ to_be ep) @ mapped xip @ []"
    by (simp add: resp_body_def)
  have "slice 44 60 ?b = mapped xip" unfolding e by (rule slice_mid) (simp_all add: assms)
  then show "unmapped (slice 44 60 ?b) = xip" by simp
  show "length ?b = 60" by (simp add: resp_body_def assms)
qed

lemma parse_pcp_header:
  assumes "parse_pcp buf src = Inr q"
  shows "HEADER \<le> length buf" "buf ! 0 = VERSION" "buf ! 1 AND 0x80 = 0"
    "unmapped (slice 8 24 buf) = src"
  using assms by (auto simp: parse_pcp_def Let_def split: if_splits)

lemma parse_pcp_map:
  assumes "parse_pcp buf src = Inr (Map_req r)"
  shows "buf ! 1 AND 0x7f = OP_MAP" "60 \<le> length buf" "same_fixed (map_of_request buf) r"
    "m_int_port r = 0 \<longrightarrow> m_lifetime r = 0"
proof -
  from assms show op: "buf ! 1 AND 0x7f = OP_MAP" and l: "60 \<le> length buf"
    by (auto simp: parse_pcp_def Let_def HEADER_def OPCODE_DATA_def split: if_splits sum.splits)
  from assms have o: "read_options buf (HEADER + OPCODE_DATA) (map_of_request buf) = Inr r"
    and z: "\<not> (be16 buf 40 = 0 \<and> be32 buf 4 \<noteq> 0)"
    by (auto simp: parse_pcp_def Let_def split: if_splits sum.splits)
  from read_options_fixed [OF o] show f: "same_fixed (map_of_request buf) r" .
  from f z show "m_int_port r = 0 \<longrightarrow> m_lifetime r = 0"
    by (auto simp: same_fixed_def map_of_request_def)
qed

lemma r_bit: "(b::u8) AND 0x80 = 0 \<Longrightarrow> b AND 0x7f = b"
proof -
  assume "b AND 0x80 = 0"
  moreover have "b = (b AND 0x80) OR (b AND 0x7f)"
  proof -
    have "(0x80 OR 0x7f :: u8) = - 1" by simp
    then show ?thesis by (metis and.right_neutral bit.conj_disj_distrib)
  qed
  ultimately show ?thesis by simp
qed

section \<open>Properties\<close>

text \<open>C19 (roundtrip): a MAP request survives the wire. The bytes of any request with a
  twelve-byte nonce, its third-party, prefer-failure and filter options included, parse back to
  exactly that request, given that it comes from the address it names, is no longer than the
  protocol allows, asks for a zero port only to delete, and uses no zero-length filter prefix.\<close>

theorem map_request_back:
  assumes "length (m_nonce r) = 12" and "\<forall>f \<in> set (m_filters r). f_prefix_len f \<noteq> 0"
    and "m_int_port r = 0 \<longrightarrow> m_lifetime r = 0" and "length (map_request src r) \<le> MAX_MSG"
  shows "parse_pcp (map_request src r) src = Inr (Map_req r)"
proof -
  let ?b = "map_request src r"
  let ?m = "r\<lparr>m_prefer_failure := False, m_third_party := None, m_filters := []\<rparr>"
  note f = map_request_fields [OF assms(1) refl, of src]
  have m: "map_of_request ?b = ?m"
    unfolding map_of_request_def f unmapped_mapped by (cases r) simp
  have "?b = take 60 ?b @ wire_options (map_options r)"
  proof -
    have "take 60 ?b = [VERSION, OP_MAP, 0, 0] @ to_be (m_lifetime r) @ mapped src @ m_nonce r
     @ [m_proto r, 0, 0, 0] @ to_be (m_int_port r) @ to_be (m_sug_ext_port r)
     @ mapped (m_sug_ext_ip r)"
      using assms(1) by (simp add: map_request_def)
    then show ?thesis by (simp add: map_request_def)
  qed
  moreover have "length (take 60 ?b) = 60" using f(10) by simp
  ultimately have "read_options ?b 60 ?m = apply_options (map_options r) ?m"
    using read_options_wire [OF map_options_short, of "take 60 ?b" r ?m] by metis
  then have o: "read_options ?b 60 ?m = Inr r"
    by (simp add: apply_map_options [OF assms(2)])
  have "length ?b mod 4 = 0" using wire_options_mod [of "map_options r"] f(10) by presburger
  moreover have "OP_MAP AND 0x7f = OP_MAP" "OP_MAP AND 0x80 = 0" "OP_MAP \<noteq> OP_ANNOUNCE" "OP_MAP \<noteq> OP_PEER"
    by (simp_all add: OP_MAP_def OP_ANNOUNCE_def OP_PEER_def)
  moreover have "\<not> length ?b < 2" "\<not> length ?b < HEADER" "\<not> length ?b < 60" "HEADER + OPCODE_DATA = 60"
    using f(10) by (simp_all add: HEADER_def OPCODE_DATA_def)
  ultimately show ?thesis
    using assms(3,4) o by (auto simp: parse_pcp_def Let_def f f(2) [unfolded One_nat_def] m)
qed

theorem map_request_back_witness:
  "parse_pcp (map_request 7 \<lparr>m_lifetime = 120, m_nonce = replicate 12 1, m_proto = 17,
      m_int_port = 5000, m_sug_ext_port = 0, m_sug_ext_ip = 0, m_prefer_failure = True,
      m_third_party = Some 9, m_filters = [\<lparr>f_prefix_len = 128, f_peer_port = 80, f_peer_ip = 3\<rparr>]\<rparr>) 7
   = Inr (Map_req \<lparr>m_lifetime = 120, m_nonce = replicate 12 1, m_proto = 17,
      m_int_port = 5000, m_sug_ext_port = 0, m_sug_ext_ip = 0, m_prefer_failure = True,
      m_third_party = Some 9, m_filters = [\<lparr>f_prefix_len = 128, f_peer_port = 80, f_peer_ip = 3\<rparr>]\<rparr>)"
  by (rule map_request_back)
    (simp_all add: map_request_def map_options_def wire_options_Cons length_option_bytes
      wire_options_def filter_value_def MAX_MSG_def)

text \<open>The answer to a MAP request is the answer to that request: it is sixty
  bytes of the same version, repeats the request's opcode with the response bit set, its nonce,
  protocol and internal port byte for byte, and carries the given result code, lifetime, epoch
  and external tuple where a client reads them.\<close>

theorem map_response_matches_request:
  assumes "parse_pcp buf src = Inr (Map_req r)"
  shows "let a = build_map_response r epoch code lifetime ext_port ext_ip
    in length a = 60 \<and> a ! 0 = buf ! 0 \<and> a ! 1 = buf ! 1 OR 0x80 \<and> a ! 3 = code
      \<and> be32 a 4 = lifetime \<and> be32 a 8 = epoch \<and> slice 24 36 a = slice 24 36 buf
      \<and> a ! 36 = buf ! 36 \<and> be16 a 40 = be16 buf 40 \<and> be16 a 42 = ext_port
      \<and> unmapped (slice 44 60 a) = ext_ip"
proof -
  note h = parse_pcp_header [OF assms] and m = parse_pcp_map [OF assms]
  have f: "m_nonce r = slice 24 36 buf" "m_proto r = buf ! 36" "m_int_port r = be16 buf 40"
    using m(3) by (simp_all add: same_fixed_def map_of_request_def)
  have n: "length (m_nonce r) = 12" using f(1) m(2) by (simp add: length_slice)
  have "buf ! 1 = OP_MAP" using m(1) r_bit [OF h(3)] by simp
  then show ?thesis
    unfolding Let_def build_map_response_def
    by (simp only: resp_header_fields resp_body_fields [OF n [unfolded f] length_resp_header] f h(2) simp_thms)
qed

theorem map_response_matches_request_witness:
  "let a = build_map_response (map_of_request ([2, 1, 0, 0, 0, 0, 0, 60] @ mapped 7 @ replicate 12 9
        @ [17, 0, 0, 0, 0, 80, 0, 0] @ replicate 16 0)) 5 0 60 4000 3
   in slice 24 36 a = replicate 12 9 \<and> a ! 36 = 17"
proof -
  let ?b = "[2, 1, 0, 0, 0, 0, 0, 60] @ mapped 7 @ replicate 12 9
        @ [17, 0, 0, 0, 0, 80, 0, 0] @ replicate 16 0"
  have "parse_pcp ?b 7 = Inr (Map_req (map_of_request ?b))" by code_simp
  from map_response_matches_request [OF this, of 5 0 60 4000 3]
  have "slice 24 36 (build_map_response (map_of_request ?b) 5 0 60 4000 3) = slice 24 36 ?b"
    "build_map_response (map_of_request ?b) 5 0 60 4000 3 ! 36 = ?b ! 36"
    by (simp_all only: Let_def)
  moreover have "slice 24 36 ?b = replicate 12 9" "?b ! 36 = 17" by code_simp+
  ultimately show ?thesis by (simp only: Let_def)
qed

text \<open>A datagram that the sniff gives to the PCP dialect and the parser refuses
  with a code can always be answered: the error response is built without an index out of
  range, whatever the bytes, has whole words and at most the protocol's length, and carries the
  response bit, the code and its lifetime.\<close>

theorem refusal_is_answerable:
  assumes "sniff buf = Sniff_Pcp" and "parse_pcp buf src = Inl (Code op code)"
  shows "\<exists>out. build_error buf code epoch = Some out \<and> length out mod 4 = 0
    \<and> length out \<le> MAX_MSG \<and> HEADER \<le> length out \<and> out ! 0 = VERSION
    \<and> out ! 1 = (buf ! 1 AND 0x7f) OR 0x80 \<and> out ! 3 = code
    \<and> be32 out 4 = error_lifetime code \<and> be32 out 8 = epoch"
proof -
  from assms have len: "24 \<le> length buf"
    by (cases buf) (auto simp: sniff_def parse_pcp_def HEADER_def Let_def split: if_splits)
  define k where "k = min (length buf) MAX_MSG"
  define out where "out = take k buf @ replicate ((k + 3) div 4 * 4 - k) 0"
  have k: "24 \<le> k" "k \<le> 1100" "k \<le> length buf" using len by (auto simp: k_def MAX_MSG_def)
  have lo: "length out = (k + 3) div 4 * 4" using k by (simp add: out_def)
  then have bounds: "24 \<le> length out" "length out \<le> 1100" "length out mod 4 = 0" using k by presburger+
  let ?r = "[VERSION, (out ! 1 AND 0x7f) OR 0x80, 0, code] @ to_be (error_lifetime code)
                @ to_be epoch @ drop 12 out"
  have b: "build_error buf code epoch = Some ?r"
    using bounds(1) unfolding build_error_def k_def [symmetric] Let_def out_def [symmetric] by simp
  have one: "out ! 1 = buf ! 1" using k by (simp add: out_def nth_append)
  have l: "length ?r = length out" using bounds(1) by simp
  have f: "be32 ?r 4 = error_lifetime code" by (rule be32_field) simp
  have "?r = ([VERSION, (out ! 1 AND 0x7f) OR 0x80, 0, code] @ to_be (error_lifetime code))
      @ to_be epoch @ drop 12 out" by simp
  then have g: "be32 ?r 8 = epoch" by (simp only:) (rule be32_field; simp)
  show ?thesis
    by (rule exI [of _ ?r]) (use b one l f g bounds in \<open>simp add: MAX_MSG_def HEADER_def\<close>)
qed

theorem refusal_is_answerable_witness:
  "\<exists>out. build_error ([9, 1] @ replicate 22 0) rc_UNSUPP_VERSION 5 = Some out \<and> length out mod 4 = 0
    \<and> length out \<le> MAX_MSG \<and> HEADER \<le> length out \<and> out ! 0 = VERSION
    \<and> out ! 1 = (([9, 1] @ replicate 22 0) ! 1 AND 0x7f) OR 0x80 \<and> out ! 3 = rc_UNSUPP_VERSION
    \<and> be32 out 4 = error_lifetime rc_UNSUPP_VERSION \<and> be32 out 8 = 5"
proof (rule refusal_is_answerable)
  show "sniff ([9, 1] @ replicate 22 0) = Sniff_Pcp" by code_simp
  show "parse_pcp ([9, 1] @ replicate 22 0) 7 = Inl (Code 1 rc_UNSUPP_VERSION)" by code_simp
qed

end
