(* ===== verification/Engine.thy ===== *)
theory Engine
  imports Conntrack Health
begin

text \<open>
  The observation engine (\<open>src/src/engine.rs\<close>): the claim gate, the exit decision, and the tick
  that claims flows, ages them and releases them. The answers of the kernel, the tasks and the
  clock during one tick are the fields of \<open>tick_in\<close>; the pins and accepts the engine holds in
  the kernel are part of its state.
\<close>

section \<open>The decisions\<close>

datatype ExitReason = OwnedBySlot | Stale | DeviceGone

definition claim_allowed :: "tuple4 \<Rightarrow> tuple4 list \<Rightarrow> nat \<Rightarrow> u32 \<Rightarrow> bool" where
  "claim_allowed tup owned active max_refresh \<longleftrightarrow> tup \<notin> set owned \<and> active < unat max_refresh"

definition exit_due :: "u32 \<Rightarrow> u32 \<Rightarrow> u32 \<Rightarrow> bool \<Rightarrow> ExitReason option" where
  "exit_due missing grace since_inbound owned_now =
     (if owned_now then Some OwnedBySlot
      else if grace \<le> missing \<and> grace \<le> since_inbound then Some Stale
      else None)"

definition KEEPALIVE_AFTER_TICKS :: u32 where "KEEPALIVE_AFTER_TICKS = 3"
definition LONG_QUIET_TICKS :: u32 where "LONG_QUIET_TICKS = 150"
definition DEV_MISSES_TO_RELEASE :: u8 where "DEV_MISSES_TO_RELEASE = 3"
definition PROBE_EVERY_TICKS :: u64 where "PROBE_EVERY_TICKS = 3"

definition release_reason :: "bool \<Rightarrow> u8 \<Rightarrow> u32 \<Rightarrow> u32 \<Rightarrow> u32 \<Rightarrow> u32 \<Rightarrow> ExitReason option" where
  "release_reason owned_now misses quiet missing since_inbound long_quiet =
     (if owned_now then Some OwnedBySlot
      else if DEV_MISSES_TO_RELEASE \<le> misses then Some DeviceGone
      else (case exit_due missing long_quiet since_inbound False of
              Some r \<Rightarrow> Some r
            | None \<Rightarrow> if long_quiet \<le> quiet then Some Stale else None))"

definition observe_report :: "tuple4 option \<Rightarrow> tuple4 option \<Rightarrow> tuple4 option" where
  "observe_report prev now = (case now of Some t \<Rightarrow> if prev \<noteq> Some t then Some t else None | None \<Rightarrow> None)"

text \<open>The sum of a release build wraps.\<close>

definition device_packets :: "string \<Rightarrow> tuple4 \<Rightarrow> ipv4 \<Rightarrow> u64" where
  "device_packets proc_text tup host =
     sum_list (map ct_orig_packets
       (filter (\<lambda>e. nat_src e = tup \<and> ct_orig_src e = host)
         (List.map_filter parse_line (lines proc_text))))"

section \<open>The engine's state\<close>

record ObsSlot =
  os_host :: ipv4
  os_host_port :: u16
  os_bind :: tuple4
  os_external :: "tuple4 option"
  os_vote :: VoteState
  os_last_seen :: u64
  os_dev_pkts :: u64
  os_quiet :: u32
  os_misses :: u8
  os_missing :: u32
  os_since_inbound :: u32
  os_inbound_seen :: u64

text \<open>
  \<open>e_pins\<close> are the self-pins and \<open>e_accepts\<close> the accepted ports in the kernel; \<open>e_stuck\<close>
  records the ports whose removal failed, a result the code ignores.
\<close>

record Engine =
  e_max_refresh :: u32
  e_per_host :: u32
  e_allow :: "ipv4 list"
  e_hold :: bool
  e_slots :: "ObsSlot list"
  e_reported :: "tuple4 list"
  e_ticks :: u64
  e_probe_cursor :: nat
  e_young :: "tuple4 \<Rightarrow> (u64 \<times> u32) option"
  e_pins :: "u16 set"
  e_accepts :: "u16 set"
  e_stuck :: "u16 set"

definition Engine_new :: "u32 \<Rightarrow> ipv4 list \<Rightarrow> bool \<Rightarrow> Engine" where
  "Engine_new max_refresh allow hold = \<lparr>e_max_refresh = max_refresh, e_per_host = 4,
     e_allow = allow, e_hold = hold, e_slots = [], e_reported = [], e_ticks = 0,
     e_probe_cursor = 0, e_young = Map.empty, e_pins = {}, e_accepts = {}, e_stuck = {}\<rparr>"

text \<open>
  What one tick reads: the tuples allocations hold, the live candidates, the clock, the inbound
  counter and external tuple each shadow task reports, whether a socket binds, what \<open>nft\<close> says
  to the self-pin, the second pin, the accept and the removals, the conntrack table (read twice),
  and the answer of the LAN probe.
\<close>

record tick_in =
  i_owned :: "tuple4 list"
  i_live :: "RefreshCandidate list"
  i_now :: u64
  i_inbound :: "tuple4 \<Rightarrow> u64"
  i_external :: "tuple4 \<Rightarrow> tuple4 option"
  i_bind_ok :: "tuple4 \<Rightarrow> bool"
  i_pin_ok :: "u16 \<Rightarrow> bool"
  i_pin2_ok :: "u16 \<Rightarrow> bool"
  i_accept_ok :: "u16 \<Rightarrow> bool"
  i_del_ok :: "u16 \<Rightarrow> bool"
  i_proc_young :: "string option"
  i_proc_slots :: "string option"
  i_device_up :: "ipv4 \<Rightarrow> bool"

definition live_of :: "Engine \<Rightarrow> tick_in \<Rightarrow> RefreshCandidate list" where
  "live_of e i = (if e_allow e = [] then i_live i
     else filter (\<lambda>c. rc_host c \<in> set (e_allow e)) (i_live i))"

definition is_live_tuple :: "RefreshCandidate list \<Rightarrow> tuple4 \<Rightarrow> bool" where
  "is_live_tuple live t \<longleftrightarrow> list_ex (\<lambda>c. rc_bind_tuple c = t) live"

definition retain_reported :: "RefreshCandidate list \<Rightarrow> Engine \<Rightarrow> Engine" where
  "retain_reported live e = e\<lparr>e_reported := filter (is_live_tuple live) (e_reported e)\<rparr>"

definition report_once :: "tuple4 \<Rightarrow> Engine \<Rightarrow> Engine" where
  "report_once t e = (if t \<in> set (e_reported e) then e else e\<lparr>e_reported := t # e_reported e\<rparr>)"

definition report_only :: "RefreshCandidate list \<Rightarrow> Engine \<Rightarrow> Engine" where
  "report_only live e = fold (\<lambda>c. report_once (rc_bind_tuple c)) live (retain_reported live e)"

section \<open>The passes of a tick\<close>

definition bookkeep :: "RefreshCandidate list \<Rightarrow> tick_in \<Rightarrow> ObsSlot \<Rightarrow> ObsSlot" where
  "bookkeep live i s =
     (let alive = is_live_tuple live (os_bind s);
          ts = i_inbound i (os_bind s);
          s1 = s\<lparr>os_missing := if alive then 0 else sat_add (os_missing s) 1\<rparr>;
          s2 = (if ts \<noteq> os_inbound_seen s1
                then s1\<lparr>os_inbound_seen := ts, os_since_inbound := 0\<rparr>
                else s1\<lparr>os_since_inbound := sat_add (os_since_inbound s1) 1\<rparr>);
          s3 = (if alive then s2\<lparr>os_last_seen := i_now i\<rparr> else s2)
      in (case observe_report (os_external s3) (i_external i (os_bind s)) of
            None \<Rightarrow> s3
          | Some t \<Rightarrow> s3\<lparr>os_external := Some t, os_vote := snd (observe 0 t (os_vote s3))\<rparr>))"

definition host_budget_ok :: "ipv4 \<Rightarrow> ObsSlot list \<Rightarrow> u32 \<Rightarrow> bool" where
  "host_budget_ok host slots per_host \<longleftrightarrow>
     length (filter (\<lambda>s. os_host s = host) slots) < unat per_host"

text \<open>\<open>NftPins\<close>: \<open>add\<close> installs the self-pin of the port whatever the host, \<open>del\<close> removes it only
  under the NAT address, and an ignored failure leaves it.\<close>

definition pins_del :: "tick_in \<Rightarrow> ipv4 \<Rightarrow> u16 \<Rightarrow> Engine \<Rightarrow> Engine" where
  "pins_del i host p e =
     (if host \<noteq> VM_NAT then e
      else if i_del_ok i p then e\<lparr>e_pins := e_pins e - {p}\<rparr>
      else e\<lparr>e_stuck := insert p (e_stuck e)\<rparr>)"

definition unaccept :: "tick_in \<Rightarrow> u16 \<Rightarrow> Engine \<Rightarrow> Engine" where
  "unaccept i p e = (if i_del_ok i p then e\<lparr>e_accepts := e_accepts e - {p}\<rparr>
     else e\<lparr>e_stuck := insert p (e_stuck e)\<rparr>)"

definition claim_slot :: "tick_in \<Rightarrow> RefreshCandidate \<Rightarrow> ObsSlot" where
  "claim_slot i c = \<lparr>os_host = rc_host c, os_host_port = rc_host_port c, os_bind = rc_bind_tuple c,
     os_external = None, os_vote = VoteState_new, os_last_seen = i_now i, os_dev_pkts = 0,
     os_quiet = 0, os_misses = 0, os_missing = 0, os_since_inbound = 0,
     os_inbound_seen = i_now i\<rparr>"

definition claim_quiet :: "Engine \<Rightarrow> RefreshCandidate \<Rightarrow> u32" where
  "claim_quiet e c = (case e_young e (rc_bind_tuple c) of Some (_, quiet) \<Rightarrow> quiet | None \<Rightarrow> 0)"

definition claim_one :: "tick_in \<Rightarrow> RefreshCandidate \<Rightarrow> Engine \<Rightarrow> Engine" where
  "claim_one i c e =
     (let t = rc_bind_tuple c; p = snd t
      in if list_ex (\<lambda>s. os_bind s = t) (e_slots e) then e
         else if claim_quiet e c < KEEPALIVE_AFTER_TICKS then e
         else if \<not> host_budget_ok (rc_host c) (e_slots e) (e_per_host e) then e
         else if \<not> claim_allowed t (i_owned i) (length (e_slots e)) (e_max_refresh e)
         then (if t \<in> set (i_owned i) then report_once t e else e)
         else if \<not> i_bind_ok i t then e
         else if \<not> i_pin_ok i p then e
         else
           let e1 = e\<lparr>e_pins := insert p (e_pins e)\<rparr>
           in if \<not> i_pin2_ok i p then pins_del i (fst t) p e1
              else
                let e2 = e1\<lparr>e_pins := insert p (e_pins e1)\<rparr>
                in if \<not> i_accept_ok i p
                   then pins_del i (fst t) p (pins_del i (rc_host c) (rc_host_port c) e2)
                   else e2\<lparr>e_accepts := insert p (e_accepts e2),
                           e_slots := e_slots e2 @ [claim_slot i c]\<rparr>)"

definition age_young :: "tick_in \<Rightarrow> RefreshCandidate \<Rightarrow> (tuple4 \<Rightarrow> (u64 \<times> u32) option)
    \<Rightarrow> (tuple4 \<Rightarrow> (u64 \<times> u32) option)" where
  "age_young i c young =
     (let t = rc_bind_tuple c;
          pkts = (case i_proc_young i of Some f \<Rightarrow> device_packets f t (rc_host c) | None \<Rightarrow> 0);
          (last, quiet) = (case young t of Some x \<Rightarrow> x | None \<Rightarrow> (pkts, 0))
      in young(t \<mapsto> (if last < pkts then (pkts, 0) else (max last pkts, sat_add quiet 1))))"

definition age_all :: "tick_in \<Rightarrow> RefreshCandidate list \<Rightarrow> Engine \<Rightarrow> Engine" where
  "age_all i live e =
     (if live = [] then e
      else let y = fold (age_young i) live (e_young e)
           in e\<lparr>e_young := (\<lambda>t. if is_live_tuple live t then y t else None)\<rparr>)"

definition quiet_slot :: "tick_in \<Rightarrow> ObsSlot \<Rightarrow> ObsSlot" where
  "quiet_slot i s =
     (let dev_now = (case i_proc_slots i of
            Some f \<Rightarrow> device_packets f (os_bind s) (os_host s) | None \<Rightarrow> os_dev_pkts s);
          device_active = os_dev_pkts s < dev_now;
          s1 = s\<lparr>os_dev_pkts := dev_now\<rparr>
      in if device_active \<or> os_since_inbound s1 = 0 then s1\<lparr>os_quiet := 0\<rparr>
         else s1\<lparr>os_quiet := sat_add (os_quiet s1) 1\<rparr>)"

definition probe_slot :: "tick_in \<Rightarrow> ipv4 \<Rightarrow> ObsSlot \<Rightarrow> ObsSlot" where
  "probe_slot i host s =
     (if os_host s \<noteq> host then s
      else if i_device_up i host then s\<lparr>os_misses := 0\<rparr>
      else s\<lparr>os_misses := sat_add (os_misses s) 1\<rparr>)"

definition liveness :: "tick_in \<Rightarrow> Engine \<Rightarrow> Engine" where
  "liveness i e =
     (if e_slots e = [] then e
      else
        let e1 = e\<lparr>e_slots := map (quiet_slot i) (e_slots e)\<rparr>
        in if e_ticks e1 mod PROBE_EVERY_TICKS \<noteq> 0 then e1
           else
             let cur = (if length (e_slots e1) \<le> e_probe_cursor e1 then 0 else e_probe_cursor e1);
                 host = os_host (e_slots e1 ! cur)
             in e1\<lparr>e_slots := map (probe_slot i host) (e_slots e1), e_probe_cursor := Suc cur\<rparr>)"

definition slot_reason :: "tuple4 list \<Rightarrow> ObsSlot \<Rightarrow> ExitReason option" where
  "slot_reason owned s = release_reason (os_bind s \<in> set owned) (os_misses s) (os_quiet s)
     (os_missing s) (os_since_inbound s) LONG_QUIET_TICKS"

definition drop_slot :: "tick_in \<Rightarrow> ObsSlot \<Rightarrow> Engine \<Rightarrow> Engine" where
  "drop_slot i s e = unaccept i (snd (os_bind s))
     (pins_del i (fst (os_bind s)) (snd (os_bind s)) (pins_del i (os_host s) (os_host_port s) e))"

lemma length_swap_remove [termination_simp]:
  "k < length xs \<Longrightarrow> length (swap_remove xs k) = length xs - 1"
  by (simp add: swap_remove_def)

text \<open>The exit pass: the index stays after a removal, which put the last slot there.\<close>

function exit_pass :: "tick_in \<Rightarrow> nat \<Rightarrow> Engine \<Rightarrow> Engine" where
  "exit_pass i k e =
     (if k < length (e_slots e)
      then (case slot_reason (i_owned i) (e_slots e ! k) of
              Some r \<Rightarrow> exit_pass i k
                (drop_slot i (e_slots e ! k) (e\<lparr>e_slots := swap_remove (e_slots e) k\<rparr>))
            | None \<Rightarrow> exit_pass i (Suc k) e)
      else e)"
  by pat_completeness auto
termination
  by (relation "measure (\<lambda>(i, k, e). length (e_slots e) - k)")
    (auto simp: drop_slot_def unaccept_def pins_del_def length_swap_remove)

declare exit_pass.simps [simp del]

definition engine_tick :: "tick_in \<Rightarrow> Engine \<Rightarrow> Engine" where
  "engine_tick i e =
     (let live = live_of e i
      in if \<not> e_hold e then report_only live e
         else
           let e1 = retain_reported live e;
               e2 = e1\<lparr>e_slots := map (bookkeep live i) (e_slots e1)\<rparr>;
               e3 = fold (claim_one i) live e2;
               e4 = e3\<lparr>e_ticks := e_ticks e3 + 1\<rparr>;
               e5 = age_all i live e4;
               e6 = liveness i e5
           in exit_pass i 0 e6)"

end
