(* ===== verification/Engine_Props.thy ===== *)
theory Engine_Props
  imports Engine
begin

text \<open>
  The invariant of the observation engine under every tick, and what a tick claims and releases.
\<close>

section \<open>The invariant\<close>

definition obs_ports :: "ObsSlot list \<Rightarrow> u16 set" where
  "obs_ports ss = (\<lambda>s. snd (os_bind s)) ` set ss"

definition hold_count :: "ipv4 \<Rightarrow> ObsSlot list \<Rightarrow> nat" where
  "hold_count host ss = length (filter (\<lambda>s. os_host s = host) ss)"

definition slots_ok :: "Engine \<Rightarrow> bool" where
  "slots_ok e \<longleftrightarrow> distinct (map os_bind (e_slots e))
     \<and> (\<forall>s \<in> set (e_slots e). fst (os_bind s) = VM_NAT \<and> os_host s \<noteq> VM_NAT)
     \<and> length (e_slots e) \<le> unat (e_max_refresh e)
     \<and> (\<forall>host. hold_count host (e_slots e) \<le> unat (e_per_host e))"

definition pins_ok :: "Engine \<Rightarrow> bool" where
  "pins_ok e \<longleftrightarrow> obs_ports (e_slots e) \<subseteq> e_pins e \<inter> e_accepts e
     \<and> e_pins e \<union> e_accepts e \<subseteq> obs_ports (e_slots e) \<union> e_stuck e"

definition eng_inv :: "Engine \<Rightarrow> bool" where
  "eng_inv e \<longleftrightarrow> slots_ok e \<and> pins_ok e"

text \<open>What the capture guarantees of its candidates.\<close>

definition tick_ok :: "tick_in \<Rightarrow> bool" where
  "tick_ok i \<longleftrightarrow> (\<forall>c \<in> set (i_live i). fst (rc_bind_tuple c) = VM_NAT \<and> rc_host c \<noteq> VM_NAT)"

text \<open>A pass that rewrites each slot in place keeps what the invariant looks at.\<close>

lemma slots_map_inv:
  assumes "\<And>s. os_bind (f s) = os_bind s" and "\<And>s. os_host (f s) = os_host s" and "eng_inv e"
  shows "eng_inv (e\<lparr>e_slots := map f (e_slots e)\<rparr>)"
proof -
  have "filter (\<lambda>s. os_host s = h) (map f ss) = map f (filter (\<lambda>s. os_host s = h) ss)" for h ss
    by (simp add: filter_map comp_def assms(2))
  then show ?thesis
    using assms(3) by (simp add: eng_inv_def slots_ok_def pins_ok_def obs_ports_def hold_count_def
        comp_def assms(1,2) image_image)
qed

lemma bookkeep_frame [simp]: "os_bind (bookkeep live i s) = os_bind s" "os_host (bookkeep live i s) = os_host s"
  by (simp_all add: bookkeep_def Let_def split: option.split)

lemma quiet_slot_frame [simp]: "os_bind (quiet_slot i s) = os_bind s" "os_host (quiet_slot i s) = os_host s"
  by (simp_all add: quiet_slot_def Let_def)

lemma probe_slot_frame [simp]: "os_bind (probe_slot i h s) = os_bind s" "os_host (probe_slot i h s) = os_host s"
  by (simp_all add: probe_slot_def)

text \<open>Passes that leave the slots and the kernel alone.\<close>

lemma eng_inv_cong:
  "e_slots e' = e_slots e \<Longrightarrow> e_max_refresh e' = e_max_refresh e \<Longrightarrow> e_per_host e' = e_per_host e \<Longrightarrow>
     e_pins e' = e_pins e \<Longrightarrow> e_accepts e' = e_accepts e \<Longrightarrow> e_stuck e' = e_stuck e \<Longrightarrow>
     eng_inv e' \<longleftrightarrow> eng_inv e"
  by (simp add: eng_inv_def slots_ok_def pins_ok_def)

lemma retain_inv [simp]: "eng_inv (retain_reported live e) \<longleftrightarrow> eng_inv e"
  by (rule eng_inv_cong) (simp_all add: retain_reported_def)

lemma report_once_inv [simp]: "eng_inv (report_once t e) \<longleftrightarrow> eng_inv e"
  by (rule eng_inv_cong) (simp_all add: report_once_def)

lemma report_only_inv: "eng_inv e \<Longrightarrow> eng_inv (report_only live e)"
proof -
  have "eng_inv (fold (\<lambda>c. report_once (rc_bind_tuple c)) cs e) \<longleftrightarrow> eng_inv e"
    for cs :: "RefreshCandidate list" and e :: Engine
    by (induction cs arbitrary: e) simp_all
  then show "eng_inv e \<Longrightarrow> eng_inv (report_only live e)" by (simp add: report_only_def)
qed

lemma age_all_inv [simp]: "eng_inv (age_all i live e) \<longleftrightarrow> eng_inv e"
  by (rule eng_inv_cong) (simp_all add: age_all_def Let_def)

lemma liveness_inv: "eng_inv e \<Longrightarrow> eng_inv (liveness i e)"
proof -
  assume inv: "eng_inv e"
  let ?e1 = "e\<lparr>e_slots := map (quiet_slot i) (e_slots e)\<rparr>"
  have one: "eng_inv ?e1" by (rule slots_map_inv) (simp_all add: inv)
  have two: "eng_inv (?e1\<lparr>e_slots := map (probe_slot i h) (e_slots ?e1), e_probe_cursor := n\<rparr>)" for h n
  proof -
    have "eng_inv (?e1\<lparr>e_slots := map (probe_slot i h) (e_slots ?e1)\<rparr>)"
      by (rule slots_map_inv) (simp_all only: probe_slot_frame one)
    then show ?thesis by (subst eng_inv_cong) simp_all
  qed
  show ?thesis using inv one two unfolding liveness_def Let_def by (simp only: split: if_split) blast
qed

section \<open>Claims\<close>

lemma unsold_port:
  assumes "slots_ok e" and "\<not> list_ex (\<lambda>s. os_bind s = t) (e_slots e)" and "fst t = VM_NAT"
  shows "snd t \<notin> obs_ports (e_slots e)"
proof
  assume "snd t \<in> obs_ports (e_slots e)"
  then obtain s where "s \<in> set (e_slots e)" "snd (os_bind s) = snd t" by (auto simp: obs_ports_def)
  moreover from this assms have "fst (os_bind s) = fst t" by (simp add: slots_ok_def)
  ultimately have "os_bind s = t" by (simp add: prod_eq_iff)
  with \<open>s \<in> set (e_slots e)\<close> assms(2) show False by (auto simp: list_ex_iff)
qed

text \<open>A failed claim leaves no pin but one whose removal was refused.\<close>

lemma failed_claim_inv:
  assumes "eng_inv e" and "p \<notin> obs_ports (e_slots e)"
  shows "eng_inv (pins_del i VM_NAT p (e\<lparr>e_pins := insert p (e_pins e)\<rparr>))"
  using assms by (auto simp: eng_inv_def slots_ok_def pins_ok_def pins_del_def)

lemma claimed_inv:
  assumes "eng_inv e" and "\<not> list_ex (\<lambda>s. os_bind s = rc_bind_tuple c) (e_slots e)"
    and "fst (rc_bind_tuple c) = VM_NAT" and "rc_host c \<noteq> VM_NAT"
    and "host_budget_ok (rc_host c) (e_slots e) (e_per_host e)"
    and "length (e_slots e) < unat (e_max_refresh e)"
  shows "eng_inv (e\<lparr>e_pins := insert (snd (rc_bind_tuple c)) (e_pins e),
      e_accepts := insert (snd (rc_bind_tuple c)) (e_accepts e),
      e_slots := e_slots e @ [claim_slot i c]\<rparr>)"
proof -
  from assms have "slots_ok e" "pins_ok e" by (simp_all add: eng_inv_def)
  then have "slots_ok (e\<lparr>e_pins := insert (snd (rc_bind_tuple c)) (e_pins e),
      e_accepts := insert (snd (rc_bind_tuple c)) (e_accepts e),
      e_slots := e_slots e @ [claim_slot i c]\<rparr>)"
    using assms by (auto simp: slots_ok_def claim_slot_def hold_count_def host_budget_ok_def list_ex_iff)
  with \<open>pins_ok e\<close> show ?thesis
    by (auto simp: eng_inv_def pins_ok_def obs_ports_def claim_slot_def)
qed

lemma claim_one_inv:
  assumes "eng_inv e" and "fst (rc_bind_tuple c) = VM_NAT" and "rc_host c \<noteq> VM_NAT"
  shows "eng_inv (claim_one i c e)"
proof (cases "list_ex (\<lambda>s. os_bind s = rc_bind_tuple c) (e_slots e)")
  case True
  with assms show ?thesis by (simp add: claim_one_def Let_def)
next
  case False
  from assms(1) have "slots_ok e" by (simp add: eng_inv_def)
  from unsold_port [OF this False assms(2)] have p: "snd (rc_bind_tuple c) \<notin> obs_ports (e_slots e)" .
  have h: "pins_del i (rc_host c) q e' = e'" for q e' using assms(3) by (simp add: pins_del_def)
  show ?thesis
    using assms False failed_claim_inv [OF assms(1) p, of i] claimed_inv [OF assms(1) False assms(2,3), of i]
    by (simp add: claim_one_def Let_def h claim_allowed_def)
qed

lemma claims_inv:
  assumes "\<forall>c \<in> set cs. fst (rc_bind_tuple c) = VM_NAT \<and> rc_host c \<noteq> VM_NAT"
  shows "eng_inv e \<Longrightarrow> eng_inv (fold (claim_one i) cs e)"
  using assms by (induction cs arbitrary: e) (simp_all add: claim_one_inv)

section \<open>The exit pass\<close>

lemma drop_slot_frame [simp]: "e_slots (drop_slot i s e) = e_slots e"
  by (simp add: drop_slot_def unaccept_def pins_del_def)

lemma take_swap_remove: "k < length xs \<Longrightarrow> take k (swap_remove xs k) = take k xs"
  by (simp add: swap_remove_def take_butlast)

lemma mset_drop_swap_remove:
  assumes "k < length xs"
  shows "mset (drop k (swap_remove xs k)) = mset (drop (Suc k) xs)"
proof -
  have "mset xs = mset (take k xs @ xs ! k # drop (Suc k) xs)"
    using assms by (simp add: id_take_nth_drop [symmetric])
  then have "mset (swap_remove xs k) = mset (take k xs) + mset (drop (Suc k) xs)"
    using assms by (simp add: mset_swap_remove)
  moreover have "mset (swap_remove xs k) = mset (take k (swap_remove xs k)) + mset (drop k (swap_remove xs k))"
    by (metis append_take_drop_id mset_append)
  ultimately show ?thesis using assms by (simp add: take_swap_remove)
qed

lemma exit_pass_slots:
  "mset (e_slots (exit_pass i k e)) = mset (take k (e_slots e))
     + filter_mset (\<lambda>s. slot_reason (i_owned i) s = None) (mset (drop k (e_slots e)))"
proof (induction i k e rule: exit_pass.induct)
  case (1 i k e)
  let ?ss = "e_slots e"
  show ?case
  proof (cases "k < length ?ss")
    case False
    then show ?thesis by (simp add: exit_pass.simps [of i k e])
  next
    case True
    have d: "drop k ?ss = ?ss ! k # drop (Suc k) ?ss" using True by (simp add: Cons_nth_drop_Suc)
    show ?thesis
    proof (cases "slot_reason (i_owned i) (?ss ! k)")
      case None
      with 1(1) [OF True None] True d show ?thesis
        by (simp add: exit_pass.simps [of i k e] take_Suc_conv_app_nth)
    next
      case (Some r)
      with 1(2) [OF True Some] True d show ?thesis
        by (simp add: exit_pass.simps [of i k e] take_swap_remove mset_drop_swap_remove)
    qed
  qed
qed

lemma drop_slot_inv:
  assumes "eng_inv e" and "k < length (e_slots e)"
  shows "eng_inv (drop_slot i (e_slots e ! k) (e\<lparr>e_slots := swap_remove (e_slots e) k\<rparr>))"
proof -
  let ?s = "e_slots e ! k" and ?rest = "swap_remove (e_slots e) k"
  from assms(1) have ok: "slots_ok e" and pins: "pins_ok e" by (simp_all add: eng_inv_def)
  then have d: "distinct (map os_bind (e_slots e))" by (simp add: slots_ok_def)
  have r: "set ?rest = {x \<in> set (e_slots e). os_bind x \<noteq> os_bind ?s}"
    using set_swap_remove_distinct [OF assms(2) d] .
  have s: "?s \<in> set (e_slots e)" using assms(2) by simp
  with ok have nat: "fst (os_bind ?s) = VM_NAT" "os_host ?s \<noteq> VM_NAT" by (auto simp: slots_ok_def)
  have "x \<in> set (e_slots e) \<Longrightarrow> snd (os_bind x) = snd (os_bind ?s) \<Longrightarrow> os_bind x = os_bind ?s" for x
    using ok nat by (auto simp: slots_ok_def prod_eq_iff)
  then have ports: "obs_ports ?rest = obs_ports (e_slots e) - {snd (os_bind ?s)}"
    using s unfolding obs_ports_def r by auto
  have m: "mset ?rest \<subseteq># mset (e_slots e)" using assms(2) by (simp add: mset_swap_remove)
  have "hold_count h ?rest \<le> hold_count h (e_slots e)" for h
    using multiset_filter_mono [OF m, THEN size_mset_mono, of "\<lambda>s. os_host s = h"]
    by (simp add: hold_count_def flip: mset_filter size_mset)
  then have "hold_count h ?rest \<le> unat (e_per_host e)" for h
    using ok unfolding slots_ok_def by (meson order_trans)
  then have "slots_ok (e\<lparr>e_slots := ?rest\<rparr>)"
    using ok distinct_map_swap_remove [OF assms(2) d] r length_swap_remove [OF assms(2)]
    by (auto simp: slots_ok_def intro: order_trans)
  then show ?thesis
    using pins nat ports
    by (auto simp: eng_inv_def slots_ok_def pins_ok_def drop_slot_def pins_del_def unaccept_def)
qed

lemma exit_pass_inv: "eng_inv e \<Longrightarrow> eng_inv (exit_pass i k e)"
proof (induction i k e rule: exit_pass.induct)
  case (1 i k e)
  then show ?case
    by (subst exit_pass.simps) (auto intro: drop_slot_inv split: option.split)
qed

section \<open>The tick\<close>

lemma live_of_ok: "tick_ok i \<Longrightarrow> \<forall>c \<in> set (live_of e i). fst (rc_bind_tuple c) = VM_NAT \<and> rc_host c \<noteq> VM_NAT"
  by (auto simp: tick_ok_def live_of_def)

definition before_exit :: "tick_in \<Rightarrow> Engine \<Rightarrow> Engine" where
  "before_exit i e =
     (let live = live_of e i;
          e1 = retain_reported live e;
          e3 = fold (claim_one i) live (e1\<lparr>e_slots := map (bookkeep live i) (e_slots e1)\<rparr>)
      in liveness i (age_all i live (e3\<lparr>e_ticks := e_ticks e3 + 1\<rparr>)))"

lemma engine_tick_hold: "e_hold e \<Longrightarrow> engine_tick i e = exit_pass i 0 (before_exit i e)"
  by (simp add: engine_tick_def before_exit_def Let_def)

lemma before_exit_inv:
  assumes "eng_inv e" and "tick_ok i"
  shows "eng_inv (before_exit i e)"
proof -
  let ?live = "live_of e i" and ?e1 = "retain_reported (live_of e i) e"
  have "eng_inv (?e1\<lparr>e_slots := map (bookkeep ?live i) (e_slots ?e1)\<rparr>)"
    by (rule slots_map_inv) (simp_all add: assms(1))
  from claims_inv [OF live_of_ok [OF assms(2)] this]
  have "eng_inv (fold (claim_one i) ?live (?e1\<lparr>e_slots := map (bookkeep ?live i) (e_slots ?e1)\<rparr>))" .
  then have "eng_inv (e3\<lparr>e_ticks := e_ticks e3 + 1\<rparr>)"
    if "e3 = fold (claim_one i) ?live (?e1\<lparr>e_slots := map (bookkeep ?live i) (e_slots ?e1)\<rparr>)" for e3
    using that by (subst eng_inv_cong) simp_all
  then show ?thesis unfolding before_exit_def Let_def by (intro liveness_inv) simp
qed

lemma engine_tick_inv: "eng_inv e \<Longrightarrow> tick_ok i \<Longrightarrow> eng_inv (engine_tick i e)"
proof (cases "e_hold e")
  case False
  then show "eng_inv e \<Longrightarrow> eng_inv (engine_tick i e)"
    by (simp add: engine_tick_def Let_def report_only_inv)
qed (simp add: engine_tick_hold exit_pass_inv before_exit_inv)

text \<open>The configuration stays.\<close>

definition conf :: "Engine \<Rightarrow> u32 \<times> u32 \<times> ipv4 list \<times> bool" where
  "conf e = (e_max_refresh e, e_per_host e, e_allow e, e_hold e)"

lemma conf_frame [simp]:
  "conf (e\<lparr>e_slots := ss\<rparr>) = conf e" "conf (e\<lparr>e_ticks := n\<rparr>) = conf e"
  "conf (retain_reported live e) = conf e" "conf (report_once t e) = conf e"
  "conf (pins_del i h p e) = conf e" "conf (unaccept i p e) = conf e"
  "conf (e\<lparr>e_pins := A\<rparr>) = conf e" "conf (e\<lparr>e_accepts := A\<rparr>) = conf e"
  "conf (age_all i live e) = conf e" "conf (drop_slot i s e) = conf e" "conf (liveness i e) = conf e"
  by (simp_all add: conf_def retain_reported_def report_once_def pins_del_def unaccept_def
      age_all_def drop_slot_def liveness_def Let_def)

lemma conf_claim [simp]: "conf (claim_one i c e) = conf e"
  by (simp add: claim_one_def Let_def)

lemma conf_claims [simp]: "conf (fold (claim_one i) cs e) = conf e"
  by (induction cs arbitrary: e) simp_all

lemma conf_reports [simp]: "conf (report_only live e) = conf e"
proof -
  have "conf (fold (\<lambda>c. report_once (rc_bind_tuple c)) cs e) = conf e"
    for cs :: "RefreshCandidate list" and e :: Engine
    by (induction cs arbitrary: e) simp_all
  then show ?thesis by (simp add: report_only_def)
qed

lemma conf_exit [simp]: "conf (exit_pass i k e) = conf e"
proof (induction i k e rule: exit_pass.induct)
  case (1 i k e)
  then show ?case by (subst exit_pass.simps) (simp split: option.split)
qed

lemma conf_tick [simp]: "conf (engine_tick i e) = conf e"
  by (simp add: engine_tick_def Let_def)

text \<open>The engine as a machine over the ticks the capture can produce.\<close>

definition eng_step :: "tick_in \<Rightarrow> Engine \<Rightarrow> Engine" where
  "eng_step i e = (if tick_ok i then engine_tick i e else e)"

interpretation engine: machine eng_step "\<lambda>e. eng_inv e \<and> conf e = k"
  by unfold_locales (simp add: eng_step_def engine_tick_inv)

lemma eng_new_inv: "eng_inv (Engine_new m allow hold)"
  by (simp add: eng_inv_def slots_ok_def pins_ok_def Engine_new_def obs_ports_def hold_count_def)

lemma eng_steps: "\<forall>i \<in> set ts. tick_ok i \<Longrightarrow> fold eng_step ts e = fold engine_tick ts e"
  by (induction ts arbitrary: e) (simp_all add: eng_step_def)

section \<open>Properties\<close>

text \<open>C18 (invariant): whatever sockets, pins, accepts, removals and probes fail, after any
  sequence of ticks the engine holds at most its budget of flows and at most four per device, no
  tuple twice, each held port is pinned and accepted in the kernel, and every pin or accept in
  the kernel is of a held port or of one whose removal the kernel refused.\<close>

theorem engine_keeps_its_bounds:
  assumes "\<forall>i \<in> set ts. tick_ok i"
  shows "let e = fold engine_tick ts (Engine_new m allow hold)
    in length (e_slots e) \<le> unat m
      \<and> (\<forall>host. length (filter (\<lambda>s. os_host s = host) (e_slots e)) \<le> 4)
      \<and> distinct (map os_bind (e_slots e))
      \<and> (\<forall>s \<in> set (e_slots e). snd (os_bind s) \<in> e_pins e \<inter> e_accepts e)
      \<and> (\<forall>p \<in> e_pins e \<union> e_accepts e. p \<in> e_stuck e \<or> (\<exists>s \<in> set (e_slots e). snd (os_bind s) = p))"
proof -
  define e where "e = fold engine_tick ts (Engine_new m allow hold)"
  have "eng_inv (fold eng_step ts (Engine_new m allow hold))
      \<and> conf (fold eng_step ts (Engine_new m allow hold)) = conf (Engine_new m allow hold)"
    by (rule engine.run_inv) (simp add: eng_new_inv)
  then have inv: "slots_ok e" "pins_ok e" and c: "e_max_refresh e = m" "e_per_host e = 4"
    by (simp_all add: eng_steps [OF assms] e_def eng_inv_def conf_def Engine_new_def)
  from inv(2) have "\<forall>p \<in> e_pins e \<union> e_accepts e. p \<in> e_stuck e \<or> (\<exists>s \<in> set (e_slots e). snd (os_bind s) = p)"
    by (fastforce simp: pins_ok_def obs_ports_def)
  moreover from inv(2) have "\<forall>s \<in> set (e_slots e). snd (os_bind s) \<in> e_pins e \<inter> e_accepts e"
    by (auto simp: pins_ok_def obs_ports_def)
  moreover from inv(1) c have "\<forall>host. length (filter (\<lambda>s. os_host s = host) (e_slots e)) \<le> 4"
    by (simp add: slots_ok_def hold_count_def)
  ultimately show ?thesis
    using inv(1) c unfolding e_def [symmetric] Let_def by (simp add: slots_ok_def)
qed

text \<open>A tick for the evaluations: one quiet flow of a device, everything succeeding.\<close>

definition quiet_tick :: "tuple4 list \<Rightarrow> tick_in" where
  "quiet_tick owned = \<lparr>i_owned = owned, i_live = [\<lparr>rc_bind_tuple = (VM_NAT, 40000),
       rc_host = ipv4_of 192 168 21 9, rc_host_port = 7, rc_peer = (8, 53)\<rparr>], i_now = 100,
     i_inbound = (\<lambda>_. 100), i_external = (\<lambda>_. None), i_bind_ok = (\<lambda>_. True),
     i_pin_ok = (\<lambda>_. True), i_pin2_ok = (\<lambda>_. True), i_accept_ok = (\<lambda>_. True),
     i_del_ok = (\<lambda>_. True), i_proc_young = None, i_proc_slots = None, i_device_up = (\<lambda>_. True)\<rparr>"

lemma quiet_tick_ok: "tick_ok (quiet_tick owned)"
proof -
  have "ipv4_of 192 168 21 9 \<noteq> VM_NAT" by code_simp
  then show ?thesis by (simp add: tick_ok_def quiet_tick_def)
qed

theorem engine_keeps_its_bounds_witness:
  "length (e_slots (fold engine_tick (replicate 5 (quiet_tick [])) (Engine_new 8 [] True))) = 1
   \<and> 40000 \<in> e_pins (fold engine_tick (replicate 5 (quiet_tick [])) (Engine_new 8 [] True))"
proof -
  let ?ts = "replicate 5 (quiet_tick [])"
  have ok: "\<forall>i \<in> set ?ts. tick_ok i" using quiet_tick_ok by simp
  have s: "map os_bind (e_slots (fold engine_tick ?ts (Engine_new 8 [] True))) = [(VM_NAT, 40000)]"
    by code_simp
  then obtain x where x: "e_slots (fold engine_tick ?ts (Engine_new 8 [] True)) = [x]"
    "os_bind x = (VM_NAT, 40000)" by auto
  from engine_keeps_its_bounds [OF ok, of 8 "[]" True] x show ?thesis by (simp add: Let_def)
qed

text \<open>C25 (safety): no shadow outlives its reason to be. After a tick of a holding engine every
  slot left has no reason for release: in particular no allocation holds its tuple any more than
  the engine does, and its device has not failed three probes in a row; and nothing else was
  dropped by the exit pass.\<close>

theorem tick_releases_all_due:
  assumes "e_hold e"
  shows "(\<forall>s \<in> set (e_slots (engine_tick i e)). slot_reason (i_owned i) s = None
      \<and> os_bind s \<notin> set (i_owned i) \<and> os_misses s < DEV_MISSES_TO_RELEASE)
    \<and> mset (e_slots (engine_tick i e)) =
        filter_mset (\<lambda>s. slot_reason (i_owned i) s = None) (mset (e_slots (before_exit i e)))"
proof -
  have m: "mset (e_slots (engine_tick i e)) =
        filter_mset (\<lambda>s. slot_reason (i_owned i) s = None) (mset (e_slots (before_exit i e)))"
    using exit_pass_slots [of i 0 "before_exit i e"] by (simp add: engine_tick_hold [OF assms])
  have "slot_reason (i_owned i) s = None" if "s \<in> set (e_slots (engine_tick i e))" for s
  proof -
    from that have "s \<in># mset (e_slots (engine_tick i e))" by simp
    then show ?thesis unfolding m by simp
  qed
  moreover have "os_bind s \<notin> set owned \<and> os_misses s < DEV_MISSES_TO_RELEASE"
    if "slot_reason owned s = None" for owned s
    using that by (auto simp: slot_reason_def release_reason_def not_le split: if_splits)
  ultimately show ?thesis using m by blast
qed

theorem tick_releases_all_due_witness:
  "(VM_NAT, 40000) \<notin> os_bind ` set (e_slots (engine_tick (quiet_tick [(VM_NAT, 40000)])
      (fold engine_tick (replicate 5 (quiet_tick [])) (Engine_new 8 [] True))))"
proof -
  let ?e = "fold engine_tick (replicate 5 (quiet_tick [])) (Engine_new 8 [] True)"
  have "e_hold ?e" by code_simp
  from tick_releases_all_due [OF this, of "quiet_tick [(VM_NAT, 40000)]"] show ?thesis
    by (auto simp: quiet_tick_def)
qed

text \<open>Where the slots after the claims come from.\<close>

lemma pins_del_slots [simp]: "e_slots (pins_del i h p e) = e_slots e" "e_young (pins_del i h p e) = e_young e"
  by (simp_all add: pins_del_def)

lemma report_once_slots [simp]: "e_slots (report_once t e) = e_slots e" "e_young (report_once t e) = e_young e"
  by (simp_all add: report_once_def)

lemma claim_one_young [simp]: "e_young (claim_one i c e) = e_young e"
  by (simp add: claim_one_def Let_def)

definition claimable :: "tick_in \<Rightarrow> Engine \<Rightarrow> RefreshCandidate \<Rightarrow> bool" where
  "claimable i e c \<longleftrightarrow> KEEPALIVE_AFTER_TICKS \<le> claim_quiet e c \<and> rc_bind_tuple c \<notin> set (i_owned i)"

lemma claim_one_slots:
  "e_slots (claim_one i c e) = e_slots e
     \<or> claimable i e c \<and> e_slots (claim_one i c e) = e_slots e @ [claim_slot i c]"
  by (simp add: claim_one_def Let_def claim_allowed_def claimable_def not_less)

lemma claims_slots:
  "s \<in> set (e_slots (fold (claim_one i) cs e)) \<Longrightarrow>
     s \<in> set (e_slots e) \<or> (\<exists>c \<in> set cs. s = claim_slot i c \<and> claimable i e c)"
proof (induction cs arbitrary: e)
  case (Cons c cs)
  have "claimable i (claim_one i c e) c' \<longleftrightarrow> claimable i e c'" for c'
    by (simp add: claimable_def claim_quiet_def)
  with Cons.IH [of "claim_one i c e"] Cons.prems claim_one_slots [of i c e] show ?case by auto
qed simp

lemma liveness_tuples: "(\<lambda>s. (os_bind s, os_host s)) ` set (e_slots (liveness i e)) =
    (\<lambda>s. (os_bind s, os_host s)) ` set (e_slots e)"
  by (simp add: liveness_def Let_def image_image)

lemma age_all_slots [simp]: "e_slots (age_all i live e) = e_slots e"
  by (simp add: age_all_def Let_def)

section \<open>What the counter of a young flow stands for\<close>

lemma liveness_young [simp]: "e_young (liveness i e) = e_young e"
  by (simp add: liveness_def Let_def)

lemma drop_slot_young [simp]: "e_young (drop_slot i s e) = e_young e"
  by (simp add: drop_slot_def unaccept_def)

lemma exit_pass_young [simp]: "e_young (exit_pass i k e) = e_young e"
proof (induction i k e rule: exit_pass.induct)
  case (1 i k e)
  then show ?case by (subst exit_pass.simps) (simp split: option.split)
qed

lemma claims_young [simp]: "e_young (fold (claim_one i) cs e) = e_young e"
  by (induction cs arbitrary: e) simp_all

text \<open>
  What conntrack says of the packets a candidate's device has sent: 0 when the table cannot be read.
  And what one tick reads of a tuple: nothing when the capture admits no candidate, \<open>None\<close> when it
  admits others, and one count for every candidate that names the tuple.
\<close>

definition device_count :: "tick_in \<Rightarrow> RefreshCandidate \<Rightarrow> u64" where
  "device_count i c = (case i_proc_young i of
     Some f \<Rightarrow> device_packets f (rc_bind_tuple c) (rc_host c) | None \<Rightarrow> 0)"

definition candidates :: "ipv4 list \<Rightarrow> tick_in \<Rightarrow> RefreshCandidate list" where
  "candidates allow i = filter (\<lambda>c. allow = [] \<or> rc_host c \<in> set allow) (i_live i)"

definition readings :: "ipv4 list \<Rightarrow> tuple4 \<Rightarrow> tick_in \<Rightarrow> u64 option list" where
  "readings allow t i = (if candidates allow i = [] then []
     else if \<not> is_live_tuple (candidates allow i) t then [None]
     else map (\<lambda>c. Some (device_count i c)) (filter (\<lambda>c. rc_bind_tuple c = t) (candidates allow i)))"

lemma live_of_candidates: "live_of e i = candidates (e_allow e) i"
  by (simp add: live_of_def candidates_def)

text \<open>The last readings of a list are counts that never rise above \<open>m\<close>, which the first of them or the one before shows.\<close>

definition unmoved :: "u64 option list \<Rightarrow> u64 \<Rightarrow> nat \<Rightarrow> bool" where
  "unmoved rs m n \<longleftrightarrow> (\<exists>xs ys. rs = xs @ map Some ys \<and> n \<le> length ys \<and> (\<forall>y \<in> set ys. y \<le> m)
     \<and> (xs \<noteq> [] \<and> last xs = Some m \<or> ys \<noteq> [] \<and> hd ys = m))"

lemma unmoved_one_more: "unmoved rs m n \<Longrightarrow> r \<le> m \<Longrightarrow> unmoved (rs @ [Some r]) m (Suc n)"
proof -
  assume "unmoved rs m n" and r: "r \<le> m"
  then obtain xs ys where "rs = xs @ map Some ys" "n \<le> length ys" "\<forall>y \<in> set ys. y \<le> m"
    "xs \<noteq> [] \<and> last xs = Some m \<or> ys \<noteq> [] \<and> hd ys = m" unfolding unmoved_def by blast
  then have "rs @ [Some r] = xs @ map Some (ys @ [r]) \<and> Suc n \<le> length (ys @ [r]) \<and> (\<forall>y \<in> set (ys @ [r]). y \<le> m)
     \<and> (xs \<noteq> [] \<and> last xs = Some m \<or> ys @ [r] \<noteq> [] \<and> hd (ys @ [r]) = m)" using r by auto
  then show ?thesis unfolding unmoved_def by blast
qed

lemma unmoved_reset: "unmoved (rs @ [Some m]) m 0"
  unfolding unmoved_def by (rule exI [of _ "rs @ [Some m]"], rule exI [of _ "[]"]) simp

lemma unmoved_first: "unmoved (rs @ [Some m]) m (Suc 0)"
  unfolding unmoved_def by (rule exI [of _ rs], rule exI [of _ "[m]"]) simp

lemma unmoved_fewer: "unmoved rs m n \<Longrightarrow> k \<le> n \<Longrightarrow> unmoved rs m k"
  unfolding unmoved_def by (blast intro: le_trans)

definition young_ok :: "u64 option list \<Rightarrow> (u64 \<times> u32) option \<Rightarrow> bool" where
  "young_ok rs y \<longleftrightarrow> (\<forall>m q. y = Some (m, q) \<longrightarrow> unmoved rs m (unat q))"

lemma unat_sat_add_one: "unat (sat_add q (1::u32)) \<le> Suc (unat q)"
proof -
  have "unat (sat_add q (1::u32)) \<le> unat q + unat (1::u32)" unfolding unat_sat_add by (rule min.cobounded1)
  then show ?thesis by (simp only: unsigned_1 Suc_eq_plus1)
qed

lemma age_young_ok:
  assumes "young_ok rs (young (rc_bind_tuple c))"
  shows "young_ok (rs @ [Some (device_count i c)]) (age_young i c young (rc_bind_tuple c))"
proof (cases "young (rc_bind_tuple c)")
  case None
  have "unmoved (rs @ [Some (device_count i c)]) (device_count i c) (unat (sat_add 0 (1::u32)))"
    by (rule unmoved_fewer [OF unmoved_first]) (simp add: unat_sat_add)
  with None show ?thesis by (simp add: young_ok_def age_young_def device_count_def Let_def)
next
  case (Some mq)
  obtain m q where mq: "mq = (m, q)" by (cases mq)
  with Some assms have u: "unmoved rs m (unat q)" by (simp add: young_ok_def)
  show ?thesis
  proof (cases "m < device_count i c")
    case True
    then show ?thesis using Some mq unmoved_reset [of rs "device_count i c"]
      by (simp add: young_ok_def age_young_def device_count_def Let_def)
  next
    case False
    then have "unmoved (rs @ [Some (device_count i c)]) m (unat (sat_add q 1))"
      by (intro unmoved_fewer [OF unmoved_one_more [OF u] unat_sat_add_one]) simp
    moreover have "age_young i c young (rc_bind_tuple c) = Some (m, sat_add q 1)"
      using False Some mq by (auto simp: age_young_def device_count_def Let_def max_absorb1 not_less)
    ultimately show ?thesis by (simp add: young_ok_def)
  qed
qed

lemma age_other: "rc_bind_tuple c \<noteq> t \<Longrightarrow> age_young i c young t = young t"
  by (simp add: age_young_def Let_def split_beta)

lemma ages_ok:
  "young_ok rs (young t) \<Longrightarrow>
     young_ok (rs @ map (\<lambda>c. Some (device_count i c)) (filter (\<lambda>c. rc_bind_tuple c = t) cs)) (fold (age_young i) cs young t)"
proof (induction cs arbitrary: rs young)
  case (Cons c cs)
  show ?case
  proof (cases "rc_bind_tuple c = t")
    case True
    with Cons.prems have "young_ok (rs @ [Some (device_count i c)]) (age_young i c young t)"
      using age_young_ok [of rs young c i] by simp
    with True show ?thesis using Cons.IH [of "rs @ [Some (device_count i c)]" "age_young i c young"] by simp
  next
    case False
    with Cons.prems have "young_ok rs (age_young i c young t)" by (simp add: age_other)
    with False show ?thesis using Cons.IH [of rs "age_young i c young"] by simp
  qed
qed simp

lemma tick_young:
  "e_hold e \<Longrightarrow> e_young (engine_tick i e) = e_young (age_all i (candidates (e_allow e) i) e)"
  by (simp add: engine_tick_hold before_exit_def Let_def live_of_candidates age_all_def retain_reported_def)

lemma tick_young_ok:
  assumes "e_hold e" and ok: "young_ok rs (e_young e t)"
  shows "young_ok (rs @ readings (e_allow e) t i) (e_young (engine_tick i e) t)"
proof (cases "candidates (e_allow e) i = []")
  case True
  then show ?thesis using ok by (simp add: tick_young [OF assms(1)] age_all_def readings_def)
next
  case False
  then show ?thesis
    using ages_ok [of rs "e_young e" t i "candidates (e_allow e) i"] ok
    by (simp add: tick_young [OF assms(1)] age_all_def readings_def Let_def young_ok_def)
qed

lemma run_young_ok:
  "e_allow (fold engine_tick ts (Engine_new m allow True)) = allow
   \<and> e_hold (fold engine_tick ts (Engine_new m allow True))
   \<and> young_ok (concat (map (readings allow t) ts)) (e_young (fold engine_tick ts (Engine_new m allow True)) t)"
proof (induction ts rule: rev_induct)
  case Nil
  show ?case by (simp add: Engine_new_def young_ok_def)
next
  case (snoc i ts)
  let ?e = "fold engine_tick ts (Engine_new m allow True)"
  have "conf (engine_tick i ?e) = conf ?e" by (rule conf_tick)
  with snoc show ?case using tick_young_ok [of ?e "concat (map (readings allow t) ts)" t i] by (simp add: conf_def)
qed

text \<open>
  The ageing counts candidates, not ticks. The \<open>proc\<close> capture has a candidate for every entry of a flow, so a
  flow with four peers is quiet enough for a claim at the end of the very tick in which its device sent.
\<close>

lemma busy_flow_counts_as_quiet:
  assumes "\<forall>c \<in> {c1, c2, c3, c4}. rc_bind_tuple c = t \<and> rc_host c = h"
    and "i_proc_young i = Some f" and "young t = Some (m, q)" and "m < device_packets f t h"
  shows "fold (age_young i) [c1, c2, c3, c4] young t = Some (device_packets f t h, KEEPALIVE_AFTER_TICKS)"
proof -
  have "sat_add (sat_add (sat_add 0 1) 1) (1::u32) = KEEPALIVE_AFTER_TICKS" by code_simp
  then show ?thesis using assms by (simp add: age_young_def)
qed

text \<open>C26 (safety): the engine takes a flow over only on three readings that show no new packet of its device.
  When a tick after a run of ticks holds a flow that was not held before, the flow is a live candidate of a device the list
  admits and is owned by no slot. And of what the ticks of the run read of its tuple (one packet
  count for each candidate that names it, 0 when conntrack cannot be read, a gap when the admitted
  candidates name only others) the last readings, at least three of them, are counts without a gap
  that never rise above the one they start from, which is the first of them or the one just before.\<close>

theorem claims_only_quiet_flows:
  assumes e: "e = fold engine_tick ts (Engine_new m allow True)" and "s \<in> set (e_slots (engine_tick i e))"
    and "os_bind s \<notin> os_bind ` set (e_slots e)"
  shows "\<exists>c \<in> set (i_live i). os_bind s = rc_bind_tuple c \<and> os_host s = rc_host c
    \<and> (allow = [] \<or> rc_host c \<in> set allow) \<and> os_bind s \<notin> set (i_owned i)
    \<and> (\<exists>xs ys n. concat (map (readings allow (os_bind s)) ts) = xs @ map Some ys \<and> 3 \<le> length ys
        \<and> (\<forall>y \<in> set ys. y \<le> n) \<and> (hd ys = n \<or> xs \<noteq> [] \<and> last xs = Some n))"
proof -
  let ?live = "live_of e i" and ?e1 = "retain_reported (live_of e i) e"
  let ?e2 = "?e1\<lparr>e_slots := map (bookkeep ?live i) (e_slots ?e1)\<rparr>"
  let ?e3 = "fold (claim_one i) ?live ?e2"
  have run: "e_allow e = allow" "e_hold e" "young_ok (concat (map (readings allow t) ts)) (e_young e t)" for t
    using run_young_ok [of ts m allow t] by (simp_all add: e)
  have "s \<in># mset (e_slots (engine_tick i e))" using assms(2) by simp
  then have "s \<in> set (e_slots (before_exit i e))"
    using exit_pass_slots [of i 0 "before_exit i e"] by (simp add: engine_tick_hold [OF run(2)])
  then have "(os_bind s, os_host s) \<in> (\<lambda>s. (os_bind s, os_host s)) ` set (e_slots (before_exit i e))"
    by blast
  then have "(os_bind s, os_host s) \<in> (\<lambda>s. (os_bind s, os_host s)) ` set (e_slots ?e3)"
    by (simp add: before_exit_def Let_def liveness_tuples)
  then obtain x where x: "x \<in> set (e_slots ?e3)" "os_bind x = os_bind s" "os_host x = os_host s" by auto
  have "x \<notin> set (e_slots ?e2)"
    using x(2) assms(3) by (auto simp: retain_reported_def image_iff)
  with claims_slots [OF x(1)] obtain c where
    c: "c \<in> set ?live" "x = claim_slot i c" "claimable i ?e2 c" by blast
  from c(3) have q: "3 \<le> claim_quiet e c" "rc_bind_tuple c \<notin> set (i_owned i)"
    by (simp_all add: claimable_def claim_quiet_def retain_reported_def KEEPALIVE_AFTER_TICKS_def)
  have b: "os_bind s = rc_bind_tuple c" "os_host s = rc_host c"
    using x c(2) by (simp_all add: claim_slot_def)
  have "c \<in> set (i_live i) \<and> (allow = [] \<or> rc_host c \<in> set allow)"
    using c(1) run(1) by (auto simp: live_of_def split: if_splits)
  moreover obtain n quiet where nq: "e_young e (rc_bind_tuple c) = Some (n, quiet)" "3 \<le> quiet"
    using q(1) by (auto simp: claim_quiet_def split: option.splits)
  have "unmoved (concat (map (readings allow (os_bind s)) ts)) n 3"
    using run(3) [of "os_bind s"] nq unfolding young_ok_def b
    by (auto intro!: unmoved_fewer [of _ n "unat quiet"] simp: word_le_nat_alt)
  then have "\<exists>xs ys n. concat (map (readings allow (os_bind s)) ts) = xs @ map Some ys \<and> 3 \<le> length ys
        \<and> (\<forall>y \<in> set ys. y \<le> n) \<and> (hd ys = n \<or> xs \<noteq> [] \<and> last xs = Some n)" unfolding unmoved_def by blast
  ultimately show ?thesis using b q(2) by auto
qed

theorem claims_only_quiet_flows_witness:
  "\<exists>xs ys n. concat (map (readings [] (VM_NAT, 40000)) (replicate 3 (quiet_tick []))) = xs @ map Some ys
     \<and> 3 \<le> length ys \<and> (\<forall>y \<in> set ys. y \<le> n) \<and> (hd ys = n \<or> xs \<noteq> [] \<and> last xs = Some n)"
proof -
  define e where "e = fold engine_tick (replicate 3 (quiet_tick [])) (Engine_new 8 [] True)"
  have "map os_bind (e_slots (engine_tick (quiet_tick []) e)) = [(VM_NAT, 40000)]"
    unfolding e_def by code_simp
  then obtain x where x: "x \<in> set (e_slots (engine_tick (quiet_tick []) e))" "os_bind x = (VM_NAT, 40000)" by auto
  have "e_slots e = []" unfolding e_def by code_simp
  then have "os_bind x \<notin> os_bind ` set (e_slots e)" by simp
  from claims_only_quiet_flows [OF e_def x(1) this] x(2) show ?thesis by auto
qed

end
