(* ===== verification/Crypto.thy ===== *)
theory Crypto
  imports Text
begin

text \<open>
  The digests and text codecs that the device protection service carries itself
  (\<open>src/src/dp.rs\<close>): SHA-256, HMAC and PBKDF2, hexadecimal ids and base64, with the round
  trips of the two codecs.
\<close>

section \<open>SHA-256\<close>

definition sha_K :: "u32 list" where
  "sha_K = [0x428A2F98, 0x71374491, 0xB5C0FBCF, 0xE9B5DBA5, 0x3956C25B, 0x59F111F1,
     0x923F82A4, 0xAB1C5ED5, 0xD807AA98, 0x12835B01, 0x243185BE, 0x550C7DC3,
     0x72BE5D74, 0x80DEB1FE, 0x9BDC06A7, 0xC19BF174, 0xE49B69C1, 0xEFBE4786,
     0x0FC19DC6, 0x240CA1CC, 0x2DE92C6F, 0x4A7484AA, 0x5CB0A9DC, 0x76F988DA,
     0x983E5152, 0xA831C66D, 0xB00327C8, 0xBF597FC7, 0xC6E00BF3, 0xD5A79147,
     0x06CA6351, 0x14292967, 0x27B70A85, 0x2E1B2138, 0x4D2C6DFC, 0x53380D13,
     0x650A7354, 0x766A0ABB, 0x81C2C92E, 0x92722C85, 0xA2BFE8A1, 0xA81A664B,
     0xC24B8B70, 0xC76C51A3, 0xD192E819, 0xD6990624, 0xF40E3585, 0x106AA070,
     0x19A4C116, 0x1E376C08, 0x2748774C, 0x34B0BCB5, 0x391C0CB3, 0x4ED8AA4A,
     0x5B9CCA4F, 0x682E6FF3, 0x748F82EE, 0x78A5636F, 0x84C87814, 0x8CC70208,
     0x90BEFFFA, 0xA4506CEB, 0xBEF9A3F7, 0xC67178F2]"

function chunks_exact :: "nat \<Rightarrow> 'a list \<Rightarrow> 'a list list" where
  "chunks_exact n xs =
     (if n = 0 \<or> length xs < n then [] else take n xs # chunks_exact n (drop n xs))"
  by pat_completeness auto
termination by (relation "measure (\<lambda>(n, xs). length xs)") auto

declare chunks_exact.simps [simp del]

text \<open>The padding loop: zeros until the length is 56 modulo 64.\<close>

definition sha_pad :: "u8 list \<Rightarrow> u8 list" where
  "sha_pad msg =
     (let bitlen = (of_nat (length msg) :: u64) * 8;
          marked = msg @ [0x80];
          zeros = (64 + 56 - length marked mod 64) mod 64
      in marked @ replicate zeros 0 @ to_be bitlen)"

fun sha_expand :: "nat \<Rightarrow> u32 list \<Rightarrow> u32 list" where
  "sha_expand 0 w = w"
| "sha_expand (Suc n) w =
     (let i = length w;
          w15 = w ! (i - 15); w2 = w ! (i - 2);
          s0 = word_rotr 7 w15 XOR word_rotr 18 w15 XOR drop_bit 3 w15;
          s1 = word_rotr 17 w2 XOR word_rotr 19 w2 XOR drop_bit 10 w2
      in sha_expand n (w @ [w ! (i - 16) + s0 + w ! (i - 7) + s1]))"

record sha_vars =
  va :: u32  vb :: u32  vc :: u32  vd :: u32  ve :: u32  vf :: u32  vg :: u32  vh :: u32

definition sha_round :: "u32 \<times> u32 \<Rightarrow> sha_vars \<Rightarrow> sha_vars" where
  "sha_round kw v =
     (let e = ve v; a = va v;
          s1 = word_rotr 6 e XOR word_rotr 11 e XOR word_rotr 25 e;
          ch = (e AND vf v) XOR (NOT e AND vg v);
          t1 = vh v + s1 + ch + fst kw + snd kw;
          s0 = word_rotr 2 a XOR word_rotr 13 a XOR word_rotr 22 a;
          maj = (a AND vb v) XOR (a AND vc v) XOR (vb v AND vc v);
          t2 = s0 + maj
      in \<lparr>va = t1 + t2, vb = a, vc = vb v, vd = vc v, ve = vd v + t1, vf = e, vg = vf v, vh = vg v\<rparr>)"

definition sha_block :: "u8 list \<Rightarrow> sha_vars \<Rightarrow> sha_vars" where
  "sha_block block h =
     (let w = sha_expand 48 (map from_be (chunks_exact 4 block));
          v = fold sha_round (zip sha_K w) h
      in \<lparr>va = va h + va v, vb = vb h + vb v, vc = vc h + vc v, vd = vd h + vd v,
          ve = ve h + ve v, vf = vf h + vf v, vg = vg h + vg v, vh = vh h + vh v\<rparr>)"

definition sha_init :: sha_vars where
  "sha_init = \<lparr>va = 0x6a09e667, vb = 0xbb67ae85, vc = 0x3c6ef372, vd = 0xa54ff53a,
     ve = 0x510e527f, vf = 0x9b05688c, vg = 0x1f83d9ab, vh = 0x5be0cd19\<rparr>"

definition sha256 :: "u8 list \<Rightarrow> u8 list" where
  "sha256 msg =
     (let h = fold sha_block (chunks_exact 64 (sha_pad msg)) sha_init
      in concat (map to_be [va h, vb h, vc h, vd h, ve h, vf h, vg h, vh h]))"

section \<open>HMAC and PBKDF2\<close>

definition hmac_sha256 :: "u8 list \<Rightarrow> u8 list \<Rightarrow> u8 list" where
  "hmac_sha256 key msg =
     (let k0 = (if 64 < length key then sha256 key else key);
          k = k0 @ replicate (64 - length k0) 0;
          ipad = map (\<lambda>b. 0x36 XOR b) k;
          opad = map (\<lambda>b. 0x5c XOR b) k
      in sha256 (opad @ sha256 (ipad @ msg)))"

text \<open>The inner loop: the running block \<open>u\<close> and the sum \<open>t\<close>.\<close>

primrec pbkdf2_rounds :: "u8 list \<Rightarrow> nat \<Rightarrow> u8 list \<Rightarrow> u8 list \<Rightarrow> u8 list" where
  "pbkdf2_rounds password 0 u t = t"
| "pbkdf2_rounds password (Suc n) u t =
     (let u1 = hmac_sha256 password u in pbkdf2_rounds password n u1 (map2 (XOR) t u1))"

definition pbkdf2_block :: "u8 list \<Rightarrow> u8 list \<Rightarrow> u32 \<Rightarrow> u32 \<Rightarrow> u8 list" where
  "pbkdf2_block password salt iterations block =
     (let t = hmac_sha256 password (salt @ to_be block)
      in pbkdf2_rounds password (unat iterations - 1) t t)"

text \<open>The outer loop appends blocks of 32 octets until the length is reached.\<close>

lemma length_sha256 [simp]: "length (sha256 msg) = 32"
  by (simp add: sha256_def Let_def)

lemma length_hmac [simp]: "length (hmac_sha256 key msg) = 32"
  by (simp add: hmac_sha256_def Let_def)

lemma length_pbkdf2_rounds: "length t = 32 \<Longrightarrow> length (pbkdf2_rounds password n u t) = 32"
  by (induction n arbitrary: u t) (simp_all add: Let_def)

lemma length_pbkdf2_block [simp]: "length (pbkdf2_block password salt iterations block) = 32"
  by (simp add: pbkdf2_block_def Let_def length_pbkdf2_rounds)

function pbkdf2_from :: "u8 list \<Rightarrow> u8 list \<Rightarrow> u32 \<Rightarrow> nat \<Rightarrow> u32 \<Rightarrow> u8 list \<Rightarrow> u8 list" where
  "pbkdf2_from password salt iterations dk_len block out =
     (if length out < dk_len
      then pbkdf2_from password salt iterations dk_len (block + 1)
             (out @ pbkdf2_block password salt iterations block)
      else out)"
  by pat_completeness auto
termination by (relation "measure (\<lambda>(_, _, _, dk_len, _, out). dk_len - length out)") auto

declare pbkdf2_from.simps [simp del]

definition pbkdf2_hmac_sha256 :: "u8 list \<Rightarrow> u8 list \<Rightarrow> u32 \<Rightarrow> nat \<Rightarrow> u8 list" where
  "pbkdf2_hmac_sha256 password salt iterations dk_len =
     take dk_len (pbkdf2_from password salt iterations dk_len 1 [])"

lemma pbkdf2_from_length: "dk_len \<le> length (pbkdf2_from password salt iterations dk_len block out)"
proof (induction password salt iterations dk_len block out rule: pbkdf2_from.induct)
  case (1 password salt iterations dk_len block out)
  then show ?case by (subst pbkdf2_from.simps) simp
qed

lemma length_pbkdf2 [simp]: "length (pbkdf2_hmac_sha256 password salt iterations dk_len) = dk_len"
  by (simp add: pbkdf2_hmac_sha256_def pbkdf2_from_length min_absorb1)

lemma sha_pad_blocks: "length (sha_pad msg) mod 64 = 0"
proof -
  define r where "r = Suc (length msg) mod 64"
  define z where "z = (120 - r) mod 64"
  have "(r + z + 8) mod 64 = 0"
  proof (cases "r \<le> 56")
    case True
    then have "120 - r = 64 + (56 - r)" by simp
    then have "z = (64 + (56 - r)) mod 64" by (simp only: z_def)
    also have "\<dots> = 56 - r" by simp
    finally show ?thesis using True by simp
  next
    case False
    moreover have "r < 64" by (simp add: r_def)
    ultimately have "z = 120 - r" by (simp add: z_def)
    with \<open>r < 64\<close> show ?thesis by simp
  qed
  moreover have "length (sha_pad msg) = Suc (length msg) + (z + 8)"
    by (simp add: sha_pad_def Let_def z_def r_def)
  ultimately show ?thesis by (simp add: r_def mod_add_left_eq add.assoc)
qed

section \<open>Hexadecimal ids\<close>

definition hex_char :: "u8 \<Rightarrow> char" where
  "hex_char d = ''0123456789abcdef'' ! unat d"

definition hex :: "u8 list \<Rightarrow> string" where
  "hex v = concat (map (\<lambda>b. [hex_char (drop_bit 4 b), hex_char (b AND 15)]) v)"

definition hex_digit :: "char \<Rightarrow> u8 option" where
  "hex_digit c = (case position (\<lambda>x. x = c) ''0123456789abcdef'' of
     Some i \<Rightarrow> Some (of_nat i)
   | None \<Rightarrow> map_option of_nat (map_option ((+) 10) (position (\<lambda>x. x = c) ''ABCDEF'')))"

text \<open>\<open>u8::from_str_radix\<close> on two characters: a leading plus sign is taken before a digit.\<close>

definition hex_pair :: "char \<Rightarrow> char \<Rightarrow> u8 option" where
  "hex_pair c d =
     (if c = CHR ''+'' then hex_digit d
      else (case (hex_digit c, hex_digit d) of
              (Some x, Some y) \<Rightarrow> Some (push_bit 4 x OR y) | _ \<Rightarrow> None))"

fun unhex :: "string \<Rightarrow> u8 list option" where
  "unhex [] = Some []"
| "unhex [c] = None"
| "unhex (c # d # cs) = (case (hex_pair c d, unhex cs) of
     (Some b, Some bs) \<Rightarrow> Some (b # bs) | _ \<Rightarrow> None)"

definition unhex16 :: "string \<Rightarrow> u8 list option" where
  "unhex16 s = (if length s \<noteq> 32 then None else unhex s)"

lemma hex_digit_back: "d < 16 \<Longrightarrow> hex_digit (hex_char d) = Some d \<and> hex_char d \<noteq> CHR ''+''"
proof -
  have "list_all (\<lambda>n. hex_digit (hex_char (of_nat n)) = Some (of_nat n) \<and> hex_char (of_nat n) \<noteq> CHR ''+'')
    [0..<16]" by code_simp
  moreover assume "d < 16"
  then have "unat d \<in> set [0..<16]" by (simp add: word_less_nat_alt)
  ultimately show ?thesis unfolding list_all_iff by fastforce
qed

lemma nibbles: "drop_bit 4 (b::u8) < 16" "b AND 15 < 16" "push_bit 4 (drop_bit 4 b) OR (b AND 15) = b"
proof -
  have m: "(15::u8) = mask 4" by (simp add: mask_eq_exp_minus_1)
  show "b AND 15 < 16"
    unfolding m take_bit_eq_mask [symmetric]
    by (simp add: take_bit_eq_mod word_mod_less_divisor)
  show "drop_bit 4 b < 16"
    using unat_bound [of b] by (simp add: word_less_nat_alt unsigned_drop_bit_eq drop_bit_eq_div unat_div)
  show "push_bit 4 (drop_bit 4 b) OR (b AND 15) = b"
    unfolding m by (rule bit_eqI) (auto simp: bit_simps)
qed

lemma hex_pair_back: "hex_pair (hex_char (drop_bit 4 b)) (hex_char (b AND 15)) = Some b"
  using hex_digit_back [OF nibbles(1), of b] hex_digit_back [OF nibbles(2), of b] nibbles(3) [of b]
  by (simp add: hex_pair_def)

lemma unhex_hex: "unhex (hex v) = Some v"
  by (induction v) (simp_all add: hex_def hex_pair_back)

lemma length_hex: "length (hex v) = 2 * length v"
  by (induction v) (simp_all add: hex_def)

lemma unhex16_hex: "length v = 16 \<Longrightarrow> unhex16 (hex v) = Some v"
  by (simp add: unhex16_def length_hex unhex_hex)

section \<open>Base64\<close>

definition B64 :: string where
  "B64 = ''ABCDEFGHIJKLMNOPQRSTUVWXYZabcdefghijklmnopqrstuvwxyz0123456789+/''"

definition b64_char :: "u32 \<Rightarrow> char" where
  "b64_char v = B64 ! unat (v AND 63)"

definition b64_triple :: "u8 \<Rightarrow> u8 \<Rightarrow> u8 \<Rightarrow> u32" where
  "b64_triple b0 b1 b2 = push_bit 16 (ucast b0) OR push_bit 8 (ucast b1) OR ucast b2"

text \<open>One chunk of one to three bytes.\<close>

definition b64_group :: "u8 list \<Rightarrow> string" where
  "b64_group chunk =
     (let b1 = (if 1 < length chunk then chunk ! 1 else 0);
          b2 = (if 2 < length chunk then chunk ! 2 else 0);
          triple = b64_triple (chunk ! 0) b1 b2
      in [b64_char (drop_bit 18 triple), b64_char (drop_bit 12 triple),
          if 1 < length chunk then b64_char (drop_bit 6 triple) else CHR ''='',
          if 2 < length chunk then b64_char triple else CHR ''=''])"

fun base64_encode :: "u8 list \<Rightarrow> string" where
  "base64_encode [] = []"
| "base64_encode [a] = b64_group [a]"
| "base64_encode [a, b] = b64_group [a, b]"
| "base64_encode (a # b # c # data) = b64_group [a, b, c] @ base64_encode data"

definition b64_val :: "char \<Rightarrow> u32 option" where
  "b64_val c =
     (let v = of_char c :: nat
      in if 65 \<le> v \<and> v \<le> 90 then Some (of_nat (v - 65))
         else if 97 \<le> v \<and> v \<le> 122 then Some (of_nat (v - 97 + 26))
         else if 48 \<le> v \<and> v \<le> 57 then Some (of_nat (v - 48 + 52))
         else if c = CHR ''+'' then Some 62
         else if c = CHR ''/'' then Some 63
         else if c = CHR ''='' then Some 0
         else None)"

definition unb64_group :: "char \<Rightarrow> char \<Rightarrow> char \<Rightarrow> char \<Rightarrow> u8 list option" where
  "unb64_group c0 c1 c2 c3 =
     (case (b64_val c0, b64_val c1, b64_val c2, b64_val c3) of
        (Some v0, Some v1, Some v2, Some v3) \<Rightarrow>
          let triple = push_bit 18 v0 OR push_bit 12 v1 OR push_bit 6 v2 OR v3
          in Some (ucast (drop_bit 16 triple)
               # (if c2 \<noteq> CHR ''='' then [ucast (drop_bit 8 triple)] else [])
               @ (if c3 \<noteq> CHR ''='' then [ucast triple] else []))
      | _ \<Rightarrow> None)"

fun unb64_groups :: "string \<Rightarrow> u8 list option" where
  "unb64_groups (c0 # c1 # c2 # c3 # cs) = (case (unb64_group c0 c1 c2 c3, unb64_groups cs) of
     (Some bs, Some rest) \<Rightarrow> Some (bs @ rest) | _ \<Rightarrow> None)"
| "unb64_groups _ = Some []"

definition base64_decode :: "string \<Rightarrow> u8 list option" where
  "base64_decode s0 =
     (let s = filter (\<lambda>c. c \<notin> set [CHR 0x20, CHR 0x09, CHR 0x0A, CHR 0x0C, CHR 0x0D]) s0
      in if s = [] then Some []
         else if length s mod 4 \<noteq> 0 then None
         else (case position (\<lambda>c. c = CHR ''='') s of
                 Some p \<Rightarrow>
                   if p + 2 < length s then None
                   else if list_ex (\<lambda>c. c \<noteq> CHR ''='') (drop p s) then None
                   else unb64_groups s
               | None \<Rightarrow> unb64_groups s))"

lemma b64_char_props:
  "b64_val (b64_char v) = Some (v AND 63) \<and> b64_char v \<noteq> CHR ''=''
    \<and> b64_char v \<notin> set [CHR 0x20, CHR 0x09, CHR 0x0A, CHR 0x0C, CHR 0x0D]"
proof -
  have all: "list_all (\<lambda>(n, c). b64_val c = Some (of_nat n) \<and> c \<noteq> CHR ''=''
    \<and> c \<notin> set [CHR 0x20, CHR 0x09, CHR 0x0A, CHR 0x0C, CHR 0x0D]) (enumerate 0 B64)" by code_simp
  have len: "length B64 = 64" by (simp add: B64_def)
  have "v AND 63 \<le> 63" by (rule word_and_le1)
  then have "unat (v AND 63) < 64" by (simp add: word_le_nat_alt)
  with all len have "b64_val (B64 ! unat (v AND 63)) = Some (of_nat (unat (v AND 63)))
    \<and> B64 ! unat (v AND 63) \<noteq> CHR ''=''
    \<and> B64 ! unat (v AND 63) \<notin> set [CHR 0x20, CHR 0x09, CHR 0x0A, CHR 0x0C, CHR 0x0D]"
    by (auto simp: list_all_length nth_enumerate_eq)
  then show ?thesis by (simp add: b64_char_def)
qed

lemma b64_val_char [simp]: "b64_val (b64_char v) = Some (v AND 63)"
  using b64_char_props by blast

lemma b64_char_plain [simp]: "b64_char v \<noteq> CHR ''=''" "CHR ''='' \<noteq> b64_char v"
  using b64_char_props by metis+

lemma b64_val_pad [simp]: "b64_val CHR ''='' = Some 0"
  by code_simp

lemma mask6: "(63::u32) = mask 6"
  by (simp add: mask_eq_exp_minus_1)

lemma triple_back:
  assumes "take_bit 24 t = t"
  shows "push_bit 18 (drop_bit 18 t AND 63) OR push_bit 12 (drop_bit 12 t AND 63)
      OR push_bit 6 (drop_bit 6 t AND 63) OR (t AND 63) = (t::u32)"
proof (rule bit_eqI)
  fix n assume n: "possible_bit TYPE(u32) n"
  have high: "\<not> bit t n" if "24 \<le> n"
    using assms that by (metis bit_take_bit_iff not_le)
  show "bit (push_bit 18 (drop_bit 18 t AND 63) OR push_bit 12 (drop_bit 12 t AND 63)
      OR push_bit 6 (drop_bit 6 t AND 63) OR (t AND 63)) n \<longleftrightarrow> bit t n"
    using n high unfolding mask6
    by (cases "n < 6"; cases "n < 12"; cases "n < 18"; cases "n < 24") (auto simp: bit_simps)
qed

lemma bit_b64_triple:
  "bit (b64_triple a b c) n \<longleftrightarrow> (if n < 8 then bit c n else if n < 16 then bit b (n - 8)
     else n < 24 \<and> bit a (n - 16))"
  by (auto simp: b64_triple_def bit_simps u8_bit_beyond dest: bit_imp_le_length)

lemma take_triple: "take_bit 24 (b64_triple a b c) = b64_triple a b c"
  by (rule bit_eqI) (auto simp: bit_simps bit_b64_triple)

lemma triple_bytes:
  "ucast (drop_bit 16 (b64_triple a b c)) = a" "ucast (drop_bit 8 (b64_triple a b c)) = b"
  "ucast (b64_triple a b c) = c"
  by (rule bit_eqI; auto simp: bit_simps bit_b64_triple)+

text \<open>The padding characters read as zero, and zero is what the missing bytes leave there.\<close>

lemma triple_low:
  "b64_triple a b 0 AND 63 = 0" "drop_bit 6 (b64_triple a 0 0) AND 63 = 0"
  unfolding mask6 by (rule bit_eqI; auto simp: bit_simps bit_b64_triple)+

lemma group_back:
  assumes "chunk = [a] \<or> chunk = [a, b] \<or> chunk = [a, b, c]"
  shows "\<exists>c0 c1 c2 c3. b64_group chunk = [c0, c1, c2, c3] \<and> unb64_group c0 c1 c2 c3 = Some chunk"
  using assms
proof (elim disjE)
  assume "chunk = [a]"
  then show ?thesis using triple_back [OF take_triple, of a 0 0]
    by (simp add: b64_group_def unb64_group_def Let_def triple_low triple_bytes)
next
  assume "chunk = [a, b]"
  then show ?thesis using triple_back [OF take_triple, of a b 0]
    by (simp add: b64_group_def unb64_group_def Let_def triple_low triple_bytes)
next
  assume "chunk = [a, b, c]"
  then show ?thesis using triple_back [OF take_triple, of a b c]
    by (simp add: b64_group_def unb64_group_def Let_def triple_bytes)
qed

lemma groups_back: "unb64_groups (base64_encode data) = Some data"
proof (induction data rule: base64_encode.induct)
  case (2 a)
  from group_back [of "[a]" a] show ?case by auto
next
  case (3 a b)
  from group_back [of "[a, b]" a b] show ?case by auto
next
  case (4 a b c data)
  from group_back [of "[a, b, c]" a b c] obtain c0 c1 c2 c3 where
    "b64_group [a, b, c] = [c0, c1, c2, c3]" "unb64_group c0 c1 c2 c3 = Some [a, b, c]" by blast
  with 4 show ?case by simp
qed simp

text \<open>The shape of an encoding: whole groups, no white space, padding only at the end.\<close>

lemma encode_chars:
  "c \<in> set (base64_encode data) \<Longrightarrow> c = CHR ''='' \<or> (\<exists>v. c = b64_char v)"
  by (induction data rule: base64_encode.induct) (auto simp: b64_group_def Let_def)

lemma encode_length: "length (base64_encode data) mod 4 = 0"
  by (induction data rule: base64_encode.induct) (simp_all add: b64_group_def Let_def)

lemma encode_padding:
  "position (\<lambda>c. c = CHR ''='') (base64_encode data) = Some p \<Longrightarrow>
     length (base64_encode data) \<le> p + 2 \<and> list_all (\<lambda>c. c = CHR ''='') (drop p (base64_encode data))"
proof (induction data arbitrary: p rule: base64_encode.induct)
  case (4 a b c data)
  then obtain q where "position (\<lambda>c. c = CHR ''='') (base64_encode data) = Some q" "p = Suc (Suc (Suc (Suc q)))"
    by (auto simp: b64_group_def Let_def)
  with 4(1) [of q] show ?case by (simp add: b64_group_def Let_def)
qed (auto simp: b64_group_def Let_def)

lemma encode_no_ws:
  "filter (\<lambda>c. c \<notin> set [CHR 0x20, CHR 0x09, CHR 0x0A, CHR 0x0C, CHR 0x0D]) (base64_encode data) =
     base64_encode data"
proof (rule filter_True)
  show "\<forall>c \<in> set (base64_encode data). c \<notin> set [CHR 0x20, CHR 0x09, CHR 0x0A, CHR 0x0C, CHR 0x0D]"
    using encode_chars b64_char_props by fastforce
qed

text \<open>Decoding the base64 text of any bytes gives the bytes back.\<close>

theorem base64_back: "base64_decode (base64_encode data) = Some data"
proof (cases "base64_encode data = []")
  case True
  with groups_back [of data] show ?thesis by (simp add: base64_decode_def)
next
  case False
  show ?thesis
  proof (cases "position (\<lambda>c. c = CHR ''='') (base64_encode data)")
    case None
    with False encode_length [of data] groups_back [of data] show ?thesis
      unfolding base64_decode_def encode_no_ws Let_def by simp
  next
    case (Some p)
    from encode_padding [OF this] have "\<not> p + 2 < length (base64_encode data)"
      "\<not> list_ex (\<lambda>c. c \<noteq> CHR ''='') (drop p (base64_encode data))"
      by (auto simp: list_all_iff list_ex_iff)
    with Some False encode_length [of data] groups_back [of data] show ?thesis
      unfolding base64_decode_def encode_no_ws Let_def by simp
  qed
qed

end
