(* ===== verification/Dp.thy ===== *)
theory Dp
  imports Crypto
begin

text \<open>
  The device protection service (\<open>src/src/dp.rs\<close>): roles and authorization, the login ceremony
  with its sessions, the operations on the user records and the access control list, and the
  projection to \<open>dp.tsv\<close>. The clock and the nonces are arguments; a session is keyed by the
  address of the control point. Sixteen-octet values are byte lists.
\<close>

definition is_control :: "char \<Rightarrow> bool" where
  "is_control c \<longleftrightarrow> (of_char c :: nat) < 32 \<or> (of_char c :: nat) = 127"

definition clean_name :: "string \<Rightarrow> string" where
  "clean_name s = filter (\<lambda>c. \<not> is_control c) s"

record DpIdentity =
  id_name :: string
  id_alias :: "string option"
  id_id :: "u8 list"
  id_roles :: "string list"

record DpUser =
  u_name :: string
  u_salt :: "u8 list"
  u_stored :: "u8 list"
  u_roles :: "string list"

type_synonym DpAcl = "DpIdentity list"

definition zero_id :: "u8 list" where
  "zero_id = replicate 16 0"

datatype DpAuthz = Public | Roles "string list"

section \<open>Roles\<close>

definition roles_for_identity :: "DpAcl \<Rightarrow> u8 list \<Rightarrow> string list" where
  "roles_for_identity acl ident =
     (case find (\<lambda>i. id_id i = ident) acl of Some i \<Rightarrow> id_roles i | None \<Rightarrow> [])"

definition role_level :: "string \<Rightarrow> nat option" where
  "role_level role = (if role = ''Basic'' then Some 0 else if role = ''Admin'' then Some 1 else None)"

definition role_satisfies :: "string \<Rightarrow> string \<Rightarrow> bool" where
  "role_satisfies r n = (case (role_level r, role_level n) of
     (Some lr, Some ln) \<Rightarrow> ln \<le> lr | _ \<Rightarrow> r = n)"

definition authorize :: "string list \<Rightarrow> DpAuthz \<Rightarrow> bool" where
  "authorize roles required = (case required of
     Public \<Rightarrow> True
   | Roles needed \<Rightarrow> list_ex (\<lambda>r. list_ex (\<lambda>n. role_satisfies r n) needed) roles)"

datatype DpTarget = DeviceProtection | WanIpConnection

definition required_role :: "DpTarget \<Rightarrow> string \<Rightarrow> DpAuthz" where
  "required_role target action = (case target of
     WanIpConnection \<Rightarrow>
       if action \<in> set [''AddPortMapping'', ''AddAnyPortMapping'', ''DeletePortMapping'',
           ''DeletePortMappingRange'']
       then Roles [''Basic''] else Public
   | DeviceProtection \<Rightarrow>
       if action \<in> set [''GetACLData'', ''AddIdentityList'', ''RemoveIdentity'',
           ''SetUserLoginPassword'', ''AddRolesForIdentity'', ''RemoveRolesForIdentity'']
       then Roles [''Admin''] else Public)"

definition valid_role :: "string \<Rightarrow> bool" where
  "valid_role role \<longleftrightarrow> role = ''Admin'' \<or> role = ''Basic''"

section \<open>The login ceremony\<close>

definition DP_PBKDF2_ITERATIONS :: u32 where
  "DP_PBKDF2_ITERATIONS = 5000"

definition stored_for :: "u8 list \<Rightarrow> u8 list \<Rightarrow> u8 list \<Rightarrow> u8 list" where
  "stored_for password name salt =
     pbkdf2_hmac_sha256 password (name @ salt) DP_PBKDF2_ITERATIONS 16"

definition verify_authenticator :: "u8 list \<Rightarrow> u8 list \<Rightarrow> u8 list \<Rightarrow> u8 list \<Rightarrow> u8 list \<Rightarrow> bool" where
  "verify_authenticator stored challenge device_id cp_id authenticator =
     (let mac = hmac_sha256 stored (challenge @ device_id @ cp_id)
      in 16 \<le> length authenticator \<and> take 16 mac = take 16 authenticator)"

datatype DpErr = InvalidValue | NotAuthorized | AuthFailure | Processing

record DpSession =
  ss_challenge :: "u8 list option"
  ss_challenge_user :: "string option"
  ss_user :: "string option"
  ss_cp_identity :: "u8 list option"
  ss_failures :: u8
  ss_last_seen :: u64

definition fresh_session :: "u64 \<Rightarrow> DpSession" where
  "fresh_session now = \<lparr>ss_challenge = None, ss_challenge_user = None, ss_user = None,
     ss_cp_identity = None, ss_failures = 0, ss_last_seen = now\<rparr>"

definition DP_SESSION_TTL_SECS :: u64 where "DP_SESSION_TTL_SECS = 1800"
definition DP_LOGIN_FAILURE_LIMIT :: u8 where "DP_LOGIN_FAILURE_LIMIT = 5"

record DpState =
  dp_device_id :: "u8 list"
  dp_users :: "DpUser list"
  dp_acl :: DpAcl
  dp_sessions :: "ipv4 \<Rightarrow> DpSession option"

definition DpState_new :: "u8 list \<Rightarrow> DpUser list \<Rightarrow> DpAcl \<Rightarrow> DpState" where
  "DpState_new device_id users acl = \<lparr>dp_device_id = device_id, dp_users = users, dp_acl = acl,
     dp_sessions = Map.empty\<rparr>"

definition put_session :: "ipv4 \<Rightarrow> DpSession \<Rightarrow> DpState \<Rightarrow> DpState" where
  "put_session key ss s = s\<lparr>dp_sessions := (dp_sessions s)(key \<mapsto> ss)\<rparr>"

definition entry_session :: "ipv4 \<Rightarrow> u64 \<Rightarrow> DpState \<Rightarrow> DpSession" where
  "entry_session key now s = (case dp_sessions s key of Some ss \<Rightarrow> ss | None \<Rightarrow> fresh_session now)"

definition begin_login ::
  "ipv4 \<Rightarrow> string \<Rightarrow> u8 list \<Rightarrow> u64 \<Rightarrow> DpState \<Rightarrow> (DpErr + u8 list \<times> u8 list) \<times> DpState" where
  "begin_login key name nonce now s =
     (case find (\<lambda>u. u_name u = name) (dp_users s) of
        None \<Rightarrow> (Inl InvalidValue, s)
      | Some user \<Rightarrow> (Inr (u_salt user, nonce),
          put_session key ((entry_session key now s)\<lparr>ss_challenge := Some nonce,
            ss_challenge_user := Some name, ss_failures := 0, ss_last_seen := now\<rparr>) s))"

definition no_challenge :: "DpSession \<Rightarrow> DpSession" where
  "no_challenge ss = ss\<lparr>ss_challenge := None, ss_challenge_user := None\<rparr>"

text \<open>The first identity with an id whose authenticator verifies.\<close>

definition match_identity :: "u8 list \<Rightarrow> u8 list \<Rightarrow> u8 list \<Rightarrow> u8 list \<Rightarrow> DpAcl \<Rightarrow> u8 list option" where
  "match_identity stored challenge device_id authenticator acl =
     map_option id_id (find (\<lambda>i. id_id i \<noteq> zero_id
       \<and> verify_authenticator stored challenge device_id (id_id i) authenticator) acl)"

definition count_failure :: "DpSession \<Rightarrow> DpSession" where
  "count_failure ss =
     (let ss1 = ss\<lparr>ss_failures := sat_add (ss_failures ss) 1\<rparr>
      in if DP_LOGIN_FAILURE_LIMIT \<le> ss_failures ss1
         then (no_challenge ss1)\<lparr>ss_failures := 0\<rparr> else ss1)"

definition login ::
  "ipv4 \<Rightarrow> u8 list \<Rightarrow> u8 list \<Rightarrow> u64 \<Rightarrow> DpState \<Rightarrow> (DpErr + unit) \<times> DpState" where
  "login key challenge authenticator now s =
     (case dp_sessions s key of
        None \<Rightarrow> (Inl InvalidValue, s)
      | Some ss0 \<Rightarrow>
          let ss = ss0\<lparr>ss_last_seen := now\<rparr>; s1 = put_session key ss s
          in (case (ss_challenge ss, ss_challenge_user ss) of
                (Some pending, Some challenge_user) \<Rightarrow>
                  if pending \<noteq> challenge then (Inl InvalidValue, s1)
                  else if DP_LOGIN_FAILURE_LIMIT \<le> ss_failures ss
                  then (Inl InvalidValue, put_session key ((no_challenge ss)\<lparr>ss_failures := 0\<rparr>) s)
                  else
                    (case find (\<lambda>u. u_name u = challenge_user) (dp_users s) of
                       None \<Rightarrow> (Inl InvalidValue, put_session key (no_challenge ss) s)
                     | Some u \<Rightarrow>
                         (case match_identity (u_stored u) challenge (dp_device_id s)
                                 authenticator (dp_acl s) of
                            None \<Rightarrow> (Inl AuthFailure, put_session key (count_failure ss) s)
                          | Some ident \<Rightarrow> (Inr (), put_session key
                              (ss\<lparr>ss_user := Some challenge_user, ss_cp_identity := Some ident,
                                  ss_failures := 0\<rparr>) s)))
              | _ \<Rightarrow> (Inl InvalidValue, s1)))"

definition logout :: "ipv4 \<Rightarrow> u64 \<Rightarrow> DpState \<Rightarrow> DpState" where
  "logout key now s = put_session key ((no_challenge (entry_session key now s))\<lparr>ss_user := None,
     ss_cp_identity := None, ss_failures := 0, ss_last_seen := now\<rparr>) s"

definition touch :: "ipv4 \<Rightarrow> u64 \<Rightarrow> DpState \<Rightarrow> DpState" where
  "touch key now s = (case dp_sessions s key of
     Some ss \<Rightarrow> put_session key (ss\<lparr>ss_last_seen := now\<rparr>) s | None \<Rightarrow> s)"

primrec add_missing :: "string list \<Rightarrow> string list \<Rightarrow> string list" where
  "add_missing [] roles = roles"
| "add_missing (r # rs) roles = add_missing rs (if r \<in> set roles then roles else roles @ [r])"

definition session_roles :: "ipv4 \<Rightarrow> u64 \<Rightarrow> DpState \<Rightarrow> string list" where
  "session_roles key now s =
     (case dp_sessions s key of
        None \<Rightarrow> []
      | Some ss \<Rightarrow>
          if ss_user ss = None \<or> DP_SESSION_TTL_SECS < sat_sub now (ss_last_seen ss) then []
          else
            let name = (case ss_user ss of Some n \<Rightarrow> n | None \<Rightarrow> []);
                roles = (case find (\<lambda>u. u_name u = name) (dp_users s) of
                           Some u \<Rightarrow> u_roles u | None \<Rightarrow> [])
            in (case ss_cp_identity ss of
                  Some cp \<Rightarrow> add_missing (roles_for_identity (dp_acl s) cp) roles
                | None \<Rightarrow> roles))"

definition session_user :: "ipv4 \<Rightarrow> u64 \<Rightarrow> DpState \<Rightarrow> string option" where
  "session_user key now s = (case dp_sessions s key of
     Some ss \<Rightarrow> if ss_user ss \<noteq> None \<and> sat_sub now (ss_last_seen ss) \<le> DP_SESSION_TTL_SECS
       then ss_user ss else None
   | None \<Rightarrow> None)"

definition enforce :: "ipv4 \<Rightarrow> DpAuthz \<Rightarrow> u64 \<Rightarrow> DpState \<Rightarrow> DpErr + unit" where
  "enforce key required now s = (case required of
     Public \<Rightarrow> Inr ()
   | Roles _ \<Rightarrow> if authorize (session_roles key now s) required then Inr () else Inl NotAuthorized)"

section \<open>The records\<close>

definition clean_identity :: "DpIdentity \<Rightarrow> DpIdentity" where
  "clean_identity i = i\<lparr>id_name := clean_name (id_name i),
     id_alias := map_option clean_name (id_alias i)\<rparr>"

definition identity_present :: "DpAcl \<Rightarrow> DpIdentity \<Rightarrow> bool" where
  "identity_present acl i \<longleftrightarrow> list_ex (\<lambda>x. (id_id i \<noteq> zero_id \<and> id_id x = id_id i)
     \<or> id_name i = id_name x) acl"

fun add_identities :: "DpIdentity list \<Rightarrow> DpState \<Rightarrow> DpAcl \<times> DpState" where
  "add_identities [] s = ([], s)"
| "add_identities (i # is) s =
     (let c = clean_identity i
      in if identity_present (dp_acl s) c then add_identities is s
         else let (added, s1) = add_identities is (s\<lparr>dp_acl := dp_acl s @ [c]\<rparr>) in (c # added, s1))"

definition remove_identity :: "string \<Rightarrow> DpState \<Rightarrow> bool \<times> DpState" where
  "remove_identity name s =
     (let acl = filter (\<lambda>x. id_name x \<noteq> name) (dp_acl s)
      in (length acl \<noteq> length (dp_acl s), s\<lparr>dp_acl := acl\<rparr>))"

definition set_user_password :: "string \<Rightarrow> u8 list \<Rightarrow> u8 list \<Rightarrow> DpState \<Rightarrow> bool \<times> DpState" where
  "set_user_password name0 stored salt s =
     (let name = clean_name name0
      in (case position (\<lambda>u. u_name u = name) (dp_users s) of
            Some k \<Rightarrow> (True, s\<lparr>dp_users := (dp_users s)[k :=
                (dp_users s ! k)\<lparr>u_stored := stored, u_salt := salt\<rparr>]\<rparr>)
          | None \<Rightarrow>
              if list_ex (\<lambda>x. id_name x = name) (dp_acl s) \<or> list_ex (\<lambda>x. id_id x \<noteq> zero_id) (dp_acl s)
              then (True, s\<lparr>dp_users := dp_users s @ [\<lparr>u_name = name, u_salt = salt,
                     u_stored = stored, u_roles = []\<rparr>]\<rparr>)
              else (False, s)))"

definition update_roles ::
  "(string list \<Rightarrow> string list) \<Rightarrow> string \<Rightarrow> DpState \<Rightarrow> bool \<times> DpState" where
  "update_roles f identity s =
     (case position (\<lambda>u. u_name u = identity) (dp_users s) of
        Some k \<Rightarrow> (True, s\<lparr>dp_users := (dp_users s)[k :=
            (dp_users s ! k)\<lparr>u_roles := f (u_roles (dp_users s ! k))\<rparr>]\<rparr>)
      | None \<Rightarrow>
          (case position (\<lambda>x. id_name x = identity) (dp_acl s) of
             Some k \<Rightarrow> (True, s\<lparr>dp_acl := (dp_acl s)[k :=
                 (dp_acl s ! k)\<lparr>id_roles := f (id_roles (dp_acl s ! k))\<rparr>]\<rparr>)
           | None \<Rightarrow> (False, s)))"

definition add_roles :: "string \<Rightarrow> string list \<Rightarrow> DpState \<Rightarrow> bool \<times> DpState" where
  "add_roles identity roles s = update_roles (add_missing roles) identity s"

definition remove_roles :: "string \<Rightarrow> string list \<Rightarrow> DpState \<Rightarrow> bool \<times> DpState" where
  "remove_roles identity roles s = update_roles (filter (\<lambda>r. r \<notin> set roles)) identity s"

section \<open>The projection to \<open>dp.tsv\<close>\<close>

datatype dp_row = User_row DpUser | Acl_row DpIdentity

definition render_user :: "DpUser \<Rightarrow> string" where
  "render_user u = join [tab] [''U'', u_name u, hex (u_salt u), hex (u_stored u), join '','' (u_roles u)]"

definition render_identity :: "DpIdentity \<Rightarrow> string" where
  "render_identity i = join [tab] [''A'', id_name i,
     case id_alias i of Some a \<Rightarrow> a | None \<Rightarrow> ''-'', hex (id_id i), join '','' (id_roles i)]"

fun render_dp :: "dp_row \<Rightarrow> string" where
  "render_dp (User_row u) = render_user u"
| "render_dp (Acl_row i) = render_identity i"

definition config_tsv :: "DpUser list \<Rightarrow> DpAcl \<Rightarrow> string" where
  "config_tsv users acl = concat (map (\<lambda>r. render_dp r @ [nl]) (map User_row users @ map Acl_row acl))"

definition parse_roles :: "string \<Rightarrow> string list" where
  "parse_roles s = filter (\<lambda>r. r \<noteq> [] \<and> valid_role r) (split_on CHR '','' s)"

definition parse_dp_row :: "string \<Rightarrow> dp_row option" where
  "parse_dp_row line =
     (case split_on tab line of
        kind # c1 # c2 # c3 # c4 # _ \<Rightarrow>
          if kind = ''U''
          then (case (unhex16 c2, unhex16 c3) of
                  (Some salt, Some stored) \<Rightarrow> Some (User_row \<lparr>u_name = c1, u_salt = salt,
                     u_stored = stored, u_roles = parse_roles c4\<rparr>)
                | _ \<Rightarrow> None)
          else if kind = ''A''
          then (case unhex16 c3 of
                  Some ident \<Rightarrow> Some (Acl_row \<lparr>id_name = c1,
                     id_alias = (if c2 = ''-'' then None else Some c2), id_id = ident,
                     id_roles = parse_roles c4\<rparr>)
                | None \<Rightarrow> None)
          else None
      | _ \<Rightarrow> None)"

fun user_of :: "dp_row \<Rightarrow> DpUser option" where
  "user_of (User_row u) = Some u"
| "user_of (Acl_row i) = None"

fun identity_of :: "dp_row \<Rightarrow> DpIdentity option" where
  "identity_of (Acl_row i) = Some i"
| "identity_of (User_row u) = None"

definition config_from_tsv :: "string \<Rightarrow> DpUser list \<times> DpAcl" where
  "config_from_tsv text =
     (let rows = List.map_filter parse_dp_row (lines text)
      in (List.map_filter user_of rows, List.map_filter identity_of rows))"

end
