(* ===== verification/Dp_Props.thy ===== *)
theory Dp_Props
  imports Dp
begin

text \<open>
  What holds of the device protection service: a grant of access goes back to a verified login,
  the number of guesses at one challenge is bounded, the stored configuration is read back, and
  where an expired session is taken up again.
\<close>

section \<open>Sessions\<close>

lemma put_session_frame [simp]:
  "dp_users (put_session k ss s) = dp_users s" "dp_acl (put_session k ss s) = dp_acl s"
  "dp_device_id (put_session k ss s) = dp_device_id s"
  "dp_sessions (put_session k ss s) = (dp_sessions s)(k \<mapsto> ss)"
  by (simp_all add: put_session_def)

lemma login_okD:
  assumes "fst (login key c a now s) = Inr ()"
  shows "\<exists>ss u i. dp_sessions s key = Some ss \<and> ss_challenge ss = Some c
    \<and> u \<in> set (dp_users s) \<and> ss_challenge_user ss = Some (u_name u)
    \<and> i \<in> set (dp_acl s) \<and> id_id i \<noteq> zero_id
    \<and> verify_authenticator (u_stored u) c (dp_device_id s) (id_id i) a"
proof -
  from assms obtain ss n u id where
    s: "dp_sessions s key = Some ss" "ss_challenge ss = Some c" "ss_challenge_user ss = Some n"
      "find (\<lambda>u. u_name u = n) (dp_users s) = Some u"
      "match_identity (u_stored u) c (dp_device_id s) a (dp_acl s) = Some id"
    by (auto simp: login_def Let_def split: option.splits if_splits)
  from s(5) obtain i where "find (\<lambda>i. id_id i \<noteq> zero_id
       \<and> verify_authenticator (u_stored u) c (dp_device_id s) (id_id i) a) (dp_acl s) = Some i"
    by (auto simp: match_identity_def)
  from find_SomeD [OF this] find_SomeD [OF s(4)] s(1-3) show ?thesis by auto
qed

text \<open>A login that fails leaves the principal of every session as it was.\<close>

definition principal :: "DpState \<Rightarrow> ipv4 \<Rightarrow> string option" where
  "principal s k = (case dp_sessions s k of Some ss \<Rightarrow> ss_user ss | None \<Rightarrow> None)"

lemma principal_put [simp]:
  "principal (put_session key ss s) k = (if k = key then ss_user ss else principal s k)"
  by (simp add: principal_def)

lemma no_challenge_user [simp]: "ss_user (no_challenge ss) = ss_user ss"
  by (simp add: no_challenge_def)

lemma count_failure_user [simp]: "ss_user (count_failure ss) = ss_user ss"
  by (simp add: count_failure_def Let_def)

lemma principal_login:
  "principal (snd (login key c a now s)) k = Some n \<Longrightarrow>
     principal s k = Some n \<or> k = key \<and> fst (login key c a now s) = Inr ()"
  by (auto simp: login_def Let_def principal_def split: option.splits if_splits)

lemma principal_begin [simp]: "principal (snd (begin_login key name nonce now s)) k = principal s k"
  by (auto simp: begin_login_def entry_session_def fresh_session_def principal_def split: option.split)

lemma principal_touch [simp]: "principal (touch key now s) k = principal s k"
  by (auto simp: touch_def principal_def split: option.split)

lemma principal_logout [simp]: "principal (logout key now s) k = (if k = key then None else principal s k)"
  by (simp add: logout_def)

lemma record_frames [simp]:
  "dp_sessions (snd (remove_identity n s)) = dp_sessions s"
  "dp_sessions (snd (set_user_password n st sa s)) = dp_sessions s"
  "dp_sessions (snd (update_roles f n s)) = dp_sessions s"
  "dp_sessions (snd (add_identities is s)) = dp_sessions s"
proof -
  show "dp_sessions (snd (add_identities is s)) = dp_sessions s"
    by (induction "is" s rule: add_identities.induct) (auto simp: Let_def split: prod.split)
qed (simp_all add: remove_identity_def set_user_password_def update_roles_def Let_def split: option.split)

lemma principal_records:
  "principal (snd (remove_identity n s)) = principal s"
  "principal (snd (set_user_password n st sa s)) = principal s"
  "principal (snd (update_roles f n s)) = principal s"
  "principal (snd (add_identities is s)) = principal s"
  by (simp_all add: principal_def fun_eq_iff)

section \<open>Runs of the service\<close>

datatype dp_op =
    Begin ipv4 string "u8 list" u64
  | Login ipv4 "u8 list" "u8 list" u64
  | Logout ipv4 u64
  | Touch ipv4 u64
  | Add_identities "DpIdentity list"
  | Remove_identity string
  | Set_password string "u8 list" "u8 list"
  | Add_roles string "string list"
  | Remove_roles string "string list"

fun dp_step :: "dp_op \<Rightarrow> DpState \<Rightarrow> DpState" where
  "dp_step (Begin k n c t) s = snd (begin_login k n c t s)"
| "dp_step (Login k c a t) s = snd (login k c a t s)"
| "dp_step (Logout k t) s = logout k t s"
| "dp_step (Touch k t) s = touch k t s"
| "dp_step (Add_identities is) s = snd (add_identities is s)"
| "dp_step (Remove_identity n) s = snd (remove_identity n s)"
| "dp_step (Set_password n st sa) s = snd (set_user_password n st sa s)"
| "dp_step (Add_roles n rs) s = snd (add_roles n rs s)"
| "dp_step (Remove_roles n rs) s = snd (remove_roles n rs s)"

text \<open>Reachability, with the operations that led there.\<close>

inductive dp_run :: "DpState \<Rightarrow> dp_op list \<Rightarrow> DpState \<Rightarrow> bool" for start where
  dp_start: "dp_run start [] start"
| dp_next: "dp_run start ops s \<Longrightarrow> dp_run start (ops @ [x]) (dp_step x s)"

inductive_cases dp_run_snocE: "dp_run start (ops @ [x]) s"

lemma dp_run_fold: "dp_run start ops (fold dp_step ops start)"
proof (induction ops rule: rev_induct)
  case Nil
  show ?case by (simp add: dp_start)
next
  case (snoc x ops)
  then show ?case using dp_next [of start ops "fold dp_step ops start" x] by simp
qed

text \<open>A logged-in address goes back to a login of its own with no logout since.\<close>

definition logged_in_since :: "DpState \<Rightarrow> dp_op list \<Rightarrow> ipv4 \<Rightarrow> bool" where
  "logged_in_since start ops key \<longleftrightarrow> (\<exists>pre c a t post s'. ops = pre @ Login key c a t # post
     \<and> (\<forall>t'. Logout key t' \<notin> set post) \<and> dp_run start pre s'
     \<and> fst (login key c a t s') = Inr ())"

lemma logged_in_since_snoc:
  "logged_in_since start ops key \<Longrightarrow> (\<forall>t'. x \<noteq> Logout key t') \<Longrightarrow> logged_in_since start (ops @ [x]) key"
proof -
  assume "logged_in_since start ops key" and x: "\<forall>t'. x \<noteq> Logout key t'"
  then obtain pre c a t post s' where h: "ops = pre @ Login key c a t # post"
    "\<forall>t'. Logout key t' \<notin> set post" "dp_run start pre s'" "fst (login key c a t s') = Inr ()"
    unfolding logged_in_since_def by blast
  have "ops @ [x] = pre @ Login key c a t # (post @ [x])" using h(1) by simp
  moreover have "\<forall>t'. Logout key t' \<notin> set (post @ [x])" using h(2) x by auto
  ultimately show "logged_in_since start (ops @ [x]) key"
    using h(3,4) unfolding logged_in_since_def by blast
qed

lemma dp_step_principal:
  assumes "principal (dp_step x s) key = Some n"
  shows "principal s key = Some n \<and> (\<forall>t. x \<noteq> Logout key t)
    \<or> (\<exists>c a t. x = Login key c a t \<and> fst (login key c a t s) = Inr ())"
proof (cases x)
  case (Login k c a t)
  with assms principal_login [of k c a t s key n] show ?thesis by auto
qed (use assms in \<open>auto simp: principal_records add_roles_def remove_roles_def split: if_splits\<close>)

lemma principal_logged_in:
  assumes "dp_run start ops s" and "dp_sessions start = Map.empty"
  shows "principal s key = Some n \<Longrightarrow> logged_in_since start ops key"
  using assms(1)
proof (induction arbitrary: n)
  case dp_start
  then show ?case by (simp add: principal_def assms(2))
next
  case (dp_next ops s x)
  from dp_step_principal [OF dp_next.prems] show ?case
  proof
    assume "principal s key = Some n \<and> (\<forall>t. x \<noteq> Logout key t)"
    with dp_next.IH show ?thesis by (blast intro: logged_in_since_snoc)
  next
    assume "\<exists>c a t. x = Login key c a t \<and> fst (login key c a t s) = Inr ()"
    then obtain c a t where x: "x = Login key c a t" "fst (login key c a t s) = Inr ()" by blast
    with dp_next.hyps show ?thesis unfolding logged_in_since_def
      by (intro exI [of _ ops] exI [of _ c] exI [of _ a] exI [of _ t] exI [of _ "[]"] exI [of _ s]) simp
  qed
qed

lemma enforce_principal:
  assumes "enforce key (Roles needed) now s = Inr ()"
  shows "\<exists>n. principal s key = Some n"
proof -
  have "session_roles key now s \<noteq> []"
    using assms by (auto simp: enforce_def authorize_def split: if_splits)
  then show ?thesis
    by (auto simp: session_roles_def principal_def split: option.splits if_splits)
qed

section \<open>Properties\<close>

text \<open>C6 (safety): no protected action without a verified login. Whenever the service lets an
  address perform an action that needs a role, that address made an earlier login, with no
  logout of its own since, that answered the challenge then pending for it: the authenticator
  was the keyed digest, under the stored secret of the challenged user, of that challenge, the
  device id and the id of an identity of the access control list at that moment.\<close>

theorem access_needs_verified_login:
  assumes "dp_run (DpState_new device users acl) ops s"
    and "enforce key (Roles needed) now s = Inr ()"
  shows "\<exists>pre c a t post s' ss u i. ops = pre @ Login key c a t # post
    \<and> (\<forall>t'. Logout key t' \<notin> set post)
    \<and> dp_run (DpState_new device users acl) pre s'
    \<and> dp_sessions s' key = Some ss \<and> ss_challenge ss = Some c
    \<and> u \<in> set (dp_users s') \<and> ss_challenge_user ss = Some (u_name u)
    \<and> i \<in> set (dp_acl s') \<and> id_id i \<noteq> zero_id
    \<and> verify_authenticator (u_stored u) c (dp_device_id s') (id_id i) a"
proof -
  obtain n where "principal s key = Some n" using enforce_principal [OF assms(2)] by blast
  from principal_logged_in [OF assms(1) _ this]
  have "logged_in_since (DpState_new device users acl) ops key" by (simp add: DpState_new_def)
  then obtain pre c a t post s' where h: "ops = pre @ Login key c a t # post"
    "\<forall>t'. Logout key t' \<notin> set post" "dp_run (DpState_new device users acl) pre s'"
    "fst (login key c a t s') = Inr ()" unfolding logged_in_since_def by blast
  from login_okD [OF h(4)] h(1-3) show ?thesis by blast
qed

text \<open>A service with one user and one control point, for the evaluations.\<close>

definition demo_state :: DpState where
  "demo_state = DpState_new (replicate 16 9)
     [\<lparr>u_name = ''n'', u_salt = replicate 16 1, u_stored = replicate 16 2, u_roles = [''Basic'']\<rparr>]
     [\<lparr>id_name = ''cp'', id_alias = None, id_id = replicate 16 3, id_roles = [''Admin'']\<rparr>]"

definition demo_answer :: "u8 list" where
  "demo_answer = take 16 (hmac_sha256 (replicate 16 2) (replicate 16 7 @ replicate 16 9 @ replicate 16 3))"

definition demo_ops :: "dp_op list" where
  "demo_ops = [Begin 5 ''n'' (replicate 16 7) 10, Login 5 (replicate 16 7) demo_answer 11]"

lemma demo_verifies:
  "verify_authenticator (replicate 16 2) (replicate 16 7) (replicate 16 9) (replicate 16 3) demo_answer"
  by (simp add: verify_authenticator_def demo_answer_def Let_def)

lemma demo_session:
  "dp_sessions (fold dp_step demo_ops demo_state) 5 = Some \<lparr>ss_challenge = Some (replicate 16 7),
     ss_challenge_user = Some ''n'', ss_user = Some ''n'', ss_cp_identity = Some (replicate 16 3),
     ss_failures = 0, ss_last_seen = 11\<rparr>"
proof -
  have "replicate 16 3 \<noteq> zero_id" by (simp add: zero_id_def)
  then have "match_identity (replicate 16 2) (replicate 16 7) (replicate 16 9) demo_answer
      [\<lparr>id_name = ''cp'', id_alias = None, id_id = replicate 16 3, id_roles = [''Admin'']\<rparr>] =
      Some (replicate 16 3)"
    using demo_verifies by (simp add: match_identity_def)
  then show ?thesis
    by (simp add: demo_ops_def demo_state_def DpState_new_def begin_login_def entry_session_def
        fresh_session_def login_def DP_LOGIN_FAILURE_LIMIT_def Let_def)
qed

lemma demo_access: "enforce 5 (Roles [''Basic'']) 12 (fold dp_step demo_ops demo_state) = Inr ()"
proof -
  have frame: "dp_users (fold dp_step demo_ops demo_state) = dp_users demo_state"
    "dp_acl (fold dp_step demo_ops demo_state) = dp_acl demo_state"
    by (auto simp: demo_ops_def begin_login_def login_def Let_def split: option.split)
  then have "session_roles 5 12 (fold dp_step demo_ops demo_state) = [''Basic'', ''Admin'']"
    unfolding session_roles_def demo_session
    by (simp add: demo_state_def DpState_new_def roles_for_identity_def sat_sub_def
        DP_SESSION_TTL_SECS_def)
  then show ?thesis by (simp add: enforce_def authorize_def role_satisfies_def role_level_def)
qed

theorem access_needs_verified_login_witness:
  "\<exists>pre c a t post. demo_ops = pre @ Login 5 c a t # post \<and> (\<forall>t'. Logout 5 t' \<notin> set post)"
proof -
  have "dp_run demo_state demo_ops (fold dp_step demo_ops demo_state)" by (rule dp_run_fold)
  from access_needs_verified_login [OF this [unfolded demo_state_def] demo_access [unfolded demo_state_def]]
  show ?thesis by blast
qed

text \<open>The attempts of one control point at the pending challenge.\<close>

fun guesses :: "ipv4 \<Rightarrow> (u8 list \<times> u8 list \<times> u64) list \<Rightarrow> DpState \<Rightarrow> (DpErr + unit) list" where
  "guesses key [] s = []"
| "guesses key ((c, a, t) # gs) s = (let (r, s1) = login key c a t s in r # guesses key gs s1)"

definition failures :: "(DpErr + unit) list \<Rightarrow> nat" where
  "failures rs = length (filter (\<lambda>r. r = Inl AuthFailure) rs)"

text \<open>What one attempt does to the session, when it does not succeed.\<close>

lemma login_failed:
  assumes "dp_sessions s key = Some ss" and "fst (login key c a t s) \<noteq> Inr ()"
    and "ss_failures ss < DP_LOGIN_FAILURE_LIMIT"
  shows "\<exists>ss'. dp_sessions (snd (login key c a t s)) key = Some ss'
    \<and> (ss_challenge ss = None \<longrightarrow> ss_challenge ss' = None \<and> fst (login key c a t s) = Inl InvalidValue)
    \<and> ss_failures ss' < DP_LOGIN_FAILURE_LIMIT
    \<and> (fst (login key c a t s) = Inl AuthFailure \<longrightarrow>
        ss_challenge ss' = None \<or> ss_failures ss' = ss_failures ss + 1)
    \<and> (fst (login key c a t s) \<noteq> Inl AuthFailure \<longrightarrow>
        ss_challenge ss' = None \<or> ss_failures ss' = ss_failures ss)"
proof -
  have add: "sat_add (ss_failures ss) 1 = ss_failures ss + 1"
  proof -
    have "ss_failures ss \<le> - 1 - 1"
      using assms(3) by (simp add: DP_LOGIN_FAILURE_LIMIT_def word_less_nat_alt word_le_nat_alt)
    then show ?thesis by (simp add: sat_add_def)
  qed
  have lim: "\<not> DP_LOGIN_FAILURE_LIMIT \<le> ss_failures ss" "0 < DP_LOGIN_FAILURE_LIMIT"
    using assms(3) by (simp_all add: DP_LOGIN_FAILURE_LIMIT_def not_le)
  have cf: "ss_challenge (count_failure ss1) = None \<and> ss_failures (count_failure ss1) = 0
      \<or> ss_challenge (count_failure ss1) = ss_challenge ss1
        \<and> ss_failures (count_failure ss1) = ss_failures ss + 1 \<and> ss_failures ss + 1 < DP_LOGIN_FAILURE_LIMIT"
    if "ss_failures ss1 = ss_failures ss" for ss1
    using that add by (auto simp: count_failure_def no_challenge_def Let_def not_le)
  let ?ss = "ss\<lparr>ss_last_seen := t\<rparr>"
  have cf1: "ss_failures (count_failure ?ss) < DP_LOGIN_FAILURE_LIMIT"
    "ss_challenge (count_failure ?ss) = None \<or> ss_failures (count_failure ?ss) = ss_failures ss + 1"
    using cf [of ?ss] lim by auto
  show ?thesis
  proof (cases "ss_challenge ss")
    case None
    with assms show ?thesis by (simp add: login_def Let_def)
  next
    case (Some p)
    with assms lim cf1 show ?thesis
      by (auto simp: login_def Let_def no_challenge_def split: option.split if_split_asm)
  qed
qed

text \<open>The tries that are left: none without a challenge, else the room below the limit.\<close>

definition tries_left :: "DpSession \<Rightarrow> nat" where
  "tries_left ss = (if ss_challenge ss = None then 0 else 5 - unat (ss_failures ss))"

lemma guesses_bound:
  assumes "dp_sessions s key = Some ss" and "ss_failures ss < DP_LOGIN_FAILURE_LIMIT"
    and "Inr () \<notin> set (guesses key gs s)"
  shows "failures (guesses key gs s) \<le> tries_left ss"
  using assms
proof (induction key gs s arbitrary: ss rule: guesses.induct)
  case (2 key c a t gs s)
  obtain r s1 where l: "login key c a t s = (r, s1)" by fastforce
  with 2(4) have r: "fst (login key c a t s) \<noteq> Inr ()" by auto
  from login_failed [OF 2(2) r 2(3)] obtain ss' where
    ss': "dp_sessions s1 key = Some ss'" "ss_failures ss' < DP_LOGIN_FAILURE_LIMIT"
      "ss_challenge ss = None \<longrightarrow> ss_challenge ss' = None \<and> r = Inl InvalidValue"
      "r = Inl AuthFailure \<longrightarrow> ss_challenge ss' = None \<or> ss_failures ss' = ss_failures ss + 1"
      "r \<noteq> Inl AuthFailure \<longrightarrow> ss_challenge ss' = None \<or> ss_failures ss' = ss_failures ss"
    by (auto simp: l)
  have "failures (guesses key gs s1) \<le> tries_left ss'"
    using 2(1) [OF l [symmetric] refl ss'(1,2)] 2(4) by (simp add: l)
  moreover have u: "unat (ss_failures ss) < 5"
    using 2(3) by (simp add: DP_LOGIN_FAILURE_LIMIT_def word_less_nat_alt)
  moreover have "unat (ss_failures ss + 1) = Suc (unat (ss_failures ss))"
    using 2(3) by (rule unat_succ_below)
  ultimately show ?case
    using ss' by (auto simp: l failures_def tries_left_def split: if_splits)
qed (simp add: failures_def)

text \<open>C27 (bounds): a challenge can be guessed at five times. However many login attempts follow
  a challenge, with whatever challenges, authenticators and times, as long as none succeeds at
  most five of them are checked against the stored secret; every other one is refused without
  a check.\<close>

theorem at_most_five_guesses:
  assumes "fst (begin_login key name nonce now s) = Inr r"
    and "Inr () \<notin> set (guesses key gs (snd (begin_login key name nonce now s)))"
  shows "failures (guesses key gs (snd (begin_login key name nonce now s))) \<le> 5"
proof -
  from assms(1) obtain u where "find (\<lambda>u. u_name u = name) (dp_users s) = Some u"
    by (auto simp: begin_login_def split: option.splits)
  then have "\<exists>ss. dp_sessions (snd (begin_login key name nonce now s)) key = Some ss
      \<and> ss_failures ss = 0"
    by (simp add: begin_login_def)
  then obtain ss where ss: "dp_sessions (snd (begin_login key name nonce now s)) key = Some ss"
    "ss_failures ss = 0" by blast
  then have "ss_failures ss < DP_LOGIN_FAILURE_LIMIT" by (simp add: DP_LOGIN_FAILURE_LIMIT_def)
  from guesses_bound [OF ss(1) this assms(2)] show ?thesis by (simp add: tries_left_def ss(2) split: if_splits)
qed

theorem at_most_five_guesses_witness:
  "failures (guesses 5 (replicate 9 (replicate 16 7, [1], 11))
     (snd (begin_login 5 ''n'' (replicate 16 7) 10 demo_state))) \<le> 5"
proof (rule at_most_five_guesses)
  show "fst (begin_login 5 ''n'' (replicate 16 7) 10 demo_state) = Inr (replicate 16 1, replicate 16 7)"
    by (simp add: begin_login_def demo_state_def DpState_new_def)
  have "verify_authenticator st c d i [1] = False" for st c d i
    by (simp add: verify_authenticator_def Let_def)
  then have no: "match_identity st c d [1] acl = None" for st c d acl
    by (simp add: match_identity_def find_None_iff)
  have "fst (login k c [1] t s) \<noteq> Inr ()" for k c t s
    by (auto simp: login_def Let_def no split: option.split)
  then have "Inr () \<notin> set (guesses k (replicate n (c, [1], t)) s)" for k n c t s
    by (induction n arbitrary: s) (auto split: prod.split, metis fst_conv)
  then show "Inr () \<notin> set (guesses 5 (replicate 9 (replicate 16 7, [1], 11))
     (snd (begin_login 5 ''n'' (replicate 16 7) 10 demo_state)))" .
qed

text \<open>An expired session comes back without a login. When the session of a
  logged-in address has passed its idle ceiling, it grants nothing; but a request for a login
  challenge from that address, which needs only a known user name, stamps it as seen now, and
  the old principal is in force again.\<close>

theorem challenge_revives_expired_session:
  assumes "dp_sessions s key = Some ss" and "ss_user ss = Some n"
    and "DP_SESSION_TTL_SECS < sat_sub now (ss_last_seen ss)"
    and "u \<in> set (dp_users s)" and "u_name u = name"
  shows "session_user key now s = None \<and> session_roles key now s = []
    \<and> session_user key now (snd (begin_login key name nonce now s)) = Some n"
proof -
  obtain v where "find (\<lambda>u. u_name u = name) (dp_users s) = Some v"
    using assms(4,5) by (cases "find (\<lambda>u. u_name u = name) (dp_users s)") (auto simp: find_None_iff)
  with assms show ?thesis
    by (simp add: session_user_def session_roles_def begin_login_def entry_session_def not_le
        sat_sub_def DP_SESSION_TTL_SECS_def)
qed

theorem challenge_revives_expired_session_witness:
  "session_user 5 5000 (fold dp_step demo_ops demo_state) = None
   \<and> session_user 5 5000 (snd (begin_login 5 ''n'' (replicate 16 8) 5000 (fold dp_step demo_ops demo_state)))
     = Some ''n''"
proof -
  have users: "dp_users (fold dp_step demo_ops demo_state) = dp_users demo_state"
    by (auto simp: demo_ops_def begin_login_def login_def Let_def split: option.split)
  have u: "\<lparr>u_name = ''n'', u_salt = replicate 16 1, u_stored = replicate 16 2, u_roles = [''Basic'']\<rparr>
      \<in> set (dp_users (fold dp_step demo_ops demo_state))"
    unfolding users by (simp add: demo_state_def DpState_new_def)
  show ?thesis
    using challenge_revives_expired_session [OF demo_session _ _ u, of "''n''" 5000 "''n''"]
    by (simp add: DP_SESSION_TTL_SECS_def sat_sub_def)
qed

section \<open>The stored configuration\<close>

definition plain_field :: "string \<Rightarrow> bool" where
  "plain_field s \<longleftrightarrow> nl \<notin> set s \<and> cr \<notin> set s \<and> tab \<notin> set s"

fun dp_row_ok :: "dp_row \<Rightarrow> bool" where
  "dp_row_ok (User_row u) \<longleftrightarrow> plain_field (u_name u) \<and> length (u_salt u) = 16
     \<and> length (u_stored u) = 16 \<and> list_all valid_role (u_roles u)"
| "dp_row_ok (Acl_row i) \<longleftrightarrow> plain_field (id_name i) \<and> id_alias i \<noteq> Some ''-''
     \<and> (case id_alias i of Some a \<Rightarrow> plain_field a | None \<Rightarrow> True)
     \<and> length (id_id i) = 16 \<and> list_all valid_role (id_roles i)"

lemma clean_name_plain: "plain_field (clean_name s)"
  by (auto simp: plain_field_def clean_name_def is_control_def nl_def cr_def tab_def)

lemma valid_role_chars: "valid_role r \<Longrightarrow> c \<in> set r \<Longrightarrow> c \<in> set ''AdminBasic''"
  by (auto simp: valid_role_def)

lemma roles_plain: "list_all valid_role rs \<Longrightarrow> plain_field (join '','' rs)"
  using set_join [of "'',''" rs] valid_role_chars
  unfolding plain_field_def list_all_iff nl_def cr_def tab_def by fastforce

lemma roles_back: "list_all valid_role rs \<Longrightarrow> parse_roles (join '','' rs) = rs"
proof -
  assume v: "list_all valid_role rs"
  show ?thesis
  proof (cases rs)
    case Nil
    then show ?thesis by (simp add: parse_roles_def)
  next
    case (Cons r rs')
    have "CHR '','' \<notin> set p" if "p \<in> set rs" for p
      using v that valid_role_chars [of p "CHR '',''"] by (auto simp: list_all_iff)
    then have "split_on CHR '','' (join '','' rs) = rs"
      using Cons by (intro split_on_join) auto
    with v show ?thesis
      by (auto simp: parse_roles_def list_all_iff filter_id_conv valid_role_def)
  qed
qed

lemma hex_plain: "plain_field (hex v)"
proof -
  have h: "hex_char d \<notin> set [nl, cr, tab]" if "d < 16" for d :: u8
  proof -
    have "list_all (\<lambda>n. hex_char (of_nat n) \<notin> set [nl, cr, tab]) [0..<16]" by code_simp
    moreover from that have "unat d \<in> set [0..<16]" by (simp add: word_less_nat_alt)
    ultimately show ?thesis unfolding list_all_iff by fastforce
  qed
  have "c \<notin> set [nl, cr, tab]" if "c \<in> set (hex v)" for c
  proof -
    from that obtain b where "c = hex_char (drop_bit 4 b) \<or> c = hex_char (b AND 15)"
      by (auto simp: hex_def)
    then show ?thesis using h [OF nibbles(1), of b] h [OF nibbles(2), of b] by metis
  qed
  then show ?thesis by (auto simp: plain_field_def)
qed

lemma plain_join:
  assumes "ps \<noteq> []" "list_all plain_field ps"
  shows "split_on tab (join [tab] ps) = ps \<and> nl \<notin> set (join [tab] ps) \<and> cr \<notin> set (join [tab] ps)"
proof -
  have p: "\<forall>p \<in> set ps. nl \<notin> set p \<and> cr \<notin> set p \<and> tab \<notin> set p"
    using assms(2) by (simp add: list_all_iff plain_field_def)
  then have "split_on tab (join [tab] ps) = ps"
    using assms(1) by (intro split_on_join) auto
  moreover have "c \<notin> set (join [tab] ps)" if "c = nl \<or> c = cr" for c
    using p that set_join [of "[tab]" ps] by (fastforce simp: nl_def cr_def tab_def)
  ultimately show ?thesis by simp
qed

interpretation dp_row: row_format render_dp parse_dp_row dp_row_ok
proof
  fix x assume ok: "dp_row_ok x"
  have kinds: "plain_field ''U''" "plain_field ''A''" "plain_field ''-''"
    by (simp_all add: plain_field_def nl_def cr_def tab_def)
  have "(nl \<notin> set (render_dp x) \<and> cr \<notin> set (render_dp x)) \<and> parse_dp_row (render_dp x) = Some x"
  proof (cases x)
    case (User_row u)
    with ok plain_join [of "[''U'', u_name u, hex (u_salt u), hex (u_stored u), join '','' (u_roles u)]"]
    show ?thesis
      by (simp add: kinds hex_plain roles_plain render_user_def parse_dp_row_def unhex16_hex roles_back
          del: join.simps)
  next
    case (Acl_row i)
    define a where "a = (case id_alias i of Some a \<Rightarrow> a | None \<Rightarrow> ''-'')"
    have "plain_field a" "(if a = ''-'' then None else Some a) = id_alias i"
      using ok Acl_row kinds by (auto simp: a_def split: option.splits)
    with Acl_row ok plain_join [of "[''A'', id_name i, a, hex (id_id i), join '','' (id_roles i)]"]
    show ?thesis
      by (simp add: kinds hex_plain roles_plain render_identity_def parse_dp_row_def unhex16_hex roles_back
          a_def [symmetric] del: join.simps)
  qed
  then show "nl \<notin> set (render_dp x) \<and> cr \<notin> set (render_dp x)"
    and "parse_dp_row (render_dp x) = Some x" by blast+
qed

lemma map_filter_tags:
  "List.map_filter user_of (map User_row us @ map Acl_row acl) = us"
  "List.map_filter identity_of (map User_row us @ map Acl_row acl) = acl"
  by (induction us; induction acl; simp add: List.map_filter_simps)+

section \<open>Well-formed records\<close>

text \<open>Every record can be written as a row: the names are plain, the ids have sixteen octets, the roles are known.\<close>

definition dp_ok :: "DpUser list \<Rightarrow> DpAcl \<Rightarrow> bool" where
  "dp_ok users acl \<longleftrightarrow> list_all (\<lambda>u. dp_row_ok (User_row u)) users \<and> list_all (\<lambda>i. dp_row_ok (Acl_row i)) acl"

lemma file_of_ok: "dp_ok users acl \<Longrightarrow> config_from_tsv (config_tsv users acl) = (users, acl)"
proof -
  assume "dp_ok users acl"
  then have "\<forall>x \<in> set (map User_row users @ map Acl_row acl). dp_row_ok x"
    by (auto simp: dp_ok_def list_all_iff)
  from dp_row.file_back [OF this] show ?thesis
    by (simp only: config_from_tsv_def config_tsv_def Let_def map_filter_tags)
qed

lemma add_identities_ok:
  "dp_ok (dp_users D) (dp_acl D) \<Longrightarrow>
   list_all (\<lambda>i. id_alias i = None \<and> length (id_id i) = 16 \<and> list_all valid_role (id_roles i)) is \<Longrightarrow>
   dp_ok (dp_users (snd (add_identities is D))) (dp_acl (snd (add_identities is D)))"
proof (induction "is" arbitrary: D)
  case (Cons i "is")
  have row: "dp_row_ok (Acl_row (clean_identity i))"
    using Cons.prems(2) by (simp add: clean_identity_def clean_name_plain)
  have "dp_ok (dp_users D) (dp_acl D @ [clean_identity i])"
    using Cons.prems(1) row by (simp add: dp_ok_def)
  with Cons show ?case by (simp add: Let_def split_beta)
qed simp

lemma list_all_update:
  "list_all P xs \<Longrightarrow> position Q xs = Some k \<Longrightarrow> (P (xs ! k) \<Longrightarrow> P y) \<Longrightarrow> list_all P (xs[k := y])"
  by (auto simp: list_all_length nth_list_update dest!: position_SomeD)

lemma remove_identity_ok:
  "dp_ok (dp_users D) (dp_acl D) \<Longrightarrow>
   dp_ok (dp_users (snd (remove_identity n D))) (dp_acl (snd (remove_identity n D)))"
  by (auto simp: remove_identity_def dp_ok_def list_all_iff Let_def)

lemma set_user_password_ok:
  assumes "dp_ok (dp_users D) (dp_acl D)" and "length stored = 16" and "length salt = 16"
  shows "dp_ok (dp_users (snd (set_user_password n stored salt D))) (dp_acl (snd (set_user_password n stored salt D)))"
  using assms
  by (auto simp: set_user_password_def dp_ok_def Let_def clean_name_plain intro: list_all_update split: option.split)

lemma update_roles_ok:
  assumes "dp_ok (dp_users D) (dp_acl D)" and "\<And>rs. list_all valid_role rs \<Longrightarrow> list_all valid_role (f rs)"
  shows "dp_ok (dp_users (snd (update_roles f n D))) (dp_acl (snd (update_roles f n D)))"
proof -
  have u: "list_all (\<lambda>u. dp_row_ok (User_row u)) ((dp_users D)[k := (dp_users D ! k)\<lparr>u_roles := f (u_roles (dp_users D ! k))\<rparr>])"
    if "position (\<lambda>u. u_name u = n) (dp_users D) = Some k" for k
    using assms that by (intro list_all_update [OF _ that]) (simp_all add: dp_ok_def)
  have a: "list_all (\<lambda>i. dp_row_ok (Acl_row i)) ((dp_acl D)[k := (dp_acl D ! k)\<lparr>id_roles := f (id_roles (dp_acl D ! k))\<rparr>])"
    if "position (\<lambda>x. id_name x = n) (dp_acl D) = Some k" for k
    using assms that by (intro list_all_update [OF _ that]) (simp_all add: dp_ok_def)
  show ?thesis
    using assms(1) u a by (simp add: update_roles_def dp_ok_def del: dp_row_ok.simps split: option.split)
qed

lemma add_missing_ok: "list_all P rs \<Longrightarrow> list_all P xs \<Longrightarrow> list_all P (add_missing rs xs)"
  by (induction rs arbitrary: xs) auto

lemma role_changes_ok:
  assumes "dp_ok (dp_users D) (dp_acl D)"
  shows "list_all valid_role roles \<Longrightarrow>
      dp_ok (dp_users (snd (add_roles n roles D))) (dp_acl (snd (add_roles n roles D)))"
    and "dp_ok (dp_users (snd (remove_roles n roles D))) (dp_acl (snd (remove_roles n roles D)))"
  unfolding add_roles_def remove_roles_def
  using assms by (auto intro!: update_roles_ok add_missing_ok simp: list_all_iff)

text \<open>C21 (roundtrip): the file \<open>dp.tsv\<close> is read back whole. Users and identities whose names are
  one-line fields without a tab, whose ids have sixteen octets, whose roles are known and whose
  alias is not a single dash are written so that the reader returns the same users and the same
  access list, in the same order.\<close>

theorem config_back:
  assumes "list_all (\<lambda>u. dp_row_ok (User_row u)) users" and "list_all (\<lambda>i. dp_row_ok (Acl_row i)) acl"
  shows "config_from_tsv (config_tsv users acl) = (users, acl)"
proof -
  have "\<forall>x \<in> set (map User_row users @ map Acl_row acl). dp_row_ok x"
    using assms by (auto simp: list_all_iff)
  from dp_row.file_back [OF this] show ?thesis
    by (simp only: config_from_tsv_def config_tsv_def Let_def map_filter_tags)
qed

theorem config_back_witness:
  "config_from_tsv (config_tsv (dp_users demo_state)
     [\<lparr>id_name = ''cp'', id_alias = Some ''Admin console'', id_id = replicate 16 202, id_roles = [''Admin'', ''Basic'']\<rparr>])
   = (dp_users demo_state,
     [\<lparr>id_name = ''cp'', id_alias = Some ''Admin console'', id_id = replicate 16 202, id_roles = [''Admin'', ''Basic'']\<rparr>])"
  by (rule config_back)
    (simp_all add: demo_state_def DpState_new_def plain_field_def valid_role_def nl_def cr_def tab_def)

text \<open>The reader of ids takes a sign for a digit: \<open>from_str_radix\<close> accepts a leading plus.\<close>

lemma signed_pair_accepted: "hex_pair CHR ''+'' CHR ''f'' = Some 15"
  by code_simp

end
