(* ===== verification/Nft.thy ===== *)
theory Nft
  imports Text
begin

text \<open>
  The datapath (\<open>src/src/nft.rs\<close>): the texts of the rules, elements and scripts the daemon hands to
  \<open>nft\<close>, the readers of what \<open>nft\<close> lists, and the effect of its element statements on the named
  sets and maps. Whether \<open>nft\<close> accepts a command is the parameter \<open>ok\<close> (the command's text to
  its success); a batch is one command, so it is all or nothing.
\<close>

section \<open>Names and texts\<close>

definition NAT_ADDR :: ipv4 where "NAT_ADDR = ipv4_of 192 168 0 21"

definition ACCEPT_SET_UDP :: string where "ACCEPT_SET_UDP = ''dslp_ports_udp''"
definition ACCEPT_SET_TCP :: string where "ACCEPT_SET_TCP = ''dslp_ports_tcp''"
definition INBOUND_SET_UDP :: string where "INBOUND_SET_UDP = ''dslp_in_udp''"
definition INBOUND_SET_TCP :: string where "INBOUND_SET_TCP = ''dslp_in_tcp''"
definition INBOUND_MAP_UDP :: string where "INBOUND_MAP_UDP = ''dslp_dnat_udp''"
definition INBOUND_MAP_TCP :: string where "INBOUND_MAP_TCP = ''dslp_dnat_tcp''"

definition accept_set :: "bool \<Rightarrow> string" where
  "accept_set tcp = (if tcp then ACCEPT_SET_TCP else ACCEPT_SET_UDP)"

definition inbound_set :: "bool \<Rightarrow> string" where
  "inbound_set tcp = (if tcp then INBOUND_SET_TCP else INBOUND_SET_UDP)"

definition inbound_map :: "bool \<Rightarrow> string" where
  "inbound_map tcp = (if tcp then INBOUND_MAP_TCP else INBOUND_MAP_UDP)"

definition dquote :: string where "dquote = [CHR 0x22]"

definition accept_element :: "string \<Rightarrow> u16 \<Rightarrow> bool \<Rightarrow> string list" where
  "accept_element verb r tcp =
     [verb, ''element'', ''inet'', ''fw4'', accept_set tcp, ''{ '' @ show_word r @ '' }'']"

definition accept_rule_text :: "string list" where
  "accept_rule_text =
     [''iifname '' @ dquote @ ''eth1'' @ dquote @ '' udp dport @'' @ ACCEPT_SET_UDP @ '' accept'',
      ''iifname '' @ dquote @ ''eth1'' @ dquote @ '' tcp dport @'' @ ACCEPT_SET_TCP @ '' accept'']"

definition inbound_rule_text :: "bool \<Rightarrow> string" where
  "inbound_rule_text tcp =
     (let proto = (if tcp then ''tcp'' else ''udp'')
      in ''iifname '' @ dquote @ ''eth1'' @ dquote @ '' '' @ proto @ '' dport @'' @ inbound_set tcp
         @ '' dnat ip to '' @ proto @ '' dport map @'' @ inbound_map tcp)"

definition pin_element :: "ipv4 \<Rightarrow> u16 \<Rightarrow> u16 \<Rightarrow> string" where
  "pin_element client client_port r = show_ipv4 client @ '' . '' @ show_word client_port @ '' : ''
     @ show_ipv4 NAT_ADDR @ '' . '' @ show_word r"

definition grant_script :: "ipv4 \<Rightarrow> u16 \<Rightarrow> u16 \<Rightarrow> bool \<Rightarrow> string" where
  "grant_script client int_port bind_port tcp =
     (let admitted = ''add element ip dslp '' @ inbound_set tcp @ '' { '' @ show_word bind_port @ '' }'' @ [nl]
      in if tcp then admitted
         else admitted @ ''add element ip dslp '' @ inbound_map tcp @ '' { '' @ show_word bind_port
              @ '' : '' @ show_ipv4 client @ '' . '' @ show_word int_port @ '' }'' @ [nl])"

definition revoke_statements :: "u16 \<Rightarrow> bool \<Rightarrow> string list" where
  "revoke_statements bind_port tcp =
     [''delete element ip dslp '' @ inbound_set tcp @ '' { '' @ show_word bind_port @ '' }'']
     @ (if \<not> tcp
        then [''delete element ip dslp '' @ inbound_map tcp @ '' { '' @ show_word bind_port @ '' }'']
        else [])
     @ [''delete element inet fw4 '' @ accept_set tcp @ '' { '' @ show_word bind_port @ '' }'']"

section \<open>What the element statements do\<close>

record Nft =
  n_sets :: "string \<Rightarrow> u16 set"
  n_maps :: "string \<Rightarrow> u16 \<Rightarrow> tuple4 option"
  n_snat :: "tuple4 \<Rightarrow> tuple4 option"

datatype nft_stmt =
    Add_port string string u16
  | Add_dnat string u16 ipv4 u16
  | Del_port string string u16
  | Del_dnat string u16

fun stmt_text :: "nft_stmt \<Rightarrow> string" where
  "stmt_text (Add_port table s p) = ''add element '' @ table @ '' '' @ s @ '' { '' @ show_word p @ '' }''"
| "stmt_text (Add_dnat m p client int_port) = ''add element ip dslp '' @ m @ '' { '' @ show_word p
     @ '' : '' @ show_ipv4 client @ '' . '' @ show_word int_port @ '' }''"
| "stmt_text (Del_port table s p) = ''delete element '' @ table @ '' '' @ s @ '' { '' @ show_word p @ '' }''"
| "stmt_text (Del_dnat m p) = ''delete element ip dslp '' @ m @ '' { '' @ show_word p @ '' }''"

fun apply_stmt :: "nft_stmt \<Rightarrow> Nft \<Rightarrow> Nft" where
  "apply_stmt (Add_port table s p) N = N\<lparr>n_sets := (n_sets N)(s := insert p (n_sets N s))\<rparr>"
| "apply_stmt (Add_dnat m p client int_port) N =
     N\<lparr>n_maps := (n_maps N)(m := (n_maps N m)(p \<mapsto> (client, int_port)))\<rparr>"
| "apply_stmt (Del_port table s p) N = N\<lparr>n_sets := (n_sets N)(s := n_sets N s - {p})\<rparr>"
| "apply_stmt (Del_dnat m p) N = N\<lparr>n_maps := (n_maps N)(m := (n_maps N m)(p := None))\<rparr>"

definition grant_stmts :: "ipv4 \<Rightarrow> u16 \<Rightarrow> u16 \<Rightarrow> bool \<Rightarrow> nft_stmt list" where
  "grant_stmts client int_port bind_port tcp =
     Add_port ''ip dslp'' (inbound_set tcp) bind_port
     # (if tcp then [] else [Add_dnat (inbound_map tcp) bind_port client int_port])"

definition revoke_stmts :: "u16 \<Rightarrow> bool \<Rightarrow> nft_stmt list" where
  "revoke_stmts bind_port tcp =
     Del_port ''ip dslp'' (inbound_set tcp) bind_port
     # (if tcp then [] else [Del_dnat (inbound_map tcp) bind_port])
     @ [Del_port ''inet fw4'' (accept_set tcp) bind_port]"

text \<open>The scripts of the code are the texts of these statements.\<close>

lemma grant_script_text:
  "grant_script client int_port p tcp = concat (map (\<lambda>s. stmt_text s @ [nl]) (grant_stmts client int_port p tcp))"
  by (simp add: grant_script_def grant_stmts_def)

lemma revoke_statements_text: "revoke_statements p tcp = map stmt_text (revoke_stmts p tcp)"
  by (simp add: revoke_statements_def revoke_stmts_def)

lemma accept_element_text:
  "join '' '' (accept_element ''add'' p tcp) = stmt_text (Add_port ''inet fw4'' (accept_set tcp) p)"
  "join '' '' (accept_element ''delete'' p tcp) = stmt_text (Del_port ''inet fw4'' (accept_set tcp) p)"
  by (simp_all add: accept_element_def)

section \<open>Granting and revoking\<close>

definition run_script :: "(string \<Rightarrow> bool) \<Rightarrow> nft_stmt list \<Rightarrow> Nft \<Rightarrow> bool \<times> Nft" where
  "run_script ok stmts N =
     (if ok (concat (map (\<lambda>s. stmt_text s @ [nl]) stmts)) then (True, fold apply_stmt stmts N) else (False, N))"

definition add_input_accept :: "(string \<Rightarrow> bool) \<Rightarrow> u16 \<Rightarrow> bool \<Rightarrow> Nft \<Rightarrow> bool \<times> Nft" where
  "add_input_accept ok p tcp N =
     (if ok (join '' '' (accept_element ''add'' p tcp))
      then (True, apply_stmt (Add_port ''inet fw4'' (accept_set tcp) p) N) else (False, N))"

definition del_input_accept :: "(string \<Rightarrow> bool) \<Rightarrow> u16 \<Rightarrow> bool \<Rightarrow> Nft \<Rightarrow> Nft" where
  "del_input_accept ok p tcp N =
     (if ok (join '' '' (accept_element ''delete'' p tcp))
      then apply_stmt (Del_port ''inet fw4'' (accept_set tcp) p) N else N)"

definition grant_datapath ::
  "(string \<Rightarrow> bool) \<Rightarrow> ipv4 \<Rightarrow> u16 \<Rightarrow> u16 \<Rightarrow> bool \<Rightarrow> Nft \<Rightarrow> bool \<times> Nft" where
  "grant_datapath ok client int_port bind_port tcp N =
     (case run_script ok (grant_stmts client int_port bind_port tcp) N of
        (False, N1) \<Rightarrow> (False, N1)
      | (True, N1) \<Rightarrow> add_input_accept ok bind_port tcp N1)"

definition revoke_datapath :: "(string \<Rightarrow> bool) \<Rightarrow> u16 \<Rightarrow> bool \<Rightarrow> Nft \<Rightarrow> Nft" where
  "revoke_datapath ok bind_port tcp N =
     fold (\<lambda>s N. snd (run_script ok [s] N)) (revoke_stmts bind_port tcp) N"

definition del_pin :: "(string \<Rightarrow> bool) \<Rightarrow> ipv4 \<Rightarrow> u16 \<Rightarrow> Nft \<Rightarrow> bool \<times> Nft" where
  "del_pin ok client client_port N =
     (if ok (''delete element ip dslp snat_map { '' @ show_ipv4 client @ '' . '' @ show_word client_port @ '' }'')
      then (True, N\<lparr>n_snat := (n_snat N)((client, client_port) := None)\<rparr>) else (False, N))"

text \<open>The first attempt and the retry are two commands, so each has its own answer.\<close>

definition add_pin :: "bool \<Rightarrow> (string \<Rightarrow> bool) \<Rightarrow> ipv4 \<Rightarrow> u16 \<Rightarrow> u16 \<Rightarrow> Nft \<Rightarrow> bool \<times> Nft" where
  "add_pin first_ok ok client client_port r N =
     (let pinned = (\<lambda>M. M\<lparr>n_snat := (n_snat M)((client, client_port) \<mapsto> (NAT_ADDR, r))\<rparr>)
      in if first_ok then (True, pinned N)
         else let N1 = snd (del_pin ok client client_port N)
              in if ok (''add element ip dslp snat_map { '' @ pin_element client client_port r @ '' }'')
                 then (True, pinned N1) else (False, N1))"

section \<open>Reading what nft lists\<close>

text \<open>The text after the first occurrence of a marker (\<open>find\<close> and the slice after it).\<close>

fun after_marker :: "string \<Rightarrow> string \<Rightarrow> string option" where
  "after_marker m [] = (if m = [] then Some [] else None)"
| "after_marker m (c # cs) =
     (if starts_with (c # cs) m then Some (drop (length m) (c # cs)) else after_marker m cs)"

definition elements_marker :: string where "elements_marker = ''elements = {''"

fun split_any :: "char set \<Rightarrow> string \<Rightarrow> string list" where
  "split_any cs [] = [[]]"
| "split_any cs (x # xs) =
     (if x \<in> cs then [] # split_any cs xs
      else (case split_any cs xs of [] \<Rightarrow> [[x]] | p # ps \<Rightarrow> (x # p) # ps))"

definition first_word :: "string \<Rightarrow> string option" where
  "first_word s = (case split_ws s of [] \<Rightarrow> None | w # _ \<Rightarrow> Some w)"

definition last_word :: "string \<Rightarrow> string option" where
  "last_word s = (case split_ws s of [] \<Rightarrow> None | ws \<Rightarrow> Some (last ws))"

definition parse_port_set :: "string \<Rightarrow> u16 list" where
  "parse_port_set text =
     (case after_marker elements_marker text of
        None \<Rightarrow> []
      | Some rest \<Rightarrow> List.map_filter (\<lambda>t. Option.bind (first_word t) parse_word)
          (split_any {CHR '','', CHR ''}''} rest))"

definition inbound_set_has :: "u16 \<Rightarrow> string option \<Rightarrow> bool" where
  "inbound_set_has bind_port listing =
     (case listing of None \<Rightarrow> False | Some text \<Rightarrow> bind_port \<in> set (parse_port_set text))"

definition flow_element :: "string \<Rightarrow> tuple4 option" where
  "flow_element tok =
     (case split_ws tok of
        a # b # c # _ \<Rightarrow>
          (case (parse_ipv4 a, parse_word c) of (Some ip, Some port) \<Rightarrow> Some (ip, port) | _ \<Rightarrow> None)
      | _ \<Rightarrow> None)"

definition parse_flow_obs :: "string \<Rightarrow> tuple4 list" where
  "parse_flow_obs text =
     (case after_marker elements_marker text of
        None \<Rightarrow> []
      | Some rest \<Rightarrow> List.map_filter flow_element (split_on CHR '','' rest))"

text \<open>The three readers of rule handles: the last word of the lines that name something.\<close>

definition handles_of :: "(string \<Rightarrow> bool) \<Rightarrow> string \<Rightarrow> u64 list" where
  "handles_of P listing =
     List.map_filter (\<lambda>l. Option.bind (last_word l) parse_word) (filter P (lines listing))"

definition legacy_rule_handles :: "string \<Rightarrow> u64 list" where
  "legacy_rule_handles listing = handles_of (\<lambda>l. str_contains l ''dslitepunch'') listing"

definition rule_handles :: "string \<Rightarrow> string \<Rightarrow> u64 list" where
  "rule_handles listing text = handles_of (\<lambda>l. str_contains l text) listing"

definition zone_jump_handle :: "string \<Rightarrow> u64 option" where
  "zone_jump_handle listing =
     Option.bind (find (\<lambda>l. str_contains l ''jump input_'') (lines listing))
       (\<lambda>l. Option.bind (last_word l) parse_word)"

section \<open>The accept rules\<close>

text \<open>One command as its argument list. The installer stops at the first command it insists on.\<close>

type_synonym argv = "string list"

definition add_set_argv :: "bool \<Rightarrow> argv" where
  "add_set_argv tcp = [''add'', ''set'', ''inet'', ''fw4'', accept_set tcp,
     ''{ type inet_service ; size 65535 ; }'']"

definition delete_rule_argv :: "string \<Rightarrow> u64 \<Rightarrow> argv" where
  "delete_rule_argv chain h =
     [''delete'', ''rule'', ''inet'', ''fw4'', chain, ''handle'', show_word h]"

definition flush_set_argv :: "bool \<Rightarrow> argv" where
  "flush_set_argv tcp = [''flush'', ''set'', ''inet'', ''fw4'', accept_set tcp]"

definition place_rule_argv :: "string \<Rightarrow> string \<Rightarrow> argv" where
  "place_rule_argv listing text =
     (case zone_jump_handle listing of
        Some h \<Rightarrow> [''insert'', ''rule'', ''inet'', ''fw4'', ''input'', ''position'', show_word h, text]
      | None \<Rightarrow> [''insert'', ''rule'', ''inet'', ''fw4'', ''input'', text])"

text \<open>The commands issued, and whether the run ended without an error.\<close>

fun accept_sets_from :: "(argv \<Rightarrow> bool) \<Rightarrow> string option \<Rightarrow> string list \<Rightarrow> argv list \<times> bool" where
  "accept_sets_from ok listing [] =
     ((case listing of Some l \<Rightarrow> map (delete_rule_argv ''input'') (legacy_rule_handles l) | None \<Rightarrow> []), True)"
| "accept_sets_from ok listing (text # texts) =
     (let tcp = str_contains text ACCEPT_SET_TCP
      in (case listing of
            None \<Rightarrow> (let (rest, r) = accept_sets_from ok listing texts
                      in (add_set_argv tcp # flush_set_argv tcp # rest, r))
          | Some l \<Rightarrow>
              let placed = add_set_argv tcp # map (delete_rule_argv ''input'') (rule_handles l text)
                    @ [place_rule_argv l text]
              in if \<not> ok (place_rule_argv l text) then (placed, False)
                 else let (rest, r) = accept_sets_from ok listing texts
                      in (placed @ flush_set_argv tcp # rest, r)))"

definition ensure_accept_sets :: "(argv \<Rightarrow> bool) \<Rightarrow> string option \<Rightarrow> argv list \<times> bool" where
  "ensure_accept_sets ok listing = accept_sets_from ok listing accept_rule_text"

section \<open>The carrier probe\<close>

definition CARRIER_COUNTER :: string where "CARRIER_COUNTER = ''carrier_probe''"

text \<open>The eight octets of the mark, \<open>dslp-prb\<close>, as sixteen hexadecimal digits.\<close>

definition MARK_HEX :: string where "MARK_HEX = ''64736c702d707262''"

definition carrier_probe_rule_text :: "string \<Rightarrow> string" where
  "carrier_probe_rule_text chain =
     (let mark = ''@th,64,64 0x'' @ MARK_HEX
      in if chain = ''forward''
         then ''iifname '' @ dquote @ ''eth1'' @ dquote @ '' meta l4proto udp '' @ mark @ '' counter name ''
              @ dquote @ CARRIER_COUNTER @ dquote
         else ''iifname '' @ dquote @ ''eth1'' @ dquote @ '' udp dport @'' @ ACCEPT_SET_UDP @ '' '' @ mark
              @ '' counter name '' @ dquote @ CARRIER_COUNTER @ dquote)"

text \<open>\<open>rsplit(m).next()\<close>: what follows the last occurrence of \<open>m\<close>, or the whole text.\<close>

fun after_last :: "string \<Rightarrow> string \<Rightarrow> string" where
  "after_last m [] = []"
| "after_last m (c # cs) =
     (if str_contains cs m then after_last m cs
      else if starts_with (c # cs) m then drop (length m) (c # cs) else c # cs)"

fun stale_from :: "string \<Rightarrow> bool \<Rightarrow> string list \<Rightarrow> u64 list" where
  "stale_from text kept [] = []"
| "stale_from text kept (line # ls) =
     (if \<not> str_contains line CARRIER_COUNTER then stale_from text kept ls
      else
        let this_build = str_contains line text;
            dropped = (if this_build then kept else True);
            rest = stale_from text (kept \<or> this_build) ls
        in if \<not> dropped then rest
           else (case parse_word (trim (after_last ''handle '' line)) of
                   Some h \<Rightarrow> h # rest | None \<Rightarrow> rest))"

definition carrier_probe_stale_handles :: "string \<Rightarrow> string \<Rightarrow> u64 list" where
  "carrier_probe_stale_handles listing text = stale_from text False (lines listing)"

record ChainRuleState =
  stale :: "u64 list"
  missing :: bool

definition carrier_probe_chain_state :: "string \<Rightarrow> string \<Rightarrow> ChainRuleState" where
  "carrier_probe_chain_state listing text =
     \<lparr>stale = carrier_probe_stale_handles listing text, missing = \<not> str_contains listing text\<rparr>"

fun packets_after :: "string list \<Rightarrow> u64 option" where
  "packets_after (w # n # ws) = (if w = ''packets'' then parse_word n else packets_after (n # ws))"
| "packets_after ws = None"

fun find_map :: "('a \<Rightarrow> 'b option) \<Rightarrow> 'a list \<Rightarrow> 'b option" where
  "find_map f [] = None"
| "find_map f (x # xs) = (case f x of Some y \<Rightarrow> Some y | None \<Rightarrow> find_map f xs)"

definition parse_carrier_probe :: "string \<Rightarrow> u64" where
  "parse_carrier_probe text =
     (case find_map (\<lambda>l. packets_after (split_ws l)) (lines text) of Some n \<Rightarrow> n | None \<Rightarrow> 0)"

end
