(* ===== verification/Nft_Props.thy ===== *)
theory Nft_Props
  imports Nft
begin

text \<open>
  What a grant and a revoke do to the sets and maps, what they leave alone, and that the readers
  of listings return what a listing holds.
\<close>

section \<open>Grant and revoke\<close>

definition serves :: "Nft \<Rightarrow> ipv4 \<Rightarrow> u16 \<Rightarrow> u16 \<Rightarrow> bool \<Rightarrow> bool" where
  "serves N client int_port p tcp \<longleftrightarrow> p \<in> n_sets N (inbound_set tcp) \<and> p \<in> n_sets N (accept_set tcp)
     \<and> (\<not> tcp \<longrightarrow> n_maps N (inbound_map tcp) p = Some (client, int_port))"

lemma set_names [simp]:
  "inbound_set tcp \<noteq> accept_set tcp'" "accept_set tcp' \<noteq> inbound_set tcp"
  "inbound_set tcp = inbound_set tcp' \<longleftrightarrow> tcp = tcp'" "accept_set tcp = accept_set tcp' \<longleftrightarrow> tcp = tcp'"
  "inbound_map tcp = inbound_map tcp' \<longleftrightarrow> tcp = tcp'"
  by (simp_all add: inbound_set_def accept_set_def inbound_map_def INBOUND_SET_UDP_def INBOUND_SET_TCP_def
      ACCEPT_SET_UDP_def ACCEPT_SET_TCP_def INBOUND_MAP_UDP_def INBOUND_MAP_TCP_def)

lemma grant_serves:
  "grant_datapath ok client int_port p tcp N = (True, N1) \<Longrightarrow> serves N1 client int_port p tcp"
  by (auto simp: grant_datapath_def run_script_def add_input_accept_def grant_stmts_def serves_def
      split: if_splits)

text \<open>Neither touches what another port is served by.\<close>

lemma grant_keeps:
  "q \<noteq> p \<Longrightarrow> serves (snd (grant_datapath ok client int_port p tcp N)) c i q tcp' \<longleftrightarrow> serves N c i q tcp'"
  by (auto simp: grant_datapath_def run_script_def add_input_accept_def grant_stmts_def serves_def)

lemma revoke_keeps:
  "q \<noteq> p \<Longrightarrow> serves (revoke_datapath ok p tcp N) c i q tcp' \<longleftrightarrow> serves N c i q tcp'"
  by (auto simp: revoke_datapath_def run_script_def revoke_stmts_def serves_def)

lemma unaccept_keeps:
  "q \<noteq> p \<Longrightarrow> serves (del_input_accept ok p tcp N) c i q tcp' \<longleftrightarrow> serves N c i q tcp'"
  by (auto simp: del_input_accept_def serves_def)

lemma grant_effect:
  "grant_datapath ok client int_port p tcp N = (True, N1) \<Longrightarrow> N1 = N
     \<lparr>n_sets := (n_sets N)(inbound_set tcp := insert p (n_sets N (inbound_set tcp)),
                            accept_set tcp := insert p (n_sets N (accept_set tcp))),
      n_maps := (if tcp then n_maps N else (n_maps N)(inbound_map tcp :=
         (n_maps N (inbound_map tcp))(p \<mapsto> (client, int_port))))\<rparr>"
  by (cases N) (auto simp: grant_datapath_def run_script_def add_input_accept_def grant_stmts_def
      split: if_splits)

lemma revoke_effect:
  "(\<And>t. ok t) \<Longrightarrow> revoke_datapath ok p tcp N = N
     \<lparr>n_sets := (n_sets N)(inbound_set tcp := n_sets N (inbound_set tcp) - {p},
                            accept_set tcp := n_sets N (accept_set tcp) - {p}),
      n_maps := (if tcp then n_maps N else (n_maps N)(inbound_map tcp :=
         (n_maps N (inbound_map tcp))(p := None)))\<rparr>"
  by (cases N) (auto simp: revoke_datapath_def run_script_def revoke_stmts_def)

text \<open>C15 (roundtrip): revoking a slot's datapath undoes its grant. A grant that succeeds leaves the
  port admitted, translated to its client when it is UDP, and accepted; a revoke of that port
  whose statements all succeed puts every set and map back to what it was before the grant, when
  the port had no element before.\<close>

theorem revoke_undoes_grant:
  assumes "grant_datapath ok client int_port p tcp N = (True, N1)"
    and "p \<notin> n_sets N (inbound_set tcp)" and "p \<notin> n_sets N (accept_set tcp)"
    and "n_maps N (inbound_map tcp) p = None"
    and "\<And>t. ok' t"
  shows "serves N1 client int_port p tcp \<and> revoke_datapath ok' p tcp N1 = N"
proof (intro conjI)
  show "serves N1 client int_port p tcp" using assms(1) by (rule grant_serves)
  show "revoke_datapath ok' p tcp N1 = N"
    unfolding revoke_effect [of ok', OF assms(5)] grant_effect [OF assms(1)]
    using assms(2-4) by (cases N) (auto simp: fun_eq_iff)
qed

definition nft_empty :: Nft where
  "nft_empty = \<lparr>n_sets = (\<lambda>_. {}), n_maps = (\<lambda>_. Map.empty), n_snat = Map.empty\<rparr>"

theorem revoke_undoes_grant_witness:
  "serves (snd (grant_datapath (\<lambda>_. True) (ipv4_of 192 168 21 5) 4000 30001 False nft_empty))
     (ipv4_of 192 168 21 5) 4000 30001 False
   \<and> revoke_datapath (\<lambda>_. True) 30001 False
       (snd (grant_datapath (\<lambda>_. True) (ipv4_of 192 168 21 5) 4000 30001 False nft_empty)) = nft_empty"
proof (rule revoke_undoes_grant [where ok = "\<lambda>_. True"])
  show "grant_datapath (\<lambda>_. True) (ipv4_of 192 168 21 5) 4000 30001 False nft_empty
      = (True, snd (grant_datapath (\<lambda>_. True) (ipv4_of 192 168 21 5) 4000 30001 False nft_empty))"
    by (simp add: grant_datapath_def run_script_def add_input_accept_def)
qed (simp_all add: nft_empty_def)

section \<open>Listings\<close>

lemma starts_with_append [simp]: "starts_with (m @ x) m"
  by (simp add: starts_with_def)

lemma starts_with_prefix: "starts_with s m \<longleftrightarrow> (\<exists>t. s = m @ t)"
  unfolding starts_with_def by (metis append_take_drop_id append_eq_conv_conj)

text \<open>A character of the marker that the text before it does not have rules out an earlier match.\<close>

lemma after_marker_at:
  assumes "c \<in> set m" and "c \<notin> set pre"
  shows "after_marker m (pre @ m @ x) = Some x"
  using assms(2)
proof (induction pre)
  case Nil
  from assms(1) have "m \<noteq> []" by auto
  then obtain d ds where m: "m = d # ds" by (cases m) auto
  have "starts_with (m @ x) m" by simp
  then show ?case unfolding m by simp
next
  case (Cons a pre)
  have "\<not> starts_with (a # pre @ m @ x) m"
  proof
    assume "starts_with (a # pre @ m @ x) m"
    then obtain t where t: "(a # pre) @ m @ x = m @ t" by (auto simp: starts_with_prefix)
    have k: "length (takeWhile (\<lambda>d. d \<noteq> c) (m @ y)) = length (takeWhile (\<lambda>d. d \<noteq> c) m)" for y
      using assms(1) by (subst takeWhile_append1) auto
    have "takeWhile (\<lambda>d. d \<noteq> c) ((a # pre) @ m @ x) = (a # pre) @ takeWhile (\<lambda>d. d \<noteq> c) (m @ x)"
      using Cons.prems by (subst takeWhile_append2) auto
    then have "length (a # pre) = 0" using t k [of x] k [of t] by (metis add_cancel_left_left length_append)
    then show False by simp
  qed
  with Cons show ?case by simp
qed

lemma split_any_plain: "set s \<inter> cs = {} \<Longrightarrow> split_any cs s = [s]"
  by (induction s) auto

lemma split_any_append: "set s \<inter> cs = {} \<Longrightarrow> c \<in> cs \<Longrightarrow> split_any cs (s @ c # t) = s # split_any cs t"
  by (induction s) auto

lemma first_word_digits:
  assumes "s \<noteq> []" and "\<forall>c \<in> set s. \<not> is_ws c"
  shows "first_word (CHR '' '' # s) = Some s" and "first_word (CHR '' '' # s @ [CHR '' '']) = Some s"
proof -
  have ws: "is_ws CHR '' ''" by (simp add: is_ws_def)
  obtain c cs where s: "s = c # cs" using assms(1) by (cases s) auto
  with assms(2) have c: "\<not> is_ws c" by simp
  have 1: "takeWhile (\<lambda>c. \<not> is_ws c) s = s" using assms(2) by (simp add: takeWhile_eq_all_conv)
  then show "first_word (CHR '' '' # s) = Some s"
    using c by (subst first_word_def, subst split_ws.simps) (simp add: ws s)
  have "takeWhile (\<lambda>c. \<not> is_ws c) (s @ [CHR '' '']) = s"
    using assms(2) ws by (simp add: takeWhile_append2)
  then show "first_word (CHR '' '' # s @ [CHR '' '']) = Some s"
    using c by (subst first_word_def, subst split_ws.simps) (simp add: ws s)
qed

definition listed_ports :: "u16 list \<Rightarrow> string" where
  "listed_ports ps = join '','' (map (\<lambda>p. CHR '' '' # show_word p) ps) @ '' }''"

lemma first_word_blank: "first_word s = None" if "\<forall>c \<in> set s. is_ws c"
  using that by (simp add: first_word_def split_ws.simps [of s])

lemma port_read: "Option.bind (first_word (CHR '' '' # show_word p)) parse_word = Some (p :: u16)"
  "Option.bind (first_word (CHR '' '' # show_word p @ [CHR '' ''])) parse_word = Some p"
  using first_word_digits [of "show_word p"] show_word_plain [of _ p] by simp_all

lemma port_chars: "set (CHR '' '' # show_word (p::u16)) \<inter> {CHR '','', CHR ''}''} = {}"
  using show_word_chars [of _ p] by (auto simp: is_digit_def)

lemma read_listed:
  assumes "ps \<noteq> []" and "\<forall>c \<in> set rest. is_ws c \<or> c = CHR ''}''"
  shows "List.map_filter (\<lambda>t. Option.bind (first_word t) parse_word)
           (split_any {CHR '','', CHR ''}''} (listed_ports ps @ rest)) = (ps :: u16 list)"
  using assms(1)
proof (induction ps rule: list_nonempty_induct)
  case (single p)
  have blanks: "List.map_filter (\<lambda>t. Option.bind (first_word t) parse_word)
      (split_any {CHR '','', CHR ''}''} r) = ([] :: u16 list)"
    if "\<forall>c \<in> set r. is_ws c \<or> c = CHR ''}''" for r
  proof -
    have "\<forall>t \<in> set (split_any {CHR '','', CHR ''}''} r). \<forall>c \<in> set t. is_ws c"
      using that by (induction r) (auto split: list.splits)
    then show ?thesis by (auto simp: List.map_filter_def first_word_blank filter_empty_conv)
  qed
  have "split_any {CHR '','', CHR ''}''} ((CHR '' '' # show_word p @ [CHR '' '']) @ CHR ''}'' # rest)
      = (CHR '' '' # show_word p @ [CHR '' '']) # split_any {CHR '','', CHR ''}''} rest"
    using port_chars [of p] by (intro split_any_append) auto
  then show ?case
    using blanks [OF assms(2)] by (simp add: listed_ports_def port_read List.map_filter_simps)
next
  case (cons p ps)
  then obtain q qs where ps: "ps = q # qs" by (cases ps) auto
  have "split_any {CHR '','', CHR ''}''} ((CHR '' '' # show_word p) @ CHR '','' # (listed_ports ps @ rest))
      = (CHR '' '' # show_word p) # split_any {CHR '','', CHR ''}''} (listed_ports ps @ rest)"
    using port_chars [of p] by (intro split_any_append) auto
  then show ?case
    using cons.IH by (simp add: listed_ports_def ps port_read List.map_filter_simps)
qed

text \<open>The reader of a port set sees exactly the ports a listing holds. For the
  listing of a set, whatever its header as long as it has no equals sign, the parsed ports are
  the listed ones in order, and the read-back after a revoke is true of exactly those ports.\<close>

theorem port_set_back:
  assumes "CHR ''='' \<notin> set header" and "ps \<noteq> []" and "\<forall>c \<in> set rest. is_ws c \<or> c = CHR ''}''"
  shows "parse_port_set (header @ elements_marker @ listed_ports ps @ rest) = ps
    \<and> (inbound_set_has p (Some (header @ elements_marker @ listed_ports ps @ rest)) \<longleftrightarrow> p \<in> set ps)"
proof -
  have "after_marker elements_marker (header @ elements_marker @ listed_ports ps @ rest)
      = Some (listed_ports ps @ rest)"
    using assms(1) by (intro after_marker_at [of "CHR ''=''"]) (simp_all add: elements_marker_def)
  then show ?thesis by (simp add: parse_port_set_def inbound_set_has_def read_listed [OF assms(2,3)])
qed

theorem port_set_back_witness:
  "parse_port_set (''set dslp_in_udp { '' @ elements_marker @ listed_ports [30001, 30002] @ ''} }'') = [30001, 30002]
   \<and> (inbound_set_has 30002 (Some (''set dslp_in_udp { '' @ elements_marker @ listed_ports [30001, 30002] @ ''} }''))
      \<longleftrightarrow> 30002 \<in> set [30001, 30002 :: u16])"
  by (rule port_set_back) (simp_all add: is_ws_def)

section \<open>The carrier probe's rules\<close>

lemma str_contains_prefix: "str_contains s m \<longleftrightarrow> (\<exists>a b. s = a @ m @ b)"
proof
  show "str_contains s m \<Longrightarrow> \<exists>a b. s = a @ m @ b"
  proof (induction s)
    case (Cons c s)
    then show ?case
    proof (cases "starts_with (c # s) m")
      case True
      then show ?thesis by (metis append_Nil starts_with_prefix)
    next
      case False
      with Cons obtain a b where "s = a @ m @ b" by auto
      then show ?thesis by (metis append_Cons)
    qed
  qed simp
  assume "\<exists>a b. s = a @ m @ b"
  then obtain a b where s: "s = a @ m @ b" by blast
  have "str_contains (m @ b) m" using starts_with_append [of m b] by (cases "m @ b") (simp_all only: str_contains.simps, auto)
  then show "str_contains s m" unfolding s by (induction a) simp_all
qed

lemma str_contains_set: "str_contains s m \<Longrightarrow> set m \<subseteq> set s"
  by (auto simp: str_contains_prefix)

lemma after_last_absent: "\<not> str_contains s m \<Longrightarrow> after_last m s = s"
  by (cases s) auto

lemma parse_word_digits: "parse_word s = Some (w :: 'a::len word) \<Longrightarrow> c \<in> set s \<Longrightarrow> is_digit c \<or> c = CHR ''+''"
  by (auto simp: parse_word_def parse_uint_def Let_def list_all_iff split: list.splits if_splits)

lemma set_trim: "c \<in> set s \<Longrightarrow> \<not> is_ws c \<Longrightarrow> c \<in> set (trim s)"
  unfolding trim_def trim_end_def trim_start_def
  by (metis set_rev set_takeWhileD takeWhile_dropWhile_id Un_iff set_append)

text \<open>A listing without handles yields no stale rule, and \<open>read_carrier_chain\<close> asks for none.\<close>

lemma no_handles_no_stale:
  "\<forall>l \<in> set ls. \<not> str_contains l ''handle '' \<Longrightarrow> stale_from text kept ls = []"
proof (induction ls arbitrary: kept)
  case (Cons l ls)
  have "parse_word (trim l) = (None :: u64 option)" if "str_contains l CARRIER_COUNTER"
  proof (rule ccontr)
    assume "parse_word (trim l) \<noteq> (None :: u64 option)"
    then obtain w :: u64 where "parse_word (trim l) = Some w" by blast
    moreover have "CHR ''p'' \<in> set l"
      using str_contains_set [OF that] by (auto simp: CARRIER_COUNTER_def)
    then have "CHR ''p'' \<in> set (trim l)" by (rule set_trim) (simp add: is_ws_def)
    ultimately show False using parse_word_digits by (fastforce simp: is_digit_def)
  qed
  with Cons show ?case by (simp add: after_last_absent Let_def)
qed simp

lemma split_on_infix: "l \<in> set (split_on c s) \<Longrightarrow> \<exists>a b. s = a @ l @ b"
proof (induction s arbitrary: l)
  case (Cons x xs)
  obtain q qs where q: "split_on c xs = q # qs" by (meson list.exhaust split_on_ne)
  have "\<exists>b. xs = q @ b" using q
    by (induction xs arbitrary: q qs) (auto split: if_splits list.splits)
  moreover have "\<exists>a b. x # xs = a @ l @ b" if "l \<in> set (split_on c xs)"
    using Cons.IH [OF that] by (metis append_Cons)
  moreover have "x # xs = [] @ l @ x # xs" if "l = []" using that by simp
  ultimately show ?case
    using Cons.prems q by (auto split: if_splits) (metis append_Cons append_Nil)+
qed simp

lemma lines_infix: "l \<in> set (lines s) \<Longrightarrow> \<exists>a b. s = a @ l @ b"
proof -
  assume "l \<in> set (lines s)"
  then have "l \<in> strip_cr ` set (butlast (split_on nl s)) \<or> l = last (split_on nl s)"
    by (auto simp: lines_def Let_def split: if_splits)
  then obtain p where p: "p \<in> set (split_on nl s)" and l: "l = strip_cr p \<or> l = p"
    using last_in_set [OF split_on_ne, of nl s] in_set_butlastD [of _ "split_on nl s"] by blast
  have "\<exists>z. p = strip_cr p @ z" by (auto simp: strip_cr_def) (metis append_butlast_last_id)
  with l obtain z where "p = l @ z" by auto
  with split_on_infix [OF p] show ?thesis by auto
qed

lemma carrier_probe_never_sees_stale:
  assumes "\<not> str_contains listing ''handle ''"
  shows "carrier_probe_stale_handles listing text = []"
  unfolding carrier_probe_stale_handles_def
proof (rule no_handles_no_stale, rule ballI)
  fix l assume "l \<in> set (lines listing)"
  then obtain a b where "listing = a @ l @ b" using lines_infix by blast
  then show "\<not> str_contains l ''handle ''"
    using assms by (auto simp: str_contains_prefix) (metis append.assoc)
qed

end
