(* ===== verification/Upnp.thy ===== *)
theory Upnp
  imports Text
begin

text \<open>
  The pure layer of the UPnP facade (\<open>src/src/upnp.rs\<close>): header lookup, discovery requests,
  subscription ids, the classification of requests, faults and the extraction of arguments.
  A byte slice is a list of characters.
\<close>

section \<open>Byte helpers\<close>

definition lower :: "char \<Rightarrow> char" where
  "lower c = (if 65 \<le> (of_char c :: nat) \<and> (of_char c :: nat) \<le> 90 then char_of ((of_char c :: nat) + 32) else c)"

definition eq_ia :: "string \<Rightarrow> string \<Rightarrow> bool" where
  "eq_ia a b \<longleftrightarrow> length a = length b \<and> list_all2 (\<lambda>x y. lower x = lower y) a b"

definition starts_with_ia :: "string \<Rightarrow> string \<Rightarrow> bool" where
  "starts_with_ia hay needle \<longleftrightarrow> length needle \<le> length hay \<and> eq_ia (take (length needle) hay) needle"

definition find_byte :: "string \<Rightarrow> char \<Rightarrow> nat option" where
  "find_byte hay b = position (\<lambda>c. c = b) hay"

definition is_bws :: "char \<Rightarrow> bool" where
  "is_bws c \<longleftrightarrow> c \<in> set [CHR '' '', tab, cr, nl]"

definition btrim :: "string \<Rightarrow> string" where
  "btrim s = rev (dropWhile is_bws (rev (dropWhile is_bws s)))"

definition strip_quotes :: "string \<Rightarrow> string" where
  "strip_quotes s = (if 2 \<le> length s \<and> hd s = CHR 0x22 \<and> last s = CHR 0x22 then butlast (tl s) else s)"

fun contains_ia :: "string \<Rightarrow> string \<Rightarrow> bool" where
  "contains_ia [] needle = (needle = [])"
| "contains_ia (c # cs) needle = (starts_with_ia (c # cs) needle \<or> contains_ia cs needle)"

text \<open>The header lines follow the request line; an empty last piece has no colon.\<close>

fun header_in :: "string list \<Rightarrow> string \<Rightarrow> string option" where
  "header_in [] key = None"
| "header_in (l # ls) key =
     (case split_once CHR '':'' (strip_cr l) of
        Some (k, v) \<Rightarrow> if eq_ia (btrim k) key then Some (btrim v) else header_in ls key
      | None \<Rightarrow> header_in ls key)"

definition find_header :: "string \<Rightarrow> string \<Rightarrow> string option" where
  "find_header head key = header_in (tl (split_on nl head)) key"

definition header_contains :: "string \<Rightarrow> string \<Rightarrow> string \<Rightarrow> bool" where
  "header_contains head key needle =
     (case find_header head key of Some v \<Rightarrow> contains_ia v needle | None \<Rightarrow> False)"

section \<open>Discovery\<close>

datatype SearchTarget = RootDevice | InternetGatewayDevice | InternetGatewayDevice2 | WanDevice
  | WanConnectionDevice | ST_WanIpConnection | ST_WanIpConnection2 | ST_WanPppConnection
  | ST_WanPppConnection2 | SsdpAll

definition ST_NAMES :: "(string \<times> SearchTarget) list" where
  "ST_NAMES =
     [(''upnp:rootdevice'', RootDevice),
      (''urn:schemas-upnp-org:device:InternetGatewayDevice:1'', InternetGatewayDevice),
      (''urn:schemas-upnp-org:device:InternetGatewayDevice:2'', InternetGatewayDevice2),
      (''urn:schemas-upnp-org:device:WANDevice:1'', WanDevice),
      (''urn:schemas-upnp-org:device:WANConnectionDevice:1'', WanConnectionDevice),
      (''urn:schemas-upnp-org:service:WANIPConnection:1'', ST_WanIpConnection),
      (''urn:schemas-upnp-org:service:WANIPConnection:2'', ST_WanIpConnection2),
      (''urn:schemas-upnp-org:service:WANPPPConnection:1'', ST_WanPppConnection),
      (''urn:schemas-upnp-org:service:WANPPPConnection:2'', ST_WanPppConnection2),
      (''ssdp:all'', SsdpAll)]"

definition parse_st :: "string \<Rightarrow> SearchTarget option" where
  "parse_st bytes = map_option snd (find (\<lambda>(lit, _). eq_ia lit (strip_quotes (btrim bytes))) ST_NAMES)"

fun st_name :: "SearchTarget \<Rightarrow> string" where
  "st_name RootDevice = ''upnp:rootdevice''"
| "st_name SsdpAll = ''upnp:rootdevice''"
| "st_name InternetGatewayDevice = ''urn:schemas-upnp-org:device:InternetGatewayDevice:1''"
| "st_name InternetGatewayDevice2 = ''urn:schemas-upnp-org:device:InternetGatewayDevice:2''"
| "st_name WanDevice = ''urn:schemas-upnp-org:device:WANDevice:1''"
| "st_name WanConnectionDevice = ''urn:schemas-upnp-org:device:WANConnectionDevice:1''"
| "st_name ST_WanIpConnection = ''urn:schemas-upnp-org:service:WANIPConnection:1''"
| "st_name ST_WanIpConnection2 = ''urn:schemas-upnp-org:service:WANIPConnection:2''"
| "st_name ST_WanPppConnection = ''urn:schemas-upnp-org:service:WANPPPConnection:1''"
| "st_name ST_WanPppConnection2 = ''urn:schemas-upnp-org:service:WANPPPConnection:2''"

datatype MSearchParse = Answer SearchTarget u8 | Ignore | Malformed

fun parse_u8_from :: "u16 \<Rightarrow> string \<Rightarrow> u16" where
  "parse_u8_from v [] = v"
| "parse_u8_from v (c # cs) =
     (if \<not> is_digit c then v
      else let v1 = v * 10 + of_nat (digit_val c) in if 255 < v1 then v1 else parse_u8_from v1 cs)"

definition parse_u8 :: "string \<Rightarrow> u8" where
  "parse_u8 s = ucast (min (parse_u8_from 0 s) 255)"

record msearch =
  ms_first :: bool
  ms_man_ok :: bool
  ms_mx :: u8
  ms_st :: "SearchTarget option"

text \<open>One line; \<open>None\<close> is the early return for a datagram that is no M-SEARCH.\<close>

definition msearch_line :: "string \<Rightarrow> msearch \<Rightarrow> msearch option" where
  "msearch_line line s =
     (let t = btrim (strip_cr line)
      in if t = [] then Some s
         else if ms_first s
         then (if starts_with_ia t ''M-SEARCH'' then Some (s\<lparr>ms_first := False\<rparr>) else None)
         else (case split_once CHR '':'' t of
                 None \<Rightarrow> Some s
               | Some (k, v) \<Rightarrow>
                   let key = btrim k; val = btrim v
                   in if eq_ia key ''MAN'' then Some (s\<lparr>ms_man_ok := contains_ia val ''ssdp:discover''\<rparr>)
                      else if eq_ia key ''MX'' then Some (s\<lparr>ms_mx := min (parse_u8 val) 5\<rparr>)
                      else if eq_ia key ''ST'' then Some (s\<lparr>ms_st := parse_st val\<rparr>)
                      else Some s))"

fun msearch_lines :: "string list \<Rightarrow> msearch \<Rightarrow> msearch option" where
  "msearch_lines [] s = Some s"
| "msearch_lines (l # ls) s =
     (case msearch_line l s of None \<Rightarrow> None | Some s1 \<Rightarrow> msearch_lines ls s1)"

definition parse_msearch :: "string \<Rightarrow> MSearchParse" where
  "parse_msearch buf =
     (case msearch_lines (split_on nl buf) \<lparr>ms_first = True, ms_man_ok = False, ms_mx = 0, ms_st = None\<rparr> of
        None \<Rightarrow> Malformed
      | Some s \<Rightarrow>
          if ms_first s then Malformed
          else if \<not> ms_man_ok s then Malformed
          else (case ms_st s of Some t \<Rightarrow> Answer t (ms_mx s) | None \<Rightarrow> Ignore))"

section \<open>Subscription ids\<close>

type_synonym Sid = "u8 list"

definition hex_val :: "char \<Rightarrow> u8 option" where
  "hex_val c =
     (let n = (of_char c :: nat)
      in if 48 \<le> n \<and> n \<le> 57 then Some (of_nat (n - 48))
         else if 97 \<le> n \<and> n \<le> 102 then Some (of_nat (n - 97 + 10))
         else if 65 \<le> n \<and> n \<le> 70 then Some (of_nat (n - 65 + 10))
         else None)"

definition nibble_char :: "u8 \<Rightarrow> char" where
  "nibble_char d = ''0123456789abcdef'' ! unat d"

definition hex_bytes :: "u8 list \<Rightarrow> string" where
  "hex_bytes bs = concat (map (\<lambda>b. [nibble_char (drop_bit 4 b), nibble_char (b AND 15)]) bs)"

text \<open>The dashes stand after 4, 6, 8 and 10 octets.\<close>

definition uuid_hex :: "u8 list \<Rightarrow> string" where
  "uuid_hex b = hex_bytes (take 4 b) @ ''-'' @ hex_bytes (take 2 (drop 4 b)) @ ''-''
     @ hex_bytes (take 2 (drop 6 b)) @ ''-'' @ hex_bytes (take 2 (drop 8 b)) @ ''-''
     @ hex_bytes (drop 10 b)"

definition sid_wire :: "Sid \<Rightarrow> string" where
  "sid_wire s = ''uuid:'' @ uuid_hex s"

fun pair_up :: "u8 list \<Rightarrow> u8 list" where
  "pair_up (a # b # bs) = (push_bit 4 a OR b) # pair_up bs"
| "pair_up bs = []"

definition nibbles_of :: "string \<Rightarrow> u8 list option" where
  "nibbles_of s = those (map hex_val s)"

definition sid_from_bytes :: "string \<Rightarrow> Sid option" where
  "sid_from_bytes b =
     (let core0 = strip_quotes (btrim b);
          core = (if starts_with core0 ''uuid:'' then drop 5 core0 else core0)
      in if length core = 36
         then let digits = filter (\<lambda>c. c \<noteq> CHR ''-'') core
              in if length digits = 32 then map_option pair_up (nibbles_of digits) else None
         else if length core = 32 then map_option pair_up (nibbles_of core)
         else None)"

definition sid_v4 :: "u8 list \<Rightarrow> Sid" where
  "sid_v4 b = b[6 := ((b ! 6) AND 0x0f) OR 0x40, 8 := ((b ! 8) AND 0x3f) OR 0x80]"

definition advance_seq :: "u32 \<Rightarrow> u32" where
  "advance_seq seq = seq + 1"

section \<open>Services and actions\<close>

datatype SoapService = WanIpConn | WanPppConn | WanCommonIfaceCfg | DeviceProt

definition service_urn_v :: "SoapService \<Rightarrow> bool \<Rightarrow> string" where
  "service_urn_v s v2 = (case s of
       WanIpConn \<Rightarrow> if v2 then ''urn:schemas-upnp-org:service:WANIPConnection:2''
         else ''urn:schemas-upnp-org:service:WANIPConnection:1''
     | WanPppConn \<Rightarrow> ''urn:schemas-upnp-org:service:WANPPPConnection:1''
     | WanCommonIfaceCfg \<Rightarrow> ''urn:schemas-upnp-org:service:WANCommonInterfaceConfig:1''
     | DeviceProt \<Rightarrow> ''urn:schemas-upnp-org:service:DeviceProtection:1'')"

definition service_of_path :: "string \<Rightarrow> SoapService option" where
  "service_of_path path =
     (if eq_ia path ''/ctl/IPConn'' then Some WanIpConn
      else if eq_ia path ''/ctl/PPPConn'' then Some WanPppConn
      else if eq_ia path ''/ctl/CmnIfCfg'' then Some WanCommonIfaceCfg
      else if eq_ia path ''/ctl/DP'' then Some DeviceProt
      else None)"

datatype SoapAction = GetExternalIpAddress | GetStatusInfo | GetConnectionTypeInfo
  | SetConnectionType | RequestConnection | ForceTermination | GetNatRsipStatus
  | AddPortMapping | DeletePortMapping | GetSpecificPortMappingEntry
  | GetGenericPortMappingEntry | GetCommonLinkProperties
  | AddAnyPortMapping | DeletePortMappingRange | GetListOfPortMappings
  | SendSetupMessage | GetSupportedProtocols | GetAssignedRoles | GetRolesForAction
  | GetUserLoginChallenge | UserLogin | UserLogout | GetAclData | AddIdentityList
  | RemoveIdentity | SetUserLoginPassword | AddRolesForIdentity | RemoveRolesForIdentity

fun soap_action_name :: "SoapAction \<Rightarrow> string" where
  "soap_action_name GetExternalIpAddress = ''GetExternalIPAddress''"
| "soap_action_name GetStatusInfo = ''GetStatusInfo''"
| "soap_action_name GetConnectionTypeInfo = ''GetConnectionTypeInfo''"
| "soap_action_name SetConnectionType = ''SetConnectionType''"
| "soap_action_name RequestConnection = ''RequestConnection''"
| "soap_action_name ForceTermination = ''ForceTermination''"
| "soap_action_name GetNatRsipStatus = ''GetNATRSIPStatus''"
| "soap_action_name AddPortMapping = ''AddPortMapping''"
| "soap_action_name DeletePortMapping = ''DeletePortMapping''"
| "soap_action_name GetSpecificPortMappingEntry = ''GetSpecificPortMappingEntry''"
| "soap_action_name GetGenericPortMappingEntry = ''GetGenericPortMappingEntry''"
| "soap_action_name GetCommonLinkProperties = ''GetCommonLinkProperties''"
| "soap_action_name AddAnyPortMapping = ''AddAnyPortMapping''"
| "soap_action_name DeletePortMappingRange = ''DeletePortMappingRange''"
| "soap_action_name GetListOfPortMappings = ''GetListOfPortMappings''"
| "soap_action_name SendSetupMessage = ''SendSetupMessage''"
| "soap_action_name GetSupportedProtocols = ''GetSupportedProtocols''"
| "soap_action_name GetAssignedRoles = ''GetAssignedRoles''"
| "soap_action_name GetRolesForAction = ''GetRolesForAction''"
| "soap_action_name GetUserLoginChallenge = ''GetUserLoginChallenge''"
| "soap_action_name UserLogin = ''UserLogin''"
| "soap_action_name UserLogout = ''UserLogout''"
| "soap_action_name GetAclData = ''GetACLData''"
| "soap_action_name AddIdentityList = ''AddIdentityList''"
| "soap_action_name RemoveIdentity = ''RemoveIdentity''"
| "soap_action_name SetUserLoginPassword = ''SetUserLoginPassword''"
| "soap_action_name AddRolesForIdentity = ''AddRolesForIdentity''"
| "soap_action_name RemoveRolesForIdentity = ''RemoveRolesForIdentity''"

definition soap_actions :: "SoapAction list" where
  "soap_actions = [GetExternalIpAddress, GetStatusInfo, GetConnectionTypeInfo, SetConnectionType,
     RequestConnection, ForceTermination, GetNatRsipStatus, AddPortMapping, DeletePortMapping,
     GetSpecificPortMappingEntry, GetGenericPortMappingEntry, GetCommonLinkProperties,
     AddAnyPortMapping, DeletePortMappingRange, GetListOfPortMappings, SendSetupMessage,
     GetSupportedProtocols, GetAssignedRoles, GetRolesForAction, GetUserLoginChallenge, UserLogin,
     UserLogout, GetAclData, AddIdentityList, RemoveIdentity, SetUserLoginPassword,
     AddRolesForIdentity, RemoveRolesForIdentity]"

text \<open>What stands before and after the last \<open>#\<close>.\<close>

definition at_hash :: "string \<Rightarrow> (string \<times> string) option" where
  "at_hash v = (if CHR ''#'' \<in> set v
     then Some (rev (tl (dropWhile (\<lambda>c. c \<noteq> CHR ''#'') (rev v))), rev (takeWhile (\<lambda>c. c \<noteq> CHR ''#'') (rev v)))
     else None)"

definition parse_soap_action :: "string \<Rightarrow> SoapAction option" where
  "parse_soap_action hdr =
     (let v = strip_quotes (btrim hdr);
          name = (case at_hash v of Some (_, n) \<Rightarrow> n | None \<Rightarrow> v)
      in find (\<lambda>a. eq_ia (soap_action_name a) name) soap_actions)"

definition soapaction_is_v2 :: "string \<Rightarrow> bool" where
  "soapaction_is_v2 hdr =
     (case at_hash (strip_quotes (btrim hdr)) of
        Some (urn, _) \<Rightarrow> eq_ia urn ''urn:schemas-upnp-org:service:WANIPConnection:2''
      | None \<Rightarrow> False)"

section \<open>The classification of a request\<close>

definition SOAP_NS :: string where "SOAP_NS = ''http://schemas.xmlsoap.org/soap/envelope/''"

fun ns_param :: "string list \<Rightarrow> string option" where
  "ns_param [] = None"
| "ns_param (p # ps) =
     (case split_once CHR ''='' (btrim p) of
        None \<Rightarrow> ns_param ps
      | Some (k, v) \<Rightarrow>
          if eq_ia (btrim k) ''ns''
          then (if btrim v \<noteq> [] \<and> length (btrim v) \<le> 4 then Some (btrim v) else None)
          else ns_param ps)"

definition mpost_ns :: "string \<Rightarrow> string option" where
  "mpost_ns head =
     (case find_header head ''MAN'' of
        None \<Rightarrow> None
      | Some raw \<Rightarrow>
          let v0 = btrim raw;
              v = (if v0 \<noteq> [] \<and> hd v0 = CHR 0x22 then tl v0 else v0)
          in if \<not> starts_with_ia v SOAP_NS then None
             else ns_param (split_on CHR '';'' (dropWhile (\<lambda>c. c \<noteq> CHR '';'') (drop (length SOAP_NS) v))))"

definition find_ns_soapaction :: "string \<Rightarrow> string \<Rightarrow> string option" where
  "find_ns_soapaction head ns =
     (if ns = [] \<or> 4 < length ns then None else find_header head (ns @ ''-SOAPACTION''))"

datatype ReqClass = Get_doc | Soap SoapService SoapAction bool | GenaSubscribe | GenaRenew
  | GenaUnsubscribe | SoapInvalidAction | NotFound

text \<open>The dispatch of POST and M-POST, from the header that carries the action.\<close>

definition soap_class :: "string \<Rightarrow> string option \<Rightarrow> ReqClass" where
  "soap_class path soapaction =
     (case soapaction of
        None \<Rightarrow> SoapInvalidAction
      | Some sa \<Rightarrow>
          (case parse_soap_action sa of
             None \<Rightarrow> SoapInvalidAction
           | Some action \<Rightarrow>
               (case service_of_path path of
                  Some service \<Rightarrow> Soap service action (soapaction_is_v2 sa)
                | None \<Rightarrow> SoapInvalidAction)))"

definition doc_path :: "string \<Rightarrow> bool" where
  "doc_path path \<longleftrightarrow> eq_ia path ''/'' \<or> eq_ia path ''/rootDesc.xml'' \<or> eq_ia path ''/WANIPC.xml''
     \<or> eq_ia path ''/WANPPP.xml'' \<or> eq_ia path ''/WANCfg.xml''
     \<or> starts_with_ia path ''/igd/v1/'' \<or> starts_with_ia path ''/igd/v2/''"

definition classify :: "string \<Rightarrow> ReqClass" where
  "classify head =
     (case split_once CHR '' '' (strip_cr (hd (split_on nl head))) of
        None \<Rightarrow> NotFound
      | Some (m, r) \<Rightarrow>
          let meth = btrim m;
              rest = btrim r;
              path = takeWhile (\<lambda>c. c \<noteq> CHR '' '') rest;
              subscribes = (header_contains head ''NT'' ''upnp:event'' \<and> find_header head ''CALLBACK'' \<noteq> None);
              has_sid = (find_header head ''SID'' \<noteq> None)
          in if eq_ia meth ''GET'' then (if doc_path path then Get_doc else NotFound)
             else if eq_ia meth ''SUBSCRIBE''
             then (if subscribes then GenaSubscribe else if has_sid then GenaRenew else NotFound)
             else if eq_ia meth ''UNSUBSCRIBE'' then (if has_sid then GenaUnsubscribe else NotFound)
             else if \<not> eq_ia meth ''POST'' \<and> \<not> eq_ia meth ''M-POST'' then NotFound
             else if subscribes then GenaSubscribe
             else if has_sid then GenaRenew
             else if eq_ia meth ''POST'' then soap_class path (find_header head ''SOAPACTION'')
             else (case mpost_ns head of
                     None \<Rightarrow> SoapInvalidAction
                   | Some ns \<Rightarrow> soap_class path (find_ns_soapaction head ns)))"

section \<open>Faults\<close>

datatype UpnpErr = InvalidAction | InvalidArgs | NoSuchEntry | ActionFailed | PortMappingNotFound
  | InconsistentParameters | ReadOnly | ConnectionSetupFailed | UE_InvalidValue | UE_NotAuthorized
  | UE_AuthFailure | UE_Processing

record UpnpFault =
  uf_code :: u16
  uf_desc :: string

fun fault_of :: "UpnpErr \<Rightarrow> UpnpFault" where
  "fault_of InvalidAction = \<lparr>uf_code = 401, uf_desc = ''Invalid Action''\<rparr>"
| "fault_of InvalidArgs = \<lparr>uf_code = 402, uf_desc = ''Invalid Args''\<rparr>"
| "fault_of NoSuchEntry = \<lparr>uf_code = 714, uf_desc = ''NoSuchEntryInArray''\<rparr>"
| "fault_of ActionFailed = \<lparr>uf_code = 501, uf_desc = ''Action Failed''\<rparr>"
| "fault_of PortMappingNotFound = \<lparr>uf_code = 730, uf_desc = ''PortMappingNotFound''\<rparr>"
| "fault_of InconsistentParameters = \<lparr>uf_code = 733, uf_desc = ''InconsistentParameters''\<rparr>"
| "fault_of ReadOnly = \<lparr>uf_code = 731, uf_desc = ''ReadOnly''\<rparr>"
| "fault_of ConnectionSetupFailed = \<lparr>uf_code = 704, uf_desc = ''ConnectionSetupFailed''\<rparr>"
| "fault_of UE_InvalidValue = \<lparr>uf_code = 600, uf_desc = ''Argument Value Invalid''\<rparr>"
| "fault_of UE_NotAuthorized = \<lparr>uf_code = 606, uf_desc = ''Action not authorized''\<rparr>"
| "fault_of UE_AuthFailure = \<lparr>uf_code = 701, uf_desc = ''Authentication Failure''\<rparr>"
| "fault_of UE_Processing = \<lparr>uf_code = 704, uf_desc = ''Processing Error''\<rparr>"

section \<open>Arguments\<close>

definition find_sub :: "string \<Rightarrow> string \<Rightarrow> nat option" where
  "find_sub hay needle =
     (if needle = [] \<or> length hay < length needle then None
      else position (\<lambda>i. take (length needle) (drop i hay) = needle) [0..<Suc (length hay - length needle)])"

definition rfind_sub :: "string \<Rightarrow> string \<Rightarrow> nat option" where
  "rfind_sub hay needle =
     (if needle = [] \<or> length hay < length needle then None
      else find (\<lambda>i. take (length needle) (drop i hay) = needle) (rev [0..<Suc (length hay - length needle)]))"

definition ends_with :: "string \<Rightarrow> string \<Rightarrow> bool" where
  "ends_with s p \<longleftrightarrow> length p \<le> length s \<and> drop (length s - length p) s = p"

text \<open>One round of the unwrapping loop; \<open>None\<close> leaves the loop.\<close>

definition unwrap_round :: "string \<Rightarrow> string option" where
  "unwrap_round v =
     (if starts_with v ''<![CDATA['' then
        (case find_sub v '']]>'' of
           None \<Rightarrow> None
         | Some e \<Rightarrow> if e + 3 \<noteq> length v then None else Some (take (e - 9) (drop 9 v)))
      else if ends_with v ''-->'' then
        (case rfind_sub v ''<!--'' of None \<Rightarrow> None | Some e \<Rightarrow> Some (take e v))
      else if starts_with v ''<!--'' then
        (case find_sub v ''-->'' of None \<Rightarrow> None | Some e \<Rightarrow> Some (drop (e + 3) v))
      else None)"

lemma length_btrim: "length (btrim s) \<le> length s"
  unfolding btrim_def by (metis length_dropWhile_le length_rev le_trans)

lemma position_upt: "position P [0..<n] = Some i \<Longrightarrow> i < n \<and> P i"
  using position_SomeD [of P "[0..<n]" i] by auto

lemma find_sub_SomeD: "find_sub hay needle = Some i \<Longrightarrow> i + length needle \<le> length hay \<and> needle \<noteq> []"
  by (auto simp: find_sub_def simp del: upt_Suc split: if_splits dest!: position_upt)

lemma rfind_sub_SomeD: "rfind_sub hay needle = Some i \<Longrightarrow> i + length needle \<le> length hay \<and> needle \<noteq> []"
  by (auto simp: rfind_sub_def simp del: upt_Suc split: if_splits dest!: find_SomeD)

lemma unwrap_round_shrinks: "unwrap_round v = Some w \<Longrightarrow> length w < length v"
  by (auto simp: unwrap_round_def split: if_splits option.splits dest!: find_sub_SomeD rfind_sub_SomeD)

function unwrap_value :: "string \<Rightarrow> string" where
  "unwrap_value v = (case unwrap_round (btrim v) of None \<Rightarrow> btrim v | Some w \<Rightarrow> unwrap_value w)"
  by pat_completeness auto
termination
  by (relation "measure length") (auto dest: unwrap_round_shrinks intro: less_le_trans length_btrim)

declare unwrap_value.simps [simp del]

text \<open>The scan for the closing tag, at index \<open>i\<close> of \<open>rest\<close>.\<close>

definition closes_at :: "string \<Rightarrow> string \<Rightarrow> nat \<Rightarrow> bool" where
  "closes_at rest tag i \<longleftrightarrow> rest ! i = CHR ''<'' \<and> rest ! (i + 1) = CHR ''/''
     \<and> eq_ia (take (length tag) (drop (i + 2) rest)) tag \<and> rest ! (i + 2 + length tag) = CHR ''>''"

definition skip_to :: "string \<Rightarrow> nat \<Rightarrow> nat \<Rightarrow> string \<Rightarrow> nat" where
  "skip_to rest i k stop = (case find_sub (drop (i + k) rest) stop of
     Some e \<Rightarrow> i + k + e + length stop | None \<Rightarrow> length rest)"

function find_close_from :: "string \<Rightarrow> string \<Rightarrow> nat \<Rightarrow> string option" where
  "find_close_from rest tag i =
     (if length rest < i + (3 + length tag) then None
      else if starts_with (drop i rest) ''<!--'' then find_close_from rest tag (max (i + 1) (skip_to rest i 4 ''-->''))
      else if starts_with (drop i rest) ''<![CDATA['' then find_close_from rest tag (max (i + 1) (skip_to rest i 9 '']]>''))
      else if closes_at rest tag i then Some (unwrap_value (take i rest))
      else find_close_from rest tag (i + 1))"
  by pat_completeness auto
termination by (relation "measure (\<lambda>(rest, tag, i). length rest - i)") auto

declare find_close_from.simps [simp del]

definition find_close :: "string \<Rightarrow> string \<Rightarrow> string option" where
  "find_close rest tag = find_close_from rest tag 0"

function xml_tag :: "string \<Rightarrow> string \<Rightarrow> string option" where
  "xml_tag body tag =
     (case dropWhile (\<lambda>c. c \<noteq> CHR ''<'') body of
        [] \<Rightarrow> None
      | _ # r \<Rightarrow>
          let name = takeWhile (\<lambda>c. c \<noteq> CHR ''>'' \<and> c \<noteq> CHR ''<'') r
          in (case drop (length name) r of
                [] \<Rightarrow> None
              | c # after \<Rightarrow>
                  if c \<noteq> CHR ''>'' then None
                  else if eq_ia name tag then find_close after tag
                  else xml_tag after tag))"
  by pat_completeness auto
termination
proof (relation "measure (\<lambda>(body, tag). length body)", goal_cases)
  case (2 body tag l r name c after)
  have "length (l # r) \<le> length body" using 2(1) by (metis length_dropWhile_le)
  moreover have "length (c # after) \<le> length r" using 2(3) by (metis length_drop diff_le_self)
  ultimately show ?case by simp
qed simp

declare xml_tag.simps [simp del]

end
