(* ===== verification/Upnp_Props.thy ===== *)
theory Upnp_Props
  imports Upnp Crypto
begin

text \<open>
  Subscription ids are read back from the wire, and an argument is extracted as it was written.
\<close>

section \<open>Subscription ids\<close>

lemma lower_refl [simp]: "eq_ia s s"
  by (simp add: eq_ia_def list_all2_refl)

lemma hex_val_nibble: "d < 16 \<Longrightarrow> hex_val (nibble_char d) = Some d \<and> nibble_char d \<noteq> CHR ''-''"
proof -
  have "list_all (\<lambda>n. hex_val (nibble_char (of_nat n)) = Some (of_nat n) \<and> nibble_char (of_nat n) \<noteq> CHR ''-'') [0..<16]"
    by code_simp
  moreover assume "d < 16"
  then have "unat d \<in> set [0..<16]" by (simp add: word_less_nat_alt)
  ultimately show ?thesis unfolding list_all_iff by fastforce
qed

lemma nibble_plain: "d < 16 \<Longrightarrow> \<not> is_bws (nibble_char d)"
proof -
  have "list_all (\<lambda>n. \<not> is_bws (nibble_char (of_nat n))) [0..<16]" by code_simp
  moreover assume "d < 16"
  then have "unat d \<in> set [0..<16]" by (simp add: word_less_nat_alt)
  ultimately show ?thesis unfolding list_all_iff by fastforce
qed

lemma hex_bytes_append: "hex_bytes (a @ b) = hex_bytes a @ hex_bytes b"
  by (simp add: hex_bytes_def)

lemma length_hex_bytes: "length (hex_bytes b) = 2 * length b"
  by (induction b) (simp_all add: hex_bytes_def)

lemma hex_bytes_chars: "c \<in> set (hex_bytes b) \<Longrightarrow> c \<noteq> CHR ''-'' \<and> \<not> is_bws c"
proof -
  assume "c \<in> set (hex_bytes b)"
  then obtain x where "c = nibble_char (drop_bit 4 x) \<or> c = nibble_char (x AND 15)"
    by (auto simp: hex_bytes_def)
  then show ?thesis using hex_val_nibble [OF nibbles(1), of x] hex_val_nibble [OF nibbles(2), of x]
      nibble_plain [OF nibbles(1), of x] nibble_plain [OF nibbles(2), of x] by auto
qed

lemma hex_bytes_back: "map_option pair_up (nibbles_of (hex_bytes b)) = Some b"
proof (induction b)
  case (Cons x b)
  then obtain ns where "nibbles_of (hex_bytes b) = Some ns" "pair_up ns = b" by auto
  then show ?case
    using hex_val_nibble [OF nibbles(1), of x] hex_val_nibble [OF nibbles(2), of x] nibbles(3) [of x]
    by (simp add: nibbles_of_def hex_bytes_def)
qed (simp add: nibbles_of_def hex_bytes_def)

lemma btrim_plain: "\<forall>c \<in> set s. \<not> is_bws c \<Longrightarrow> btrim s = s"
proof -
  assume p: "\<forall>c \<in> set s. \<not> is_bws c"
  have keep: "dropWhile is_bws t = t" if "set t = set s" for t
    using p that by (auto simp: dropWhile_eq_self_iff dest: hd_in_set)
  show ?thesis by (simp add: btrim_def keep)
qed

lemma dashed:
  assumes "length s = 16"
  shows "filter (\<lambda>c. c \<noteq> CHR ''-'') (uuid_hex s) = hex_bytes s" and "length (uuid_hex s) = 36"
    and "c \<in> set (uuid_hex s) \<Longrightarrow> \<not> is_bws c"
proof -
  have keep: "filter (\<lambda>c. c \<noteq> CHR ''-'') (hex_bytes b) = hex_bytes b" for b
    using hex_bytes_chars by (auto simp: filter_id_conv)
  have cut: "drop n s = take 2 (drop n s) @ drop (n + 2) s" for n
    using append_take_drop_id [of 2 "drop n s", symmetric] by (simp add: add.commute)
  have "s = take 4 s @ take 2 (drop 4 s) @ take 2 (drop 6 s) @ take 2 (drop 8 s) @ drop 10 s"
    using append_take_drop_id [of 4 s] cut [of 4] cut [of 6] cut [of 8] by simp
  then have "hex_bytes s = hex_bytes (take 4 s) @ hex_bytes (take 2 (drop 4 s)) @ hex_bytes (take 2 (drop 6 s))
      @ hex_bytes (take 2 (drop 8 s)) @ hex_bytes (drop 10 s)"
    by (metis hex_bytes_append)
  then show "filter (\<lambda>c. c \<noteq> CHR ''-'') (uuid_hex s) = hex_bytes s"
    by (simp add: uuid_hex_def keep)
  show "length (uuid_hex s) = 36" using assms by (simp add: uuid_hex_def length_hex_bytes)
  show "c \<in> set (uuid_hex s) \<Longrightarrow> \<not> is_bws c"
    using hex_bytes_chars [of c] by (auto simp: uuid_hex_def is_bws_def tab_def cr_def nl_def)
qed

text \<open>A subscription id is understood when it comes back. For every id of sixteen
  octets the reader of the SID header returns it from its wire form, also in double quotes.\<close>

theorem sid_back:
  assumes "length s = 16"
  shows "sid_from_bytes (sid_wire s) = Some s
    \<and> sid_from_bytes ([CHR 0x22] @ sid_wire s @ [CHR 0x22]) = Some s"
proof -
  have plain: "\<forall>c \<in> set (sid_wire s). \<not> is_bws c"
    using dashed(3) [OF assms] by (auto simp: sid_wire_def is_bws_def tab_def cr_def nl_def)
  have core: "(let core = (if starts_with (sid_wire s) ''uuid:'' then drop 5 (sid_wire s) else sid_wire s)
      in if length core = 36
         then let digits = filter (\<lambda>c. c \<noteq> CHR ''-'') core
              in if length digits = 32 then map_option pair_up (nibbles_of digits) else None
         else if length core = 32 then map_option pair_up (nibbles_of core) else None) = Some s"
    using dashed(1,2) [OF assms] hex_bytes_back [of s] assms
    by (simp add: sid_wire_def starts_with_def length_hex_bytes)
  have "strip_quotes (sid_wire s) = sid_wire s"
    by (simp add: strip_quotes_def sid_wire_def)
  with core plain have "sid_from_bytes (sid_wire s) = Some s"
    by (simp add: sid_from_bytes_def btrim_plain Let_def)
  moreover have "btrim ([CHR 0x22] @ sid_wire s @ [CHR 0x22]) = [CHR 0x22] @ sid_wire s @ [CHR 0x22]"
    using plain by (intro btrim_plain) (auto simp: is_bws_def tab_def cr_def nl_def)
  moreover have "strip_quotes ([CHR 0x22] @ sid_wire s @ [CHR 0x22]) = sid_wire s"
    by (simp add: strip_quotes_def butlast_append)
  ultimately show ?thesis
    using core by (simp add: sid_from_bytes_def Let_def)
qed

theorem sid_back_witness:
  "sid_from_bytes (sid_wire [0,1,2,3,4,5,6,7,8,9,10,11,12,13,14,255]) = Some [0,1,2,3,4,5,6,7,8,9,10,11,12,13,14,255]
   \<and> sid_from_bytes ([CHR 0x22] @ sid_wire [0,1,2,3,4,5,6,7,8,9,10,11,12,13,14,255] @ [CHR 0x22])
     = Some [0,1,2,3,4,5,6,7,8,9,10,11,12,13,14,255]"
  by (rule sid_back) simp

section \<open>Arguments\<close>

lemma unwrap_plain:
  assumes "CHR ''<'' \<notin> set v"
  shows "unwrap_value v = btrim v"
proof -
  have sub: "set (btrim v) \<subseteq> set v"
    unfolding btrim_def by (metis set_dropWhileD set_rev subsetI)
  then have no: "CHR ''<'' \<notin> set (btrim v)" using assms by blast
  have "\<not> starts_with (btrim v) (CHR ''<'' # m)" for m
    using no by (cases "btrim v") (auto simp: starts_with_def)
  moreover have "rfind_sub (btrim v) ''<!--'' = None"
  proof (rule ccontr)
    assume "rfind_sub (btrim v) ''<!--'' \<noteq> None"
    then obtain i where "rfind_sub (btrim v) ''<!--'' = Some i" by blast
    then have "take (length ''<!--'') (drop i (btrim v)) = ''<!--''"
      by (auto simp: rfind_sub_def simp del: upt_Suc split: if_splits dest!: find_SomeD)
    then have "CHR ''<'' \<in> set (take (length ''<!--'') (drop i (btrim v)))" by simp
    then show False using no by (meson in_set_dropD in_set_takeD)
  qed
  ultimately have "unwrap_round (btrim v) = None" by (simp add: unwrap_round_def)
  then show ?thesis by (subst unwrap_value.simps) simp
qed

lemma find_close_plain:
  assumes "CHR ''<'' \<notin> set v" and "i \<le> length v"
  shows "find_close_from (v @ ''</'' @ tag @ ''>'' @ post) tag i = Some (unwrap_value v)"
  using assms(2)
proof (induction "length v - i" arbitrary: i)
  case 0
  then have i: "i = length v" by simp
  let ?r = "v @ ''</'' @ tag @ ''>'' @ post"
  have d: "drop i ?r = ''</'' @ tag @ ''>'' @ post" by (simp add: i)
  have "closes_at ?r tag i"
    by (simp add: closes_at_def i nth_append)
  moreover have "\<not> starts_with (drop i ?r) ''<!--''" "\<not> starts_with (drop i ?r) ''<![CDATA[''"
    unfolding d by (simp_all add: starts_with_def)
  ultimately show ?case
    by (subst find_close_from.simps) (simp add: i)
next
  case (Suc n)
  then have i: "i < length v" by simp
  let ?r = "v @ ''</'' @ tag @ ''>'' @ post"
  obtain c w where d: "drop i v = c # w" using i by (metis Cons_nth_drop_Suc)
  then have c: "c \<noteq> CHR ''<''" using assms(1) by (metis in_set_dropD list.set_intros(1))
  have "?r ! i = c" using i d by (simp add: nth_append nth_via_drop)
  then have "\<not> closes_at ?r tag i" using c by (simp add: closes_at_def)
  moreover have "\<not> starts_with (drop i ?r) ''<!--''" "\<not> starts_with (drop i ?r) ''<![CDATA[''"
    using d i c by (simp_all add: starts_with_def)
  ultimately show ?case
    using Suc i by (subst find_close_from.simps) simp
qed

text \<open>C22 (functional): an argument is read as the control point wrote it. When an element with the
  requested tag is the first element of the body and its text has no markup, the extraction
  returns that text without the blanks around it, whatever follows the element.\<close>

theorem argument_as_written:
  assumes "CHR ''<'' \<notin> set pre" and "CHR ''<'' \<notin> set v"
    and "CHR ''<'' \<notin> set tag" and "CHR ''>'' \<notin> set tag"
  shows "xml_tag (pre @ ''<'' @ tag @ ''>'' @ v @ ''</'' @ tag @ ''>'' @ post) tag = Some (btrim v)"
proof -
  have "dropWhile (\<lambda>c. c \<noteq> CHR ''<'') (pre @ ''<'' @ tag @ ''>'' @ v @ ''</'' @ tag @ ''>'' @ post)
      = ''<'' @ tag @ ''>'' @ v @ ''</'' @ tag @ ''>'' @ post"
    using assms(1) by (subst dropWhile_append2) auto
  moreover have "takeWhile (\<lambda>c. c \<noteq> CHR ''>'' \<and> c \<noteq> CHR ''<'') (tag @ ''>'' @ v @ ''</'' @ tag @ ''>'' @ post) = tag"
    using assms(3,4) by (subst takeWhile_append2) auto
  ultimately show ?thesis
    using find_close_plain [OF assms(2), of 0 tag post] unwrap_plain [OF assms(2)]
    by (subst xml_tag.simps) (simp add: find_close_def)
qed

theorem argument_as_written_witness:
  "xml_tag ('' '' @ ''<'' @ ''NewExternalPort'' @ ''>'' @ '' 5000 '' @ ''</'' @ ''NewExternalPort'' @ ''>'' @ ''<NewProtocol>'')
     ''NewExternalPort'' = Some (btrim '' 5000 '')
   \<and> btrim '' 5000 '' = ''5000''"
proof
  show "xml_tag ('' '' @ ''<'' @ ''NewExternalPort'' @ ''>'' @ '' 5000 '' @ ''</'' @ ''NewExternalPort'' @ ''>'' @ ''<NewProtocol>'')
     ''NewExternalPort'' = Some (btrim '' 5000 '')"
    by (rule argument_as_written) simp_all
qed code_simp

section \<open>The scans end\<close>

text \<open>
  The two loops as they are written: a jump behind a comment or a CDATA span has no guard that it
  moves forward, and a round of the other loop starts over on what it cut out. A loop that does not
  end has no value.
\<close>

partial_function (option) find_close_loop :: "string \<Rightarrow> string \<Rightarrow> nat \<Rightarrow> string option option" where
  "find_close_loop rest tag i =
     (if length rest < i + (3 + length tag) then Some None
      else if starts_with (drop i rest) ''<!--'' then find_close_loop rest tag (skip_to rest i 4 ''-->'')
      else if starts_with (drop i rest) ''<![CDATA['' then find_close_loop rest tag (skip_to rest i 9 '']]>'')
      else if closes_at rest tag i then Some (Some (unwrap_value (take i rest)))
      else find_close_loop rest tag (i + 1))"

partial_function (option) unwrap_loop :: "string \<Rightarrow> string option" where
  "unwrap_loop v = (case unwrap_round (btrim v) of None \<Rightarrow> Some (btrim v) | Some w \<Rightarrow> unwrap_loop w)"

lemma skip_to_forward: "i + (3 + n) \<le> length rest \<Longrightarrow> 0 < k \<Longrightarrow> i < skip_to rest i k stop"
  by (simp add: skip_to_def split: option.split)

lemma find_close_loop_from: "find_close_loop rest tag i = Some (find_close_from rest tag i)"
proof (induction rest tag i rule: find_close_from.induct)
  case (1 rest tag i)
  have "max (i + 1) (skip_to rest i k stop) = skip_to rest i k stop"
    if "\<not> length rest < i + (3 + length tag)" "0 < k" for k stop
    using skip_to_forward [of i "length tag" rest k stop] that by simp
  with 1 show ?case
    by (subst find_close_loop.simps, subst find_close_from.simps) simp
qed

text \<open>C36 (termination): the argument extractor returns on every input. The scan for a closing tag, with
  its jumps over comments and CDATA spans, and the loop that takes the wrappers off a value both
  end, whatever octets a control point sends, and their results are those of the definitions the
  other properties speak of.\<close>

theorem scans_end:
  "find_close_loop rest tag 0 = Some (find_close rest tag) \<and> unwrap_loop v = Some (unwrap_value v)"
proof
  show "find_close_loop rest tag 0 = Some (find_close rest tag)"
    by (simp add: find_close_loop_from find_close_def)
  show "unwrap_loop v = Some (unwrap_value v)"
  proof (induction v rule: unwrap_value.induct)
    case (1 v)
    then show ?case
      by (subst unwrap_loop.simps, subst unwrap_value.simps) (simp split: option.split)
  qed
qed

end
