(* ===== verification/Gena.thy ===== *)
theory Gena
  imports Upnp
begin

text \<open>
  The event subscriptions of the UPnP facade: the bounded set of subscription ids
  (\<open>SidSet\<close> in \<open>src/src/upnp.rs\<close>), the subscriptions, the evented view and the notification of
  what moved (\<open>src/src/upnpsvc.rs\<close>). The notifications sent are recorded in order.
\<close>

section \<open>The bounded set of subscription ids\<close>

definition MAX_GENA_SUBS :: nat where "MAX_GENA_SUBS = 8"

record SidSet =
  si_sids :: "Sid option list"
  si_n :: nat

definition SidSet_new :: SidSet where
  "SidSet_new = \<lparr>si_sids = replicate MAX_GENA_SUBS None, si_n = 0\<rparr>"

definition sid_full :: "SidSet \<Rightarrow> bool" where
  "sid_full s \<longleftrightarrow> MAX_GENA_SUBS \<le> si_n s"

definition sid_has :: "Sid \<Rightarrow> SidSet \<Rightarrow> bool" where
  "sid_has x s \<longleftrightarrow> Some x \<in> set (take (si_n s) (si_sids s))"

definition sid_add :: "Sid \<Rightarrow> SidSet \<Rightarrow> bool \<times> SidSet" where
  "sid_add x s =
     (if sid_has x s \<or> sid_full s then (False, s)
      else (True, s\<lparr>si_sids := (si_sids s)[si_n s := Some x], si_n := Suc (si_n s)\<rparr>))"

definition sid_remove :: "Sid \<Rightarrow> SidSet \<Rightarrow> bool \<times> SidSet" where
  "sid_remove x s =
     (case position (\<lambda>y. y = Some x) (take (si_n s) (si_sids s)) of
        None \<Rightarrow> (False, s)
      | Some i \<Rightarrow>
          let l = si_n s - 1; swapped = (si_sids s)[i := si_sids s ! l, l := si_sids s ! i]
          in (True, s\<lparr>si_sids := swapped[l := None], si_n := l\<rparr>))"

section \<open>Subscriptions\<close>

datatype Status = Connected | Disconnected

definition status_str :: "Status \<Rightarrow> string" where
  "status_str s = (case s of Connected \<Rightarrow> ''Connected'' | Disconnected \<Rightarrow> ''Disconnected'')"

record EventView =
  ev_ext_ip :: ipv4
  ev_status :: Status
  ev_entries :: u16
  ev_update_id :: u32

definition EventView_new :: "ipv4 \<Rightarrow> u16 \<Rightarrow> u32 \<Rightarrow> EventView" where
  "EventView_new ext_ip entries update_id =
     \<lparr>ev_ext_ip = ext_ip, ev_status = (if ext_ip = 0 then Disconnected else Connected),
      ev_entries = entries, ev_update_id = update_id\<rparr>"

definition event_property :: "string \<Rightarrow> string \<Rightarrow> string" where
  "event_property name val =
     ''<e:property><'' @ name @ ''>'' @ val @ ''</'' @ name @ ''></e:property>''"

definition moved :: "EventView option \<Rightarrow> (EventView \<Rightarrow> 'a) \<Rightarrow> EventView \<Rightarrow> bool" where
  "moved prev f now \<longleftrightarrow> (case prev of None \<Rightarrow> True | Some p \<Rightarrow> f p \<noteq> f now)"

definition propertyset :: "EventView option \<Rightarrow> EventView \<Rightarrow> string" where
  "propertyset prev now =
     (let props =
        (if moved prev ev_status now
         then event_property ''ConnectionStatus'' (status_str (ev_status now)) else [])
        @ (if moved prev ev_ext_ip now
           then event_property ''ExternalIPAddress'' (show_ipv4 (ev_ext_ip now)) else [])
        @ (if moved prev ev_entries now
           then event_property ''PortMappingNumberOfEntries'' (show_word (ev_entries now)) else [])
        @ (if moved prev ev_update_id now
           then event_property ''SystemUpdateID'' (show_word (ev_update_id now)) else [])
      in if props = [] then []
         else ''<?xml version='' @ [CHR 0x22] @ ''1.0'' @ [CHR 0x22] @ ''?>'' @ [nl]
            @ ''<e:propertyset xmlns:e='' @ [CHR 0x22] @ ''urn:schemas-upnp-org:event-1-0'' @ [CHR 0x22] @ ''>''
            @ props @ ''</e:propertyset>'' @ [nl])"

record Sub =
  sb_sid :: Sid
  sb_cb_ip :: ipv4
  sb_cb_port :: u16
  sb_cb_path :: string
  sb_timeout :: u32
  sb_expires :: u64
  sb_seq :: u32
  sb_caller :: ipv4
  sb_is_v2 :: bool
  sb_sent :: "EventView option"

text \<open>A notification: the subscription, its event key and the body.\<close>

record Notify =
  en_sid :: Sid
  en_seq :: u32
  en_body :: string

record GenaState =
  g_subs :: "Sub list"
  g_sids :: SidSet
  g_update_id :: u32
  g_sent :: "Notify list"

definition GenaState_new :: GenaState where
  "GenaState_new = \<lparr>g_subs = [], g_sids = SidSet_new, g_update_id = 0, g_sent = []\<rparr>"

definition GENA_CB_MAX :: nat where "GENA_CB_MAX = 256"
definition GENA_TIMEOUT_CAP :: u32 where "GENA_TIMEOUT_CAP = 1800"

definition clamp_timeout :: "u32 \<Rightarrow> u32" where
  "clamp_timeout t = (if t < 1 then 1 else if GENA_TIMEOUT_CAP < t then GENA_TIMEOUT_CAP else t)"

definition in_lan :: "ipv4 \<Rightarrow> ipv4 \<Rightarrow> bool" where
  "in_lan ip lan \<longleftrightarrow> ip AND 0xffffff00 = lan AND 0xffffff00"

definition parse_callback :: "string \<Rightarrow> (ipv4 \<times> u16 \<times> string) option" where
  "parse_callback cb =
     (let v0 = btrim cb;
          v = (if 2 \<le> length v0 \<and> hd v0 = CHR ''<'' \<and> last v0 = CHR ''>'' then butlast (tl v0) else v0)
      in if CHR ''<'' \<in> set v \<or> CHR ''>'' \<in> set v then None
         else if \<not> starts_with_ia v ''http://'' then None
         else
           let rest = drop 7 v;
               hostport = takeWhile (\<lambda>c. c \<noteq> CHR ''/'') rest;
               path = dropWhile (\<lambda>c. c \<noteq> CHR ''/'') rest
           in (case split_once CHR '':'' hostport of
                 Some (h, p) \<Rightarrow>
                   (case (parse_ipv4 h, parse_word p) of
                      (Some ip, Some port) \<Rightarrow> Some (ip, port, path) | _ \<Rightarrow> None)
               | None \<Rightarrow> (case parse_ipv4 hostport of Some ip \<Rightarrow> Some (ip, 80, path) | None \<Rightarrow> None)))"

definition parse_timeout :: "string option \<Rightarrow> u32 option" where
  "parse_timeout v =
     (case v of None \<Rightarrow> None
      | Some s \<Rightarrow>
          if eq_ia s ''infinite'' then Some GENA_TIMEOUT_CAP
          else if starts_with_ia s ''Second-'' \<and> 7 < length s then parse_word (trim (drop 7 s))
          else None)"

definition sub_expiry :: "u64 \<Rightarrow> u32 \<Rightarrow> u64" where
  "sub_expiry now timeout = sat_add now (ucast timeout * 2)"

definition sub_reply :: "Sid \<Rightarrow> u32 \<Rightarrow> string" where
  "sub_reply sid timeout = ''SID: '' @ sid_wire sid @ [cr, nl] @ ''TIMEOUT: Second-'' @ show_word timeout @ [cr, nl]"

text \<open>The registration of a subscription, before its initial notification.\<close>

definition gena_register ::
  "ipv4 \<Rightarrow> string \<Rightarrow> u32 \<Rightarrow> ipv4 \<Rightarrow> bool \<Rightarrow> Sid \<Rightarrow> u64 \<Rightarrow> GenaState \<Rightarrow> (UpnpErr + u32) \<times> GenaState" where
  "gena_register lan callback timeout_secs caller is_v2 sid now g =
     (case parse_callback callback of
        None \<Rightarrow> (Inl InvalidArgs, g)
      | Some (ip, port, path) \<Rightarrow>
          if \<not> in_lan ip lan then (Inl InvalidArgs, g)
          else if GENA_CB_MAX < length path \<or> \<not> in_lan caller lan then (Inl InvalidArgs, g)
          else
            let timeout = clamp_timeout timeout_secs; (fresh, sids) = sid_add sid (g_sids g)
            in if \<not> fresh then (Inl ActionFailed, g\<lparr>g_sids := sids\<rparr>)
               else (Inr timeout, g\<lparr>g_sids := sids, g_subs := g_subs g @
                 [\<lparr>sb_sid = sid, sb_cb_ip = ip, sb_cb_port = port, sb_cb_path = path,
                   sb_timeout = timeout, sb_expires = sub_expiry now timeout, sb_seq = 0,
                   sb_caller = caller, sb_is_v2 = is_v2, sb_sent = None\<rparr>]\<rparr>))"

definition update_first :: "('a \<Rightarrow> bool) \<Rightarrow> ('a \<Rightarrow> 'a) \<Rightarrow> 'a list \<Rightarrow> 'a list" where
  "update_first P f xs = (case position P xs of Some i \<Rightarrow> xs[i := f (xs ! i)] | None \<Rightarrow> xs)"

definition gena_renew :: "Sid \<Rightarrow> u32 \<Rightarrow> u64 \<Rightarrow> GenaState \<Rightarrow> (UpnpErr + string) \<times> GenaState" where
  "gena_renew sid timeout_secs now g =
     (let timeout = clamp_timeout timeout_secs
      in (case position (\<lambda>s. sb_sid s = sid) (g_subs g) of
            Some i \<Rightarrow> (Inr (sub_reply sid timeout), g\<lparr>g_subs := (g_subs g)[i :=
               (g_subs g ! i)\<lparr>sb_timeout := timeout, sb_expires := sub_expiry now timeout\<rparr>]\<rparr>)
          | None \<Rightarrow> (Inl NoSuchEntry, g)))"

text \<open>The id set is asked only when a subscription went.\<close>

definition gena_unsubscribe :: "Sid \<Rightarrow> GenaState \<Rightarrow> (UpnpErr + string) \<times> GenaState" where
  "gena_unsubscribe sid g =
     (let subs = filter (\<lambda>s. sb_sid s \<noteq> sid) (g_subs g); g1 = g\<lparr>g_subs := subs\<rparr>
      in if length subs = length (g_subs g) then (Inl NoSuchEntry, g1)
         else let (gone, sids) = sid_remove sid (g_sids g1); g2 = g1\<lparr>g_sids := sids\<rparr>
              in if \<not> gone then (Inl NoSuchEntry, g2) else (Inr [], g2))"

definition notify_view :: "Sid \<Rightarrow> EventView \<Rightarrow> bool \<Rightarrow> GenaState \<Rightarrow> GenaState" where
  "notify_view sid view force g =
     (case find (\<lambda>s. sb_sid s = sid) (g_subs g) of
        None \<Rightarrow> g
      | Some s \<Rightarrow>
          let body = (if force then propertyset None view else propertyset (sb_sent s) view)
          in if body = [] then g
             else g\<lparr>g_sent := g_sent g @ [\<lparr>en_sid = sid, en_seq = sb_seq s, en_body = body\<rparr>],
                    g_subs := update_first (\<lambda>x. sb_sid x = sid)
                      (\<lambda>x. x\<lparr>sb_sent := Some view, sb_seq := advance_seq (sb_seq s)\<rparr>) (g_subs g)\<rparr>)"

text \<open>One offer to every subscription there is; the view depends on the caller and its face.\<close>

definition notify_all :: "(ipv4 \<Rightarrow> bool \<Rightarrow> EventView) \<Rightarrow> GenaState \<Rightarrow> GenaState" where
  "notify_all view g =
     fold (\<lambda>s. notify_view (sb_sid s) (view (sb_caller s) (sb_is_v2 s)) False) (g_subs g) g"

definition bump_update_id :: "GenaState \<Rightarrow> GenaState" where
  "bump_update_id g = g\<lparr>g_update_id := g_update_id g + 1\<rparr>"

definition prune_expired :: "u64 \<Rightarrow> GenaState \<Rightarrow> GenaState" where
  "prune_expired now g =
     (let subs = filter (\<lambda>s. now < sb_expires s) (g_subs g)
      in if length subs < length (g_subs g)
         then g\<lparr>g_subs := subs, g_sids := fold (\<lambda>s ids. snd (sid_add (sb_sid s) ids)) subs SidSet_new\<rparr>
         else g\<lparr>g_subs := subs\<rparr>)"

end
