(* ===== verification/Gena_Props.thy ===== *)
theory Gena_Props
  imports Gena
begin

text \<open>
  The interface of a bounded set of ids and its implementation by \<open>SidSet\<close>; the invariant of the
  subscription state, and what its events say.
\<close>

section \<open>A bounded registry of ids\<close>

locale id_registry =
  fixes elems :: "'s \<Rightarrow> 'i set" and inv :: "'s \<Rightarrow> bool" and cap :: nat and fresh :: 's
    and add :: "'i \<Rightarrow> 's \<Rightarrow> bool \<times> 's" and remove :: "'i \<Rightarrow> 's \<Rightarrow> bool \<times> 's"
  assumes fresh_ok: "inv fresh \<and> elems fresh = {}"
    and bounded: "inv s \<Longrightarrow> finite (elems s) \<and> card (elems s) \<le> cap"
    and add_answer: "inv s \<Longrightarrow> fst (add x s) \<longleftrightarrow> x \<notin> elems s \<and> card (elems s) < cap"
    and add_ok: "inv s \<Longrightarrow> inv (snd (add x s))
      \<and> elems (snd (add x s)) = (if fst (add x s) then insert x (elems s) else elems s)"
    and remove_answer: "inv s \<Longrightarrow> fst (remove x s) \<longleftrightarrow> x \<in> elems s"
    and remove_ok: "inv s \<Longrightarrow> inv (snd (remove x s)) \<and> elems (snd (remove x s)) = elems s - {x}"
begin

text \<open>Adding distinct new ids within the bound adds all of them.\<close>

lemma add_all:
  "inv s \<Longrightarrow> distinct xs \<Longrightarrow> set xs \<inter> elems s = {} \<Longrightarrow> card (elems s) + length xs \<le> cap \<Longrightarrow>
     inv (fold (\<lambda>x s. snd (add x s)) xs s)
     \<and> elems (fold (\<lambda>x s. snd (add x s)) xs s) = elems s \<union> set xs"
proof (induction xs arbitrary: s)
  case (Cons x xs)
  have a: "fst (add x s)" using Cons.prems by (simp add: add_answer)
  then have e: "elems (snd (add x s)) = insert x (elems s)" "inv (snd (add x s))"
    using add_ok [OF Cons.prems(1)] by simp_all
  have "card (insert x (elems s)) = Suc (card (elems s))"
    using Cons.prems bounded [OF Cons.prems(1)] by simp
  with Cons.prems e show ?case using Cons.IH [of "snd (add x s)"] by auto
qed simp

lemma rebuild:
  "distinct xs \<Longrightarrow> length xs \<le> cap \<Longrightarrow>
     inv (fold (\<lambda>x s. snd (add x s)) xs fresh) \<and> elems (fold (\<lambda>x s. snd (add x s)) xs fresh) = set xs"
  using add_all [of fresh xs] fresh_ok by auto

end

definition sid_elems :: "SidSet \<Rightarrow> Sid set" where
  "sid_elems s = {x. Some x \<in> set (take (si_n s) (si_sids s))}"

definition sid_inv :: "SidSet \<Rightarrow> bool" where
  "sid_inv s \<longleftrightarrow> length (si_sids s) = MAX_GENA_SUBS \<and> si_n s \<le> MAX_GENA_SUBS
     \<and> distinct (take (si_n s) (si_sids s)) \<and> None \<notin> set (take (si_n s) (si_sids s))"

lemma sid_has_iff: "sid_has x s \<longleftrightarrow> x \<in> sid_elems s"
  by (simp add: sid_has_def sid_elems_def)

lemma sid_elems_some: "sid_inv s \<Longrightarrow> Some ` sid_elems s = set (take (si_n s) (si_sids s))"
proof (intro set_eqI iffI)
  fix y assume inv: "sid_inv s" and y: "y \<in> set (take (si_n s) (si_sids s))"
  then obtain x where "y = Some x" by (cases y) (auto simp: sid_inv_def)
  with y show "y \<in> Some ` sid_elems s" by (simp add: sid_elems_def)
qed (auto simp: sid_elems_def)

lemma sid_card: "sid_inv s \<Longrightarrow> finite (sid_elems s) \<and> card (sid_elems s) = si_n s"
proof
  assume inv: "sid_inv s"
  have f: "finite (Some ` sid_elems s)" unfolding sid_elems_some [OF inv] by simp
  then show "finite (sid_elems s)" by (rule finite_imageD) simp
  have "card (sid_elems s) = card (Some ` sid_elems s)" by (simp add: card_image)
  also have "\<dots> = si_n s" unfolding sid_elems_some [OF inv]
    using inv by (simp add: sid_inv_def distinct_card)
  finally show "card (sid_elems s) = si_n s" .
qed

lemma sid_remove_take:
  assumes "n \<le> length xs" and "i < n"
  shows "take (n - 1) (xs[i := xs ! (n - 1), n - 1 := xs ! i, n - 1 := None])
    = swap_remove (take n xs) i"
proof -
  have "take n xs \<noteq> []" using assms by auto
  then have "last (take n xs) = xs ! (n - 1)" using assms by (simp add: last_conv_nth min_absorb2)
  then show ?thesis
    using assms by (simp add: swap_remove_def butlast_conv_take take_update_swap min_absorb2 list_update_beyond)
qed

lemma sid_remove_some:
  assumes "sid_inv s" and "position (\<lambda>y. y = Some x) (take (si_n s) (si_sids s)) = Some i"
  shows "i < si_n s" "si_sids s ! i = Some x"
    "take (si_n s - 1) (si_sids (snd (sid_remove x s))) = swap_remove (take (si_n s) (si_sids s)) i"
proof -
  show i: "i < si_n s" and x: "si_sids s ! i = Some x"
    using position_SomeD [OF assms(2)] by auto
  have "si_n s \<le> length (si_sids s)" using assms(1) by (simp add: sid_inv_def)
  from sid_remove_take [OF this i] show
    "take (si_n s - 1) (si_sids (snd (sid_remove x s))) = swap_remove (take (si_n s) (si_sids s)) i"
    using assms(2) by (simp add: sid_remove_def Let_def)
qed

interpretation sids: id_registry sid_elems sid_inv MAX_GENA_SUBS SidSet_new sid_add sid_remove
proof
  show "sid_inv SidSet_new \<and> sid_elems SidSet_new = {}"
    by (simp add: sid_inv_def sid_elems_def SidSet_new_def)
next
  fix s assume inv: "sid_inv s"
  from inv show "finite (sid_elems s) \<and> card (sid_elems s) \<le> MAX_GENA_SUBS"
    using sid_card [OF inv] by (simp add: sid_inv_def)
  fix x
  show "fst (sid_add x s) \<longleftrightarrow> x \<notin> sid_elems s \<and> card (sid_elems s) < MAX_GENA_SUBS"
    using sid_card [OF inv] by (auto simp: sid_add_def sid_has_iff sid_full_def)
  have new: "take (Suc (si_n s)) ((si_sids s)[si_n s := Some x]) = take (si_n s) (si_sids s) @ [Some x]"
    if "\<not> sid_full s"
    using that inv by (simp add: sid_full_def sid_inv_def take_Suc_conv_app_nth)
  show "sid_inv (snd (sid_add x s))
      \<and> sid_elems (snd (sid_add x s)) = (if fst (sid_add x s) then insert x (sid_elems s) else sid_elems s)"
  proof (cases "sid_has x s \<or> sid_full s")
    case True
    then show ?thesis using inv by (simp add: sid_add_def)
  next
    case False
    then have "Some x \<notin> set (take (si_n s) (si_sids s))" by (simp add: sid_has_def)
    with False inv new show ?thesis
      by (auto simp: sid_add_def sid_inv_def sid_elems_def sid_full_def)
  qed
  have pos: "(\<exists>i. position (\<lambda>y. y = Some x) (take (si_n s) (si_sids s)) = Some i) \<longleftrightarrow> x \<in> sid_elems s"
    using position_None_iff [of "\<lambda>y. y = Some x" "take (si_n s) (si_sids s)"]
    by (auto simp: sid_elems_def)
  show "fst (sid_remove x s) \<longleftrightarrow> x \<in> sid_elems s"
    unfolding pos [symmetric] by (auto simp: sid_remove_def Let_def split: option.split)
  show "sid_inv (snd (sid_remove x s)) \<and> sid_elems (snd (sid_remove x s)) = sid_elems s - {x}"
  proof (cases "position (\<lambda>y. y = Some x) (take (si_n s) (si_sids s))")
    case None
    with pos inv show ?thesis by (auto simp: sid_remove_def)
  next
    case (Some i)
    let ?t = "take (si_n s) (si_sids s)"
    note r = sid_remove_some [OF inv Some]
    have len: "i < length ?t" using r(1) inv by (simp add: sid_inv_def)
    have d: "distinct ?t" "None \<notin> set ?t" using inv by (simp_all add: sid_inv_def)
    have st: "set (swap_remove ?t i) = {y \<in> set ?t. y \<noteq> Some x}"
      using set_swap_remove_distinct [OF len, of id] d(1) r(1,2) by simp
    have "distinct (swap_remove ?t i)"
      using distinct_map_swap_remove [OF len, of id] d(1) by simp
    moreover have "si_n (snd (sid_remove x s)) = si_n s - 1"
      "length (si_sids (snd (sid_remove x s))) = length (si_sids s)"
      using Some by (simp_all add: sid_remove_def Let_def)
    ultimately have t: "take (si_n (snd (sid_remove x s))) (si_sids (snd (sid_remove x s))) = swap_remove ?t i"
      and "distinct (swap_remove ?t i)" and "si_n (snd (sid_remove x s)) = si_n s - 1"
      and "length (si_sids (snd (sid_remove x s))) = length (si_sids s)"
      using r(3) by simp_all
    moreover have "None \<notin> set (swap_remove ?t i)" unfolding st using d(2) by simp
    ultimately have "sid_inv (snd (sid_remove x s))"
      using inv unfolding sid_inv_def t by linarith
    moreover have "sid_elems (snd (sid_remove x s)) = sid_elems s - {x}"
      unfolding sid_elems_def t st by auto
    ultimately show ?thesis ..
  qed
qed

section \<open>What a notification says\<close>

lemma propertyset_empty: "propertyset prev now = [] \<longleftrightarrow> prev = Some now"
  by (cases prev) (auto simp: propertyset_def moved_def event_property_def Let_def)

lemma update_first_map:
  assumes "distinct (map f xs)" and "\<And>x. f (g x) = f x"
  shows "update_first (\<lambda>x. f x = k) g xs = map (\<lambda>x. if f x = k then g x else x) xs"
proof (cases "position (\<lambda>x. f x = k) xs")
  case None
  then have "\<forall>x \<in> set xs. f x \<noteq> k" by (simp add: position_None_iff)
  with None show ?thesis by (simp add: update_first_def map_idI)
next
  case (Some i)
  then have i: "i < length xs" "f (xs ! i) = k" by (auto dest: position_SomeD)
  have "f (xs ! j) \<noteq> k" if "j < length xs" "j \<noteq> i" for j
    using assms(1) that i by (metis length_map nth_eq_iff_index_eq nth_map)
  with Some i show ?thesis
    by (auto simp: update_first_def nth_list_update intro!: nth_equalityI)
qed

text \<open>The events of one subscription, and the invariant: ids agree, and keys count its events.\<close>

definition events_of :: "Sid \<Rightarrow> Notify list \<Rightarrow> Notify list" where
  "events_of sid es = filter (\<lambda>e. en_sid e = sid) es"

definition numbered :: "Notify list \<Rightarrow> Sub \<Rightarrow> bool" where
  "numbered es s \<longleftrightarrow> map en_seq (events_of (sb_sid s) es) = map of_nat [0..<length (events_of (sb_sid s) es)]
     \<and> sb_seq s = of_nat (length (events_of (sb_sid s) es))"

definition gena_inv :: "GenaState \<Rightarrow> bool" where
  "gena_inv g \<longleftrightarrow> sid_inv (g_sids g) \<and> distinct (map sb_sid (g_subs g))
     \<and> sid_elems (g_sids g) = sb_sid ` set (g_subs g) \<and> (\<forall>s \<in> set (g_subs g). numbered (g_sent g) s)"

lemma gena_invD:
  assumes "gena_inv g"
  shows "sid_inv (g_sids g)" "distinct (map sb_sid (g_subs g))"
    "sid_elems (g_sids g) = sb_sid ` set (g_subs g)" "s \<in> set (g_subs g) \<Longrightarrow> numbered (g_sent g) s"
  using assms by (auto simp: gena_inv_def)

lemma gena_new_inv: "gena_inv GenaState_new"
  using sids.fresh_ok by (simp add: gena_inv_def GenaState_new_def)

lemma gena_subs_bound: "gena_inv g \<Longrightarrow> length (g_subs g) \<le> MAX_GENA_SUBS"
  using sids.bounded [of "g_sids g"] distinct_card [of "map sb_sid (g_subs g)"]
  by (auto simp: gena_inv_def)

text \<open>A change of fields other than the id and the key keeps it.\<close>

lemma gena_inv_map:
  assumes "gena_inv g" and "\<And>s. sb_sid (f s) = sb_sid s" and "\<And>s. sb_seq (f s) = sb_seq s"
  shows "gena_inv (g\<lparr>g_subs := map f (g_subs g)\<rparr>)"
  using assms by (auto simp: gena_inv_def comp_def numbered_def image_image)

lemma gena_inv_filter:
  assumes "gena_inv g" and "sid_inv ids" and "sid_elems ids = sb_sid ` set (filter P (g_subs g))"
  shows "gena_inv (g\<lparr>g_subs := filter P (g_subs g), g_sids := ids\<rparr>)"
  using assms by (auto simp: gena_inv_def distinct_map_filter)

lemma register_inv:
  assumes inv: "gena_inv g" and new: "events_of sid (g_sent g) = []"
  shows "gena_inv (snd (gena_register lan cb t caller v2 sid now g))"
proof -
  have a: "sid_inv (snd (sid_add sid (g_sids g)))"
    "sid_elems (snd (sid_add sid (g_sids g))) = (if fst (sid_add sid (g_sids g))
       then insert sid (sid_elems (g_sids g)) else sid_elems (g_sids g))"
    using sids.add_ok [OF gena_invD(1) [OF inv]] by blast+
  have b: "fst (sid_add sid (g_sids g)) \<Longrightarrow> sid \<notin> sb_sid ` set (g_subs g)"
    using sids.add_answer [OF gena_invD(1) [OF inv]] gena_invD(3) [OF inv] by blast
  show ?thesis
  proof (cases "sid_add sid (g_sids g)")
    case (Pair fresh ids)
    with a b inv new show ?thesis
      by (auto simp: gena_register_def gena_inv_def numbered_def Let_def split: option.split)
  qed
qed

lemma renew_inv:
  assumes "gena_inv g" shows "gena_inv (snd (gena_renew sid t now g))"
proof -
  let ?f = "\<lambda>s. s\<lparr>sb_timeout := clamp_timeout t, sb_expires := sub_expiry now (clamp_timeout t)\<rparr>"
  have "g_subs (snd (gena_renew sid t now g)) = update_first (\<lambda>s. sb_sid s = sid) ?f (g_subs g)"
    by (simp add: gena_renew_def update_first_def Let_def split: option.split)
  also have "\<dots> = map (\<lambda>s. if sb_sid s = sid then ?f s else s) (g_subs g)"
    using gena_invD(2) [OF assms] by (rule update_first_map) simp
  finally have "snd (gena_renew sid t now g) = g\<lparr>g_subs := map (\<lambda>s. if sb_sid s = sid then ?f s else s) (g_subs g)\<rparr>"
    by (auto simp: gena_renew_def Let_def split: option.split)
  then show ?thesis using gena_inv_map [OF assms] by simp
qed

lemma unsubscribe_inv:
  assumes inv: "gena_inv g" shows "gena_inv (snd (gena_unsubscribe sid g))"
proof (cases "length (filter (\<lambda>s. sb_sid s \<noteq> sid) (g_subs g)) = length (g_subs g)")
  case True
  then have "filter (\<lambda>s. sb_sid s \<noteq> sid) (g_subs g) = g_subs g"
    by (metis filter_id_conv length_filter_less less_irrefl)
  with True inv show ?thesis by (simp add: gena_unsubscribe_def Let_def)
next
  case False
  have r: "sid_inv (snd (sid_remove sid (g_sids g)))"
    "sid_elems (snd (sid_remove sid (g_sids g))) = sid_elems (g_sids g) - {sid}"
    using sids.remove_ok [OF gena_invD(1) [OF inv]] by blast+
  have "gena_inv (g\<lparr>g_subs := filter (\<lambda>s. sb_sid s \<noteq> sid) (g_subs g), g_sids := snd (sid_remove sid (g_sids g))\<rparr>)"
    using r gena_invD(3) [OF inv] by (intro gena_inv_filter [OF inv]) auto
  with False show ?thesis
    by (simp add: gena_unsubscribe_def Let_def split: prod.split) (metis snd_conv)
qed

lemma prune_inv:
  assumes inv: "gena_inv g" shows "gena_inv (prune_expired now g)"
proof (cases "length (filter (\<lambda>s. now < sb_expires s) (g_subs g)) < length (g_subs g)")
  case True
  let ?subs = "filter (\<lambda>s. now < sb_expires s) (g_subs g)"
  have d: "distinct (map sb_sid ?subs)" using gena_invD(2) [OF inv] by (rule distinct_map_filter)
  have "length (map sb_sid ?subs) \<le> MAX_GENA_SUBS" using True gena_subs_bound [OF inv] by simp
  from sids.rebuild [OF d this] True show ?thesis
    using gena_inv_filter [OF inv] by (simp add: prune_expired_def Let_def fold_map comp_def)
next
  case False
  then have "filter (\<lambda>s. now < sb_expires s) (g_subs g) = g_subs g"
    by (metis filter_id_conv length_filter_less)
  with False inv show ?thesis by (simp add: prune_expired_def Let_def)
qed

lemma bump_inv [simp]: "gena_inv (bump_update_id g) \<longleftrightarrow> gena_inv g"
  by (simp add: gena_inv_def bump_update_id_def)

section \<open>Notifications\<close>

definition told :: "EventView \<Rightarrow> Sub \<Rightarrow> Sub" where
  "told v s = s\<lparr>sb_sent := Some v, sb_seq := sb_seq s + 1\<rparr>"

definition must_tell :: "Sid \<Rightarrow> EventView \<Rightarrow> bool \<Rightarrow> Sub \<Rightarrow> bool" where
  "must_tell sid v force s \<longleftrightarrow> sb_sid s = sid \<and> (force \<or> sb_sent s \<noteq> Some v)"

lemma told_frame [simp]: "sb_sid (told v s) = sb_sid s" "sb_caller (told v s) = sb_caller s"
  "sb_is_v2 (told v s) = sb_is_v2 s" "sb_sent (told v s) = Some v" "sb_seq (told v s) = sb_seq s + 1"
  by (simp_all add: told_def)

lemma find_by_sid:
  assumes "distinct (map sb_sid ss)" and "s \<in> set ss"
  shows "find (\<lambda>x. sb_sid x = sb_sid s) ss = Some s"
  using assms by (induction ss) force+

text \<open>A notification either does nothing or tells the one subscription with that id.\<close>

lemma notify_cases:
  assumes inv: "gena_inv g"
  obtains (quiet) "notify_view sid v force g = g" "\<forall>s \<in> set (g_subs g). \<not> must_tell sid v force s"
  | (sent) s b where "s \<in> set (g_subs g)" "must_tell sid v force s"
      "notify_view sid v force g = g\<lparr>g_sent := g_sent g @ [\<lparr>en_sid = sid, en_seq = sb_seq s, en_body = b\<rparr>],
         g_subs := map (\<lambda>x. if sb_sid x = sid then told v x else x) (g_subs g)\<rparr>"
proof (cases "find (\<lambda>s. sb_sid s = sid) (g_subs g)")
  case None
  then have "notify_view sid v force g = g" by (simp add: notify_view_def)
  moreover have "\<forall>s \<in> set (g_subs g). \<not> must_tell sid v force s"
    using None by (simp add: find_None_all must_tell_def)
  ultimately show ?thesis by (rule quiet)
next
  case (Some s)
  then have s: "s \<in> set (g_subs g)" "sb_sid s = sid" by (auto dest: find_SomeD)
  have only: "x = s" if "x \<in> set (g_subs g)" "sb_sid x = sid" for x
    using gena_invD(2) [OF inv] s that by (auto simp: distinct_map inj_on_def)
  show ?thesis
  proof (cases "must_tell sid v force s")
    case True
    let ?f = "\<lambda>x. x\<lparr>sb_sent := Some v, sb_seq := advance_seq (sb_seq s)\<rparr>"
    have "update_first (\<lambda>x. sb_sid x = sid) ?f (g_subs g) = map (\<lambda>x. if sb_sid x = sid then ?f x else x) (g_subs g)"
      using gena_invD(2) [OF inv] by (rule update_first_map) simp
    also have "\<dots> = map (\<lambda>x. if sb_sid x = sid then told v x else x) (g_subs g)"
      using only by (auto simp: told_def advance_seq_def)
    finally have u: "update_first (\<lambda>x. sb_sid x = sid) ?f (g_subs g)
        = map (\<lambda>x. if sb_sid x = sid then told v x else x) (g_subs g)" .
    from True have ne: "(if force then propertyset None v else propertyset (sb_sent s) v) \<noteq> []"
      by (auto simp: must_tell_def propertyset_empty)
    show ?thesis
      using sent [OF s(1) True] Some ne by (simp add: notify_view_def Let_def u)
  next
    case False
    then have "(if force then propertyset None v else propertyset (sb_sent s) v) = []"
      using s by (auto simp: must_tell_def propertyset_empty)
    with Some have "notify_view sid v force g = g" by (simp add: notify_view_def)
    moreover have "\<forall>x \<in> set (g_subs g). \<not> must_tell sid v force x"
      using False only by (auto simp: must_tell_def)
    ultimately show ?thesis by (rule quiet)
  qed
qed

lemma numbered_told:
  "numbered es s \<Longrightarrow> numbered (es @ [\<lparr>en_sid = sb_sid s, en_seq = sb_seq s, en_body = b\<rparr>]) (told v s)"
  by (simp add: numbered_def events_of_def told_def)

lemma numbered_other: "sb_sid s \<noteq> en_sid e \<Longrightarrow> numbered (es @ [e]) s \<longleftrightarrow> numbered es s"
  by (simp add: numbered_def events_of_def)

lemma notify_inv:
  assumes inv: "gena_inv g" shows "gena_inv (notify_view sid v force g)"
proof (cases sid v force rule: notify_cases [OF inv, case_names quiet sent])
  case (sent s b)
  let ?e = "\<lparr>en_sid = sid, en_seq = sb_seq s, en_body = b\<rparr>" and ?h = "\<lambda>x. if sb_sid x = sid then told v x else x"
  have sid: "sb_sid s = sid" using sent(2) by (simp add: must_tell_def)
  define new where "new = map ?h (g_subs g)"
  have m: "map sb_sid new = map sb_sid (g_subs g)" by (simp add: new_def)
  have "numbered (g_sent g @ [?e]) (?h x)" if x: "x \<in> set (g_subs g)" for x
  proof (cases "sb_sid x = sid")
    case True
    then have "x = s" using gena_invD(2) [OF inv] sent(1) sid x by (auto simp: distinct_map inj_on_def)
    then show ?thesis using numbered_told [OF gena_invD(4) [OF inv x], of b v] sid by simp
  next
    case False
    then show ?thesis using gena_invD(4) [OF inv x] by (simp add: numbered_other)
  qed
  then have "\<forall>x \<in> set new. numbered (g_sent g @ [?e]) x"
    unfolding new_def set_map by blast
  moreover have "sb_sid ` set new = sb_sid ` set (g_subs g)"
    using arg_cong [OF m, of set] by (simp only: set_map)
  ultimately show ?thesis
    unfolding sent(3) new_def [symmetric] gena_inv_def using gena_invD(1-3) [OF inv] m by simp
qed (simp add: inv)

section \<open>What an offer sends\<close>

text \<open>The four variables of a view as texts, and those of which a subscriber does not know the current one.\<close>

definition view_texts :: "EventView \<Rightarrow> (string \<times> string) list" where
  "view_texts v = [(''ConnectionStatus'', status_str (ev_status v)), (''ExternalIPAddress'', show_ipv4 (ev_ext_ip v)),
     (''PortMappingNumberOfEntries'', show_word (ev_entries v)), (''SystemUpdateID'', show_word (ev_update_id v))]"

definition news :: "EventView option \<Rightarrow> EventView \<Rightarrow> (string \<times> string) list" where
  "news known v = filter (\<lambda>(name, val). case known of None \<Rightarrow> True | Some k \<Rightarrow> map_of (view_texts k) name \<noteq> Some val)
     (view_texts v)"

text \<open>A subscriber's reader: the name and the value of each property of a body.\<close>

function read_properties :: "string \<Rightarrow> (string \<times> string) list" where
  "read_properties s =
     (if s = [] then []
      else if starts_with s ''<e:property><''
      then (let name = takeWhile (\<lambda>c. c \<noteq> CHR ''>'') (drop 13 s); rest = drop (14 + length name) s;
                val = takeWhile (\<lambda>c. c \<noteq> CHR ''<'') rest
            in (name, val) # read_properties (drop (length val) rest))
      else read_properties (tl s))"
  by pat_completeness auto

termination read_properties
  by (relation "measure length") auto

declare read_properties.simps [simp del]

lemma read_skip: "c \<noteq> CHR ''<'' \<Longrightarrow> read_properties (c # r) = read_properties r"
  by (subst read_properties.simps) (simp add: starts_with_def)

lemma read_skip_tag: "d \<noteq> CHR ''e'' \<Longrightarrow> read_properties (CHR ''<'' # d # r) = read_properties (d # r)"
  by (subst read_properties.simps) (simp add: starts_with_def)

lemma read_skip_plain: "CHR ''<'' \<notin> set w \<Longrightarrow> read_properties (w @ r) = read_properties r"
  by (induction w) (simp_all add: read_skip [OF not_sym])

lemma read_property:
  assumes "CHR ''>'' \<notin> set name" "CHR ''<'' \<notin> set name" "CHR ''<'' \<notin> set val"
  shows "read_properties (event_property name val @ r) = (name, val) # read_properties r"
proof -
  let ?close = "''</'' @ name @ ''></e:property>'' @ r"
  let ?s = "event_property name val @ r"
  have first: "starts_with ?s ''<e:property><''" "?s \<noteq> []" and d: "drop 13 ?s = name @ ''>'' @ val @ ?close"
    by (simp_all add: event_property_def starts_with_def)
  have "14 + length name = Suc (length name) + 13" by simp
  then have "drop (14 + length name) ?s = drop (Suc (length name)) (drop 13 ?s)" by (simp only: drop_drop)
  then have rest: "drop (14 + length name) ?s = val @ ?close" unfolding d by simp
  have w: "takeWhile (\<lambda>c. c \<noteq> CHR ''>'') (name @ ''>'' @ val @ ?close) = name"
    "takeWhile (\<lambda>c. c \<noteq> CHR ''<'') (val @ ?close) = val"
    using assms by (subst takeWhile_append2; auto)+
  have "read_properties ?s = (name, val) # read_properties ?close"
    by (subst read_properties.simps, simp only: first if_True if_False Let_def d w rest) simp
  also have "read_properties ?close = read_properties r"
    using assms(2) by (simp add: read_skip_tag read_skip read_skip_plain)
  finally show ?thesis .
qed

lemma read_open: "read_properties (''<?xml version='' @ [CHR 0x22] @ ''1.0'' @ [CHR 0x22] @ ''?>'' @ [nl]
    @ ''<e:propertyset xmlns:e='' @ [CHR 0x22] @ ''urn:schemas-upnp-org:event-1-0'' @ [CHR 0x22] @ ''>'' @ r) = read_properties r"
proof -
  have "read_properties (''<e:propertyset xmlns:e='' @ [CHR 0x22] @ ''urn:schemas-upnp-org:event-1-0'' @ [CHR 0x22] @ ''>'' @ r)
      = read_properties r"
    by (subst read_properties.simps) (simp add: starts_with_def read_skip)
  then show ?thesis by (simp add: read_skip_tag read_skip nl_def)
qed

lemma read_close: "read_properties (''</e:propertyset>'' @ [nl]) = []"
  by (simp add: read_skip_tag read_skip nl_def) (simp add: read_properties.simps)

lemma show_ipv4_inj: "show_ipv4 a = show_ipv4 b \<longleftrightarrow> a = b"
  using parse_show_ipv4 by (metis option.inject)

lemma status_str_inj: "status_str a = status_str b \<longleftrightarrow> a = b"
  by (cases a; cases b) (simp_all add: status_str_def)

lemma news_split: "news known v =
    (if moved known ev_status v then [(''ConnectionStatus'', status_str (ev_status v))] else [])
    @ (if moved known ev_ext_ip v then [(''ExternalIPAddress'', show_ipv4 (ev_ext_ip v))] else [])
    @ (if moved known ev_entries v then [(''PortMappingNumberOfEntries'', show_word (ev_entries v))] else [])
    @ (if moved known ev_update_id v then [(''SystemUpdateID'', show_word (ev_update_id v))] else [])"
  by (cases known) (auto simp: news_def view_texts_def moved_def status_str_inj show_ipv4_inj show_word_inj)

lemma read_optional:
  assumes "CHR ''>'' \<notin> set name" "CHR ''<'' \<notin> set name" "CHR ''<'' \<notin> set val"
  shows "read_properties ((if b then event_property name val else []) @ r)
    = (if b then [(name, val)] else []) @ read_properties r"
  using read_property [OF assms] by simp

text \<open>A body says the news and nothing else.\<close>

lemma body_says_news: "read_properties (propertyset known v) = news known v"
proof -
  define props where "props =
        (if moved known ev_status v then event_property ''ConnectionStatus'' (status_str (ev_status v)) else [])
        @ (if moved known ev_ext_ip v then event_property ''ExternalIPAddress'' (show_ipv4 (ev_ext_ip v)) else [])
        @ (if moved known ev_entries v then event_property ''PortMappingNumberOfEntries'' (show_word (ev_entries v)) else [])
        @ (if moved known ev_update_id v then event_property ''SystemUpdateID'' (show_word (ev_update_id v)) else [])"
  have vals: "CHR ''<'' \<notin> set (status_str (ev_status v))" "CHR ''<'' \<notin> set (show_ipv4 (ev_ext_ip v))"
    "CHR ''<'' \<notin> set (show_word (ev_entries v))" "CHR ''<'' \<notin> set (show_word (ev_update_id v))"
    using show_nat_chars [of "CHR ''<''"] show_ipv4_chars [of "CHR ''<''"]
    by (auto simp: status_str_def show_word_def is_digit_def split: Status.split)
  have names: "CHR ''>'' \<notin> set n \<and> CHR ''<'' \<notin> set n"
    if "n \<in> {''ConnectionStatus'', ''ExternalIPAddress'', ''PortMappingNumberOfEntries'', ''SystemUpdateID''}" for n
    using that by auto
  have read: "read_properties (props @ r) = news known v @ read_properties r" for r
    unfolding props_def news_split append_assoc by (simp only: read_optional names vals insertI1 insertI2 not_False_eq_True append_assoc)
  have set: "propertyset known v = (if props = [] then []
         else ''<?xml version='' @ [CHR 0x22] @ ''1.0'' @ [CHR 0x22] @ ''?>'' @ [nl]
            @ ''<e:propertyset xmlns:e='' @ [CHR 0x22] @ ''urn:schemas-upnp-org:event-1-0'' @ [CHR 0x22] @ ''>''
            @ props @ ''</e:propertyset>'' @ [nl])"
    unfolding propertyset_def props_def Let_def ..
  show ?thesis
  proof (cases "props = []")
    case True
    have "read_properties [] = []" by (subst read_properties.simps) simp
    with True read [of "[]"] set show ?thesis by simp
  next
    case False
    then have "read_properties (propertyset known v) = read_properties (props @ ''</e:propertyset>'' @ [nl])"
      unfolding set by (simp only: if_False read_open)
    then show ?thesis by (simp only: read read_close append_Nil2)
  qed
qed

text \<open>What an offer does to one subscription, and the notice it sends.\<close>

definition current :: "(ipv4 \<Rightarrow> bool \<Rightarrow> EventView) \<Rightarrow> Sub \<Rightarrow> EventView" where
  "current view s = view (sb_caller s) (sb_is_v2 s)"

definition concerned :: "(ipv4 \<Rightarrow> bool \<Rightarrow> EventView) \<Rightarrow> Sub \<Rightarrow> bool" where
  "concerned view s \<longleftrightarrow> sb_sent s \<noteq> Some (current view s)"

definition notice :: "(ipv4 \<Rightarrow> bool \<Rightarrow> EventView) \<Rightarrow> Sub \<Rightarrow> Notify" where
  "notice view s = \<lparr>en_sid = sb_sid s, en_seq = sb_seq s, en_body = propertyset (sb_sent s) (current view s)\<rparr>"

definition offered :: "(ipv4 \<Rightarrow> bool \<Rightarrow> EventView) \<Rightarrow> Sub \<Rightarrow> Sub" where
  "offered view s = (if concerned view s then told (current view s) s else s)"

lemma offered_frame [simp]: "sb_sid (offered view s) = sb_sid s" "current view (offered view s) = current view s"
  "\<not> concerned view (offered view s)"
  by (simp_all add: offered_def current_def concerned_def told_def)

lemma map_other: "k \<notin> f ` set xs \<Longrightarrow> map (\<lambda>x. if f x = k then g x else x) xs = xs"
  by (induction xs) auto

lemma notify_one:
  assumes "distinct (map sb_sid (ds @ t # ts))" and "g_subs g = ds @ t # ts"
  shows "notify_view (sb_sid t) (current view t) False g = g\<lparr>
    g_sent := g_sent g @ (if concerned view t then [notice view t] else []), g_subs := ds @ offered view t # ts\<rparr>"
proof -
  have f: "find (\<lambda>s. sb_sid s = sb_sid t) (g_subs g) = Some t"
    using find_by_sid [OF assms(1), of t] assms(2) by simp
  let ?f = "\<lambda>x. x\<lparr>sb_sent := Some (current view t), sb_seq := advance_seq (sb_seq t)\<rparr>"
  have "update_first (\<lambda>x. sb_sid x = sb_sid t) ?f (g_subs g)
      = map (\<lambda>x. if sb_sid x = sb_sid t then ?f x else x) (ds @ t # ts)"
    unfolding assms(2) using assms(1) by (rule update_first_map) simp
  also have "\<dots> = ds @ ?f t # ts" using assms(1) by (simp add: map_other)
  also have "?f t = told (current view t) t" by (simp add: told_def advance_seq_def)
  finally have u: "update_first (\<lambda>x. sb_sid x = sb_sid t) ?f (g_subs g) = ds @ told (current view t) t # ts" .
  show ?thesis
    by (simp add: notify_view_def f Let_def u propertyset_empty concerned_def offered_def notice_def) (simp add: assms(2))
qed

lemma notify_all_from:
  assumes "distinct (map sb_sid (ds @ ts))" and "g_subs g = map (offered view) ds @ ts"
  shows "fold (\<lambda>s. notify_view (sb_sid s) (current view s) False) ts g = g\<lparr>
    g_sent := g_sent g @ map (notice view) (filter (concerned view) ts), g_subs := map (offered view) (ds @ ts)\<rparr>"
  using assms
proof (induction ts arbitrary: ds g)
  case (Cons t ts)
  have d: "distinct (map sb_sid (map (offered view) ds @ t # ts))" using Cons.prems(1) by (simp add: comp_def image_image)
  note one = notify_one [OF d Cons.prems(2), of view]
  have "fold (\<lambda>s. notify_view (sb_sid s) (current view s) False) ts (notify_view (sb_sid t) (current view t) False g)
      = g\<lparr>g_sent := (g_sent g @ (if concerned view t then [notice view t] else []))
            @ map (notice view) (filter (concerned view) ts), g_subs := map (offered view) ((ds @ [t]) @ ts)\<rparr>"
    unfolding one using Cons.prems(1) by (subst Cons.IH [of "ds @ [t]"]) simp_all
  then show ?case by simp
qed simp

lemma notify_all_effect:
  assumes "gena_inv g"
  shows "notify_all view g = g\<lparr>g_sent := g_sent g @ map (notice view) (filter (concerned view) (g_subs g)),
    g_subs := map (offered view) (g_subs g)\<rparr>"
  using notify_all_from [of "[]" "g_subs g" g view] gena_invD(2) [OF assms]
  by (simp add: notify_all_def current_def)

definition demo_gena :: GenaState where
  "demo_gena = snd (gena_register (ipv4_of 192 168 21 1) ''<http://192.168.21.5:5000/ev>'' 300
     (ipv4_of 192 168 21 5) False (replicate 16 7) 1000 GenaState_new)"

lemma demo_gena_inv: "gena_inv demo_gena"
  unfolding demo_gena_def by (rule register_inv [OF gena_new_inv]) (simp add: events_of_def GenaState_new_def)

lemma demo_gena_subs: "map (\<lambda>s. (sb_sid s, sb_cb_port s, sb_timeout s)) (g_subs demo_gena) = [(replicate 16 7, 5000, 300)]"
  by code_simp

section \<open>Runs\<close>

text \<open>The states the service can be in. A fresh subscription id is one no event has carried.\<close>

inductive gena_reach :: "GenaState \<Rightarrow> bool" where
  gena_start: "gena_reach GenaState_new"
| gena_subscribed: "gena_reach g \<Longrightarrow> events_of sid (g_sent g) = [] \<Longrightarrow>
    gena_reach (snd (gena_register lan cb t caller v2 sid now g))"
| gena_greeted: "gena_reach g \<Longrightarrow> gena_reach (notify_view sid view True g)"
| gena_renewed: "gena_reach g \<Longrightarrow> gena_reach (snd (gena_renew sid t now g))"
| gena_left: "gena_reach g \<Longrightarrow> gena_reach (snd (gena_unsubscribe sid g))"
| gena_pruned: "gena_reach g \<Longrightarrow> gena_reach (prune_expired now g)"
| gena_moved: "gena_reach g \<Longrightarrow> gena_reach (bump_update_id g)"
| gena_offered: "gena_reach g \<Longrightarrow> gena_reach (notify_all v g)"

lemma notify_all_inv: "gena_inv g \<Longrightarrow> gena_inv (notify_all v g)"
proof -
  have "gena_inv g \<Longrightarrow> gena_inv (fold (\<lambda>s. notify_view (sb_sid s) (v (sb_caller s) (sb_is_v2 s)) False) ss g)" for ss
    by (induction ss arbitrary: g) (simp_all add: notify_inv)
  then show "gena_inv g \<Longrightarrow> gena_inv (notify_all v g)" by (simp add: notify_all_def)
qed

lemma gena_reach_inv: "gena_reach g \<Longrightarrow> gena_inv g"
  by (induction rule: gena_reach.induct)
    (simp_all add: gena_new_inv register_inv notify_inv renew_inv unsubscribe_inv prune_inv notify_all_inv)

text \<open>C32 (functional): an event is sent to every subscriber that it concerns, once. In every state the
  service can reach, an offer of the current views appends exactly one notice for each subscription
  that has not been told its own current view, in the order of the subscriptions: it carries the
  subscription's id and its next key, and a reader finds in its body the variables whose value differs
  from what that subscription was told, each with its current value, and no other (all four on its
  first notice). The keys of those subscriptions advance, the others are untouched, and offering the same
  views again sends nothing. What the network does with a notice is not claimed.\<close>

theorem change_reaches_subscribers:
  assumes "gena_reach g"
  shows "g_sent (notify_all view g) = g_sent g @ map (notice view) (filter (concerned view) (g_subs g))
    \<and> g_subs (notify_all view g)
      = map (\<lambda>s. if concerned view s then s\<lparr>sb_sent := Some (current view s), sb_seq := sb_seq s + 1\<rparr> else s) (g_subs g)
    \<and> map (\<lambda>n. read_properties (en_body n)) (map (notice view) (g_subs g))
      = map (\<lambda>s. news (sb_sent s) (current view s)) (g_subs g)
    \<and> notify_all view (notify_all view g) = notify_all view g"
proof -
  have inv: "gena_inv g" by (rule gena_reach_inv [OF assms])
  note eff = notify_all_effect [OF this, of view]
  have "map (offered view) (g_subs g)
      = map (\<lambda>s. if concerned view s then s\<lparr>sb_sent := Some (current view s), sb_seq := sb_seq s + 1\<rparr> else s) (g_subs g)"
    by (simp add: offered_def told_def)
  moreover have "notify_all view (notify_all view g) = notify_all view g"
    unfolding notify_all_effect [OF notify_all_inv [OF inv], of view]
    by (simp add: eff comp_def filter_map offered_def [of view "offered view _"])
  ultimately show ?thesis by (simp add: eff notice_def body_says_news)
qed

lemma demo_gena_reach: "gena_reach demo_gena"
  unfolding demo_gena_def by (rule gena_subscribed [OF gena_start]) (simp add: events_of_def GenaState_new_def)

text \<open>A subscriber that knows a view hears of the new address and the one mapping less.\<close>

theorem change_reaches_subscribers_witness:
  "map (\<lambda>n. (en_seq n, read_properties (en_body n)))
      (g_sent (notify_all (\<lambda>c v2. EventView_new 0x09000001 0 2) (notify_all (\<lambda>c v2. EventView_new 0x09000002 1 2) demo_gena)))
     = [(0, [(''ConnectionStatus'', ''Connected''), (''ExternalIPAddress'', ''9.0.0.2''),
             (''PortMappingNumberOfEntries'', ''1''), (''SystemUpdateID'', ''2'')]),
        (1, [(''ExternalIPAddress'', ''9.0.0.1''), (''PortMappingNumberOfEntries'', ''0'')])]"
proof -
  obtain s where s: "g_subs demo_gena = [s]" "sb_seq s = 0" "sb_sent s = None" "g_sent demo_gena = []"
  proof -
    have "map (\<lambda>s. (sb_seq s, sb_sent s)) (g_subs demo_gena) = [(0, None)]" and "g_sent demo_gena = []" by code_simp+
    then show ?thesis using that by (auto simp: map_eq_Cons_conv)
  qed
  have second: "gena_reach (notify_all (\<lambda>c v2. EventView_new 0x09000002 1 2) demo_gena)"
    by (rule gena_offered [OF demo_gena_reach])
  have n: "news None (EventView_new 0x09000002 1 2) = [(''ConnectionStatus'', ''Connected''), (''ExternalIPAddress'', ''9.0.0.2''),
       (''PortMappingNumberOfEntries'', ''1''), (''SystemUpdateID'', ''2'')]"
    "news (Some (EventView_new 0x09000002 1 2)) (EventView_new 0x09000001 0 2)
       = [(''ExternalIPAddress'', ''9.0.0.1''), (''PortMappingNumberOfEntries'', ''0'')]"
    "EventView_new 0x09000002 1 2 \<noteq> EventView_new 0x09000001 0 2" by code_simp+
  show ?thesis
    using change_reaches_subscribers [OF demo_gena_reach, of "\<lambda>c v2. EventView_new 0x09000002 1 2"]
      change_reaches_subscribers [OF second, of "\<lambda>c v2. EventView_new 0x09000001 0 2"] n
    by (simp add: s concerned_def current_def notice_def)
qed

text \<open>Subscriptions stay bounded and their event keys count. In every state the
  service can reach there are at most eight subscriptions, with different ids, the id set holds
  exactly their ids, and the events sent to each of them carry the keys 0, 1, 2 and so on without
  a gap or a repetition, the next key being the number of events sent (modulo the key's width).\<close>

theorem event_keys_count:
  assumes "gena_reach g"
  shows "length (g_subs g) \<le> 8 \<and> distinct (map sb_sid (g_subs g))
    \<and> (\<forall>x. sid_has x (g_sids g) \<longleftrightarrow> x \<in> sb_sid ` set (g_subs g))
    \<and> (\<forall>s \<in> set (g_subs g). map en_seq (events_of (sb_sid s) (g_sent g))
         = map of_nat [0..<length (events_of (sb_sid s) (g_sent g))]
       \<and> sb_seq s = of_nat (length (events_of (sb_sid s) (g_sent g))))"
proof -
  note inv = gena_reach_inv [OF assms]
  show ?thesis
    using gena_subs_bound [OF inv] gena_invD [OF inv]
    by (simp add: sid_has_iff numbered_def MAX_GENA_SUBS_def)
qed

theorem event_keys_count_witness:
  "map en_seq (events_of (replicate 16 7) (g_sent (notify_all (\<lambda>c v2. EventView_new 6 1 2)
     (notify_view (replicate 16 7) (EventView_new 5 1 2) True demo_gena)))) = [0, 1]
   \<and> length (g_subs (notify_all (\<lambda>c v2. EventView_new 6 1 2)
     (notify_view (replicate 16 7) (EventView_new 5 1 2) True demo_gena))) \<le> 8"
proof -
  have "gena_reach demo_gena"
    unfolding demo_gena_def by (rule gena_subscribed [OF gena_start]) (simp add: events_of_def GenaState_new_def)
  then have "gena_reach (notify_all (\<lambda>c v2. EventView_new 6 1 2)
      (notify_view (replicate 16 7) (EventView_new 5 1 2) True demo_gena))"
    by (intro gena_offered gena_greeted)
  note keys = event_keys_count [OF this]
  have "map en_seq (events_of (replicate 16 7) (g_sent (notify_all (\<lambda>c v2. EventView_new 6 1 2)
     (notify_view (replicate 16 7) (EventView_new 5 1 2) True demo_gena)))) = [0, 1]"
    by code_simp
  with keys show ?thesis by (intro conjI) (assumption, blast)
qed

end
