(* ===== verification/Facade_Index.thy ===== *)
theory Facade_Index
  imports Upnp Slot_Table Dp
begin

text \<open>
  The control-plane index of the facade (\<open>src/src/upnpsvc.rs\<close>): one entry for each mapping a
  control point was granted, the containment of callers without the lift, and the rows of
  \<open>upnp.tsv\<close>.
\<close>

section \<open>Entries\<close>

record FacadeEntry =
  fe_req_ext :: u16
  fe_proto :: Proto
  fe_owner :: ipv4
  fe_client :: ipv4
  fe_int_port :: u16
  fe_bind_port :: u16
  fe_lifetime :: u32
  fe_expires :: u64
  fe_desc :: string

record MappingReq =
  mr_ext :: u16
  mr_proto :: Proto
  mr_client :: ipv4
  mr_int_port :: u16
  mr_lifetime :: u32
  mr_desc :: string

record Contain =
  cn_caller :: ipv4
  cn_high_port :: bool

definition ANY_PORT_BASE :: u16 where "ANY_PORT_BASE = 1024"
definition WIP2_MAX_LEASE :: u32 where "WIP2_MAX_LEASE = 604800"
definition INFINITE_LEASE :: u32 where "INFINITE_LEASE = - 1"
definition DESC_MAX :: nat where "DESC_MAX = 64"

definition request_within :: "Contain \<Rightarrow> ipv4 \<Rightarrow> u16 \<Rightarrow> u16 \<Rightarrow> bool" where
  "request_within c client ext int_port \<longleftrightarrow> client = cn_caller c
     \<and> (\<not> cn_high_port c \<or> (ANY_PORT_BASE \<le> int_port \<and> (ext = 0 \<or> ANY_PORT_BASE \<le> ext)))"

definition entry_within :: "Contain \<Rightarrow> FacadeEntry \<Rightarrow> bool" where
  "entry_within c e \<longleftrightarrow> fe_owner e = cn_caller c
     \<and> (\<not> cn_high_port c \<or> (ANY_PORT_BASE \<le> fe_int_port e \<and> ANY_PORT_BASE \<le> fe_req_ext e))"

definition may_see :: "Contain option \<Rightarrow> FacadeEntry \<Rightarrow> bool" where
  "may_see view e \<longleftrightarrow> (case view of None \<Rightarrow> True | Some c \<Rightarrow> entry_within c e)"

definition label_taken :: "FacadeEntry list \<Rightarrow> Proto \<Rightarrow> u16 \<Rightarrow> bool" where
  "label_taken entries proto p \<longleftrightarrow> list_ex (\<lambda>e. fe_proto e = proto \<and> fe_req_ext e = p) entries"

function free_port_from :: "FacadeEntry list \<Rightarrow> Proto \<Rightarrow> u16 \<Rightarrow> u16" where
  "free_port_from entries proto p =
     (if p < - 1 \<and> label_taken entries proto p then free_port_from entries proto (p + 1) else p)"
  by pat_completeness auto
termination
proof (relation "measure (\<lambda>(_, _, p). 65535 - unat p)", goal_cases)
  case (2 entries proto p)
  then have "p < - 1" by simp
  then have "unat p < 65535" using unat_max_word [where 'a = 16] by (simp add: word_less_nat_alt)
  then show ?case using unat_succ_below [OF \<open>p < - 1\<close>] by simp
qed simp

declare free_port_from.simps [simp del]

definition free_requested_port :: "FacadeEntry list \<Rightarrow> Proto \<Rightarrow> u16" where
  "free_requested_port entries proto = free_port_from entries proto ANY_PORT_BASE"

definition preferred_port :: "FacadeEntry list \<Rightarrow> u16 \<Rightarrow> Proto \<Rightarrow> u16" where
  "preferred_port entries req_ext proto =
     (if req_ext = 0 then free_requested_port entries proto else req_ext)"

definition wip2_lease :: "u32 \<Rightarrow> u32" where
  "wip2_lease lifetime = (if lifetime = 0 then WIP2_MAX_LEASE else lifetime)"

definition scoped_count :: "Contain option \<Rightarrow> FacadeEntry list \<Rightarrow> u16" where
  "scoped_count scope entries =
     of_nat (min (case scope of None \<Rightarrow> length entries
                  | Some c \<Rightarrow> length (filter (entry_within c) entries)) 65535)"

section \<open>The order of the index\<close>

definition order_key :: "FacadeEntry \<Rightarrow> u16 \<times> u8" where
  "order_key e = (fe_req_ext e, proto_code (fe_proto e))"

definition key_less :: "u16 \<times> u8 \<Rightarrow> u16 \<times> u8 \<Rightarrow> bool" where
  "key_less a b \<longleftrightarrow> fst a < fst b \<or> fst a = fst b \<and> snd a < snd b"

definition insert_at :: "nat \<Rightarrow> 'a \<Rightarrow> 'a list \<Rightarrow> 'a list" where
  "insert_at i x xs = take i xs @ x # drop i xs"

definition remove_at :: "nat \<Rightarrow> 'a list \<Rightarrow> 'a list" where
  "remove_at i xs = take i xs @ drop (Suc i) xs"

definition insert_sorted :: "FacadeEntry \<Rightarrow> FacadeEntry list \<Rightarrow> FacadeEntry list" where
  "insert_sorted e es =
     insert_at (case position (\<lambda>x. key_less (order_key e) (order_key x)) es of
                  Some i \<Rightarrow> i | None \<Rightarrow> length es) e es"

text \<open>The entry of a grant. The result is the slot that an overwritten entry left behind.\<close>

definition same_tuple :: "Proto \<Rightarrow> ipv4 \<Rightarrow> u16 \<Rightarrow> FacadeEntry \<Rightarrow> bool" where
  "same_tuple proto owner int_port e \<longleftrightarrow>
     fe_proto e = proto \<and> fe_owner e = owner \<and> fe_int_port e = int_port"

definition same_label :: "u16 \<Rightarrow> Proto \<Rightarrow> ipv4 \<Rightarrow> FacadeEntry \<Rightarrow> bool" where
  "same_label req_ext proto owner e \<longleftrightarrow>
     fe_req_ext e = req_ext \<and> fe_proto e = proto \<and> fe_owner e = owner"

definition apply_entry ::
  "u16 \<Rightarrow> Proto \<Rightarrow> ipv4 \<Rightarrow> ipv4 \<Rightarrow> u16 \<Rightarrow> u16 \<Rightarrow> u32 \<Rightarrow> u64 \<Rightarrow> string \<Rightarrow> FacadeEntry list
     \<Rightarrow> (u16 \<times> ipv4 \<times> u16) option \<times> FacadeEntry list" where
  "apply_entry req_ext proto client owner int_port bind_port lifetime now desc es =
     (let expires = sat_add now (ucast lifetime)
      in (case position (same_tuple proto owner int_port) es of
            Some idx \<Rightarrow>
              (None, insert_sorted ((es ! idx)\<lparr>fe_req_ext := req_ext, fe_lifetime := lifetime,
                 fe_expires := expires, fe_desc := desc\<rparr>) (remove_at idx es))
          | None \<Rightarrow>
              (case (if req_ext = 0 then None else position (same_label req_ext proto owner) es) of
                 Some idx \<Rightarrow>
                   (if fe_bind_port (es ! idx) \<noteq> bind_port
                    then Some (fe_bind_port (es ! idx), fe_client (es ! idx), fe_int_port (es ! idx))
                    else None,
                    es[idx := (es ! idx)\<lparr>fe_req_ext := req_ext, fe_client := client,
                       fe_int_port := int_port, fe_bind_port := bind_port, fe_lifetime := lifetime,
                       fe_expires := expires, fe_desc := desc\<rparr>])
               | None \<Rightarrow>
                   (None, insert_sorted \<lparr>fe_req_ext = req_ext, fe_proto = proto, fe_owner = owner,
                      fe_client = client, fe_int_port = int_port, fe_bind_port = bind_port,
                      fe_lifetime = lifetime, fe_expires = expires, fe_desc = desc\<rparr> es))))"

section \<open>The persisted index\<close>

definition entry_row :: "FacadeEntry \<Rightarrow> string" where
  "entry_row e = join [tab]
     [show_word (fe_req_ext e), show_word (proto_code (fe_proto e)), show_word (fe_bind_port e),
      show_ipv4 (fe_client e), show_word (fe_int_port e), show_word (fe_lifetime e),
      show_word (fe_expires e), fe_desc e, show_ipv4 (fe_owner e)]"

definition entry_line :: "FacadeEntry \<Rightarrow> string" where
  "entry_line e = entry_row e @ [nl]"

definition nth_or :: "'a list \<Rightarrow> nat \<Rightarrow> 'a \<Rightarrow> 'a" where
  "nth_or xs i d = (if i < length xs then xs ! i else d)"

definition entry_from_line :: "string \<Rightarrow> FacadeEntry option" where
  "entry_from_line line =
     (let parts = split_on tab line
      in if length parts < 7 \<or> 9 < length parts then None
         else do {
           req_ext \<leftarrow> parse_word (parts ! 0);
           let proto = (if trim (parts ! 1) = ''6'' then Tcp else Udp);
           bind_port \<leftarrow> parse_word (parts ! 2);
           client \<leftarrow> parse_ipv4 (parts ! 3);
           int_port \<leftarrow> parse_word (parts ! 4);
           lifetime \<leftarrow> parse_word (parts ! 5);
           expires \<leftarrow> parse_word (parts ! 6);
           let desc = nth_or parts 7 [];
           let owner = (case (if 8 < length parts then parse_ipv4 (parts ! 8) else None) of
             Some o' \<Rightarrow> o' | None \<Rightarrow> client);
           Some \<lparr>fe_req_ext = req_ext, fe_proto = proto, fe_owner = owner, fe_client = client,
             fe_int_port = int_port, fe_bind_port = bind_port, fe_lifetime = lifetime,
             fe_expires = expires, fe_desc = desc\<rparr>
         })"

definition entries_file :: "FacadeEntry list \<Rightarrow> string" where
  "entries_file es = concat (map entry_line es)"

definition restore_entries :: "string option \<Rightarrow> FacadeEntry list" where
  "restore_entries file = (case file of None \<Rightarrow> [] | Some s \<Rightarrow> List.map_filter entry_from_line (lines s))"

section \<open>What a control point reads\<close>

definition esc :: "char \<Rightarrow> string" where
  "esc c = (if c = CHR ''&'' then ''&amp;'' else if c = CHR ''<'' then ''&lt;''
     else if c = CHR ''>'' then ''&gt;'' else if c = CHR 0x22 then ''&quot;''
     else if c = CHR 0x27 then ''&apos;'' else [c])"

definition xml_escape :: "string \<Rightarrow> string" where
  "xml_escape s = concat (map esc s)"

definition elem :: "string \<Rightarrow> string \<Rightarrow> string" where
  "elem name val = ''<'' @ name @ ''>'' @ val @ ''</'' @ name @ ''>''"

definition proto_name :: "Proto \<Rightarrow> string" where
  "proto_name p = (case p of Tcp \<Rightarrow> ''TCP'' | Udp \<Rightarrow> ''UDP'')"

definition entry_xml :: "FacadeEntry \<Rightarrow> bool \<Rightarrow> string" where
  "entry_xml e with_key =
     (if with_key
      then elem ''NewRemoteHost'' [] @ elem ''NewExternalPort'' (show_word (fe_req_ext e))
           @ elem ''NewProtocol'' (proto_name (fe_proto e))
      else [])
     @ elem ''NewInternalPort'' (show_word (fe_int_port e))
     @ elem ''NewInternalClient'' (show_ipv4 (fe_client e))
     @ elem ''NewEnabled'' ''1''
     @ elem ''NewPortMappingDescription'' (xml_escape (fe_desc e))
     @ elem ''NewLeaseDuration'' (show_word (fe_lifetime e))"

definition get_specific ::
  "u16 \<Rightarrow> Proto \<Rightarrow> ipv4 \<Rightarrow> Contain option \<Rightarrow> FacadeEntry list \<Rightarrow> UpnpErr + string" where
  "get_specific req_ext proto caller view es =
     (case find (same_label req_ext proto caller) es of
        None \<Rightarrow> Inl NoSuchEntry
      | Some e \<Rightarrow> if \<not> may_see view e then Inl UE_NotAuthorized else Inr (entry_xml e False))"

definition get_generic :: "u32 \<Rightarrow> Contain option \<Rightarrow> FacadeEntry list \<Rightarrow> UpnpErr + string" where
  "get_generic index view es =
     (let visible = filter (may_see view) es
      in if unat index < length visible then Inr (entry_xml (visible ! unat index) True) else Inl NoSuchEntry)"

definition listing_entry :: "u64 \<Rightarrow> FacadeEntry \<Rightarrow> string" where
  "listing_entry now e = ''<p:PortMappingEntry>'' @ ''<p:NewRemoteHost></p:NewRemoteHost>''
     @ elem ''p:NewExternalPort'' (show_word (fe_req_ext e))
     @ elem ''p:NewProtocol'' (proto_name (fe_proto e))
     @ elem ''p:NewInternalPort'' (show_word (fe_int_port e))
     @ elem ''p:NewInternalClient'' (show_ipv4 (fe_client e))
     @ ''<p:NewEnabled>1</p:NewEnabled>''
     @ elem ''p:NewDescription'' (xml_escape (fe_desc e))
     @ elem ''p:NewLeaseTime'' (show_word (sat_sub (fe_expires e) now))
     @ ''</p:PortMappingEntry>''"

text \<open>The listing loop with its count; the limit is looked at before the containment.\<close>

fun listing_from ::
  "u16 \<Rightarrow> u16 \<Rightarrow> Proto option \<Rightarrow> u16 \<Rightarrow> Contain option \<Rightarrow> u16 \<Rightarrow> FacadeEntry list \<Rightarrow> FacadeEntry list" where
  "listing_from start end_p proto max_n view seen [] = []"
| "listing_from start end_p proto max_n view seen (e # es) =
     (if (case proto of Some p \<Rightarrow> fe_proto e \<noteq> p | None \<Rightarrow> False)
      then listing_from start end_p proto max_n view seen es
      else if fe_req_ext e < start \<or> end_p < fe_req_ext e
      then listing_from start end_p proto max_n view seen es
      else if max_n \<noteq> 0 \<and> max_n \<le> seen then []
      else if \<not> may_see view e then listing_from start end_p proto max_n view seen es
      else e # listing_from start end_p proto max_n view (seen + 1) es)"

definition PORT_LISTING_OPEN :: string where
  "PORT_LISTING_OPEN = ''<p:PortMappingList xmlns:p='' @ [CHR 0x22] @ ''urn:schemas-upnp-org:gw:WANIPConnection''
     @ [CHR 0x22] @ '' xmlns:xsi='' @ [CHR 0x22] @ ''http://www.w3.org/2001/XMLSchema-instance'' @ [CHR 0x22]
     @ '' xsi:schemaLocation='' @ [CHR 0x22]
     @ ''urn:schemas-upnp-org:gw:WANIPConnection http://www.upnp.org/schemas/gw/WANIPConnection-v2.xsd''
     @ [CHR 0x22] @ ''>''"

definition list_port_mappings ::
  "u16 \<Rightarrow> u16 \<Rightarrow> Proto option \<Rightarrow> u16 \<Rightarrow> Contain option \<Rightarrow> u64 \<Rightarrow> FacadeEntry list \<Rightarrow> UpnpErr + string" where
  "list_port_mappings start end_p proto max_n view now es =
     (let shown = listing_from start end_p proto max_n view 0 es
      in if shown = [] then Inl PortMappingNotFound
         else Inr (''<NewPortListing><![CDATA['' @ PORT_LISTING_OPEN @ concat (map (listing_entry now) shown)
                @ ''</p:PortMappingList>'' @ '']]></NewPortListing>''))"

end
