(* ===== verification/Index_Props.thy ===== *)
theory Index_Props
  imports Facade_Index
begin

text \<open>
  The index of mappings: its rows are read back, it stays sorted with one entry for each internal
  tuple, its wildcard port is the lowest free one, and what a contained caller reads is its own.
\<close>

section \<open>The rows\<close>

definition entry_ok :: "FacadeEntry \<Rightarrow> bool" where
  "entry_ok e \<longleftrightarrow> nl \<notin> set (fe_desc e) \<and> cr \<notin> set (fe_desc e) \<and> tab \<notin> set (fe_desc e)"

interpretation index_row: row_format entry_row entry_from_line entry_ok
proof
  fix e :: FacadeEntry assume ok: "entry_ok e"
  let ?ps = "[show_word (fe_req_ext e), show_word (proto_code (fe_proto e)), show_word (fe_bind_port e),
      show_ipv4 (fe_client e), show_word (fe_int_port e), show_word (fe_lifetime e),
      show_word (fe_expires e), fe_desc e, show_ipv4 (fe_owner e)]"
  have plain: "c \<noteq> nl \<and> c \<noteq> cr \<and> c \<noteq> tab" if "p \<in> set ?ps" "c \<in> set p" for p c
    using that ok by (auto dest: show_word_plain show_ipv4_plain simp: entry_ok_def)
  then have "nl \<notin> set p" "cr \<notin> set p" "tab \<notin> set p" if "p \<in> set ?ps" for p
    using that by blast+
  then show "nl \<notin> set (entry_row e) \<and> cr \<notin> set (entry_row e)"
    using set_join [of "[tab]" ?ps] unfolding entry_row_def by (fastforce simp: tab_def nl_def cr_def)
  have "split_on tab (entry_row e) = ?ps"
    unfolding entry_row_def using plain by (intro split_on_join) blast+
  moreover have "trim (show_word (proto_code (fe_proto e))) = show_word (proto_code (fe_proto e))"
    by (rule trim_plain) (auto dest: show_word_plain)
  moreover have "show_word (proto_code (fe_proto e)) = ''6'' \<longleftrightarrow> fe_proto e = Tcp"
  proof -
    have "show_word (6 :: u8) = ''6''" "show_word (17 :: u8) \<noteq> ''6''" by code_simp+
    then show ?thesis by (cases "fe_proto e") (simp_all add: proto_code_def)
  qed
  ultimately show "entry_from_line (entry_row e) = Some e"
    by (cases "fe_proto e") (simp_all add: entry_from_line_def Let_def nth_or_def)
qed

lemma entries_file_back: "\<forall>e \<in> set es. entry_ok e \<Longrightarrow> restore_entries (Some (entries_file es)) = es"
proof -
  assume "\<forall>e \<in> set es. entry_ok e"
  moreover have "entries_file es = concat (map (\<lambda>x. entry_row x @ [nl]) es)"
    by (simp add: entries_file_def entry_line_def [abs_def])
  ultimately show ?thesis using index_row.file_back [of es] by (simp add: restore_entries_def)
qed

text \<open>C20 (roundtrip): the index survives a restart. The entries written to \<open>upnp.tsv\<close> are read back
  in the same order and with every field, as long as no description holds a tab or a line end;
  descriptions cleaned of control characters never do.\<close>

theorem index_back:
  assumes "\<forall>e \<in> set es. entry_ok e"
  shows "restore_entries (Some (entries_file es)) = es
    \<and> (\<forall>e s. fe_desc e = clean_name s \<longrightarrow> entry_ok e)"
proof
  show "restore_entries (Some (entries_file es)) = es" by (rule entries_file_back [OF assms])
  have "is_control nl" "is_control cr" "is_control tab"
    by (simp_all add: is_control_def nl_def cr_def tab_def)
  then show "\<forall>e s. fe_desc e = clean_name s \<longrightarrow> entry_ok e"
    by (auto simp: entry_ok_def clean_name_def)
qed

definition demo_entry :: FacadeEntry where
  "demo_entry = \<lparr>fe_req_ext = 5000, fe_proto = Udp, fe_owner = ipv4_of 192 168 21 5,
     fe_client = ipv4_of 192 168 21 5, fe_int_port = 4000, fe_bind_port = 30001,
     fe_lifetime = 3600, fe_expires = 4600, fe_desc = ''game''\<rparr>"

theorem index_back_witness:
  "restore_entries (Some (entries_file [demo_entry, demo_entry\<lparr>fe_proto := Tcp, fe_desc := []\<rparr>]))
     = [demo_entry, demo_entry\<lparr>fe_proto := Tcp, fe_desc := []\<rparr>]"
  using index_back [of "[demo_entry, demo_entry\<lparr>fe_proto := Tcp, fe_desc := []\<rparr>]"]
  by (simp add: entry_ok_def demo_entry_def nl_def cr_def tab_def)

section \<open>The order of the index\<close>

definition tuple_of :: "FacadeEntry \<Rightarrow> Proto \<times> ipv4 \<times> u16" where
  "tuple_of e = (fe_proto e, fe_owner e, fe_int_port e)"

definition key_le :: "FacadeEntry \<Rightarrow> FacadeEntry \<Rightarrow> bool" where
  "key_le a b \<longleftrightarrow> \<not> key_less (order_key b) (order_key a)"

definition index_inv :: "FacadeEntry list \<Rightarrow> bool" where
  "index_inv es \<longleftrightarrow> sorted_wrt key_le es \<and> distinct (map tuple_of es)"

lemma key_le_total: "\<not> key_le a b \<Longrightarrow> key_le b a"
  by (auto simp: key_le_def key_less_def)

lemma key_le_trans: "key_le a b \<Longrightarrow> key_le b c \<Longrightarrow> key_le a c"
  by (auto simp: key_le_def key_less_def)

lemma set_insert_at: "set (insert_at i x xs) = insert x (set xs)"
  by (auto simp: insert_at_def) (metis append_take_drop_id Un_iff set_append in_set_takeD in_set_dropD)+

lemma map_insert_at: "map f (insert_at i x xs) = insert_at i (f x) (map f xs)"
  by (simp add: insert_at_def take_map drop_map)

lemma distinct_insert_at: "distinct (insert_at i x xs) \<longleftrightarrow> x \<notin> set xs \<and> distinct xs"
proof -
  have "mset (insert_at i x xs) = mset (x # xs)"
    by (simp add: insert_at_def) (metis append_take_drop_id mset_append)
  then show ?thesis by (metis distinct.simps(2) mset_eq_imp_distinct_iff)
qed

lemma set_insert_sorted [simp]: "set (insert_sorted e es) = insert e (set es)"
  by (simp add: insert_sorted_def set_insert_at)

lemma position_first:
  "position P xs = Some i \<Longrightarrow> x \<in> set (take i xs) \<Longrightarrow> \<not> P x"
proof (induction xs arbitrary: i)
  case (Cons y ys)
  then show ?case by (cases i) (auto split: if_splits)
qed simp

lemma sorted_insert_sorted:
  assumes "sorted_wrt key_le es"
  shows "sorted_wrt key_le (insert_sorted e es)"
proof (cases "position (\<lambda>x. key_less (order_key e) (order_key x)) es")
  case None
  then have "\<forall>x \<in> set es. key_le x e" by (simp add: position_None_iff key_le_def)
  with None assms show ?thesis by (simp add: insert_sorted_def insert_at_def sorted_wrt_append)
next
  case (Some i)
  then have i: "i < length es" "key_less (order_key e) (order_key (es ! i))" by (auto dest: position_SomeD)
  have before: "key_le x e" if "x \<in> set (take i es)" for x
    using position_first [OF Some that] by (simp add: key_le_def)
  have split: "sorted_wrt key_le (take i es @ drop i es)" using assms by simp
  have "drop i es = es ! i # drop (Suc i) es" using i(1) by (simp add: Cons_nth_drop_Suc)
  then have hd: "\<forall>y \<in> set (drop i es). key_le (es ! i) y"
    using split by (auto simp: sorted_wrt_append key_le_def key_less_def)
  have "key_le e (es ! i)" using i(2) by (auto simp: key_le_def key_less_def)
  then have "\<forall>y \<in> set (drop i es). key_le e y" using hd key_le_trans by blast
  then have "\<forall>x \<in> set (take i es). \<forall>y \<in> set (e # drop i es). key_le x y"
    using before key_le_trans by (metis set_ConsD)
  with \<open>\<forall>y \<in> set (drop i es). key_le e y\<close> split Some show ?thesis
    by (simp add: insert_sorted_def insert_at_def sorted_wrt_append)
qed

lemma index_insert:
  "index_inv es \<Longrightarrow> tuple_of e \<notin> tuple_of ` set es \<Longrightarrow> index_inv (insert_sorted e es)"
  by (simp add: index_inv_def sorted_insert_sorted)
    (simp add: insert_sorted_def map_insert_at distinct_insert_at)

lemma set_remove_at: "set (remove_at i xs) \<subseteq> set xs"
  by (auto simp: remove_at_def dest: in_set_takeD in_set_dropD)

lemma mset_remove_at: "i < length xs \<Longrightarrow> mset xs = add_mset (xs ! i) (mset (remove_at i xs))"
  by (simp add: remove_at_def) (metis Cons_nth_drop_Suc append_take_drop_id mset.simps(2) mset_append
      union_mset_add_mset_right)

lemma index_remove:
  assumes "index_inv es" and "i < length es"
  shows "index_inv (remove_at i es)" and "set (remove_at i es) = set es - {es ! i}"
    and "tuple_of (es ! i) \<notin> tuple_of ` set (remove_at i es)"
proof -
  have s: "es = take i es @ es ! i # drop (Suc i) es"
    using assms(2) by (simp add: Cons_nth_drop_Suc)
  have "sorted_wrt key_le (remove_at i es)"
    using assms(1) unfolding index_inv_def remove_at_def
    by (subst (asm) (1) s) (auto simp: sorted_wrt_append)
  moreover have "mset (map tuple_of es) = add_mset (tuple_of (es ! i)) (mset (map tuple_of (remove_at i es)))"
    using mset_remove_at [OF assms(2)] by simp
  then have d: "distinct (tuple_of (es ! i) # map tuple_of (remove_at i es))"
    using assms(1) by (metis index_inv_def mset.simps(2) mset_eq_imp_distinct_iff)
  ultimately show "index_inv (remove_at i es)" by (simp add: index_inv_def)
  from d show n: "tuple_of (es ! i) \<notin> tuple_of ` set (remove_at i es)" by simp
  have "set es = insert (es ! i) (set (remove_at i es))"
    using arg_cong [OF mset_remove_at [OF assms(2)], of set_mset] by simp
  with n show "set (remove_at i es) = set es - {es ! i}" by auto
qed

lemma index_filter: "index_inv es \<Longrightarrow> index_inv (filter P es)"
  by (simp add: index_inv_def sorted_wrt_filter distinct_map_filter)

lemma index_update:
  assumes "index_inv es" and "i < length es" and "order_key e = order_key (es ! i)"
    and "tuple_of e \<notin> tuple_of ` (set es - {es ! i})"
  shows "index_inv (es[i := e])"
proof -
  have s: "es = take i es @ es ! i # drop (Suc i) es"
    using assms(2) by (simp add: Cons_nth_drop_Suc)
  have u: "es[i := e] = take i es @ e # drop (Suc i) es"
    using assms(2) by (simp add: upd_conv_take_nth_drop)
  have "sorted_wrt key_le (take i es @ es ! i # drop (Suc i) es)" using assms(1) s by (simp add: index_inv_def)
  then have "sorted_wrt key_le (es[i := e])"
    unfolding u by (simp add: sorted_wrt_append key_le_def assms(3))
  moreover have "set (remove_at i es) = set es - {es ! i}" by (rule index_remove(2) [OF assms(1,2)])
  then have "distinct (map tuple_of (es[i := e]))"
    using index_remove(1) [OF assms(1,2)] assms(4) unfolding u index_inv_def remove_at_def
    by (auto simp: image_Un)
  ultimately show ?thesis by (simp add: index_inv_def)
qed

section \<open>The entry of a grant\<close>

lemma apply_entry_cases:
  assumes inv: "index_inv es"
  obtains (relabel) e es' where "e \<in> set es" "same_tuple proto owner int_port e"
      "apply_entry ext proto client owner int_port bp lt now desc es = (None, es')"
      "set es' = insert (e\<lparr>fe_req_ext := ext, fe_lifetime := lt, fe_expires := sat_add now (ucast lt),
         fe_desc := desc\<rparr>) (set es - {e})" "index_inv es'"
  | (overwrite) e es' where "e \<in> set es" "same_label ext proto owner e" "ext \<noteq> 0"
      "\<forall>x \<in> set es. \<not> same_tuple proto owner int_port x"
      "apply_entry ext proto client owner int_port bp lt now desc es =
         (if fe_bind_port e \<noteq> bp then Some (fe_bind_port e, fe_client e, fe_int_port e) else None, es')"
      "set es' = insert (e\<lparr>fe_req_ext := ext, fe_client := client, fe_int_port := int_port,
         fe_bind_port := bp, fe_lifetime := lt, fe_expires := sat_add now (ucast lt), fe_desc := desc\<rparr>)
         (set es - {e})" "index_inv es'"
  | (new) es' where "\<forall>x \<in> set es. \<not> same_tuple proto owner int_port x"
      "apply_entry ext proto client owner int_port bp lt now desc es = (None, es')"
      "set es' = insert \<lparr>fe_req_ext = ext, fe_proto = proto, fe_owner = owner, fe_client = client,
         fe_int_port = int_port, fe_bind_port = bp, fe_lifetime = lt,
         fe_expires = sat_add now (ucast lt), fe_desc = desc\<rparr> (set es)" "index_inv es'"
proof (cases "position (same_tuple proto owner int_port) es")
  case (Some i)
  then have i: "i < length es" "same_tuple proto owner int_port (es ! i)" by (auto dest: position_SomeD)
  let ?e = "(es ! i)\<lparr>fe_req_ext := ext, fe_lifetime := lt, fe_expires := sat_add now (ucast lt), fe_desc := desc\<rparr>"
  note r = index_remove [OF inv i(1)]
  have t: "tuple_of ?e = tuple_of (es ! i)" by (simp add: tuple_of_def)
  show ?thesis
    by (rule relabel [of "es ! i" "insert_sorted ?e (remove_at i es)"])
      (use Some i r(2,3) t index_insert [OF r(1), of ?e] in \<open>simp_all add: apply_entry_def\<close>)
next
  case None
  then have fresh: "\<forall>x \<in> set es. \<not> same_tuple proto owner int_port x" by (simp add: position_None_iff)
  show ?thesis
  proof (cases "if ext = 0 then None else position (same_label ext proto owner) es")
    case (Some i)
    then have i: "ext \<noteq> 0" "i < length es" "same_label ext proto owner (es ! i)"
      by (auto dest: position_SomeD split: if_splits)
    let ?e = "(es ! i)\<lparr>fe_req_ext := ext, fe_client := client, fe_int_port := int_port,
         fe_bind_port := bp, fe_lifetime := lt, fe_expires := sat_add now (ucast lt), fe_desc := desc\<rparr>"
    have "tuple_of ?e \<notin> tuple_of ` set es"
      using fresh i(3) by (auto simp: tuple_of_def same_tuple_def same_label_def)
    moreover have "order_key ?e = order_key (es ! i)" using i(3) by (simp add: order_key_def same_label_def)
    ultimately have "index_inv (es[i := ?e])" using index_update [OF inv i(2)] by blast
    moreover have "set (es[i := ?e]) = insert ?e (set es - {es ! i})"
      using inv i(2) by (simp add: index_inv_def distinct_map set_update_distinct)
    ultimately show ?thesis
      by (intro overwrite [of "es ! i" "es[i := ?e]"])
        (use Some None i fresh in \<open>simp_all add: apply_entry_def\<close>)
  next
    case none: None
    let ?e = "\<lparr>fe_req_ext = ext, fe_proto = proto, fe_owner = owner, fe_client = client,
         fe_int_port = int_port, fe_bind_port = bp, fe_lifetime = lt,
         fe_expires = sat_add now (ucast lt), fe_desc = desc\<rparr>"
    have "tuple_of ?e \<notin> tuple_of ` set es" using fresh by (auto simp: tuple_of_def same_tuple_def)
    from index_insert [OF inv this] show ?thesis
      by (intro new [of "insert_sorted ?e es"]) (use None none fresh in \<open>simp_all add: apply_entry_def\<close>)
  qed
qed

lemma apply_entry_inv:
  "index_inv es \<Longrightarrow> index_inv (snd (apply_entry ext proto client owner int_port bp lt now desc es))"
  by (erule apply_entry_cases [of es proto owner int_port ext client bp lt now desc]) simp_all

section \<open>The wildcard port\<close>

lemma free_port_from_spec:
  "p \<le> free_port_from es proto p \<and> (\<forall>q. p \<le> q \<longrightarrow> q < free_port_from es proto p \<longrightarrow> label_taken es proto q)
   \<and> (free_port_from es proto p \<noteq> - 1 \<longrightarrow> \<not> label_taken es proto (free_port_from es proto p))"
proof (induction es proto p rule: free_port_from.induct)
  case (1 es proto p)
  show ?case
  proof (cases "p < - 1 \<and> label_taken es proto p")
    case True
    then have s: "unat (p + 1) = Suc (unat p)" by (auto intro: unat_succ_below)
    have e: "free_port_from es proto p = free_port_from es proto (p + 1)"
      using True by (subst free_port_from.simps) simp
    have below: "p \<le> q \<Longrightarrow> q = p \<or> p + 1 \<le> q" for q :: u16
      using s by (auto simp: word_le_nat_alt word_unat_eq_iff)
    have "p \<le> p + 1" using s by (simp add: word_le_nat_alt)
    note ih = "1.IH" [OF True]
    let ?r = "free_port_from es proto (p + 1)"
    have "p \<le> ?r" using ih \<open>p \<le> p + 1\<close> by (blast intro: order_trans)
    moreover have "label_taken es proto q" if "p \<le> q" "q < ?r" for q
      using below [OF that(1)] that(2) True ih by blast
    ultimately show ?thesis unfolding e using ih by blast
  next
    case False
    then have "free_port_from es proto p = p"
      unfolding free_port_from.simps [of es proto p] if_not_P [OF False] by simp
    moreover from False have "p \<noteq> - 1 \<longrightarrow> \<not> label_taken es proto p"
      by (metis word_order.not_eq_extremum)
    ultimately show ?thesis by auto
  qed
qed

text \<open>The wildcard port is the lowest free label. The port chosen for a request that
  names none is at least 1024, every label of that protocol between 1024 and it is taken, and it
  is itself free unless it is 65535, where the scan stops whatever that label's state.\<close>

theorem wildcard_port_lowest:
  "1024 \<le> free_requested_port es proto
   \<and> (\<forall>q. 1024 \<le> q \<longrightarrow> q < free_requested_port es proto \<longrightarrow> label_taken es proto q)
   \<and> (free_requested_port es proto = 65535 \<or> \<not> label_taken es proto (free_requested_port es proto))"
proof -
  have "(- 1 :: u16) = 65535" by simp
  with free_port_from_spec [of 1024 es proto] show ?thesis
    unfolding free_requested_port_def ANY_PORT_BASE_def by metis
qed

theorem wildcard_port_lowest_witness:
  "free_requested_port [demo_entry\<lparr>fe_req_ext := 1024\<rparr>, demo_entry\<lparr>fe_req_ext := 1026\<rparr>] Udp = 1025
   \<and> (1025 = (65535 :: u16) \<or> \<not> label_taken [demo_entry\<lparr>fe_req_ext := 1024\<rparr>, demo_entry\<lparr>fe_req_ext := 1026\<rparr>] Udp 1025)"
proof -
  have r: "free_requested_port [demo_entry\<lparr>fe_req_ext := 1024\<rparr>, demo_entry\<lparr>fe_req_ext := 1026\<rparr>] Udp = 1025"
    by code_simp
  from wildcard_port_lowest [of "[demo_entry\<lparr>fe_req_ext := 1024\<rparr>, demo_entry\<lparr>fe_req_ext := 1026\<rparr>]" Udp]
  show ?thesis unfolding r by blast
qed

section \<open>Reading\<close>

lemma listing_from_take:
  assumes "max_n \<noteq> 0 \<longrightarrow> seen \<le> max_n"
  shows "listing_from start end_p proto max_n view seen es =
    (let shown = filter (\<lambda>e. (case proto of Some p \<Rightarrow> fe_proto e = p | None \<Rightarrow> True)
        \<and> start \<le> fe_req_ext e \<and> fe_req_ext e \<le> end_p \<and> may_see view e) es
     in if max_n = 0 then shown else take (unat (max_n - seen)) shown)"
  using assms
proof (induction es arbitrary: seen)
  case (Cons e es)
  show ?case
  proof (cases "max_n \<noteq> 0 \<and> max_n \<le> seen")
    case True
    with Cons.prems have "seen = max_n" by simp
    with True Cons show ?thesis by (auto simp: Let_def split: option.splits)
  next
    case False
    show ?thesis
    proof (cases "max_n = 0")
      case True
      with Cons show ?thesis by (auto simp: Let_def not_le split: option.splits)
    next
      case m: False
      with False have lt: "seen < max_n" by simp
      then have s: "unat (seen + 1) = Suc (unat seen)" by (rule unat_succ_below)
      with lt have "seen + 1 \<le> max_n" by (simp add: word_le_nat_alt word_less_nat_alt)
      moreover from this have "unat (max_n - seen) = Suc (unat (max_n - (seen + 1)))"
        using lt s by (simp add: unat_sub word_le_nat_alt word_less_nat_alt)
      ultimately show ?thesis
        using Cons m lt by (auto simp: Let_def not_le split: option.splits)
    qed
  qed
qed (simp add: Let_def)

text \<open>The answer to a list request, as it is written around the entries it shows.\<close>

definition listing_text :: "u64 \<Rightarrow> FacadeEntry list \<Rightarrow> string" where
  "listing_text now shown = ''<NewPortListing><![CDATA['' @ PORT_LISTING_OPEN @ concat (map (listing_entry now) shown)
     @ ''</p:PortMappingList>'' @ '']]></NewPortListing>''"

definition own_and_covered :: "Contain \<Rightarrow> FacadeEntry list \<Rightarrow> FacadeEntry set" where
  "own_and_covered c es = {e \<in> set es. entry_within c e \<and> fe_owner e = cn_caller c}"

text \<open>C30 (safety): a caller without the lift reads only its own mappings. Whatever a contained
  caller asks for, by label, by index or as a list, the answer is an error or the rendering of
  entries of the index that the caller owns and that its containment covers; the answer to a list
  request renders at least one entry and only such ones.\<close>

theorem reads_are_contained:
  "(\<forall>r. get_specific ext proto caller (Some c) es = Inr r \<longrightarrow>
      (\<exists>e \<in> own_and_covered c es. r = entry_xml e False))
   \<and> (\<forall>r. get_generic i (Some c) es = Inr r \<longrightarrow>
      (\<exists>e \<in> own_and_covered c es. r = entry_xml e True))
   \<and> (\<forall>r. list_port_mappings start end_p p m (Some c) now es = Inr r \<longrightarrow>
      (\<exists>shown. shown \<noteq> [] \<and> set shown \<subseteq> own_and_covered c es \<and> r = listing_text now shown))"
proof (intro conjI allI impI)
  fix r assume "get_specific ext proto caller (Some c) es = Inr r"
  then show "\<exists>e \<in> own_and_covered c es. r = entry_xml e False"
    by (auto simp: get_specific_def may_see_def entry_within_def own_and_covered_def dest: find_SomeD
        split: option.splits if_splits)
next
  fix r assume r: "get_generic i (Some c) es = Inr r"
  let ?v = "filter (may_see (Some c)) es"
  from r have "unat i < length ?v" and x: "r = entry_xml (?v ! unat i) True"
    by (auto simp: get_generic_def Let_def split: if_splits)
  then have "?v ! unat i \<in> set ?v" by (simp only: nth_mem)
  with x show "\<exists>e \<in> own_and_covered c es. r = entry_xml e True"
    by (auto simp: may_see_def entry_within_def own_and_covered_def)
next
  fix r assume r: "list_port_mappings start end_p p m (Some c) now es = Inr r"
  let ?shown = "listing_from start end_p p m (Some c) 0 es"
  from r have "?shown \<noteq> []" and "r = listing_text now ?shown"
    by (auto simp: list_port_mappings_def listing_text_def Let_def split: if_splits)
  moreover have "set ?shown \<subseteq> own_and_covered c es"
    by (auto simp: listing_from_take Let_def may_see_def entry_within_def own_and_covered_def
        dest: in_set_takeD split: if_splits)
  ultimately show "\<exists>shown. shown \<noteq> [] \<and> set shown \<subseteq> own_and_covered c es \<and> r = listing_text now shown" by blast
qed

text \<open>Of two mappings, the list shows the caller its own.\<close>

theorem reads_are_contained_witness:
  "\<exists>r shown. list_port_mappings 0 65535 None 0 (Some \<lparr>cn_caller = ipv4_of 192 168 21 5, cn_high_port = True\<rparr>) 0
      [demo_entry, demo_entry\<lparr>fe_owner := ipv4_of 192 168 21 6\<rparr>] = Inr r
     \<and> shown \<noteq> [] \<and> set shown \<subseteq> {e. fe_owner e = ipv4_of 192 168 21 5} \<and> r = listing_text 0 shown"
proof -
  let ?c = "\<lparr>cn_caller = ipv4_of 192 168 21 5, cn_high_port = True\<rparr>"
  let ?es = "[demo_entry, demo_entry\<lparr>fe_owner := ipv4_of 192 168 21 6\<rparr>]"
  have "listing_from 0 65535 None 0 (Some ?c) 0 ?es \<noteq> []" by code_simp
  then obtain r where r: "list_port_mappings 0 65535 None 0 (Some ?c) 0 ?es = Inr r"
    by (simp add: list_port_mappings_def Let_def)
  then obtain shown where "shown \<noteq> []" "set shown \<subseteq> own_and_covered ?c ?es" "r = listing_text 0 shown"
    using reads_are_contained [of 5000 Udp 0 ?c ?es 0 0 65535 None 0 0] by blast
  with r show ?thesis by (auto simp: own_and_covered_def)
qed

text \<open>The listing is a bounded filter. The loop of the port listing, with its early
  stop, returns the entries of the asked protocol and range that the caller may see, in the order
  of the index, the first \<open>max\<close> of them unless \<open>max\<close> is zero.\<close>

theorem listing_is_bounded_filter:
  "listing_from start end_p proto max_n view 0 es =
    (let shown = filter (\<lambda>e. (case proto of Some p \<Rightarrow> fe_proto e = p | None \<Rightarrow> True)
        \<and> start \<le> fe_req_ext e \<and> fe_req_ext e \<le> end_p \<and> may_see view e) es
     in if max_n = 0 then shown else take (unat max_n) shown)"
  using listing_from_take [of max_n 0 start end_p proto view es] by (simp add: Let_def)

section \<open>Escaping\<close>

lemma esc_safe: "set (esc c) \<inter> {CHR ''<'', CHR ''>'', CHR 0x22, CHR 0x27} = {}"
  by (auto simp: esc_def)

fun unesc :: "string \<Rightarrow> string" where
  "unesc [] = []"
| "unesc (c # s) =
     (if c \<noteq> CHR ''&'' then c # unesc s
      else if take 4 s = ''amp;'' then CHR ''&'' # unesc (drop 4 s)
      else if take 3 s = ''lt;'' then CHR ''<'' # unesc (drop 3 s)
      else if take 3 s = ''gt;'' then CHR ''>'' # unesc (drop 3 s)
      else if take 5 s = ''quot;'' then CHR 0x22 # unesc (drop 5 s)
      else if take 5 s = ''apos;'' then CHR 0x27 # unesc (drop 5 s)
      else c # unesc s)"

text \<open>C23 (roundtrip): a label cannot become markup. The escaped text has none of the characters that
  open or close a tag or an attribute, and a reader that decodes the five entities gets the label
  back, so no two labels look alike.\<close>

theorem escaped_label:
  "set (xml_escape s) \<inter> {CHR ''<'', CHR ''>'', CHR 0x22, CHR 0x27} = {} \<and> unesc (xml_escape s) = s"
proof
  show "set (xml_escape s) \<inter> {CHR ''<'', CHR ''>'', CHR 0x22, CHR 0x27} = {}"
    using esc_safe by (fastforce simp: xml_escape_def)
  show "unesc (xml_escape s) = s"
    by (induction s) (auto simp: xml_escape_def esc_def)
qed

end
