(* ===== verification/Publish.thy ===== *)
theory Publish
  imports Text
begin

text \<open>
  The publisher of learned tuples (\<open>src/src/publish.rs\<close>): the tuples held in memory, the files of
  the state directory, the external address mirrored to the facade, and the transitions logged.
  Whether a write or a removal succeeds is an argument (for a slot's file, the error's text).
\<close>

record Publisher =
  pb_slots :: "u16 \<Rightarrow> tuple4 option"
  pb_files :: "u16 \<Rightarrow> string option"
  pb_tuple :: "string option"
  pb_watch :: ipv4
  pb_dir_failed :: bool
  pb_log :: "(string \<times> string) list"

definition with_watch :: "(u16 \<Rightarrow> string option) \<Rightarrow> string option \<Rightarrow> ipv4 \<Rightarrow> Publisher" where
  "with_watch files agg seed = \<lparr>pb_slots = Map.empty, pb_files = files, pb_tuple = agg,
     pb_watch = seed, pb_dir_failed = False, pb_log = []\<rparr>"

definition tuple_text :: "tuple4 \<Rightarrow> string" where
  "tuple_text t = show_ipv4 (fst t) @ '':'' @ show_word (snd t)"

definition log_transition :: "string \<Rightarrow> string \<Rightarrow> Publisher \<Rightarrow> Publisher" where
  "log_transition event detail p = p\<lparr>pb_log := pb_log p @ [(event, detail)]\<rparr>"

definition note_write :: "string \<Rightarrow> string option \<Rightarrow> Publisher \<Rightarrow> Publisher" where
  "note_write what r p =
     (let was = pb_dir_failed p
      in case r of
           None \<Rightarrow>
             (if was then log_transition ''state-write-recovered'' what (p\<lparr>pb_dir_failed := False\<rparr>)
              else p\<lparr>pb_dir_failed := False\<rparr>)
         | Some e \<Rightarrow>
             (if was then p\<lparr>pb_dir_failed := True\<rparr>
              else log_transition ''state-write-failed''
                     (what @ '': '' @ e @ '' (state is held in memory)'') (p\<lparr>pb_dir_failed := True\<rparr>)))"

definition publish :: "bool \<Rightarrow> tuple4 \<Rightarrow> Publisher \<Rightarrow> Publisher" where
  "publish ok t p = (if ok then p\<lparr>pb_tuple := Some (tuple_text t @ [nl])\<rparr> else p)"

definition publish_slot :: "string option \<Rightarrow> bool \<Rightarrow> u16 \<Rightarrow> tuple4 \<Rightarrow> Publisher \<Rightarrow> Publisher" where
  "publish_slot slot_err agg_ok bind_port t p =
     (let p1 = p\<lparr>pb_slots := (pb_slots p)(bind_port \<mapsto> t)\<rparr>;
          p2 = (if slot_err = None then p1\<lparr>pb_files := (pb_files p1)(bind_port \<mapsto> tuple_text t @ [nl])\<rparr> else p1);
          p3 = note_write (''tuple-'' @ show_word bind_port) slot_err p2
      in (publish agg_ok t p3)\<lparr>pb_watch := fst t\<rparr>)"

definition parse_tuple :: "string \<Rightarrow> tuple4 option" where
  "parse_tuple s =
     (case split_once CHR '':'' (trim s) of
        None \<Rightarrow> None
      | Some (a, b) \<Rightarrow>
          (case (parse_ipv4 a, parse_word b) of (Some ip, Some port) \<Rightarrow> Some (ip, port) | _ \<Rightarrow> None))"

definition slot_tuple :: "u16 \<Rightarrow> Publisher \<Rightarrow> tuple4 option" where
  "slot_tuple bind_port p =
     (case pb_slots p bind_port of
        Some t \<Rightarrow> Some t
      | None \<Rightarrow> (case pb_files p bind_port of Some s \<Rightarrow> parse_tuple s | None \<Rightarrow> None))"

definition remove_slot :: "bool \<Rightarrow> u16 \<Rightarrow> Publisher \<Rightarrow> Publisher" where
  "remove_slot ok bind_port p =
     (let p1 = p\<lparr>pb_slots := (pb_slots p)(bind_port := None)\<rparr>
      in if ok then p1\<lparr>pb_files := (pb_files p1)(bind_port := None)\<rparr> else p1)"

section \<open>Reading back\<close>

lemma parse_tuple_text: "parse_tuple (tuple_text t @ [nl]) = Some t"
proof -
  obtain ip port where t: "t = (ip, port)" by fastforce
  have ws: "is_ws nl" by (simp add: is_ws_def nl_def)
  have plain: "\<forall>c \<in> set (tuple_text t). \<not> is_ws c"
    by (auto simp: t tuple_text_def is_ws_def dest: show_ipv4_plain show_word_plain)
  have ne: "tuple_text t \<noteq> []" by (simp add: tuple_text_def)
  then have hd: "\<not> is_ws (hd (tuple_text t))" using plain by (simp add: hd_in_set)
  have "dropWhile is_ws (tuple_text t @ [nl]) = tuple_text t @ [nl]"
    using hd ne by (simp add: dropWhile_eq_self_iff)
  then have "trim (tuple_text t @ [nl]) = trim_end (tuple_text t @ [nl])"
    by (simp add: trim_def trim_start_def)
  also have "\<dots> = trim_end (tuple_text t)" by (simp add: trim_end_def ws)
  also have "\<dots> = tuple_text t"
  proof -
    have "dropWhile is_ws (rev (tuple_text t)) = rev (tuple_text t)"
      using plain ne by (auto simp: dropWhile_eq_self_iff hd_rev last_in_set)
    then show ?thesis by (simp add: trim_end_def)
  qed
  finally have tr: "trim (tuple_text t @ [nl]) = tuple_text t" .
  have "CHR '':'' \<notin> set (show_ipv4 ip)" by (auto dest: show_ipv4_plain)
  then have sp: "split_once CHR '':'' (tuple_text t) = Some (show_ipv4 ip, show_word port)"
    using split_once_append [of "CHR '':''" "show_ipv4 ip" "show_word port"] by (simp add: t tuple_text_def)
  show ?thesis unfolding parse_tuple_def tr sp by (simp add: t)
qed

text \<open>A learned tuple outlives the process and dies with its mapping. What was
  published for a slot is what its clients are told, also after a restart that finds the slot's
  file, whether or not the aggregate file could be written; and once the slot is removed nothing
  is told for it.\<close>

theorem tuple_published_and_removed:
  "slot_tuple q (publish_slot r1 agg q t p) = Some t
   \<and> slot_tuple q (with_watch (pb_files (publish_slot None agg q t p)) a seed) = Some t
   \<and> slot_tuple q (remove_slot True q p) = None
   \<and> (r \<noteq> q \<longrightarrow> slot_tuple r (remove_slot ok q p) = slot_tuple r p)"
  using parse_tuple_text [of t]
  by (auto simp: slot_tuple_def publish_slot_def publish_def note_write_def log_transition_def
      remove_slot_def with_watch_def Let_def split: option.split)

theorem tuple_published_and_removed_witness:
  "slot_tuple 30001 (publish_slot (Some ''ENOSPC'') False 30001 (ipv4_of 203 0 113 9, 4242) (with_watch Map.empty None 0))
     = Some (ipv4_of 203 0 113 9, 4242)
   \<and> slot_tuple 30002 (remove_slot True 30001 (with_watch Map.empty None 0)) = slot_tuple 30002 (with_watch Map.empty None 0)"
  using tuple_published_and_removed [of 30001 "Some ''ENOSPC''" False "(ipv4_of 203 0 113 9, 4242)"
        "with_watch Map.empty None 0" None 0 30002 True]
  by simp

end
