(* ===== verification/Facade.thy ===== *)
theory Facade
  imports Facade_Index Gena Nft Publish Persist Pcp Health Dp
begin

text \<open>
  The facade (\<open>src/src/upnpsvc.rs\<close>): its state, and the operations behind every dialect: grants,
  deletes, evictions, the PCP and NAT-PMP admission, the collector and the restored grants. What
  the outside answers during one operation is its environment \<open>Env\<close>. The code holds no lock over a
  whole operation; here one operation is one step, and the clock is read once.
\<close>

section \<open>State and environment\<close>

text \<open>A slot's task is the datapath it runs: the protocol and the target it forwards to.\<close>

record Facade =
  f_table :: LeaseTable
  f_entries :: "FacadeEntry list"
  f_tasks :: "u16 \<Rightarrow> (Proto \<times> tuple4) option"
  f_nft :: Nft
  f_pub :: Publisher
  f_gena :: GenaState
  f_dp :: DpState
  f_wait :: "u16 \<Rightarrow> u64 option"
  f_misses :: "u16 \<Rightarrow> u8 option"
  f_leases_file :: string
  f_index_file :: string
  f_dp_file :: string

record UpnpConfig =
  c_lan_ip :: ipv4
  c_grace_secs :: u64
  c_started :: u64

record Env =
  v_now :: u64
  v_nft :: "string \<Rightarrow> bool"
  v_live :: "string + tuple4 list"
  v_bind :: "Proto \<Rightarrow> u16 \<Rightarrow> string option"
  v_write :: "string \<Rightarrow> string option"
  v_remove :: "u16 \<Rightarrow> bool"
  v_up :: "ipv4 \<Rightarrow> bool"
  v_conntrack :: "string option"

definition LEASE_GRACE_S :: u64 where "LEASE_GRACE_S = 86400"
definition LEASE_BACKSTOP_S :: u64 where "LEASE_BACKSTOP_S = 604800"
definition DISCOVERY_GRACE_S :: u64 where "DISCOVERY_GRACE_S = 10"

definition external_ip :: "Facade \<Rightarrow> ipv4 option" where
  "external_ip F = (if pb_watch (f_pub F) = 0 then None else Some (pb_watch (f_pub F)))"

definition ext_or_zero :: "Facade \<Rightarrow> ipv4" where
  "ext_or_zero F = (case external_ip F of Some ip \<Rightarrow> ip | None \<Rightarrow> 0)"

definition dp_holds_lift :: "ipv4 \<Rightarrow> u64 \<Rightarrow> Facade \<Rightarrow> bool" where
  "dp_holds_lift key now F = authorize (session_roles key now (f_dp F)) (Roles [''Basic''])"

section \<open>Events and persistence\<close>

definition view_for :: "u64 \<Rightarrow> Facade \<Rightarrow> ipv4 \<Rightarrow> ipv4 \<Rightarrow> bool \<Rightarrow> EventView" where
  "view_for now F ext caller v2 =
     (let scope = (if dp_holds_lift caller now F then None
                   else Some \<lparr>cn_caller = caller, cn_high_port = v2\<rparr>)
      in EventView_new ext (scoped_count scope (f_entries F)) (g_update_id (f_gena F)))"

definition notify_subscribers :: "u64 \<Rightarrow> ipv4 \<Rightarrow> Facade \<Rightarrow> Facade" where
  "notify_subscribers now ip F = F\<lparr>f_gena := notify_all (view_for now F ip) (f_gena F)\<rparr>"

definition signal_change :: "u64 \<Rightarrow> Facade \<Rightarrow> Facade" where
  "signal_change now F =
     (let F1 = F\<lparr>f_gena := bump_update_id (f_gena F)\<rparr>
      in notify_subscribers now (ext_or_zero F1) F1)"

text \<open>A write that fails leaves the file as it was; either way the tables are what is in memory.\<close>

definition persist :: "Env \<Rightarrow> Facade \<Rightarrow> Facade" where
  "persist V F =
     (let w1 = v_write V ''leases.tsv''; w2 = v_write V ''upnp.tsv''
      in F\<lparr>f_leases_file := (if w1 = None then tsv (snapshot (t_slots (f_table F)) (v_now V)) else f_leases_file F),
           f_index_file := (if w2 = None then entries_file (f_entries F) else f_index_file F),
           f_pub := note_write ''upnp.tsv'' w2 (note_write ''leases.tsv'' w1 (f_pub F))\<rparr>)"

definition log_f :: "string \<Rightarrow> string \<Rightarrow> Facade \<Rightarrow> Facade" where
  "log_f event detail F = F\<lparr>f_pub := log_transition event detail (f_pub F)\<rparr>"

section \<open>Taking a datapath down\<close>

definition abort_tasks :: "u16 \<Rightarrow> Facade \<Rightarrow> Facade" where
  "abort_tasks p F = F\<lparr>f_tasks := (f_tasks F)(p := None)\<rparr>"

definition drop_datapath :: "Env \<Rightarrow> u16 \<Rightarrow> Proto \<Rightarrow> Facade \<Rightarrow> Facade" where
  "drop_datapath V p proto F =
     F\<lparr>f_nft := revoke_datapath (v_nft V) p (proto = Tcp) (f_nft F),
       f_pub := Publish.remove_slot (v_remove V p) p (f_pub F)\<rparr>"

text \<open>The sequence shared by a delete, an eviction and a stray: table, rules, tuple, tasks.\<close>

definition release_port :: "Env \<Rightarrow> u16 \<Rightarrow> Proto \<Rightarrow> Facade \<Rightarrow> Facade" where
  "release_port V p proto F =
     abort_tasks p (drop_datapath V p proto (F\<lparr>f_table := snd (delete_by_bind_port p (f_table F))\<rparr>))"

section \<open>Granting\<close>

definition upsert_once ::
  "Proto \<Rightarrow> u16 \<Rightarrow> ipv4 \<Rightarrow> u32 \<Rightarrow> u64 \<Rightarrow> Facade \<Rightarrow> UpsertOutcome \<times> Facade" where
  "upsert_once proto int_port client lifetime now F =
     (let (r, T) = upsert_pcp proto int_port client lifetime now client int_port (f_table F)
      in (r, F\<lparr>f_table := T\<rparr>))"

definition evict_candidate ::
  "Env \<Rightarrow> ipv4 \<Rightarrow> Facade \<Rightarrow> (u16 \<times> ipv4 \<times> u16 \<times> Proto) option \<times> Facade" where
  "evict_candidate V requester F =
     (case evict_idle_client (v_now V) LEASE_GRACE_S requester (f_table F) of
        None \<Rightarrow> (None, F)
      | Some (old_bind, old_client, old_int, old_proto) \<Rightarrow>
          let F1 = release_port V old_bind old_proto F;
              F2 = F1\<lparr>f_entries := filter (\<lambda>e. fe_bind_port e \<noteq> old_bind) (f_entries F1)\<rparr>
          in (Some (old_bind, old_client, old_int, old_proto), persist V F2))"

definition upsert_or_evict ::
  "Env \<Rightarrow> Proto \<Rightarrow> u16 \<Rightarrow> ipv4 \<Rightarrow> u32 \<Rightarrow> Facade \<Rightarrow> UpsertOutcome \<times> Facade" where
  "upsert_or_evict V proto int_port client lifetime F =
     (let (outcome, F1) = upsert_once proto int_port client lifetime (v_now V) F
      in if outcome = TableFull
         then (case evict_candidate V client F1 of
                 (None, F2) \<Rightarrow> (outcome, F2)
               | (Some _, F2) \<Rightarrow> upsert_once proto int_port client lifetime (v_now V) F2)
         else (outcome, F1))"

definition collision_probe :: "Env \<Rightarrow> Facade \<Rightarrow> Facade" where
  "collision_probe V F =
     (case v_live V of
        Inr live \<Rightarrow> F\<lparr>f_table := avoid_ports (map snd live) (f_table F)\<rparr>
      | Inl e \<Rightarrow> log_f ''collision-probe-unavailable'' (''no live-tuple set to steer around: '' @ e) F)"

definition log_steering :: "u16 \<Rightarrow> Facade \<Rightarrow> Facade" where
  "log_steering p F =
     (let steered = avoid_steering p (f_table F)
      in if steered = [] then F
         else log_f ''collision-avoided'' (''slot '' @ show_word p @ '' steered around the live tuple(s) ['' @
                join '', '' (map show_word steered) @ '']'') F)"

definition spawn_slot :: "Env \<Rightarrow> Proto \<Rightarrow> u16 \<Rightarrow> tuple4 \<Rightarrow> Facade \<Rightarrow> string option \<times> Facade" where
  "spawn_slot V proto p target F =
     (case v_bind V proto p of
        None \<Rightarrow> (None, F\<lparr>f_tasks := (f_tasks F)(p \<mapsto> (proto, target))\<rparr>)
      | Some e \<Rightarrow> (Some e, F))"

text \<open>The datapath of a new slot; a failure takes back what the code takes back.\<close>

definition install :: "Env \<Rightarrow> Proto \<Rightarrow> ipv4 \<Rightarrow> u16 \<Rightarrow> u16 \<Rightarrow> Facade \<Rightarrow> bool \<times> Facade" where
  "install V proto client int_port p F =
     (case grant_datapath (v_nft V) client int_port p (proto = Tcp) (f_nft F) of
        (False, N) \<Rightarrow>
          (let F1 = drop_datapath V p proto (F\<lparr>f_nft := N\<rparr>)
           in (False, F1\<lparr>f_table := snd (delete_by_bind_port p (f_table F1))\<rparr>))
      | (True, N) \<Rightarrow>
          (case spawn_slot V proto p (client, int_port) (F\<lparr>f_nft := N\<rparr>) of
             (None, F1) \<Rightarrow> (True, log_steering p F1)
           | (Some e, F1) \<Rightarrow>
               (False, F1\<lparr>f_nft := del_input_accept (v_nft V) p (proto = Tcp) (f_nft F1),
                  f_table := snd (delete_by_bind_port p (f_table F1))\<rparr>)))"

definition record_grant ::
  "Env \<Rightarrow> MappingReq \<Rightarrow> ipv4 \<Rightarrow> u32 \<Rightarrow> u16 \<Rightarrow> Facade \<Rightarrow> Facade" where
  "record_grant V r owner lifetime p F =
     (let (stray, es) = apply_entry (mr_ext r) (mr_proto r) (mr_client r) owner (mr_int_port r) p
            lifetime (v_now V) (mr_desc r) (f_entries F);
          F1 = F\<lparr>f_entries := es\<rparr>;
          F2 = (case stray of Some (old_bind, _, _) \<Rightarrow> release_port V old_bind (mr_proto r) F1 | None \<Rightarrow> F1)
      in persist V (signal_change (v_now V) F2))"

definition grant_mapping ::
  "UpnpConfig \<Rightarrow> Env \<Rightarrow> MappingReq \<Rightarrow> ipv4 \<Rightarrow> Contain option \<Rightarrow> Facade \<Rightarrow> (UpnpErr + UpsertOutcome) \<times> Facade"
  where
  "grant_mapping C V r owner view F =
     (if (case view of Some c \<Rightarrow> \<not> request_within c (mr_client r) (mr_ext r) (mr_int_port r) | None \<Rightarrow> False)
      then (Inl UE_NotAuthorized, F)
      else if \<not> in_lan (mr_client r) (c_lan_ip C) then (Inl InvalidArgs, F)
      else
        let lifetime = (if mr_lifetime r = 0 then INFINITE_LEASE else mr_lifetime r);
            F1 = (if by_pcp_key (mr_proto r, mr_int_port r, owner) (f_table F) = None
                  then collision_probe V F else F);
            (outcome, F2) = upsert_or_evict V (mr_proto r) (mr_int_port r) (mr_client r) lifetime F1
        in (case outcome of
              Granted_at p \<Rightarrow>
                (case install V (mr_proto r) (mr_client r) (mr_int_port r) p F2 of
                   (False, F3) \<Rightarrow> (Inl ActionFailed, F3)
                 | (True, F3) \<Rightarrow> (Inr outcome, record_grant V r owner lifetime p F3))
            | Refreshed_at p \<Rightarrow> (Inr outcome, record_grant V r owner lifetime p F2)
            | UserQuotaExceeded \<Rightarrow> (Inl ActionFailed, F2)
            | TableFull \<Rightarrow> (Inl ActionFailed, F2)))"

definition allocate_exact ::
  "UpnpConfig \<Rightarrow> Env \<Rightarrow> MappingReq \<Rightarrow> ipv4 \<Rightarrow> Contain option \<Rightarrow> Facade \<Rightarrow> (UpnpErr + string) \<times> Facade" where
  "allocate_exact C V r owner view F =
     (case grant_mapping C V r owner view F of (Inl e, F1) \<Rightarrow> (Inl e, F1) | (Inr _, F1) \<Rightarrow> (Inr [], F1))"

definition allocate_preferred ::
  "UpnpConfig \<Rightarrow> Env \<Rightarrow> MappingReq \<Rightarrow> ipv4 \<Rightarrow> Contain option \<Rightarrow> Facade \<Rightarrow> (UpnpErr + string) \<times> Facade" where
  "allocate_preferred C V r owner view F =
     (if (case view of Some c \<Rightarrow> \<not> request_within c (mr_client r) (mr_ext r) (mr_int_port r) | None \<Rightarrow> False)
      then (Inl UE_NotAuthorized, F)
      else
        let ext = preferred_port (f_entries F) (mr_ext r) (mr_proto r)
        in (case allocate_exact C V (r\<lparr>mr_ext := ext\<rparr>) owner None F of
              (Inl e, F1) \<Rightarrow> (Inl e, F1)
            | (Inr _, F1) \<Rightarrow> (Inr (elem ''NewReservedPort'' (show_word ext)), F1)))"

section \<open>Deleting\<close>

definition delete_mapping ::
  "Env \<Rightarrow> u16 \<Rightarrow> Proto \<Rightarrow> ipv4 \<Rightarrow> Contain option \<Rightarrow> Facade \<Rightarrow> (UpnpErr + string) \<times> Facade" where
  "delete_mapping V req_ext proto caller view F =
     (case find (same_label req_ext proto caller) (f_entries F) of
        None \<Rightarrow> (Inl NoSuchEntry, F)
      | Some e \<Rightarrow>
          if \<not> may_see view e then (Inl UE_NotAuthorized, F)
          else
            let F1 = release_port V (fe_bind_port e) proto F;
                F2 = F1\<lparr>f_entries := filter (\<lambda>x. \<not> same_label req_ext proto caller x) (f_entries F1)\<rparr>
            in (Inr [], persist V (signal_change (v_now V) F2)))"

definition range_targets ::
  "u16 \<Rightarrow> u16 \<Rightarrow> Proto \<Rightarrow> Contain option \<Rightarrow> FacadeEntry list \<Rightarrow> (u16 \<times> ipv4) list" where
  "range_targets start end_p proto view es =
     map (\<lambda>e. (fe_req_ext e, fe_owner e))
       (filter (may_see view)
         (filter (\<lambda>e. fe_proto e = proto \<and> start \<le> fe_req_ext e \<and> fe_req_ext e \<le> end_p) es))"

definition delete_mapping_range ::
  "Env \<Rightarrow> u16 \<Rightarrow> u16 \<Rightarrow> Proto \<Rightarrow> Contain option \<Rightarrow> Facade \<Rightarrow> (UpnpErr + string) \<times> Facade" where
  "delete_mapping_range V start end_p proto view F =
     (let targets = range_targets start end_p proto view (f_entries F)
      in if targets = [] then (Inl PortMappingNotFound, F)
         else (Inr [], fold (\<lambda>(ext, owner) F. snd (delete_mapping V ext proto owner view F)) targets F))"

section \<open>PCP and NAT-PMP admission\<close>

datatype MapAnswer = Map_drop | Map_answer u8 u32 u16 ipv4

definition proto_of :: "u8 \<Rightarrow> Proto option" where
  "proto_of code = (if code = 17 then Some Udp else if code = 6 then Some Tcp else None)"

definition pcp_error :: "u8 \<Rightarrow> u16 \<Rightarrow> ipv4 \<Rightarrow> MapAnswer" where
  "pcp_error code sug_ext sug_ip = Map_answer code (error_lifetime code) sug_ext sug_ip"

definition npmp_code :: "u8 \<Rightarrow> u8" where
  "npmp_code c = (if c = rc_SUCCESS then 0
     else if c = rc_USER_EX_QUOTA \<or> c = rc_NO_RESOURCES then np_NO_RESOURCES
     else if c = rc_NETWORK_FAILURE then np_NETWORK_FAILURE else np_NOT_AUTHORIZED)"

definition discovery_verdict :: "u64 \<Rightarrow> bool \<Rightarrow> u8 option" where
  "discovery_verdict waited_s tuple_known =
     (if tuple_known \<or> waited_s < DISCOVERY_GRACE_S then None else Some rc_NETWORK_FAILURE)"

definition pcp_epoch :: "UpnpConfig \<Rightarrow> u64 \<Rightarrow> u32" where
  "pcp_epoch C now = ucast (min (sat_sub now (c_started C)) 0xFFFFFFFF)"

definition external_tuple :: "u16 \<Rightarrow> Facade \<Rightarrow> tuple4 option" where
  "external_tuple bind_port F = slot_tuple bind_port (f_pub F)"

definition bind_port_of :: "Proto \<Rightarrow> ipv4 \<Rightarrow> u16 \<Rightarrow> Facade \<Rightarrow> u16 option" where
  "bind_port_of proto owner int_port F =
     map_option fe_bind_port (find (same_tuple proto owner int_port) (f_entries F))"

definition discovery_answer :: "u64 \<Rightarrow> u16 \<Rightarrow> u16 \<Rightarrow> ipv4 \<Rightarrow> Facade \<Rightarrow> MapAnswer \<times> Facade" where
  "discovery_answer now bind_port sug_ext sug_ip F =
     (let started = (case f_wait F bind_port of Some t \<Rightarrow> t | None \<Rightarrow> now)
      in (case discovery_verdict (sat_sub now started) False of
            Some code \<Rightarrow> (pcp_error code sug_ext sug_ip, F\<lparr>f_wait := (f_wait F)(bind_port := None)\<rparr>)
          | None \<Rightarrow> (Map_drop, F\<lparr>f_wait := (f_wait F)(bind_port \<mapsto> started)\<rparr>)))"

definition admit_delete ::
  "Env \<Rightarrow> ipv4 \<Rightarrow> Proto \<Rightarrow> u16 \<Rightarrow> u16 \<Rightarrow> ipv4 \<Rightarrow> Facade \<Rightarrow> MapAnswer \<times> Facade" where
  "admit_delete V owner proto int_port sug_ext sug_ip F =
     (case find (same_tuple proto owner int_port) (f_entries F) of
        None \<Rightarrow> (Map_answer rc_SUCCESS 0 sug_ext sug_ip, F)
      | Some e \<Rightarrow>
          (case delete_mapping V (fe_req_ext e) proto owner None F of
             (Inl _, F1) \<Rightarrow> (pcp_error rc_NOT_AUTHORIZED sug_ext sug_ip, F1)
           | (Inr _, F1) \<Rightarrow> (Map_answer rc_SUCCESS 0 sug_ext sug_ip, F1)))"

definition outcome_port :: "UpsertOutcome \<Rightarrow> u16 option" where
  "outcome_port r = (case r of Granted_at p \<Rightarrow> Some p | Refreshed_at p \<Rightarrow> Some p
     | UserQuotaExceeded \<Rightarrow> None | TableFull \<Rightarrow> None)"

definition admit_map ::
  "UpnpConfig \<Rightarrow> Env \<Rightarrow> ipv4 \<Rightarrow> ipv4 \<Rightarrow> Contain option \<Rightarrow> u8 \<Rightarrow> u16 \<Rightarrow> u16 \<Rightarrow> ipv4 \<Rightarrow> u32 \<Rightarrow> u32 \<Rightarrow> Filter list
     \<Rightarrow> Facade \<Rightarrow> MapAnswer \<times> Facade" where
  "admit_map C V owner target view proto_u8 int_port sug_ext sug_ip lifetime cap filters F =
     (case proto_of proto_u8 of
        None \<Rightarrow> (pcp_error rc_UNSUPP_PROTOCOL sug_ext sug_ip, F)
      | Some proto \<Rightarrow>
          if filters \<noteq> []
          then (pcp_error rc_EXCESSIVE_REMOTE_PEERS sug_ext sug_ip,
                log_f ''pcp-filter'' (show_ipv4 owner @ '' '' @ show_word int_port
                   @ '' refused: the datapath is endpoint-independent'') F)
          else if lifetime = 0 then admit_delete V owner proto int_port sug_ext sug_ip F
          else
            let granted = lifetime_cap lifetime cap;
                r = \<lparr>mr_ext = sug_ext, mr_proto = proto, mr_client = target, mr_int_port = int_port,
                     mr_lifetime = granted, mr_desc = ''pcp''\<rparr>
            in (case grant_mapping C V r owner view F of
                  (Inl UE_NotAuthorized, F1) \<Rightarrow> (pcp_error rc_NOT_AUTHORIZED sug_ext sug_ip, F1)
                | (Inl InvalidArgs, F1) \<Rightarrow> (pcp_error rc_MALFORMED_REQUEST sug_ext sug_ip, F1)
                | (Inl _, F1) \<Rightarrow> (pcp_error rc_NO_RESOURCES sug_ext sug_ip, F1)
                | (Inr outcome, F1) \<Rightarrow>
                    if outcome_code outcome \<noteq> rc_SUCCESS
                    then (pcp_error (outcome_code outcome) sug_ext sug_ip, F1)
                    else (case outcome_port outcome of
                            None \<Rightarrow> (pcp_error rc_NO_RESOURCES sug_ext sug_ip, F1)
                          | Some p \<Rightarrow>
                              (case external_tuple p F1 of
                                 Some (ip, port) \<Rightarrow>
                                   (Map_answer rc_SUCCESS granted port ip,
                                    F1\<lparr>f_wait := (f_wait F1)(p := None)\<rparr>)
                               | None \<Rightarrow> discovery_answer (v_now V) p sug_ext sug_ip F1))))"

definition admit_peer ::
  "u64 \<Rightarrow> ipv4 \<Rightarrow> u8 \<Rightarrow> u16 \<Rightarrow> u16 \<Rightarrow> ipv4 \<Rightarrow> u32 \<Rightarrow> bool \<Rightarrow> Facade \<Rightarrow> MapAnswer \<times> Facade" where
  "admit_peer now owner proto_u8 int_port sug_ext sug_ip lifetime peer_enabled F =
     (case proto_of proto_u8 of
        None \<Rightarrow> (pcp_error rc_UNSUPP_PROTOCOL sug_ext sug_ip, F)
      | Some proto \<Rightarrow>
          (case bind_port_of proto owner int_port F of
             None \<Rightarrow> (pcp_error rc_CANNOT_PROVIDE_EXTERNAL sug_ext sug_ip, F)
           | Some p \<Rightarrow>
               if \<not> peer_enabled then (pcp_error rc_NOT_AUTHORIZED sug_ext sug_ip, F)
               else (case external_tuple p F of
                       Some (ip, port) \<Rightarrow>
                         (Map_answer rc_SUCCESS (lifetime_cap lifetime MAX_LIFETIME) port ip, F)
                     | None \<Rightarrow> discovery_answer now p sug_ext sug_ip F)))"

definition map_target :: "ipv4 \<Rightarrow> MapReq \<Rightarrow> bool \<Rightarrow> (ipv4 \<times> Contain option) option" where
  "map_target client m lifted =
     (case (m_third_party m, lifted) of
        (Some other, True) \<Rightarrow> Some (other, None)
      | (Some _, False) \<Rightarrow> None
      | (None, True) \<Rightarrow> Some (client, None)
      | (None, False) \<Rightarrow> Some (client, Some \<lparr>cn_caller = client, cn_high_port = False\<rparr>))"

definition map_reply :: "MapReq \<Rightarrow> u32 \<Rightarrow> MapAnswer \<Rightarrow> u8 list option" where
  "map_reply m epoch a = (case a of Map_drop \<Rightarrow> None
     | Map_answer code lifetime ext_port ext_ip \<Rightarrow>
         Some (build_map_response m epoch code lifetime ext_port ext_ip))"

definition pcp_handle ::
  "UpnpConfig \<Rightarrow> Env \<Rightarrow> u8 list \<Rightarrow> ipv4 \<Rightarrow> bool \<Rightarrow> Facade \<Rightarrow> u8 list option \<times> Facade" where
  "pcp_handle C V pkt client peer_enabled F =
     (let epoch = pcp_epoch C (v_now V)
      in (case parse_pcp pkt client of
            Inl Silent_drop \<Rightarrow> (None, F)
          | Inl (Code code _) \<Rightarrow> (build_error pkt code epoch, F)
          | Inr Announce \<Rightarrow> (Some (build_announce_response epoch), F)
          | Inr (Map_req m) \<Rightarrow>
              let refuse = (\<lambda>code. Some (build_map_response m epoch code (error_lifetime code)
                              (m_sug_ext_port m) (m_sug_ext_ip m)))
              in (case map_target client m (dp_holds_lift client (v_now V) F) of
                    None \<Rightarrow> (refuse rc_NOT_AUTHORIZED, F)
                  | Some (target, view) \<Rightarrow>
                      if m_prefer_failure m then (refuse rc_CANNOT_PROVIDE_EXTERNAL, F)
                      else
                        let (a, F1) = admit_map C V client target view (m_proto m) (m_int_port m)
                              (m_sug_ext_port m) (m_sug_ext_ip m) (m_lifetime m) MAX_LIFETIME (m_filters m) F
                        in (map_reply m epoch a, F1))
          | Inr (Peer_req p) \<Rightarrow>
              let (a, F1) = admit_peer (v_now V) client (p_proto p) (p_int_port p) (p_peer_port p) (p_peer_ip p)
                    (p_lifetime p) peer_enabled F
              in (case a of Map_drop \<Rightarrow> None
                    | Map_answer code lifetime ext_port ext_ip \<Rightarrow>
                        Some (build_peer_response p epoch code lifetime ext_port ext_ip), F1)))"

definition npmp_handle ::
  "UpnpConfig \<Rightarrow> Env \<Rightarrow> u8 list \<Rightarrow> ipv4 \<Rightarrow> Facade \<Rightarrow> u8 list option \<times> Facade" where
  "npmp_handle C V pkt client F =
     (let epoch = pcp_epoch C (v_now V)
      in (case parse_npmp pkt of
            Inl Npmp_silent \<Rightarrow> (None, F)
          | Inl (Npmp_code code) \<Rightarrow>
              (Some (if code = np_UNSUPP_VERSION then build_npmp_version_error epoch
                     else build_npmp_echo pkt epoch), F)
          | Inr PublicAddress \<Rightarrow> (Some (build_npmp_public 0 epoch (ext_or_zero F)), F)
          | Inr (Npmp_map op int_port sug_ext_port lifetime) \<Rightarrow>
              if int_port = 0 \<and> lifetime \<noteq> 0
              then (Some (build_npmp_map op np_NOT_AUTHORIZED epoch int_port 0 0), F)
              else
                let (a, F1) = admit_map C V client client (Some \<lparr>cn_caller = client, cn_high_port = False\<rparr>)
                      (if op = np_OP_MAP_UDP then 17 else 6) int_port sug_ext_port 0 lifetime NPMP_LIFETIME [] F
                in (case a of Map_drop \<Rightarrow> None
                      | Map_answer code l ext_port _ \<Rightarrow>
                          Some (build_npmp_map op (npmp_code code) epoch int_port ext_port l), F1)))"

text \<open>One datagram of the service on the shared port.\<close>

definition pcp_serve ::
  "UpnpConfig \<Rightarrow> Env \<Rightarrow> u8 list \<Rightarrow> ipv4 \<Rightarrow> bool \<Rightarrow> Facade \<Rightarrow> u8 list option \<times> Facade" where
  "pcp_serve C V pkt client peer_enabled F =
     (if \<not> in_lan client (c_lan_ip C) then (None, F)
      else (case sniff pkt of
              Sniff_Pcp \<Rightarrow> pcp_handle C V pkt client peer_enabled F
            | Sniff_Npmp \<Rightarrow> npmp_handle C V pkt client F
            | Sniff_Unknown \<Rightarrow> (None, F)))"

end
