(* ===== verification/Facade_Run.thy ===== *)
theory Facade_Run
  imports Facade
begin

text \<open>
  The facade between requests (\<open>src/src/upnpsvc.rs\<close>): subscriptions and learned tuples, the
  presence reap, the yield to a device's flow, the collector's tick, and the start from the
  persisted files.
\<close>

section \<open>Events\<close>

definition gena_subscribe ::
  "UpnpConfig \<Rightarrow> Env \<Rightarrow> Sid \<Rightarrow> string \<Rightarrow> u32 \<Rightarrow> ipv4 \<Rightarrow> bool \<Rightarrow> Facade \<Rightarrow> (UpnpErr + string) \<times> Facade" where
  "gena_subscribe C V sid callback timeout_secs caller is_v2 F =
     (case gena_register (c_lan_ip C) callback timeout_secs caller is_v2 sid (v_now V) (f_gena F) of
        (Inl e, G) \<Rightarrow> (Inl e, F\<lparr>f_gena := G\<rparr>)
      | (Inr timeout, G) \<Rightarrow>
          let F1 = F\<lparr>f_gena := G\<rparr>;
              view = view_for (v_now V) F1 (ext_or_zero F1) caller is_v2
          in (Inr (sub_reply sid timeout), F1\<lparr>f_gena := notify_view sid view True (f_gena F1)\<rparr>))"

text \<open>A slot's discovery publishes its tuple, and the event loop notices the watch.\<close>

definition tuple_learned ::
  "u64 \<Rightarrow> string option \<Rightarrow> bool \<Rightarrow> u16 \<Rightarrow> tuple4 \<Rightarrow> Facade \<Rightarrow> Facade" where
  "tuple_learned now slot_err agg_ok p t F =
     (let F1 = F\<lparr>f_pub := publish_slot slot_err agg_ok p t (f_pub F)\<rparr>
      in if fst t = 0 then F1 else notify_subscribers now (fst t) F1)"

section \<open>Clients that left\<close>

definition reap_step ::
  "Env \<Rightarrow> FacadeEntry \<Rightarrow> (u16 \<Rightarrow> u8 option) \<times> FacadeEntry list \<Rightarrow> (u16 \<Rightarrow> u8 option) \<times> FacadeEntry list" where
  "reap_step V e acc =
     (let (misses, out) = acc; p = fe_bind_port e
      in if v_up V (fe_client e) then (misses(p := None), out)
         else
           let n = sat_add (case misses p of Some k \<Rightarrow> k | None \<Rightarrow> 0) 1
           in if \<not> release_absent False n then (misses(p \<mapsto> n), out)
              else (misses(p := None), out @ [e]))"

definition release_entry :: "Env \<Rightarrow> FacadeEntry \<Rightarrow> Facade \<Rightarrow> Facade" where
  "release_entry V e F =
     snd (delete_mapping V (fe_req_ext e) (fe_proto e) (fe_owner e) None
       (log_f ''mapping-released'' (show_ipv4 (fe_client e) @ '':'' @ show_word (fe_req_ext e) @ '' asked for ''
          @ show_word (fe_req_ext e) @ '' and is no longer on the LAN; its mapping goes'') F))"

definition reap_absent_clients :: "Env \<Rightarrow> Facade \<Rightarrow> Facade" where
  "reap_absent_clients V F =
     (let live = fe_bind_port ` set (f_entries F);
          kept = (\<lambda>p. if p \<in> live then f_misses F p else None);
          (misses, out) = fold (reap_step V) (f_entries F) (kept, [])
      in fold (release_entry V) out (F\<lparr>f_misses := misses\<rparr>))"

section \<open>Yielding a port to a device's flow\<close>

definition yield_port :: "Env \<Rightarrow> u16 \<Rightarrow> Facade \<Rightarrow> Facade" where
  "yield_port V old F =
     (case find (\<lambda>e. fe_bind_port e = old) (f_entries F) of
        None \<Rightarrow> F
      | Some e \<Rightarrow>
          (case move_bind_port old (f_table F) of
             (None, T) \<Rightarrow>
               log_f ''collision-reported'' (''slot '' @ show_word old
                 @ '' shares its tuple with a device's flow and the range has nowhere to go'') (F\<lparr>f_table := T\<rparr>)
           | (Some new, T) \<Rightarrow>
               (case spawn_slot V (fe_proto e) new (fe_client e, fe_int_port e) (F\<lparr>f_table := T\<rparr>) of
                  (Some err, F1) \<Rightarrow>
                    log_f ''collision-reported'' (''slot '' @ show_word old @ '' could not move to ''
                      @ show_word new @ '': '' @ err @ ''; it keeps the port it had'')
                      (F1\<lparr>f_table := restore_bind_port new old (f_table F1)\<rparr>)
                | (None, F1) \<Rightarrow>
                    let F2 = F1\<lparr>f_nft := snd (grant_datapath (v_nft V) (fe_client e) (fe_int_port e) new
                                             (fe_proto e = Tcp) (f_nft F1))\<rparr>;
                        F3 = abort_tasks old (drop_datapath V old (fe_proto e) F2);
                        F4 = F3\<lparr>f_entries := update_first (\<lambda>x. fe_bind_port x = old)
                               (\<lambda>x. x\<lparr>fe_bind_port := new\<rparr>) (f_entries F3)\<rparr>
                    in persist V (log_f ''collision-yield'' (''slot '' @ show_word old
                         @ '' yielded to a device's flow and moved to '' @ show_word new @ '' (label ''
                         @ show_word (fe_req_ext e) @ '' kept)'') F4))))"

definition yield_collided_slots :: "Env \<Rightarrow> Facade \<Rightarrow> Facade" where
  "yield_collided_slots V F =
     (case v_conntrack V of
        None \<Rightarrow> F
      | Some text \<Rightarrow>
          let F1 = (case v_live V of
                      Inr live \<Rightarrow> F\<lparr>f_table := avoid_ports (map snd live) (f_table F)\<rparr>
                    | Inl _ \<Rightarrow> F)
          in fold (yield_port V) (collided text (f_table F1)) F1)"

section \<open>The collector\<close>

definition tear_down_port :: "Env \<Rightarrow> Slot list \<Rightarrow> u16 \<Rightarrow> Facade \<Rightarrow> Facade" where
  "tear_down_port V pre p F =
     (let F1 = (case find (\<lambda>s. s_bind_port s = p) pre of
                  None \<Rightarrow> F
                | Some s \<Rightarrow> if slot_client s = None then F else drop_datapath V p (s_proto s) F);
          F2 = abort_tasks p F1
      in F2\<lparr>f_entries := filter (\<lambda>e. fe_bind_port e \<noteq> p) (f_entries F2)\<rparr>)"

definition tear_down_ports :: "Env \<Rightarrow> Slot list \<Rightarrow> u16 list \<Rightarrow> Facade \<Rightarrow> Facade" where
  "tear_down_ports V pre freed F = persist V (fold (tear_down_port V pre) freed F)"

definition collect :: "Env \<Rightarrow> (LeaseTable \<Rightarrow> u16 list \<times> LeaseTable) \<Rightarrow> Facade \<Rightarrow> Facade" where
  "collect V sweep F =
     (let pre = t_slots (f_table F); (freed, T) = sweep (f_table F); F1 = F\<lparr>f_table := T\<rparr>
      in if freed = [] then F1 else tear_down_ports V pre freed F1)"

definition gc_loop :: "UpnpConfig \<Rightarrow> Env \<Rightarrow> Facade \<Rightarrow> Facade" where
  "gc_loop C V F =
     collect V (gc_idle (v_now V) LEASE_BACKSTOP_S)
       (reap_absent_clients V
         (collect V (gc (v_now V) (c_grace_secs C))
           (yield_collided_slots V F)))"

definition stamp_client :: "u64 \<Rightarrow> ipv4 \<Rightarrow> Facade \<Rightarrow> Facade" where
  "stamp_client now client F =
     F\<lparr>f_table := fold (\<lambda>p T. stamp_activity_if_stale p now 0 T)
         (map fe_bind_port (filter (\<lambda>e. fe_client e = client) (f_entries F))) (f_table F)\<rparr>"

section \<open>The start\<close>

definition grant_restored :: "Env \<Rightarrow> Slot list \<Rightarrow> Nft \<Rightarrow> Nft option" where
  "grant_restored V slots N =
     fold (\<lambda>s r. case r of None \<Rightarrow> None
        | Some N \<Rightarrow> (case grant_datapath (v_nft V) (s_target s) (s_target_port s) (s_bind_port s)
                        (s_proto s = Tcp) N of (True, N1) \<Rightarrow> Some N1 | (False, _) \<Rightarrow> None)) slots (Some N)"

definition restorable :: "LeaseTable \<Rightarrow> FacadeEntry list \<Rightarrow> FacadeEntry list" where
  "restorable T es = filter (\<lambda>e. by_bind_port (fe_bind_port e) T \<noteq> None) es"

definition spawn_restored :: "Env \<Rightarrow> FacadeEntry \<Rightarrow> Facade \<Rightarrow> Facade" where
  "spawn_restored V e F =
     (case by_bind_port (fe_bind_port e) (f_table F) of
        None \<Rightarrow> F
      | Some s \<Rightarrow>
          if is_static s then F
          else snd (spawn_slot V (fe_proto e) (fe_bind_port e) (fe_client e, fe_int_port e) F))"

definition spawn_restored_grants :: "Env \<Rightarrow> Facade \<Rightarrow> Facade" where
  "spawn_restored_grants V F = fold (spawn_restored V) (f_entries F) F"

definition file_text :: "string option \<Rightarrow> string" where
  "file_text f = (case f of Some s \<Rightarrow> s | None \<Rightarrow> [])"

definition dp_load :: "string option \<Rightarrow> u8 list \<Rightarrow> DpState" where
  "dp_load dp_file device_id =
     (let (users, acl) = (case dp_file of Some text \<Rightarrow> config_from_tsv text | None \<Rightarrow> ([], []))
      in DpState_new device_id users acl)"

text \<open>The table and the rules are the boot's; the publisher is attached to the watch.\<close>

definition facade_start ::
  "Env \<Rightarrow> LeaseTable \<Rightarrow> Nft \<Rightarrow> Publisher \<Rightarrow> u8 list \<Rightarrow> string option \<Rightarrow> string \<Rightarrow> string option \<Rightarrow> Facade"
  where
  "facade_start V T N pub device_id dp_file leases_file index_file =
     spawn_restored_grants V \<lparr>f_table = T, f_entries = restorable T (restore_entries index_file),
       f_tasks = Map.empty, f_nft = N, f_pub = pub, f_gena = GenaState_new, f_dp = dp_load dp_file device_id,
       f_wait = Map.empty, f_misses = Map.empty, f_leases_file = leases_file,
       f_index_file = file_text index_file, f_dp_file = file_text dp_file\<rparr>"

end
