(* ===== verification/Soap.thy ===== *)
theory Soap
  imports Facade_Run
begin

text \<open>
  The control dispatch of the facade (\<open>src/src/upnpsvc.rs\<close>, with the envelopes of
  \<open>src/src/upnp.rs\<close> and the documents of \<open>src/src/dp.rs\<close>): the parsers of arguments, the gate of
  device protection, one case per action, and one HTTP request.
\<close>

section \<open>Arguments\<close>

definition ok_or :: "'e \<Rightarrow> 'a option \<Rightarrow> 'e + 'a" where
  "ok_or e r = (case r of Some x \<Rightarrow> Inr x | None \<Rightarrow> Inl e)"

definition and_then :: "'e + 'a \<Rightarrow> ('a \<Rightarrow> 'e + 'b) \<Rightarrow> 'e + 'b" where
  "and_then r f = (case r of Inl e \<Rightarrow> Inl e | Inr x \<Rightarrow> f x)"

definition tag_word :: "string \<Rightarrow> string \<Rightarrow> 'a::len word option" where
  "tag_word body tag = Option.bind (xml_tag body tag) (\<lambda>v. parse_word (trim v))"

definition tag_proto :: "string \<Rightarrow> UpnpErr + Proto" where
  "tag_proto body = (case xml_tag body ''NewProtocol'' of
     Some p \<Rightarrow> (if eq_ia p ''TCP'' then Inr Tcp else if eq_ia p ''UDP'' then Inr Udp else Inl InvalidArgs)
   | None \<Rightarrow> Inl InvalidArgs)"

definition parse_add_args_impl ::
  "string \<Rightarrow> bool \<Rightarrow> UpnpErr + (u16 \<times> Proto \<times> u16 \<times> ipv4 \<times> u32)" where
  "parse_add_args_impl body wildcard_ext =
     and_then (ok_or InvalidArgs (tag_word body ''NewExternalPort'')) (\<lambda>ext.
     and_then (tag_proto body) (\<lambda>proto.
     and_then (ok_or InvalidArgs (tag_word body ''NewInternalPort'')) (\<lambda>int_port.
     and_then (ok_or InvalidArgs (Option.bind (xml_tag body ''NewInternalClient'') parse_ipv4)) (\<lambda>client.
       if (ext = 0 \<and> \<not> wildcard_ext) \<or> int_port = 0 \<or> client = 0 then Inl InvalidArgs
       else Inr (ext, proto, int_port, client,
         (case tag_word body ''NewLeaseDuration'' of Some l \<Rightarrow> l | None \<Rightarrow> 0))))))"

definition parse_delete_args :: "string \<Rightarrow> UpnpErr + (u16 \<times> Proto)" where
  "parse_delete_args body =
     and_then (ok_or InvalidArgs (tag_word body ''NewExternalPort'')) (\<lambda>ext.
     and_then (tag_proto body) (\<lambda>proto. Inr (ext, proto)))"

definition parse_index_arg :: "string \<Rightarrow> UpnpErr + u32" where
  "parse_index_arg body = ok_or InvalidArgs (tag_word body ''NewPortMappingIndex'')"

definition parse_range_args :: "string \<Rightarrow> UpnpErr + (u16 \<times> u16 \<times> Proto)" where
  "parse_range_args body =
     and_then (ok_or InvalidArgs (tag_word body ''NewStartPort'')) (\<lambda>start.
     and_then (ok_or InvalidArgs (tag_word body ''NewEndPort'')) (\<lambda>end_p.
       if end_p < start then Inl InconsistentParameters
       else and_then (tag_proto body) (\<lambda>proto. Inr (start, end_p, proto))))"

definition parse_list_args :: "string \<Rightarrow> UpnpErr + (u16 \<times> u16 \<times> Proto option \<times> u16)" where
  "parse_list_args body =
     and_then (ok_or InvalidArgs (tag_word body ''NewStartPort'')) (\<lambda>start.
     and_then (ok_or InvalidArgs (tag_word body ''NewEndPort'')) (\<lambda>end_p.
       if end_p < start then Inl InconsistentParameters
       else and_then
         (case xml_tag body ''NewProtocol'' of
            Some p \<Rightarrow> (if eq_ia p ''TCP'' then Inr (Some Tcp) else if eq_ia p ''UDP'' then Inr (Some Udp)
                       else if eq_ia p ''ALL'' then Inr None else Inl InvalidArgs)
          | None \<Rightarrow> Inl InvalidArgs)
         (\<lambda>proto. Inr (start, end_p, proto,
            (case tag_word body ''NewNumberOfPorts'' of Some n \<Rightarrow> n | None \<Rightarrow> 0)))))"

definition parse_desc :: "string \<Rightarrow> string" where
  "parse_desc body =
     (let raw = (case xml_tag body ''NewPortMappingDescription'' of Some v \<Rightarrow> v | None \<Rightarrow> [])
      in take DESC_MAX (filter (\<lambda>c. \<not> is_control c) raw))"

definition dp_str_tag :: "string \<Rightarrow> string \<Rightarrow> UpnpErr + string" where
  "dp_str_tag body tag = ok_or UE_InvalidValue (map_option trim (xml_tag body tag))"

definition dp_b64_tag16 :: "string \<Rightarrow> string \<Rightarrow> UpnpErr + u8 list" where
  "dp_b64_tag16 body tag =
     and_then (ok_or UE_InvalidValue (Option.bind (xml_tag body tag) base64_decode)) (\<lambda>v.
       if length v \<noteq> 16 then Inl UE_InvalidValue else Inr v)"

definition dp_role_list :: "string \<Rightarrow> UpnpErr + string list" where
  "dp_role_list body =
     and_then (dp_str_tag body ''RoleList'') (\<lambda>s.
       if list_ex (\<lambda>r. \<not> valid_role r) (split_ws s) then Inl UE_InvalidValue else Inr (split_ws s))"

text \<open>The text after the opening \<open>Identity\<close> tag, and where its block ends.\<close>

definition identity_block :: "string \<Rightarrow> (string \<times> string) option" where
  "identity_block body =
     (case find_sub body ''<Identity'' of
        None \<Rightarrow> None
      | Some start \<Rightarrow>
          (case find_sub (drop start body) ''>'' of
             None \<Rightarrow> None
           | Some gt \<Rightarrow>
               (let rest = drop (start + gt + 1) body
                in (case find_sub rest ''</Identity>'' of
                      None \<Rightarrow> None
                    | Some e \<Rightarrow> Some (take e rest, drop (e + 11) rest)))))"

lemma identity_block_shrinks: "identity_block body = Some (b, rest) \<Longrightarrow> length rest < length body"
  by (auto simp: identity_block_def Let_def dest!: find_sub_SomeD split: option.splits)

function dp_identity_names :: "string \<Rightarrow> string list" where
  "dp_identity_names body =
     (case identity_block body of
        None \<Rightarrow> []
      | Some (b, rest) \<Rightarrow>
          (case xml_tag b ''Name'' of
             Some name \<Rightarrow> clean_name (trim name) # dp_identity_names rest
           | None \<Rightarrow> dp_identity_names rest))"
  by pat_completeness auto
termination by (relation "measure length") (auto dest: identity_block_shrinks)

declare dp_identity_names.simps [simp del]

section \<open>Device protection actions\<close>

definition map_dp_err :: "DpErr \<Rightarrow> UpnpErr" where
  "map_dp_err e = (case e of InvalidValue \<Rightarrow> UE_InvalidValue | NotAuthorized \<Rightarrow> UE_NotAuthorized
     | AuthFailure \<Rightarrow> UE_AuthFailure | Processing \<Rightarrow> UE_Processing)"

definition with_dp :: "Facade \<Rightarrow> (DpErr + 'a) \<times> DpState \<Rightarrow> ('a \<Rightarrow> string) \<Rightarrow> (UpnpErr + string) \<times> Facade" where
  "with_dp F r out =
     (case r of (Inl e, D) \<Rightarrow> (Inl (map_dp_err e), F\<lparr>f_dp := D\<rparr>) | (Inr x, D) \<Rightarrow> (Inr (out x), F\<lparr>f_dp := D\<rparr>))"

definition pkcs5 :: "string \<Rightarrow> UpnpErr + unit" where
  "pkcs5 body = (case xml_tag body ''ProtocolType'' of
     Some p \<Rightarrow> if eq_ia p ''PKCS5'' then Inr () else Inl UE_InvalidValue | None \<Rightarrow> Inl UE_InvalidValue)"

definition dp_challenge :: "u64 \<Rightarrow> u8 list \<Rightarrow> ipv4 \<Rightarrow> string \<Rightarrow> Facade \<Rightarrow> (UpnpErr + string) \<times> Facade" where
  "dp_challenge now nonce client body F =
     (case and_then (pkcs5 body) (\<lambda>_. dp_str_tag body ''Name'') of
        Inl e \<Rightarrow> (Inl e, F)
      | Inr name \<Rightarrow>
          with_dp F (begin_login client name nonce now (f_dp F)) (\<lambda>(salt, challenge).
            elem ''Salt'' (base64_encode salt) @ elem ''Challenge'' (base64_encode challenge)))"

definition dp_login :: "u64 \<Rightarrow> ipv4 \<Rightarrow> string \<Rightarrow> Facade \<Rightarrow> (UpnpErr + string) \<times> Facade" where
  "dp_login now client body F =
     (case and_then (pkcs5 body) (\<lambda>_.
            and_then (dp_b64_tag16 body ''Challenge'') (\<lambda>challenge.
            and_then (ok_or UE_InvalidValue (Option.bind (xml_tag body ''Authenticator'') base64_decode))
              (\<lambda>auth. Inr (challenge, auth)))) of
        Inl e \<Rightarrow> (Inl e, F)
      | Inr (challenge, auth) \<Rightarrow> with_dp F (login client challenge auth now (f_dp F)) (\<lambda>_. []))"

definition dp_logout :: "u64 \<Rightarrow> ipv4 \<Rightarrow> Facade \<Rightarrow> (UpnpErr + string) \<times> Facade" where
  "dp_logout now client F = (Inr [], F\<lparr>f_dp := logout client now (f_dp F)\<rparr>)"

definition dp_assigned_roles :: "u64 \<Rightarrow> ipv4 \<Rightarrow> Facade \<Rightarrow> string" where
  "dp_assigned_roles now client F =
     (let roles = session_roles client now (f_dp F)
      in elem ''RoleList'' (if roles = [] then ''Public'' else join '' '' roles))"

definition dp_roles_for_action :: "string \<Rightarrow> UpnpErr + string" where
  "dp_roles_for_action body =
     and_then (dp_str_tag body ''ServiceId'') (\<lambda>service_id.
     and_then (dp_str_tag body ''ActionName'') (\<lambda>action.
     and_then
       (if str_contains service_id ''DeviceProtection'' then Inr DeviceProtection
        else if str_contains service_id ''WANIPConnection'' \<or> str_contains service_id ''WANPPPConnection''
        then Inr WanIpConnection else Inl UE_InvalidValue)
       (\<lambda>target. Inr (elem ''RoleList'' (case required_role target action of
            Public \<Rightarrow> ''Public'' | Roles needed \<Rightarrow> join '' '' needed) @ elem ''RestrictedRoleList'' []))))"

definition dp_send_setup :: "string \<Rightarrow> UpnpErr + string" where
  "dp_send_setup body = (case xml_tag body ''ProtocolType'' of
     None \<Rightarrow> Inl UE_InvalidValue
   | Some p \<Rightarrow> if \<not> eq_ia p ''WPS'' then Inl UE_InvalidValue else Inl (map_dp_err Processing))"

definition dp_save :: "Env \<Rightarrow> Facade \<Rightarrow> Facade" where
  "dp_save V F = (if v_write V ''dp.tsv'' = None
     then F\<lparr>f_dp_file := config_tsv (dp_users (f_dp F)) (dp_acl (f_dp F))\<rparr> else F)"

definition xml_head :: "string \<Rightarrow> string" where
  "xml_head root = ''<?xml version='' @ dquote @ ''1.0'' @ dquote @ '' encoding='' @ dquote @ ''UTF-8'' @ dquote
     @ ''?>'' @ [nl] @ ''<'' @ root @ '' xmlns='' @ dquote @ ''urn:schemas-upnp-org:gw:DeviceProtection''
     @ dquote @ ''>'' @ [nl]"

definition supported_protocols_xml :: string where
  "supported_protocols_xml = xml_head ''SupportedProtocols''
     @ ''  <Introduction><Name>WPS</Name></Introduction>'' @ [nl]
     @ ''  <Login><Name>PKCS5</Name></Login>'' @ [nl] @ ''</SupportedProtocols>'' @ [nl]"

definition acl_user_xml :: "DpIdentity \<Rightarrow> string" where
  "acl_user_xml i = ''    <User>'' @ [nl] @ ''      '' @ elem ''Name'' (xml_escape (id_name i)) @ [nl]
     @ (case id_alias i of Some a \<Rightarrow> ''      '' @ elem ''Alias'' (xml_escape a) @ [nl] | None \<Rightarrow> [])
     @ ''      <RoleList>'' @ [nl]
     @ concat (map (\<lambda>r. ''        '' @ elem ''Role'' r @ [nl]) (id_roles i))
     @ ''      </RoleList>'' @ [nl] @ ''    </User>'' @ [nl]"

definition acl_xml :: "DpAcl \<Rightarrow> string" where
  "acl_xml acl = xml_head ''ACL'' @ ''  <Identities>'' @ [nl] @ concat (map acl_user_xml acl)
     @ ''  </Identities>'' @ [nl] @ ''</ACL>'' @ [nl]"

definition identity_list_xml :: "DpAcl \<Rightarrow> string" where
  "identity_list_xml acl = xml_head ''IdentityList''
     @ concat (map (\<lambda>i. ''  <Identity>'' @ elem ''Name'' (xml_escape (id_name i)) @ ''</Identity>'' @ [nl]) acl)
     @ ''</IdentityList>'' @ [nl]"

text \<open>The gate of the administrator's actions.\<close>

definition admin_gate :: "u64 \<Rightarrow> ipv4 \<Rightarrow> string \<Rightarrow> Facade \<Rightarrow> UpnpErr + unit" where
  "admin_gate now client action F =
     (case enforce client (required_role DeviceProtection action) now (f_dp F) of
        Inl e \<Rightarrow> Inl (map_dp_err e) | Inr _ \<Rightarrow> Inr ())"

definition dp_get_acl :: "u64 \<Rightarrow> ipv4 \<Rightarrow> Facade \<Rightarrow> UpnpErr + string" where
  "dp_get_acl now client F =
     and_then (admin_gate now client ''GetACLData'' F) (\<lambda>_. Inr (acl_xml (dp_acl (f_dp F))))"

definition dp_add_identities :: "Env \<Rightarrow> ipv4 \<Rightarrow> string \<Rightarrow> Facade \<Rightarrow> (UpnpErr + string) \<times> Facade" where
  "dp_add_identities V client body F =
     (case admin_gate (v_now V) client ''AddIdentityList'' F of
        Inl e \<Rightarrow> (Inl e, F)
      | Inr _ \<Rightarrow>
          let incoming = map (\<lambda>name. \<lparr>id_name = name, id_alias = None, id_id = zero_id, id_roles = []\<rparr>)
                (dp_identity_names body);
              (added, D) = add_identities incoming (f_dp F)
          in (Inr (identity_list_xml added), dp_save V (F\<lparr>f_dp := D\<rparr>)))"

definition saved_if :: "Env \<Rightarrow> Facade \<Rightarrow> bool \<times> DpState \<Rightarrow> (UpnpErr + string) \<times> Facade" where
  "saved_if V F r = (case r of (ok, D) \<Rightarrow>
     if \<not> ok then (Inl UE_InvalidValue, F\<lparr>f_dp := D\<rparr>) else (Inr [], dp_save V (F\<lparr>f_dp := D\<rparr>)))"

definition first_name :: "string \<Rightarrow> UpnpErr + string" where
  "first_name body = (case dp_identity_names body of [] \<Rightarrow> Inl UE_InvalidValue | n # _ \<Rightarrow> Inr n)"

definition dp_remove_identity :: "Env \<Rightarrow> ipv4 \<Rightarrow> string \<Rightarrow> Facade \<Rightarrow> (UpnpErr + string) \<times> Facade" where
  "dp_remove_identity V client body F =
     (case and_then (admin_gate (v_now V) client ''RemoveIdentity'' F) (\<lambda>_. first_name body) of
        Inl e \<Rightarrow> (Inl e, F)
      | Inr name \<Rightarrow> saved_if V F (remove_identity name (f_dp F)))"

definition dp_set_password :: "Env \<Rightarrow> ipv4 \<Rightarrow> string \<Rightarrow> Facade \<Rightarrow> (UpnpErr + string) \<times> Facade" where
  "dp_set_password V client body F =
     (case and_then (pkcs5 body) (\<lambda>_.
            and_then (dp_str_tag body ''Name'') (\<lambda>name.
            and_then (dp_b64_tag16 body ''Stored'') (\<lambda>stored.
            and_then (dp_b64_tag16 body ''Salt'') (\<lambda>salt.
            and_then (if session_user client (v_now V) (f_dp F) = Some name then Inr ()
                      else admin_gate (v_now V) client ''SetUserLoginPassword'' F)
              (\<lambda>_. Inr (name, stored, salt)))))) of
        Inl e \<Rightarrow> (Inl e, F)
      | Inr (name, stored, salt) \<Rightarrow> saved_if V F (set_user_password name stored salt (f_dp F)))"

definition dp_add_roles :: "Env \<Rightarrow> ipv4 \<Rightarrow> string \<Rightarrow> bool \<Rightarrow> Facade \<Rightarrow> (UpnpErr + string) \<times> Facade" where
  "dp_add_roles V client body add F =
     (case and_then (admin_gate (v_now V) client
              (if add then ''AddRolesForIdentity'' else ''RemoveRolesForIdentity'') F) (\<lambda>_.
            and_then (first_name body) (\<lambda>identity.
            and_then (dp_role_list body) (\<lambda>roles. Inr (identity, roles)))) of
        Inl e \<Rightarrow> (Inl e, F)
      | Inr (identity, roles) \<Rightarrow>
          saved_if V F (if add then add_roles identity roles (f_dp F) else remove_roles identity roles (f_dp F)))"

end
