(* ===== verification/Control.thy ===== *)
theory Control
  imports Soap
begin

text \<open>
  One control request of the facade (\<open>handle_soap\<close> and \<open>handle_conn\<close> of
  \<open>src/src/upnpsvc.rs\<close>), the envelopes, dates and discovery messages of \<open>src/src/upnp.rs\<close>.
\<close>

section \<open>Readers of the connection\<close>

definition get_external_ip :: "Facade \<Rightarrow> UpnpErr + string" where
  "get_external_ip F = (case external_ip F of
     Some ip \<Rightarrow> Inr (elem ''NewExternalIPAddress'' (show_ipv4 ip)) | None \<Rightarrow> Inl ActionFailed)"

definition get_status_info :: "UpnpConfig \<Rightarrow> u64 \<Rightarrow> string" where
  "get_status_info C now = elem ''NewConnectionStatus'' ''Connected''
     @ elem ''NewLastConnectionError'' ''ERROR_NONE''
     @ elem ''NewUptime'' (show_word (sat_sub now (c_started C)))"

definition get_connection_type_info :: string where
  "get_connection_type_info = elem ''NewConnectionType'' ''IP_Routed''
     @ elem ''NewPossibleConnectionTypes'' ''IP_Routed''"

definition common_link_properties :: "Facade \<Rightarrow> string" where
  "common_link_properties F = elem ''NewWANAccessType'' ''DSL''
     @ elem ''NewLayer1UpstreamMaxBitRate'' ''0'' @ elem ''NewLayer1DownstreamMaxBitRate'' ''0''
     @ elem ''NewPhysicalLinkStatus'' (if external_ip F \<noteq> None then ''Up'' else ''Down'')"

section \<open>The dispatch\<close>

definition soap_gate ::
  "u64 \<Rightarrow> SoapService \<Rightarrow> SoapAction \<Rightarrow> bool \<Rightarrow> ipv4 \<Rightarrow> Facade \<Rightarrow> (UpnpErr + unit) \<times> Facade" where
  "soap_gate now service action is_v2 client F =
     (if service = WanIpConn \<and> is_v2
         \<and> action \<in> set [AddPortMapping, AddAnyPortMapping, DeletePortMapping, DeletePortMappingRange]
      then (case enforce client (required_role WanIpConnection (soap_action_name action)) now (f_dp F) of
              Inl e \<Rightarrow> (Inl (map_dp_err e), F)
            | Inr _ \<Rightarrow> (Inr (), F\<lparr>f_dp := touch client now (f_dp F)\<rparr>))
      else (Inr (), F))"

definition caller_view :: "u64 \<Rightarrow> bool \<Rightarrow> ipv4 \<Rightarrow> Facade \<Rightarrow> Contain option" where
  "caller_view now is_v2 client F =
     (if dp_holds_lift client now F then None else Some \<lparr>cn_caller = client, cn_high_port = is_v2\<rparr>)"

text \<open>An action on the wrong service is an invalid action.\<close>

definition on :: "bool \<Rightarrow> (UpnpErr + string) \<times> Facade \<Rightarrow> Facade \<Rightarrow> (UpnpErr + string) \<times> Facade" where
  "on ok r F = (if ok then r else (Inl InvalidAction, F))"

definition with_args ::
  "UpnpErr + 'a \<Rightarrow> ('a \<Rightarrow> (UpnpErr + string) \<times> Facade) \<Rightarrow> Facade \<Rightarrow> (UpnpErr + string) \<times> Facade" where
  "with_args args f F = (case args of Inl e \<Rightarrow> (Inl e, F) | Inr x \<Rightarrow> f x)"

definition add_request :: "string \<Rightarrow> u16 \<times> Proto \<times> u16 \<times> ipv4 \<times> u32 \<Rightarrow> (u32 \<Rightarrow> u32) \<Rightarrow> MappingReq" where
  "add_request body a lease = (case a of (ext, proto, int_port, client, lifetime) \<Rightarrow>
     \<lparr>mr_ext = ext, mr_proto = proto, mr_client = client, mr_int_port = int_port,
      mr_lifetime = lease lifetime, mr_desc = parse_desc body\<rparr>)"

definition soap_dispatch ::
  "UpnpConfig \<Rightarrow> Env \<Rightarrow> u8 list \<Rightarrow> SoapService \<Rightarrow> SoapAction \<Rightarrow> bool \<Rightarrow> ipv4 \<Rightarrow> Contain option \<Rightarrow> string
     \<Rightarrow> Facade \<Rightarrow> (UpnpErr + string) \<times> Facade" where
  "soap_dispatch C V nonce service action is_v2 client view body F =
     (let conn = (service = WanIpConn \<or> service = WanPppConn); ip = (service = WanIpConn);
          dp = (service = DeviceProt); now = v_now V
      in (case action of
            GetExternalIpAddress \<Rightarrow> on conn (get_external_ip F, F) F
          | GetStatusInfo \<Rightarrow> on conn (Inr (get_status_info C now), F) F
          | GetConnectionTypeInfo \<Rightarrow> on conn (Inr get_connection_type_info, F) F
          | SetConnectionType \<Rightarrow> on conn (Inl ReadOnly, F) F
          | RequestConnection \<Rightarrow>
              on conn ((if external_ip F \<noteq> None then Inr [] else Inl ConnectionSetupFailed), F) F
          | ForceTermination \<Rightarrow> on conn (Inl ActionFailed, F) F
          | GetNatRsipStatus \<Rightarrow>
              on conn (Inr (elem ''NewRSIPAvailable'' ''0'' @ elem ''NewNATEEnabled'' ''1''), F) F
          | AddPortMapping \<Rightarrow>
              on conn (with_args (parse_add_args_impl body False) (\<lambda>a. allocate_exact C V
                (add_request body a (if is_v2 then wip2_lease else (\<lambda>l. l))) client view F) F) F
          | DeletePortMapping \<Rightarrow>
              on conn (with_args (parse_delete_args body) (\<lambda>(ext, proto).
                delete_mapping V ext proto client view F) F) F
          | GetSpecificPortMappingEntry \<Rightarrow>
              on conn (with_args (parse_delete_args body) (\<lambda>(ext, proto).
                (get_specific ext proto client view (f_entries F), F)) F) F
          | GetGenericPortMappingEntry \<Rightarrow>
              on conn (with_args (parse_index_arg body) (\<lambda>i. (get_generic i view (f_entries F), F)) F) F
          | GetCommonLinkProperties \<Rightarrow>
              on (service = WanCommonIfaceCfg) (Inr (common_link_properties F), F) F
          | AddAnyPortMapping \<Rightarrow>
              on ip (with_args (parse_add_args_impl body True) (\<lambda>a. allocate_preferred C V
                (add_request body a wip2_lease) client view F) F) F
          | DeletePortMappingRange \<Rightarrow>
              on ip (with_args (parse_range_args body) (\<lambda>(start, end_p, proto).
                delete_mapping_range V start end_p proto view F) F) F
          | GetListOfPortMappings \<Rightarrow>
              on ip (with_args (parse_list_args body) (\<lambda>(start, end_p, proto, max_n).
                (list_port_mappings start end_p proto max_n view now (f_entries F), F)) F) F
          | SendSetupMessage \<Rightarrow> on dp (dp_send_setup body, F) F
          | GetSupportedProtocols \<Rightarrow> on dp (Inr supported_protocols_xml, F) F
          | GetAssignedRoles \<Rightarrow> on dp (Inr (dp_assigned_roles now client F), F) F
          | GetRolesForAction \<Rightarrow> on dp (dp_roles_for_action body, F) F
          | GetUserLoginChallenge \<Rightarrow> on dp (dp_challenge now nonce client body F) F
          | UserLogin \<Rightarrow> on dp (dp_login now client body F) F
          | UserLogout \<Rightarrow> on dp (dp_logout now client F) F
          | GetAclData \<Rightarrow> on dp (dp_get_acl now client F, F) F
          | AddIdentityList \<Rightarrow> on dp (dp_add_identities V client body F) F
          | RemoveIdentity \<Rightarrow> on dp (dp_remove_identity V client body F) F
          | SetUserLoginPassword \<Rightarrow> on dp (dp_set_password V client body F) F
          | AddRolesForIdentity \<Rightarrow> on dp (dp_add_roles V client body True F) F
          | RemoveRolesForIdentity \<Rightarrow> on dp (dp_add_roles V client body False F) F))"

text \<open>The session is refreshed by the gate before the containment is read off it.\<close>

definition handle_soap ::
  "UpnpConfig \<Rightarrow> Env \<Rightarrow> u8 list \<Rightarrow> SoapService \<Rightarrow> SoapAction \<Rightarrow> bool \<Rightarrow> ipv4 \<Rightarrow> string
     \<Rightarrow> Facade \<Rightarrow> (UpnpErr + string) \<times> Facade" where
  "handle_soap C V nonce service action is_v2 client body F =
     (case soap_gate (v_now V) service action is_v2 client F of
        (Inl e, F1) \<Rightarrow> (Inl e, F1)
      | (Inr _, F1) \<Rightarrow>
          soap_dispatch C V nonce service action is_v2 client (caller_view (v_now V) is_v2 client F1) body F1)"

section \<open>One HTTP request\<close>

definition soap_open :: string where
  "soap_open = ''<?xml version='' @ dquote @ ''1.0'' @ dquote @ ''?>'' @ [nl] @ ''<s:Envelope xmlns:s='' @ dquote
     @ SOAP_NS @ dquote @ '' s:encodingStyle='' @ dquote @ ''http://schemas.xmlsoap.org/soap/encoding/'' @ dquote
     @ ''><s:Body>''"

definition soap_success_v :: "SoapService \<Rightarrow> bool \<Rightarrow> string \<Rightarrow> string \<Rightarrow> string" where
  "soap_success_v service v2 action inner =
     soap_open @ ''<u:'' @ action @ ''Response xmlns:u='' @ dquote @ service_urn_v service v2 @ dquote @ ''>''
     @ inner @ ''</u:'' @ action @ ''Response></s:Body></s:Envelope>'' @ [nl]"

definition soap_fault :: "UpnpFault \<Rightarrow> string" where
  "soap_fault f = soap_open @ ''<s:Fault><faultcode>s:Client</faultcode><faultstring>UPnPError</faultstring>''
     @ ''<detail><UPnPError xmlns='' @ dquote @ ''urn:schemas-upnp-org:control-1-0'' @ dquote @ ''>''
     @ elem ''errorCode'' (show_word (uf_code f)) @ elem ''errorDescription'' (uf_desc f)
     @ ''</UPnPError></detail></s:Fault></s:Body></s:Envelope>'' @ [nl]"

text \<open>A response is a status, extra header lines and a body; a fault is always status 500.\<close>

record Response =
  r_status :: string
  r_extra :: string
  r_body :: string

definition ok_response :: "string \<Rightarrow> string \<Rightarrow> Response" where
  "ok_response body extra = \<lparr>r_status = ''200 OK'', r_extra = extra, r_body = body\<rparr>"

definition not_found :: Response where
  "not_found = \<lparr>r_status = ''404 Not Found'', r_extra = [], r_body = []\<rparr>"

definition fault_response :: "UpnpErr \<Rightarrow> Response" where
  "fault_response e = \<lparr>r_status = ''500 Internal Server Error'', r_extra = [], r_body = soap_fault (fault_of e)\<rparr>"

definition response_of :: "(string \<Rightarrow> Response) \<Rightarrow> UpnpErr + string \<Rightarrow> Response" where
  "response_of ok r = (case r of Inl e \<Rightarrow> fault_response e | Inr x \<Rightarrow> ok x)"

text \<open>The head ends at the first blank line, however its lines end.\<close>

fun split_head :: "string \<Rightarrow> (string \<times> string) option" where
  "split_head [] = None"
| "split_head (c # cs) =
     (if take 4 (c # cs) = [cr, nl, cr, nl] then Some (take 4 (c # cs), drop 4 (c # cs))
      else if take 2 (c # cs) = [nl, nl] then Some (take 2 (c # cs), drop 2 (c # cs))
      else map_option (\<lambda>(h, b). (c # h, b)) (split_head cs))"

definition content_length :: "string \<Rightarrow> nat option" where
  "content_length head = Option.bind (find_header head ''Content-Length'') (\<lambda>v. parse_uint (2 ^ 64 - 1) (trim v))"

definition request_path :: "string \<Rightarrow> string option" where
  "request_path head =
     (case split_once CHR '' '' (strip_cr (hd (split_on nl head))) of
        None \<Rightarrow> None
      | Some (_, r) \<Rightarrow> Some (takeWhile (\<lambda>c. c \<noteq> CHR '' '') (btrim r)))"

definition parse_sid_header :: "string \<Rightarrow> Sid option" where
  "parse_sid_header head = Option.bind (find_header head ''SID'') sid_from_bytes"

definition requested_timeout :: "string \<Rightarrow> u32" where
  "requested_timeout head = (case parse_timeout (find_header head ''TIMEOUT'') of
     Some t \<Rightarrow> t | None \<Rightarrow> GENA_TIMEOUT_CAP)"

text \<open>
  The head and the body of a request. With no blank line in what was read, all of it is both; what
  is still to come of the body is read to the declared length, or the connection is dropped.
\<close>

definition request_parts :: "string \<Rightarrow> (nat \<Rightarrow> string option) \<Rightarrow> (string \<times> string) option" where
  "request_parts raw read_body =
     (let (head, excess) = (case split_head raw of Some r \<Rightarrow> r | None \<Rightarrow> (raw, raw))
      in (case content_length head of
            None \<Rightarrow> Some (head, excess)
          | Some cl \<Rightarrow>
              if cl > length excess
              then map_option (\<lambda>b. (head, take cl (excess @ b))) (read_body (cl - length excess))
              else Some (head, take cl excess)))"

text \<open>
  The text of a document is an argument: they are constants of the program with the addresses
  filled in. Which one a path names is not.
\<close>

datatype Doc = Root_desc | Root_desc_v2 | Scpd_wanip | Scpd_wanppp | Scpd_wancmn | Scpd_wip2 | Scpd_dp

definition IGD_V2_ENABLED :: bool where "IGD_V2_ENABLED = True"

definition doc_of_path :: "string \<Rightarrow> Doc option" where
  "doc_of_path p =
     (if eq_ia p ''/rootDesc.xml'' then Some Root_desc
      else if eq_ia p ''/WANIPC.xml'' then Some Scpd_wanip
      else if eq_ia p ''/WANPPP.xml'' then Some Scpd_wanppp
      else if eq_ia p ''/WANCfg.xml'' then Some Scpd_wancmn
      else if eq_ia p ''/igd/v1/rootDesc.xml'' then Some Root_desc
      else if eq_ia p ''/igd/v1/WANIPC.xml'' then Some Scpd_wanip
      else if eq_ia p ''/igd/v1/WANPPP.xml'' then Some Scpd_wanppp
      else if eq_ia p ''/igd/v1/WANCfg.xml'' then Some Scpd_wancmn
      else if IGD_V2_ENABLED \<and> eq_ia p ''/igd/v2/rootDesc.xml'' then Some Root_desc_v2
      else if IGD_V2_ENABLED \<and> eq_ia p ''/igd/v2/WANIPCn.xml'' then Some Scpd_wip2
      else if IGD_V2_ENABLED \<and> eq_ia p ''/igd/v2/DP.xml'' then Some Scpd_dp
      else None)"

definition handle_conn ::
  "UpnpConfig \<Rightarrow> Env \<Rightarrow> (Doc \<Rightarrow> string) \<Rightarrow> u8 list \<Rightarrow> Sid \<Rightarrow> ipv4 \<Rightarrow> string \<Rightarrow> string
     \<Rightarrow> Facade \<Rightarrow> Response \<times> Facade" where
  "handle_conn C V docs nonce fresh_sid client head body F =
     (case classify head of
        Get_doc \<Rightarrow>
          ((case doc_of_path (case request_path head of Some p \<Rightarrow> p | None \<Rightarrow> []) of
              Some d \<Rightarrow> ok_response (docs d) [] | None \<Rightarrow> not_found), F)
      | Soap service action is_v2 \<Rightarrow>
          let (r, F1) = handle_soap C V nonce service action is_v2 client body F
          in (response_of (\<lambda>inner. ok_response (soap_success_v service is_v2 (soap_action_name action) inner) []) r,
              stamp_client (v_now V) client F1)
      | GenaSubscribe \<Rightarrow>
          let callback = (case find_header head ''CALLBACK'' of Some c \<Rightarrow> c | None \<Rightarrow> []);
              is_v2 = (case request_path head of Some p \<Rightarrow> starts_with p ''/igd/v2/'' | None \<Rightarrow> False);
              (r, F1) = gena_subscribe C V fresh_sid callback (requested_timeout head) client is_v2 F
          in (response_of (ok_response []) r, F1)
      | GenaRenew \<Rightarrow>
          (case parse_sid_header head of
             None \<Rightarrow> (fault_response InvalidArgs, F)
           | Some sid \<Rightarrow>
               let (r, G) = gena_renew sid (requested_timeout head) (v_now V) (f_gena F)
               in (response_of (ok_response []) r, F\<lparr>f_gena := G\<rparr>))
      | GenaUnsubscribe \<Rightarrow>
          (case parse_sid_header head of
             None \<Rightarrow> (fault_response InvalidArgs, F)
           | Some sid \<Rightarrow>
               let (r, G) = gena_unsubscribe sid (f_gena F)
               in (response_of (\<lambda>_. ok_response [] []) r, F\<lparr>f_gena := G\<rparr>))
      | SoapInvalidAction \<Rightarrow> (fault_response InvalidAction, F)
      | NotFound \<Rightarrow> (not_found, F))"

end
