(* ===== verification/Facade_Inv.thy ===== *)
theory Facade_Inv
  imports Facade_Run Lease_Props Nft_Props Index_Props
begin

text \<open>
  What the facade keeps consistent: each entry of the index stands on a lease of the table, and
  each lease has its task and its rules. The lemmas follow the operations; a lease is seen here
  by its port and its key.
\<close>

section \<open>Ports and keys\<close>

type_synonym binding = "u16 \<times> pcp_key option"

definition sigs :: "LeaseTable \<Rightarrow> binding set" where
  "sigs T = (\<lambda>s. (s_bind_port s, slot_key s)) ` set (t_slots T)"

definition entry_binding :: "FacadeEntry \<Rightarrow> binding" where
  "entry_binding e = (fe_bind_port e, Some (fe_proto e, fe_int_port e, fe_client e))"

definition runs :: "u16 set \<Rightarrow> (u16 \<Rightarrow> (Proto \<times> tuple4) option) \<Rightarrow> Nft \<Rightarrow> binding \<Rightarrow> bool" where
  "runs W tasks N b = (case b of
     (p, Some (proto, int_port, client)) \<Rightarrow>
       tasks p = Some (proto, (client, int_port)) \<and> (p \<in> W \<or> serves N client int_port p (proto = Tcp))
   | (p, None) \<Rightarrow> True)"

text \<open>The contract the facade relies on: a port has one key, a key one port, and a release
  takes away one port.\<close>

locale binding_store =
  fixes inv :: "'t \<Rightarrow> bool"
    and bindings :: "'t \<Rightarrow> binding set"
    and release :: "u16 \<Rightarrow> 't \<Rightarrow> 't"
  assumes one_binding: "inv t \<Longrightarrow> (p, k) \<in> bindings t \<Longrightarrow> (p, k') \<in> bindings t \<Longrightarrow> k = k'"
    and one_port: "inv t \<Longrightarrow> (p, Some key) \<in> bindings t \<Longrightarrow> (q, Some key) \<in> bindings t \<Longrightarrow> p = q"
    and inv_release: "inv t \<Longrightarrow> inv (release p t)"
    and bindings_release: "inv t \<Longrightarrow> bindings (release p t) = {b \<in> bindings t. fst b \<noteq> p}"
begin

lemma runs_released:
  assumes "inv t" and "\<forall>b \<in> bindings t. fst b \<noteq> p \<longrightarrow> runs W tasks N b"
  shows "\<forall>b \<in> bindings (release p t). runs W (tasks(p := None)) (revoke_datapath ok p tcp N) b"
  using assms by (auto simp: bindings_release runs_def revoke_keeps split: option.splits)

lemma released_keeps_entries:
  assumes "inv t" and "\<forall>e \<in> E. entry_binding e \<in> bindings t"
  shows "\<forall>e \<in> {e \<in> E. fe_bind_port e \<noteq> p}. entry_binding e \<in> bindings (release p t)"
  using assms by (auto simp: bindings_release entry_binding_def)

text \<open>Entries on different tuples stand on different ports.\<close>

lemma entry_port_inj:
  assumes "inv t" and "entry_binding e \<in> bindings t" and "entry_binding e' \<in> bindings t"
    and "fe_bind_port e = fe_bind_port e'"
  shows "(fe_proto e, fe_int_port e, fe_client e) = (fe_proto e', fe_int_port e', fe_client e')"
  using one_binding [OF assms(1)] assms(2-4) by (auto simp: entry_binding_def)

end

interpretation leases: binding_store tbl_inv sigs "\<lambda>p T. snd (delete_by_bind_port p T)"
proof
  fix T p k k' assume "tbl_inv T" "(p, k) \<in> sigs T" "(p, k') \<in> sigs T"
  then obtain s s' where s: "s \<in> set (t_slots T)" "s' \<in> set (t_slots T)" "s_bind_port s = s_bind_port s'"
    "slot_key s = k" "slot_key s' = k'" unfolding sigs_def by force
  from same_port [OF \<open>tbl_inv T\<close> s(1-3)] s(4,5) show "k = k'" by simp
next
  fix T p q k assume "tbl_inv T" "(p, Some k) \<in> sigs T" "(q, Some k) \<in> sigs T"
  then obtain s s' where s: "s \<in> set (t_slots T)" "s' \<in> set (t_slots T)" "slot_key s = Some k"
    "slot_key s' = Some k" "p = s_bind_port s" "q = s_bind_port s'" unfolding sigs_def by force
  from same_key [OF \<open>tbl_inv T\<close> s(1-4)] s(5,6) show "p = q" by simp
next
  fix T p assume "tbl_inv T"
  then show "tbl_inv (snd (delete_by_bind_port p T))" by (rule delete_inv)
  show "sigs (snd (delete_by_bind_port p T)) = {b \<in> sigs T. fst b \<noteq> p}"
    unfolding sigs_def delete_eq_filter [OF \<open>tbl_inv T\<close>] by fastforce
qed

section \<open>What each table operation does to the bindings\<close>

lemma sigs_avoid [simp]: "sigs (avoid_ports live T) = sigs T"
  by (simp add: sigs_def avoid_ports_def)

lemma sigs_reserve [simp]: "sigs (reserve p T) = sigs T"
  by (simp add: sigs_def)

lemma sigs_filter: "sigs (T\<lparr>t_slots := filter P (t_slots T)\<rparr>)
    = (\<lambda>s. (s_bind_port s, slot_key s)) ` {s \<in> set (t_slots T). P s}"
  by (simp add: sigs_def)

lemma sigs_update:
  assumes "i < length (t_slots T)" and "s_bind_port s = s_bind_port (t_slots T ! i)"
    and "slot_key s = slot_key (t_slots T ! i)"
  shows "sigs (T\<lparr>t_slots := (t_slots T)[i := s]\<rparr>) = sigs T"
  using map_update_same [of i "t_slots T" "\<lambda>s. (s_bind_port s, slot_key s)" s] assms
  by (simp add: sigs_def flip: set_map)

lemma sigs_stamp [simp]: "sigs (stamp_activity_if_stale p now m T) = sigs T"
proof (cases "position (\<lambda>s. s_bind_port s = p) (t_slots T)")
  case (Some i)
  then have "i < length (t_slots T)" by (simp add: position_SomeD)
  then have "sigs (T\<lparr>t_slots := (t_slots T)[i := (t_slots T ! i)\<lparr>s_last_activity := now\<rparr>]\<rparr>) = sigs T"
    by (rule sigs_update) simp_all
  with Some show ?thesis by (simp add: stamp_activity_if_stale_def)
qed (simp add: stamp_activity_if_stale_def)

text \<open>An upsert refreshes the port of the key, or binds the key to a new port, or does nothing.\<close>

lemma upsert_sigs:
  assumes inv: "tbl_inv T" and u: "upsert_pcp pr ip c l now tg tp T = (r, T')"
  shows "case r of
      Refreshed_at p \<Rightarrow> sigs T' = sigs T \<and> (p, Some (pr, ip, c)) \<in> sigs T
    | Granted_at p \<Rightarrow> sigs T' = insert (p, Some (pr, ip, c)) (sigs T) \<and> p \<notin> fst ` sigs T
        \<and> (\<forall>q. (q, Some (pr, ip, c)) \<notin> sigs T)
    | _ \<Rightarrow> T' = T"
proof (cases "index_of_key (pr, ip, c) T")
  case (Some i)
  note f = index_of_key_Some [OF inv Some]
  then have "leases T (pr, ip, c) = Some (t_slots T ! i)" by simp
  then have k: "slot_key (t_slots T ! i) = Some (pr, ip, c)" using leases_SomeD by blast
  then have "s_proto (t_slots T ! i) = pr" by (simp add: slot_key_def split: Lease.splits)
  then have "slot_key ((t_slots T ! i)\<lparr>s_lease := fresh_lease c ip l now, s_last_activity := now\<rparr>)
      = slot_key (t_slots T ! i)" by (simp add: k slot_key_fresh del: slot_key_stamp)
  then have "sigs (T\<lparr>t_slots := (t_slots T)[i := (t_slots T ! i)\<lparr>s_lease := fresh_lease c ip l now,
      s_last_activity := now\<rparr>]\<rparr>) = sigs T" using f by (intro sigs_update) simp_all
  moreover have "(s_bind_port (t_slots T ! i), Some (pr, ip, c)) \<in> sigs T"
    using f k unfolding sigs_def by (metis (mono_tags, lifting) image_eqI nth_mem)
  ultimately show ?thesis using Some u by (auto simp: upsert_pcp_def Let_def)
next
  case None
  then have "\<forall>s \<in> set (t_slots T). slot_key s \<noteq> Some (pr, ip, c)"
    by (simp add: index_of_key_None leases_None_iff)
  then have "\<forall>q. (q, Some (pr, ip, c)) \<notin> sigs T" by (auto simp: sigs_def)
  with None u show ?thesis
    by (auto simp: upsert_pcp_def sigs_def slot_key_fresh find_free_Some port_free_def bound_ports_def
        split: if_splits option.splits)
qed

lemma sweep_sigs:
  assumes "tbl_inv T"
  shows "sigs (T\<lparr>t_slots := filter P (t_slots T)\<rparr>)
    = {b \<in> sigs T. fst b \<notin> set (map s_bind_port (filter (\<lambda>s. \<not> P s) (t_slots T)))}"
proof -
  have "P s \<longleftrightarrow> s_bind_port s \<notin> s_bind_port ` {x \<in> set (t_slots T). \<not> P x}" if "s \<in> set (t_slots T)" for s
    using same_port [OF assms that] that by blast
  then show ?thesis unfolding sigs_filter by (auto simp: sigs_def)
qed

lemma gc_sigs: "tbl_inv T \<Longrightarrow> gc now grace T = (freed, T') \<Longrightarrow> sigs T' = {b \<in> sigs T. fst b \<notin> set freed}"
  using sweep_sigs [of T "gc_keeps now grace"] by (auto simp: gc_def)

lemma gc_idle_sigs:
  "tbl_inv T \<Longrightarrow> gc_idle now backstop T = (freed, T') \<Longrightarrow> sigs T' = {b \<in> sigs T. fst b \<notin> set freed}"
  using sweep_sigs [of T "\<lambda>s. \<not> is_idle now backstop s"] by (auto simp: gc_idle_def)

lemma move_sigs:
  assumes "tbl_inv T" and "move_bind_port old T = (Some new, T')" and "(old, k) \<in> sigs T"
  shows "sigs T' = insert (new, k) (sigs T - {(old, k)})" and "new \<notin> fst ` sigs T" and "tbl_inv T'"
proof -
  show "tbl_inv T'" using move_inv [OF assms(1), of old] assms(2) by simp
  obtain i where i: "i < length (t_slots T)" "s_bind_port (t_slots T ! i) = old"
    "port_free (reserve old T) new" "T' = set_bind_port i new (reserve old T)"
    using assms(2) by (cases rule: move_cases [of old T]) auto
  then show "new \<notin> fst ` sigs T" by (auto simp: port_free_def sigs_def)
  define s where "s = t_slots T ! i"
  have s: "s \<in> set (t_slots T)" "s_bind_port s = old" using i by (auto simp: s_def)
  then have k: "slot_key s = k"
    using assms(1,3) leases.one_binding [OF assms(1), of old "slot_key s" k] by (force simp: sigs_def)
  have "set (t_slots T') = insert (s\<lparr>s_bind_port := new\<rparr>) (set (t_slots T) - {s})"
    using i tbl_invD(1) [OF assms(1)] by (simp add: set_bind_port_def set_update_distinct s_def distinct_map)
  moreover have "(\<lambda>s. (s_bind_port s, slot_key s)) ` (set (t_slots T) - {s}) = sigs T - {(old, k)}"
    using s k same_port [OF assms(1) _ s(1)] by (fastforce simp: sigs_def image_iff)
  ultimately show "sigs T' = insert (new, k) (sigs T - {(old, k)})" by (simp add: sigs_def k)
qed

section \<open>The invariant of the facade\<close>

definition entries_ok :: "binding set \<Rightarrow> FacadeEntry list \<Rightarrow> bool" where
  "entries_ok B es \<longleftrightarrow> index_inv es \<and> (\<forall>e \<in> set es. fe_owner e = fe_client e \<and> entry_binding e \<in> B)"

text \<open>
  One port may be under construction: its lease is in the table, its datapath is not up. And the rules of
  the ports of \<open>W\<close> may be missing: a yield moves its entry whatever nft says to the new rules.
\<close>

definition facade_inv_but :: "u16 set \<Rightarrow> u16 option \<Rightarrow> Facade \<Rightarrow> bool" where
  "facade_inv_but W pending F \<longleftrightarrow> tbl_inv (f_table F) \<and> entries_ok (sigs (f_table F)) (f_entries F)
     \<and> (\<forall>b \<in> sigs (f_table F). Some (fst b) \<noteq> pending \<longrightarrow> runs W (f_tasks F) (f_nft F) b)"

abbreviation facade_inv_on :: "u16 set \<Rightarrow> Facade \<Rightarrow> bool" where
  "facade_inv_on W \<equiv> facade_inv_but W None"

abbreviation facade_inv :: "Facade \<Rightarrow> bool" where
  "facade_inv \<equiv> facade_inv_on {}"

lemma facade_inv_frame:
  assumes "f_table F' = f_table F" and "f_entries F' = f_entries F" and "f_tasks F' = f_tasks F"
    and "f_nft F' = f_nft F"
  shows "facade_inv_but W p F' \<longleftrightarrow> facade_inv_but W p F"
  by (simp add: facade_inv_but_def assms)

lemma persist_frame [simp]: "f_table (persist V F) = f_table F" "f_entries (persist V F) = f_entries F"
  "f_tasks (persist V F) = f_tasks F" "f_nft (persist V F) = f_nft F" "f_dp (persist V F) = f_dp F"
  by (simp_all add: persist_def Let_def)

lemma signal_frame [simp]: "f_table (signal_change now F) = f_table F"
  "f_entries (signal_change now F) = f_entries F" "f_tasks (signal_change now F) = f_tasks F"
  "f_nft (signal_change now F) = f_nft F" "f_dp (signal_change now F) = f_dp F"
  by (simp_all add: signal_change_def notify_subscribers_def Let_def)

lemma log_frame [simp]: "f_table (log_f ev d F) = f_table F" "f_entries (log_f ev d F) = f_entries F"
  "f_tasks (log_f ev d F) = f_tasks F" "f_nft (log_f ev d F) = f_nft F" "f_dp (log_f ev d F) = f_dp F"
  by (simp_all add: log_f_def)

lemma steering_frame [simp]: "f_table (log_steering p F) = f_table F"
  "f_entries (log_steering p F) = f_entries F" "f_tasks (log_steering p F) = f_tasks F"
  "f_nft (log_steering p F) = f_nft F" "f_dp (log_steering p F) = f_dp F"
  by (simp_all add: log_steering_def Let_def)

lemma release_frame [simp]: "f_table (release_port V p pr F) = snd (delete_by_bind_port p (f_table F))"
  "f_entries (release_port V p pr F) = f_entries F" "f_tasks (release_port V p pr F) = (f_tasks F)(p := None)"
  "f_nft (release_port V p pr F) = revoke_datapath (v_nft V) p (pr = Tcp) (f_nft F)"
  "f_dp (release_port V p pr F) = f_dp F"
  by (simp_all add: release_port_def abort_tasks_def drop_datapath_def)

lemma inv_persist [simp]: "facade_inv_but W p (persist V F) \<longleftrightarrow> facade_inv_but W p F"
  by (rule facade_inv_frame) simp_all

lemma inv_signal [simp]: "facade_inv_but W p (signal_change now F) \<longleftrightarrow> facade_inv_but W p F"
  by (rule facade_inv_frame) simp_all

lemma inv_log [simp]: "facade_inv_but W p (log_f ev d F) \<longleftrightarrow> facade_inv_but W p F"
  by (rule facade_inv_frame) simp_all

lemma inv_steering [simp]: "facade_inv_but W p (log_steering q F) \<longleftrightarrow> facade_inv_but W p F"
  by (rule facade_inv_frame) simp_all

text \<open>Two entries on one port are one entry.\<close>

lemma entry_on_port:
  assumes "tbl_inv T" and "entries_ok (sigs T) es" and "e \<in> set es" and "x \<in> set es"
    and "fe_bind_port x = fe_bind_port e"
  shows "x = e"
proof -
  from assms have "(fe_proto x, fe_int_port x, fe_client x) = (fe_proto e, fe_int_port e, fe_client e)"
    by (intro leases.entry_port_inj [of T]) (auto simp: entries_ok_def)
  with assms have "tuple_of x = tuple_of e" by (auto simp: tuple_of_def entries_ok_def)
  with assms show ?thesis by (auto simp: entries_ok_def index_inv_def distinct_map inj_on_def)
qed

text \<open>A release, with the entries on the port gone or moved elsewhere.\<close>

lemma inv_release:
  assumes "tbl_inv (f_table F)" and "\<forall>b \<in> sigs (f_table F). fst b \<noteq> p \<longrightarrow> runs W (f_tasks F) (f_nft F) b"
    and "entries_ok (sigs (f_table F)) es" and "\<forall>e \<in> set es. fe_bind_port e \<noteq> p"
  shows "facade_inv_on W ((release_port V p pr F)\<lparr>f_entries := es\<rparr>)"
proof -
  have "entries_ok (sigs (snd (delete_by_bind_port p (f_table F)))) es"
    using leases.released_keeps_entries [OF assms(1), of "set es" p] assms(3,4)
    unfolding entries_ok_def by blast
  with leases.runs_released [OF assms(1,2)] leases.inv_release [OF assms(1)] show ?thesis
    by (simp add: facade_inv_but_def)
qed

lemma inv_runs: "facade_inv_on W F \<Longrightarrow> \<forall>b \<in> sigs (f_table F). fst b \<noteq> p \<longrightarrow> runs W (f_tasks F) (f_nft F) b"
  by (simp add: facade_inv_but_def)

lemma entries_ok_sub:
  "entries_ok B es \<Longrightarrow> index_inv es' \<Longrightarrow> set es' \<subseteq> set es \<Longrightarrow> entries_ok B es'"
  by (auto simp: entries_ok_def)

lemma inv_release_filter:
  assumes "facade_inv_on W F" and "\<And>e. e \<in> set (f_entries F) \<Longrightarrow> P e \<Longrightarrow> fe_bind_port e \<noteq> p"
  shows "facade_inv_on W ((release_port V p pr F)\<lparr>f_entries := filter P (f_entries F)\<rparr>)"
proof (rule inv_release)
  show "entries_ok (sigs (f_table F)) (filter P (f_entries F))"
    using assms(1) by (auto simp: facade_inv_but_def entries_ok_def index_filter)
qed (use assms in \<open>auto simp: facade_inv_but_def\<close>)

section \<open>Evictions and grants\<close>

lemma inv_evict:
  assumes "facade_inv_on W F" and "evict_candidate V c F = (r, F')"
  shows "facade_inv_on W F'"
proof (cases "evict_idle_client (v_now V) LEASE_GRACE_S c (f_table F)")
  case (Some x)
  obtain p a b pr where "x = (p, a, b, pr)" by (metis prod_cases4)
  with assms(2) Some have "F' = persist V ((release_port V p pr F)\<lparr>f_entries :=
      filter (\<lambda>e. fe_bind_port e \<noteq> p) (f_entries F)\<rparr>)"
    by (simp add: evict_candidate_def Let_def)
  with inv_release_filter [OF assms(1), of "\<lambda>e. fe_bind_port e \<noteq> p" p V pr] show ?thesis by simp
qed (use assms in \<open>simp add: evict_candidate_def\<close>)

lemma entries_ok_mono: "entries_ok B es \<Longrightarrow> B \<subseteq> B' \<Longrightarrow> entries_ok B' es"
  by (auto simp: entries_ok_def)

text \<open>What an admission leaves, by its outcome.\<close>

definition admitted :: "u16 set \<Rightarrow> pcp_key \<Rightarrow> UpsertOutcome \<Rightarrow> Facade \<Rightarrow> bool" where
  "admitted W k r F \<longleftrightarrow> (case r of
     Refreshed_at p \<Rightarrow> facade_inv_on W F \<and> (p, Some k) \<in> sigs (f_table F)
   | Granted_at p \<Rightarrow> facade_inv_but W (Some p) F \<and> (p, Some k) \<in> sigs (f_table F)
       \<and> (\<forall>e \<in> set (f_entries F). fe_bind_port e \<noteq> p)
   | _ \<Rightarrow> facade_inv_on W F)"

lemma upsert_admitted:
  assumes inv: "facade_inv_on W F" and u: "upsert_once pr ip c l now F = (r, F')"
  shows "admitted W (pr, ip, c) r F'"
proof -
  obtain T where T: "upsert_pcp pr ip c l now c ip (f_table F) = (r, T)" "F' = F\<lparr>f_table := T\<rparr>"
    using u by (auto simp: upsert_once_def split: prod.splits)
  have t: "tbl_inv (f_table F)" using inv by (simp add: facade_inv_but_def)
  have t': "tbl_inv T" using upsert_inv [OF t, of pr ip c l now c ip] T by simp
  note s = upsert_sigs [OF t T(1)]
  show ?thesis
  proof (cases r)
    case (Granted_at p)
    have free: "fe_bind_port e \<noteq> p" if "e \<in> set (f_entries F)" for e
      using that inv s Granted_at by (force simp: facade_inv_but_def entries_ok_def entry_binding_def)
    have "entries_ok (sigs T) (f_entries F)"
      using inv s Granted_at by (auto simp: facade_inv_but_def intro: entries_ok_mono)
    with inv t' s free Granted_at T show ?thesis
      by (auto simp: admitted_def facade_inv_but_def)
  qed (use inv t' s T in \<open>auto simp: admitted_def facade_inv_but_def\<close>)
qed

lemma inv_probe: "facade_inv_on W F \<Longrightarrow> facade_inv_on W (collision_probe V F)"
  by (auto simp: collision_probe_def facade_inv_but_def avoid_inv split: sum.split)

lemma upsert_or_evict_admitted:
  assumes "facade_inv_on W F" and "upsert_or_evict V pr ip c l F = (r, F')"
  shows "admitted W (pr, ip, c) r F'"
proof -
  obtain r1 F1 where u: "upsert_once pr ip c l (v_now V) F = (r1, F1)" by fastforce
  note a = upsert_admitted [OF assms(1) u]
  show ?thesis
  proof (cases "r1 = TableFull")
    case True
    with a have inv1: "facade_inv_on W F1" by (simp add: admitted_def)
    obtain x F2 where e: "evict_candidate V c F1 = (x, F2)" by fastforce
    have inv2: "facade_inv_on W F2" by (rule inv_evict [OF inv1 e])
    show ?thesis
      using assms(2) u e True inv2 upsert_admitted [OF inv2]
      by (cases x) (auto simp: upsert_or_evict_def admitted_def)
  qed (use assms(2) u a in \<open>simp add: upsert_or_evict_def\<close>)
qed

end
