(* ===== verification/Facade_Keeps.thy ===== *)
theory Facade_Keeps
  imports Facade_Inv Control
begin

text \<open>
  Every operation of the facade keeps its invariant, up to one datagram, one control request, one
  tick of the collector and the start.
\<close>

section \<open>Grants\<close>

lemma runs_other:
  assumes "runs W tasks N b" and "fst b \<noteq> p"
  shows "runs W (tasks(p := x)) (snd (grant_datapath ok c i p tcp N)) b"
    and "runs W tasks (snd (grant_datapath ok c i p tcp N)) b"
    and "runs W tasks (revoke_datapath ok p tcp N) b" and "runs W tasks (del_input_accept ok p tcp N) b"
  using assms by (auto simp: runs_def grant_keeps revoke_keeps unaccept_keeps split: option.splits)

text \<open>A failed installation takes the slot out of the table again.\<close>

lemma inv_undo:
  assumes "facade_inv_but W (Some p) F" and "\<forall>e \<in> set (f_entries F). fe_bind_port e \<noteq> p"
    and "f_table F' = snd (delete_by_bind_port p (f_table F))" and "f_entries F' = f_entries F"
    and "f_tasks F' = f_tasks F"
    and "\<And>b. fst b \<noteq> p \<Longrightarrow> runs W (f_tasks F) (f_nft F) b \<Longrightarrow> runs W (f_tasks F) (f_nft F') b"
  shows "facade_inv_on W F'"
proof -
  have t: "tbl_inv (f_table F)" using assms(1) by (simp add: facade_inv_but_def)
  have "entries_ok (sigs (f_table F')) (f_entries F)"
    using leases.released_keeps_entries [OF t, of "set (f_entries F)" p] assms(1-3)
    by (auto simp: facade_inv_but_def entries_ok_def)
  then show ?thesis
    using assms leases.inv_release [OF t] leases.bindings_release [OF t]
    by (auto simp: facade_inv_but_def)
qed

lemma inv_install:
  assumes inv: "facade_inv_but W (Some p) F" and b: "(p, Some (pr, i, c)) \<in> sigs (f_table F)"
    and free: "\<forall>e \<in> set (f_entries F). fe_bind_port e \<noteq> p"
    and ins: "install V pr c i p F = (ok, F')"
  shows "facade_inv_on W F'" and "ok \<Longrightarrow> f_table F' = f_table F \<and> f_entries F' = f_entries F"
proof -
  obtain g N where g: "grant_datapath (v_nft V) c i p (pr = Tcp) (f_nft F) = (g, N)" by fastforce
  then have N: "N = snd (grant_datapath (v_nft V) c i p (pr = Tcp) (f_nft F))" by simp
  have keep: "runs W (f_tasks F) N x" "runs W ((f_tasks F)(p := y)) N x"
    if "fst x \<noteq> p" "runs W (f_tasks F) (f_nft F) x" for x y
    using runs_other [OF that(2,1)] by (simp_all add: N)
  have "facade_inv_on W F' \<and> (ok \<longrightarrow> f_table F' = f_table F \<and> f_entries F' = f_entries F)"
  proof (cases g)
    case False
    then have f: "\<not> ok" "f_table F' = snd (delete_by_bind_port p (f_table F))" "f_entries F' = f_entries F"
      "f_tasks F' = f_tasks F" "f_nft F' = revoke_datapath (v_nft V) p (pr = Tcp) N"
      using ins g by (auto simp: install_def drop_datapath_def Let_def)
    with inv_undo [OF inv free f(2-4)] keep runs_other(3) show ?thesis by force
  next
    case granted: True
    show ?thesis
    proof (cases "v_bind V pr p")
      case (Some err)
      then have f: "\<not> ok" "f_table F' = snd (delete_by_bind_port p (f_table F))" "f_entries F' = f_entries F"
        "f_tasks F' = f_tasks F" "f_nft F' = del_input_accept (v_nft V) p (pr = Tcp) N"
        using ins g granted by (auto simp: install_def spawn_slot_def)
      with inv_undo [OF inv free f(2-4)] keep runs_other(4) show ?thesis by force
    next
      case None
      then have f: "ok" "f_table F' = f_table F" "f_entries F' = f_entries F"
        "f_tasks F' = (f_tasks F)(p \<mapsto> (pr, (c, i)))" "f_nft F' = N"
        using ins g granted by (auto simp: install_def spawn_slot_def)
      have "runs W (f_tasks F') (f_nft F') (p, Some (pr, i, c))"
        using grant_serves [of "v_nft V" c i p "pr = Tcp" "f_nft F" N] g granted
        by (simp add: runs_def f)
      moreover have "x = Some (pr, i, c)" if "(p, x) \<in> sigs (f_table F)" for x
        using leases.one_binding [of "f_table F" p x] that b inv by (auto simp: facade_inv_but_def)
      ultimately have "\<forall>x \<in> sigs (f_table F). runs W (f_tasks F') (f_nft F') x"
        using inv keep by (force simp: facade_inv_but_def f)
      with inv show ?thesis by (simp add: facade_inv_but_def f)
    qed
  qed
  then show "facade_inv_on W F'" and "ok \<Longrightarrow> f_table F' = f_table F \<and> f_entries F' = f_entries F" by blast+
qed

lemma inv_set_entries:
  "facade_inv_on W F \<Longrightarrow> entries_ok (sigs (f_table F)) es \<Longrightarrow> facade_inv_on W (F\<lparr>f_entries := es\<rparr>)"
  by (simp add: facade_inv_but_def)

lemma inv_record:
  assumes inv: "facade_inv_on W F" and b: "(p, Some (mr_proto r, mr_int_port r, mr_client r)) \<in> sigs (f_table F)"
    and own: "owner = mr_client r"
  shows "facade_inv_on W (record_grant V r owner l p F)"
proof -
  let ?es = "f_entries F" and ?B = "sigs (f_table F)"
  have t: "tbl_inv (f_table F)" and ok: "entries_ok ?B ?es" using inv by (simp_all add: facade_inv_but_def)
  then have idx: "index_inv ?es" by (simp add: entries_ok_def)
  let ?app = "apply_entry (mr_ext r) (mr_proto r) (mr_client r) owner (mr_int_port r) p l (v_now V) (mr_desc r) ?es"
  show ?thesis
  proof (cases rule: apply_entry_cases [OF idx, of "mr_proto r" owner "mr_int_port r" "mr_ext r"
        "mr_client r" p l "v_now V" "mr_desc r", case_names relabel overwrite new])
    case (relabel e es')
    have "entry_binding (e\<lparr>fe_req_ext := mr_ext r, fe_lifetime := l,
        fe_expires := sat_add (v_now V) (ucast l), fe_desc := mr_desc r\<rparr>) = entry_binding e"
      by (simp add: entry_binding_def)
    with relabel ok have "entries_ok ?B es'" by (auto simp: entries_ok_def)
    with inv_set_entries [OF inv this] relabel(3) show ?thesis by (simp add: record_grant_def)
  next
    case (new es')
    with ok b own have "entries_ok ?B es'" by (auto simp: entries_ok_def entry_binding_def)
    with inv_set_entries [OF inv this] new(2) show ?thesis by (simp add: record_grant_def)
  next
    case (overwrite e es')
    have pr: "fe_proto e = mr_proto r" "fe_owner e = owner"
      using overwrite(2) by (simp_all add: same_label_def)
    have ok': "entries_ok ?B es'"
      using overwrite(6,7) ok b own pr by (auto simp: entries_ok_def entry_binding_def)
    show ?thesis
    proof (cases "fe_bind_port e = p")
      case True
      with inv_set_entries [OF inv ok'] overwrite(5) show ?thesis by (simp add: record_grant_def)
    next
      case False
      have "\<forall>x \<in> set es'. fe_bind_port x \<noteq> fe_bind_port e"
        using overwrite(1,6) False entry_on_port [OF t ok overwrite(1)] by auto
      from inv_release [OF t inv_runs [OF inv] ok' this, of V "mr_proto r"]
      have "facade_inv_on W (release_port V (fe_bind_port e) (mr_proto r) (F\<lparr>f_entries := es'\<rparr>))"
        by (subst facade_inv_frame) simp_all
      with False overwrite(5) show ?thesis by (simp add: record_grant_def Let_def)
    qed
  qed
qed

lemma inv_grant:
  assumes inv: "facade_inv_on W F" and own: "owner = mr_client r"
  shows "facade_inv_on W (snd (grant_mapping C V r owner view F))"
proof -
  let ?F1 = "if by_pcp_key (mr_proto r, mr_int_port r, owner) (f_table F) = None then collision_probe V F else F"
  define l where "l = (if mr_lifetime r = 0 then INFINITE_LEASE else mr_lifetime r)"
  obtain out F2 where u: "upsert_or_evict V (mr_proto r) (mr_int_port r) (mr_client r) l ?F1 = (out, F2)"
    by fastforce
  have "facade_inv_on W ?F1" using inv inv_probe by simp
  from upsert_or_evict_admitted [OF this u]
  have adm: "admitted W (mr_proto r, mr_int_port r, mr_client r) out F2" .
  define refused where "refused \<longleftrightarrow>
    (case view of Some c \<Rightarrow> \<not> request_within c (mr_client r) (mr_ext r) (mr_int_port r) | None \<Rightarrow> False)"
  show ?thesis
  proof (cases "refused \<or> \<not> in_lan (mr_client r) (c_lan_ip C)")
    case True
    with inv show ?thesis by (auto simp: grant_mapping_def refused_def)
  next
    case False
    then have g: "grant_mapping C V r owner view F = (case out of
          Granted_at p \<Rightarrow>
            (case install V (mr_proto r) (mr_client r) (mr_int_port r) p F2 of
               (False, F3) \<Rightarrow> (Inl ActionFailed, F3)
             | (True, F3) \<Rightarrow> (Inr out, record_grant V r owner l p F3))
        | Refreshed_at p \<Rightarrow> (Inr out, record_grant V r owner l p F2)
        | UserQuotaExceeded \<Rightarrow> (Inl ActionFailed, F2)
        | TableFull \<Rightarrow> (Inl ActionFailed, F2))"
      using u unfolding grant_mapping_def Let_def l_def [symmetric] refused_def [symmetric] by simp
    show ?thesis
    proof (cases out)
      case (Granted_at p)
      obtain ok F3 where i: "install V (mr_proto r) (mr_client r) (mr_int_port r) p F2 = (ok, F3)" by fastforce
      from adm Granted_at have a: "facade_inv_but W (Some p) F2"
        "(p, Some (mr_proto r, mr_int_port r, mr_client r)) \<in> sigs (f_table F2)"
        "\<forall>e \<in> set (f_entries F2). fe_bind_port e \<noteq> p" by (simp_all add: admitted_def)
      note f = inv_install [OF a i]
      have "facade_inv_on W (record_grant V r owner l p F3)" if ok
        using inv_record [OF f(1) _ own, of p V l] f(2) [OF that] a(2) by simp
      with f(1) i Granted_at g show ?thesis by (cases ok) simp_all
    next
      case (Refreshed_at p)
      with adm inv_record [OF _ _ own, of W F2 p V l] g show ?thesis by (simp add: admitted_def)
    qed (use adm g in \<open>simp_all add: admitted_def\<close>)
  qed
qed

text \<open>The containment of a caller without the lift makes the requester the target.\<close>

lemma inv_grant_contained:
  assumes "facade_inv_on W F" and "view = None \<Longrightarrow> owner = mr_client r" and "\<And>c. view = Some c \<Longrightarrow> cn_caller c = owner"
  shows "facade_inv_on W (snd (grant_mapping C V r owner view F))"
proof (cases "owner = mr_client r")
  case False
  with assms(2,3) obtain c where "view = Some c" "cn_caller c \<noteq> mr_client r" by (cases view) auto
  then have "grant_mapping C V r owner view F = (Inl UE_NotAuthorized, F)"
    by (simp add: grant_mapping_def request_within_def)
  with assms(1) show ?thesis by simp
qed (use assms(1) inv_grant in blast)

lemma inv_exact:
  assumes "facade_inv_on W F" and "view = None \<Longrightarrow> owner = mr_client r" and "\<And>c. view = Some c \<Longrightarrow> cn_caller c = owner"
  shows "facade_inv_on W (snd (allocate_exact C V r owner view F))"
proof -
  have "snd (allocate_exact C V r owner view F) = snd (grant_mapping C V r owner view F)"
    by (simp add: allocate_exact_def split: prod.split sum.split)
  then show ?thesis using inv_grant_contained [of W F view owner r C V] assms by simp
qed

lemma inv_preferred:
  assumes "facade_inv_on W F" and "view = None \<Longrightarrow> owner = mr_client r" and "\<And>c. view = Some c \<Longrightarrow> cn_caller c = owner"
  shows "facade_inv_on W (snd (allocate_preferred C V r owner view F))"
proof (cases "case view of Some c \<Rightarrow> \<not> request_within c (mr_client r) (mr_ext r) (mr_int_port r) | None \<Rightarrow> False")
  case False
  with assms(2,3) have own: "owner = mr_client r" by (cases view) (auto simp: request_within_def)
  let ?r = "r\<lparr>mr_ext := preferred_port (f_entries F) (mr_ext r) (mr_proto r)\<rparr>"
  have "facade_inv_on W (snd (allocate_exact C V ?r owner None F))"
    using inv_exact [OF assms(1), of None owner ?r] own by simp
  moreover have "snd (allocate_preferred C V r owner view F) = snd (allocate_exact C V ?r owner None F)"
    using False by (simp add: allocate_preferred_def Let_def split: prod.split sum.split)
  ultimately show ?thesis by simp
qed (use assms(1) in \<open>simp add: allocate_preferred_def\<close>)

section \<open>Deletes\<close>

lemma inv_delete:
  assumes inv: "facade_inv_on W F"
  shows "facade_inv_on W (snd (delete_mapping V ext pr caller view F))"
proof (cases "find (same_label ext pr caller) (f_entries F)")
  case (Some e)
  then have e: "e \<in> set (f_entries F)" "same_label ext pr caller e" by (auto dest: find_SomeD)
  from inv have t: "tbl_inv (f_table F)" "entries_ok (sigs (f_table F)) (f_entries F)"
    by (simp_all add: facade_inv_but_def)
  have "facade_inv_on W ((release_port V (fe_bind_port e) pr F)\<lparr>f_entries :=
      filter (\<lambda>x. \<not> same_label ext pr caller x) (f_entries F)\<rparr>)"
    using e entry_on_port [OF t e(1)] by (intro inv_release_filter [OF inv]) blast
  with Some inv show ?thesis by (simp add: delete_mapping_def Let_def)
qed (use inv in \<open>simp add: delete_mapping_def\<close>)

lemma inv_range:
  assumes "facade_inv_on W F"
  shows "facade_inv_on W (snd (delete_mapping_range V a z pr view F))"
proof -
  have "facade_inv_on W (fold (\<lambda>(ext, owner) F. snd (delete_mapping V ext pr owner view F)) ts F)" for ts
    by (rule fold_keeps [where P = "facade_inv_on W", OF _ assms]) (auto intro: inv_delete)
  with assms show ?thesis by (simp add: delete_mapping_range_def Let_def)
qed

section \<open>The collector\<close>

lemma inv_reap:
  assumes "facade_inv_on W F"
  shows "facade_inv_on W (reap_absent_clients V F)"
proof -
  have "facade_inv_on W (fold (release_entry V) out F')" if "facade_inv_on W F'" for out F'
    by (rule fold_keeps [where P = "facade_inv_on W", OF _ that]) (simp add: release_entry_def inv_delete)
  moreover have "facade_inv_on W (F\<lparr>f_misses := m\<rparr>)" for m by (subst facade_inv_frame) (use assms in simp_all)
  ultimately show ?thesis by (simp add: reap_absent_clients_def Let_def split: prod.split)
qed

lemma tear_down_effect:
  "f_table (tear_down_port V pre p F) = f_table F"
  "f_entries (tear_down_port V pre p F) = filter (\<lambda>e. fe_bind_port e \<noteq> p) (f_entries F)"
  "fst b \<noteq> p \<Longrightarrow> runs W (f_tasks F) (f_nft F) b \<Longrightarrow>
     runs W (f_tasks (tear_down_port V pre p F)) (f_nft (tear_down_port V pre p F)) b"
  by (auto simp: tear_down_port_def Let_def abort_tasks_def drop_datapath_def runs_def revoke_keeps
      split: option.splits)

lemma tear_down_all:
  "f_table (fold (tear_down_port V pre) ps F) = f_table F
   \<and> f_entries (fold (tear_down_port V pre) ps F) = filter (\<lambda>e. fe_bind_port e \<notin> set ps) (f_entries F)
   \<and> (fst b \<notin> set ps \<longrightarrow> runs W (f_tasks F) (f_nft F) b \<longrightarrow>
       runs W (f_tasks (fold (tear_down_port V pre) ps F)) (f_nft (fold (tear_down_port V pre) ps F)) b)"
proof (induction ps arbitrary: F)
  case (Cons p ps)
  from Cons [of "tear_down_port V pre p F"] tear_down_effect(1,2) [of V pre p F]
    tear_down_effect(3) [where b = b and p = p and F = F and V = V and pre = pre]
  show ?case by (auto simp: conj_commute)
qed simp

lemma inv_collect:
  assumes inv: "facade_inv_on W F" and sw: "sweep (f_table F) = (freed, T)" and t: "tbl_inv T"
    and s: "sigs T = {b \<in> sigs (f_table F). fst b \<notin> set freed}"
  shows "facade_inv_on W (collect V sweep F)"
proof (cases "freed = []")
  case True
  with assms show ?thesis by (simp add: collect_def facade_inv_but_def)
next
  case False
  define F' where "F' = fold (tear_down_port V (t_slots (f_table F))) freed (F\<lparr>f_table := T\<rparr>)"
  have f: "f_table F' = T" "f_entries F' = filter (\<lambda>e. fe_bind_port e \<notin> set freed) (f_entries F)"
    "\<And>b. fst b \<notin> set freed \<Longrightarrow> runs W (f_tasks F) (f_nft F) b \<Longrightarrow> runs W (f_tasks F') (f_nft F') b"
    using tear_down_all [of V "t_slots (f_table F)" freed "F\<lparr>f_table := T\<rparr>"] by (simp_all add: F'_def)
  have "entries_ok (sigs T) (f_entries F')"
    using inv s by (auto simp: f facade_inv_but_def entries_ok_def index_filter entry_binding_def)
  then have "facade_inv_on W F'" using inv t s f by (auto simp: facade_inv_but_def)
  with False show ?thesis by (simp add: collect_def sw tear_down_ports_def F'_def)
qed

lemma inv_gc: "facade_inv_on W F \<Longrightarrow> facade_inv_on W (collect V (gc now grace) F)"
  using gc_inv [of "f_table F" now grace] gc_sigs [of "f_table F" now grace]
  by (cases "gc now grace (f_table F)") (simp add: inv_collect facade_inv_but_def [of W None F])

lemma inv_gc_idle: "facade_inv_on W F \<Longrightarrow> facade_inv_on W (collect V (gc_idle now backstop) F)"
  using gc_idle_inv [of "f_table F" now backstop] gc_idle_sigs [of "f_table F" now backstop]
  by (cases "gc_idle now backstop (f_table F)") (simp add: inv_collect facade_inv_but_def [of W None F])

end
