(* ===== verification/Facade_Props.thy ===== *)
theory Facade_Props
  imports Facade_Keeps
begin

text \<open>
  The composition: datagrams, control requests, learned tuples and ticks as the steps of one
  machine, and what every reachable state of the facade satisfies.
\<close>

section \<open>Yielding\<close>

lemma update_first_find:
  assumes "find P es = Some e" and "index_inv es"
    and "\<And>x. order_key (f x) = order_key x" and "\<And>x. tuple_of (f x) = tuple_of x"
  shows "index_inv (update_first P f es)" and "set (update_first P f es) = insert (f e) (set es - {e})"
proof -
  obtain i where i: "position P es = Some i" using assms(1) by (cases "position P es") (auto simp: position_None_find)
  with assms(1) have e: "i < length es" "es ! i = e" by (auto simp: position_SomeD dest: position_Some_find)
  have u: "update_first P f es = es[i := f e]" by (simp add: update_first_def i e)
  have d: "distinct es" using assms(2) by (simp add: index_inv_def distinct_map)
  show "set (update_first P f es) = insert (f e) (set es - {e})"
    using d e set_update_distinct [of es i "f e"] by (simp add: u)
  have "tuple_of e \<notin> tuple_of ` (set es - {e})"
    using assms(2) e nth_mem [OF e(1)] by (auto simp: index_inv_def distinct_map inj_on_def)
  then show "index_inv (update_first P f es)"
    unfolding u using index_update [OF assms(2) e(1), of "f e"] e by (simp add: assms(3,4))
qed

text \<open>
  A yield moves its entry to a port that was free and not avoided, and the port it left is avoided from
  then on. The rules of the new port are in place when nft takes every statement.
\<close>

definition ports :: "Facade \<Rightarrow> u16 set" where
  "ports F = fst ` sigs (f_table F)"

definition taken :: "Facade \<Rightarrow> u16 set" where
  "taken F = ports F \<union> set (t_avoid (f_table F))"

lemma moved_port_fresh: "move_bind_port old T = (Some new, T') \<Longrightarrow> new \<notin> set (t_avoid T)"
  by (cases rule: move_cases [of old T]) (auto simp: port_free_def reserve_def split: if_splits)

definition held :: "LeaseTable \<Rightarrow> u16 set" where
  "held T = s_bind_port ` set (t_slots T) \<union> set (t_avoid T)"

lemma held_reserve [simp]: "held T \<subseteq> held (reserve old T)"
  by (auto simp: held_def reserve_def)

lemma held_move: "move_bind_port old T = (r, T') \<Longrightarrow> held T \<subseteq> held T'"
proof (cases rule: move_cases [of old T])
  case (moved i new)
  moreover assume "move_bind_port old T = (r, T')"
  ultimately have T': "T' = set_bind_port i new (reserve old T)" by simp
  have "s_bind_port s = old \<or> s \<in> set (t_slots T')" if "s \<in> set (t_slots T)" for s
  proof -
    from that obtain k where k: "k < length (t_slots T)" "s = t_slots T ! k" by (auto simp: in_set_conv_nth)
    have "t_slots T' ! k = s" if "k \<noteq> i" using that k by (simp add: T' set_bind_port_def)
    with k moved(2) show ?thesis by (cases "k = i") (auto simp: T' set_bind_port_def in_set_conv_nth)
  qed
  moreover have "old \<in> set (t_avoid T')" "set (t_avoid T) \<subseteq> set (t_avoid T')"
    by (auto simp: T' set_bind_port_def reserve_def)
  ultimately show ?thesis unfolding held_def by blast
qed (auto simp: held_def reserve_def)

lemma taken_held: "taken F = held (f_table F)"
  by (simp add: taken_def ports_def held_def sigs_def image_image)

lemma yield_table:
  "f_table (yield_port V old F) = f_table F \<or> f_table (yield_port V old F) = snd (move_bind_port old (f_table F))
   \<or> f_table (yield_port V old F) = reserve old (f_table F)"
proof (cases "find (\<lambda>e. fe_bind_port e = old) (f_entries F)")
  case (Some e)
  obtain r T where m: "move_bind_port old (f_table F) = (r, T)" by fastforce
  show ?thesis
  proof (cases r)
    case (Some new)
    then have "restore_bind_port new old T = reserve old (f_table F)" using move_back m by blast
    with \<open>find _ _ = Some e\<close> m Some show ?thesis
      by (cases "v_bind V (fe_proto e) new")
        (simp_all add: yield_port_def spawn_slot_def abort_tasks_def drop_datapath_def Let_def)
  qed (use Some m in \<open>simp add: yield_port_def\<close>)
qed (simp add: yield_port_def)

lemma taken_yield: "taken F \<subseteq> taken (yield_port V old F)"
  using yield_table [of V old F] held_move [of old "f_table F"] held_reserve [of "f_table F" old]
  unfolding taken_held by (metis prod.collapse order_refl)

lemma inv_yield:
  assumes inv: "facade_inv_on W F" and ok: "(\<forall>t. v_nft V t) \<or> - taken F \<subseteq> W"
  shows "facade_inv_on W (yield_port V old F)"
proof (cases "find (\<lambda>e. fe_bind_port e = old) (f_entries F)")
  case (Some e)
  then have e: "e \<in> set (f_entries F)" "fe_bind_port e = old" by (auto dest: find_SomeD)
  from inv have t: "tbl_inv (f_table F)" and ent: "entries_ok (sigs (f_table F)) (f_entries F)"
    by (simp_all add: facade_inv_but_def)
  let ?k = "Some (fe_proto e, fe_int_port e, fe_client e)"
  have b: "(old, ?k) \<in> sigs (f_table F)" using ent e by (auto simp: entries_ok_def entry_binding_def)
  obtain r T where m: "move_bind_port old (f_table F) = (r, T)" by fastforce
  show ?thesis
  proof (cases r)
    case None
    have "sigs T = sigs (f_table F)" using m None by (cases rule: move_cases [of old "f_table F"]) auto
    moreover have "tbl_inv T" using move_inv [OF t, of old] m by simp
    ultimately show ?thesis using Some m None inv by (simp add: yield_port_def facade_inv_but_def)
  next
    case moved: (Some new)
    note ms = move_sigs [OF t m [unfolded moved] b]
    show ?thesis
    proof (cases "v_bind V (fe_proto e) new")
      case refused: (Some err)
      have "restore_bind_port new old T = reserve old (f_table F)" using move_back m moved by blast
      with Some m moved refused inv show ?thesis
        by (simp add: yield_port_def spawn_slot_def facade_inv_but_def)
    next
      case None
      let ?N = "revoke_datapath (v_nft V) old (fe_proto e = Tcp)
        (snd (grant_datapath (v_nft V) (fe_client e) (fe_int_port e) new (fe_proto e = Tcp) (f_nft F)))"
      let ?tasks = "(f_tasks F)(new \<mapsto> (fe_proto e, (fe_client e, fe_int_port e)), old := None)"
      let ?es = "update_first (\<lambda>x. fe_bind_port x = old) (\<lambda>x. x\<lparr>fe_bind_port := new\<rparr>) (f_entries F)"
      define F' where "F' = F\<lparr>f_table := T, f_entries := ?es, f_tasks := ?tasks, f_nft := ?N\<rparr>"
      have idx: "index_inv ?es"
        and es: "set ?es = insert (e\<lparr>fe_bind_port := new\<rparr>) (set (f_entries F) - {e})"
        using update_first_find [OF Some, of "\<lambda>x. x\<lparr>fe_bind_port := new\<rparr>"] ent
        by (simp_all add: order_key_def tuple_of_def entries_ok_def)
      have "entry_binding x \<in> sigs T" if "x \<in> set (f_entries F)" "x \<noteq> e" for x
        using that ent entry_on_port [OF t ent e(1), of x] e(2) ms(1)
        by (auto simp: entries_ok_def entry_binding_def)
      then have "entries_ok (sigs T) ?es"
        using idx es ent e ms(1) by (auto simp: entries_ok_def entry_binding_def)
      moreover have "runs W ?tasks ?N x" if "x \<in> sigs T" for x
      proof (cases "x = (new, ?k)")
        case True
        have "new \<noteq> old" using ms(2) b by force
        moreover have "serves (snd (grant_datapath (v_nft V) (fe_client e) (fe_int_port e) new (fe_proto e = Tcp)
            (f_nft F))) (fe_client e) (fe_int_port e) new (fe_proto e = Tcp)" if "\<forall>t. v_nft V t"
          by (rule grant_serves [of "v_nft V" _ _ _ _ "f_nft F"])
            (simp add: grant_datapath_def run_script_def add_input_accept_def that)
        moreover have "new \<notin> taken F" using moved_port_fresh [OF m [unfolded moved]] ms(2) by (auto simp: taken_def ports_def)
        ultimately show ?thesis using ok by (auto simp: True runs_def revoke_keeps)
      next
        case False
        with that ms have x: "x \<in> sigs (f_table F)" "fst x \<noteq> new" "x \<noteq> (old, ?k)" by (auto simp: image_iff)
        then have "fst x \<noteq> old" using leases.one_binding [OF t, of old _ ?k] b by (metis prod.collapse)
        with x inv runs_other(1) runs_other(3) show ?thesis
          by (auto simp: facade_inv_but_def runs_def grant_keeps revoke_keeps split: option.splits)
      qed
      ultimately have "facade_inv_on W F'" using ms(3) by (simp add: F'_def facade_inv_but_def)
      moreover have "facade_inv_but W None (yield_port V old F) \<longleftrightarrow> facade_inv_on W F'"
        using Some m moved None
        by (intro facade_inv_frame)
          (simp_all add: yield_port_def spawn_slot_def abort_tasks_def drop_datapath_def Let_def F'_def)
      ultimately show ?thesis by simp
    qed
  qed
qed (use inv in \<open>simp add: yield_port_def\<close>)


lemma inv_yields:
  assumes inv: "facade_inv_on W F" and ok: "(\<forall>t. v_nft V t) \<or> - ports F \<subseteq> W"
  shows "facade_inv_on W (yield_collided_slots V F)"
proof (cases "v_conntrack V")
  case (Some listing)
  define F1 where "F1 = (case v_live V of
    Inr live \<Rightarrow> F\<lparr>f_table := avoid_ports (map snd live) (f_table F)\<rparr> | Inl _ \<Rightarrow> F)"
  have "facade_inv_on W F1" and "ports F \<subseteq> taken F1"
    using inv by (auto simp: F1_def facade_inv_but_def avoid_inv taken_def ports_def split: sum.split)
  then have "facade_inv_on W (fold (yield_port V) ps F1)" for ps
  proof (induction ps arbitrary: F1)
    case (Cons p ps)
    from Cons.prems ok have "(\<forall>t. v_nft V t) \<or> - taken F1 \<subseteq> W" by blast
    moreover have "ports F \<subseteq> taken (yield_port V p F1)"
      using Cons.prems taken_yield [of F1 V p] by blast
    ultimately show ?case using Cons inv_yield by simp
  qed simp
  with Some show ?thesis by (simp add: yield_collided_slots_def F1_def Let_def)
qed (use inv in \<open>simp add: yield_collided_slots_def\<close>)

lemma inv_tick:
  assumes "facade_inv_on W F" and "(\<forall>t. v_nft V t) \<or> - ports F \<subseteq> W"
  shows "facade_inv_on W (gc_loop C V F)"
  unfolding gc_loop_def by (intro inv_gc_idle inv_reap inv_gc inv_yields assms)

section \<open>Datagrams\<close>

lemma inv_wait: "facade_inv_on W (F\<lparr>f_wait := w\<rparr>) \<longleftrightarrow> facade_inv_on W F"
  by (rule facade_inv_frame) simp_all

lemma inv_discovery: "facade_inv_on W F \<Longrightarrow> facade_inv_on W (snd (discovery_answer now p x y F))"
  by (auto simp: discovery_answer_def Let_def inv_wait split: option.split)

lemma inv_admit_delete: "facade_inv_on W F \<Longrightarrow> facade_inv_on W (snd (admit_delete V owner pr i x y F))"
  using inv_delete [of W F V _ pr owner None]
  by (auto simp: admit_delete_def split: option.split prod.split sum.split) (metis snd_conv)+

lemma inv_admit_map:
  assumes "facade_inv_on W F" and "view = None \<Longrightarrow> owner = target" and "\<And>c. view = Some c \<Longrightarrow> cn_caller c = owner"
  shows "facade_inv_on W (snd (admit_map C V owner target view pr i x y l cap fs F))"
proof (cases "proto_of pr")
  case (Some proto)
  let ?r = "\<lparr>mr_ext = x, mr_proto = proto, mr_client = target, mr_int_port = i,
    mr_lifetime = lifetime_cap l cap, mr_desc = ''pcp''\<rparr>"
  obtain res F1 where g: "grant_mapping C V ?r owner view F = (res, F1)" by fastforce
  have "facade_inv_on W F1" using inv_grant_contained [OF assms(1), of view owner ?r C V] assms(2,3) g by simp
  with Some g assms(1) show ?thesis
    by (cases res) (auto simp: admit_map_def inv_admit_delete inv_discovery inv_wait
        split: UpnpErr.split option.split)
qed (use assms(1) in \<open>simp add: admit_map_def\<close>)

lemma inv_admit_peer: "facade_inv_on W F \<Longrightarrow> facade_inv_on W (snd (admit_peer now owner pr i x y l pe F))"
  by (auto simp: admit_peer_def inv_discovery split: option.split)

text \<open>A caller with the lift may name another host; these requests name their sender.\<close>

definition own_datagram :: "Env \<Rightarrow> u8 list \<Rightarrow> ipv4 \<Rightarrow> Facade \<Rightarrow> bool" where
  "own_datagram V pkt client F \<longleftrightarrow> (case parse_pcp pkt client of
     Inr (Map_req m) \<Rightarrow> m_third_party m = None \<or> \<not> dp_holds_lift client (v_now V) F
   | _ \<Rightarrow> True)"

definition own_request :: "Env \<Rightarrow> string \<Rightarrow> ipv4 \<Rightarrow> Facade \<Rightarrow> bool" where
  "own_request V body client F \<longleftrightarrow> (case parse_add_args_impl body True of
     Inr (_, _, _, c, _) \<Rightarrow> c = client \<or> \<not> dp_holds_lift client (v_now V) F
   | Inl _ \<Rightarrow> True)"

lemma inv_pcp:
  assumes inv: "facade_inv_on W F" and own: "own_datagram V pkt client F"
  shows "facade_inv_on W (snd (pcp_handle C V pkt client pe F))"
proof (cases "parse_pcp pkt client")
  case (Inl e)
  with inv show ?thesis by (simp add: pcp_handle_def Let_def split: Refusal.split)
next
  case (Inr q)
  show ?thesis
  proof (cases q)
    case (Map_req m)
    show ?thesis
    proof (cases "map_target client m (dp_holds_lift client (v_now V) F)")
      case (Some tv)
      obtain target view where tv: "tv = (target, view)" by fastforce
      have "view = None \<longrightarrow> client = target" "\<forall>c. view = Some c \<longrightarrow> cn_caller c = client"
        using Some own Inr Map_req tv
        by (auto simp: map_target_def own_datagram_def split: option.splits bool.splits)
      then have "facade_inv_on W (snd (admit_map C V client target view (m_proto m) (m_int_port m)
          (m_sug_ext_port m) (m_sug_ext_ip m) (m_lifetime m) MAX_LIFETIME (m_filters m) F))"
        by (intro inv_admit_map [OF inv]) simp_all
      with Inr Map_req Some tv inv show ?thesis by (simp add: pcp_handle_def Let_def split_beta)
    qed (use Inr Map_req inv in \<open>simp add: pcp_handle_def Let_def\<close>)
  next
    case (Peer_req p)
    with Inr inv_admit_peer [OF inv] show ?thesis
      by (auto simp: pcp_handle_def Let_def split: prod.split) (metis snd_conv)
  qed (use Inr inv in \<open>simp add: pcp_handle_def Let_def\<close>)
qed

lemma inv_npmp:
  assumes inv: "facade_inv_on W F"
  shows "facade_inv_on W (snd (npmp_handle C V pkt client F))"
proof -
  have "facade_inv_on W (snd (admit_map C V client client (Some \<lparr>cn_caller = client, cn_high_port = False\<rparr>)
      pr i x y l cap fs F))" for pr i x y l cap fs
    by (intro inv_admit_map [OF inv]) simp_all
  with inv show ?thesis
    by (auto simp: npmp_handle_def Let_def split: sum.split NpmpErr.split NpmpReq.split prod.split)
      (metis snd_conv)+
qed

lemma inv_serve:
  "facade_inv_on W F \<Longrightarrow> own_datagram V pkt client F \<Longrightarrow> facade_inv_on W (snd (pcp_serve C V pkt client pe F))"
  by (simp add: pcp_serve_def inv_pcp inv_npmp split: Sniff.split)

section \<open>Control requests\<close>

lemma inv_dp [simp]: "facade_inv_on W (F\<lparr>f_dp := d\<rparr>) \<longleftrightarrow> facade_inv_on W F"
  by (rule facade_inv_frame) simp_all

lemma inv_gena [simp]: "facade_inv_on W (F\<lparr>f_gena := g\<rparr>) \<longleftrightarrow> facade_inv_on W F"
  by (rule facade_inv_frame) simp_all

lemma inv_dp_save [simp]: "facade_inv_on W (dp_save V F) \<longleftrightarrow> facade_inv_on W F"
  by (rule facade_inv_frame) (simp_all add: dp_save_def)

lemma inv_with_dp: "facade_inv_on W F \<Longrightarrow> facade_inv_on W (snd (with_dp F r out))"
  by (auto simp: with_dp_def split: prod.split sum.split)

lemma inv_saved: "facade_inv_on W F \<Longrightarrow> facade_inv_on W (snd (saved_if V F r))"
  by (simp add: saved_if_def split: prod.split)

lemmas dp_actions = dp_challenge_def dp_login_def dp_logout_def dp_add_identities_def
  dp_remove_identity_def dp_set_password_def dp_add_roles_def

lemma inv_dp_actions:
  assumes "facade_inv_on W F"
  shows "facade_inv_on W (snd (dp_challenge now nonce client body F))"
    and "facade_inv_on W (snd (dp_login now client body F))"
    and "facade_inv_on W (snd (dp_logout now client F))"
    and "facade_inv_on W (snd (dp_add_identities V client body F))"
    and "facade_inv_on W (snd (dp_remove_identity V client body F))"
    and "facade_inv_on W (snd (dp_set_password V client body F))"
    and "facade_inv_on W (snd (dp_add_roles V client body add F))"
  using assms by (simp_all add: dp_actions Let_def inv_with_dp inv_saved split: sum.split prod.split)

lemma on_keeps: "facade_inv_on W (snd r) \<Longrightarrow> facade_inv_on W F \<Longrightarrow> facade_inv_on W (snd (on ok r F))"
  by (simp add: on_def)

lemma with_args_keeps:
  "(\<And>x. args = Inr x \<Longrightarrow> facade_inv_on W (snd (f x))) \<Longrightarrow> facade_inv_on W F \<Longrightarrow> facade_inv_on W (snd (with_args args f F))"
  by (cases args) (simp_all add: with_args_def)

text \<open>The wildcard only adds requests that name no external port.\<close>

lemma add_args_wildcard: "parse_add_args_impl body w = Inr a \<Longrightarrow> parse_add_args_impl body True = Inr a"
  by (auto simp: parse_add_args_impl_def and_then_def split: sum.splits if_splits)

lemma gate_without_lift:
  "\<not> dp_holds_lift client now F \<Longrightarrow> snd (soap_gate now service action is_v2 client F) = F"
  by (auto simp: soap_gate_def dp_holds_lift_def enforce_def required_role_def split: sum.split)

lemma inv_soap_grant:
  assumes a: "parse_add_args_impl body w = Inr a"
    and own: "view = None \<Longrightarrow> own_request V body client F \<and> dp_holds_lift client (v_now V) F"
    and c: "\<And>c. view = Some c \<Longrightarrow> cn_caller c = client"
    and inv': "facade_inv_on W F'"
  shows "facade_inv_on W (snd (allocate_exact C V' (add_request body a lease) client view F'))"
    and "facade_inv_on W (snd (allocate_preferred C V' (add_request body a lease) client view F'))"
proof -
  have "client = mr_client (add_request body a lease)" if "view = None"
    using own [OF that] add_args_wildcard [OF a]
    by (auto simp: own_request_def add_request_def split: prod.splits)
  then show "facade_inv_on W (snd (allocate_exact C V' (add_request body a lease) client view F'))"
    and "facade_inv_on W (snd (allocate_preferred C V' (add_request body a lease) client view F'))"
    using inv_exact [OF inv', of view client] inv_preferred [OF inv', of view client] c by blast+
qed

lemma inv_soap:
  assumes inv: "facade_inv_on W F" and own: "own_request V body client F"
  shows "facade_inv_on W (snd (handle_soap C V nonce service action is_v2 client body F))"
proof -
  obtain g F1 where gate: "soap_gate (v_now V) service action is_v2 client F = (g, F1)" by fastforce
  then have inv1: "facade_inv_on W F1"
    using inv by (auto simp: soap_gate_def split: if_splits sum.splits)
  define view where "view = caller_view (v_now V) is_v2 client F1"
  have lift: "own_request V body client F \<and> dp_holds_lift client (v_now V) F" if "view = None"
    using that own gate_without_lift [of client "v_now V" F service action is_v2] gate
    by (auto simp: view_def caller_view_def split: if_splits)
  have c: "cn_caller x = client" if "view = Some x" for x
    using that by (auto simp: view_def caller_view_def split: if_splits)
  note grants = inv_soap_grant [OF _ lift c inv1]
  have "facade_inv_on W (snd (soap_dispatch C V nonce service action is_v2 client view body F1))"
  proof (cases action)
    case AddPortMapping
    then show ?thesis
      by (auto simp: soap_dispatch_def Let_def inv1 intro!: on_keeps with_args_keeps grants)
  next
    case AddAnyPortMapping
    then show ?thesis
      by (auto simp: soap_dispatch_def Let_def inv1 intro!: on_keeps with_args_keeps grants)
  qed (auto simp: soap_dispatch_def Let_def inv1 inv_dp_actions inv_delete inv_range
        intro!: on_keeps with_args_keeps split: prod.split)
  with gate inv1 show ?thesis by (cases g) (simp_all add: handle_soap_def view_def)
qed

lemma inv_stamp: "facade_inv_on W F \<Longrightarrow> facade_inv_on W (stamp_client now client F)"
proof -
  assume inv: "facade_inv_on W F"
  have "tbl_inv (fold (\<lambda>p T. stamp_activity_if_stale p now 0 T) ps T) \<and>
      sigs (fold (\<lambda>p T. stamp_activity_if_stale p now 0 T) ps T) = sigs T" if "tbl_inv T" for ps T
    using that by (induction ps arbitrary: T) (simp_all add: stamp_inv)
  with inv show ?thesis by (simp add: facade_inv_but_def stamp_client_def)
qed

lemma inv_subscribe: "facade_inv_on W F \<Longrightarrow> facade_inv_on W (snd (gena_subscribe C V sid cb t client v2 F))"
  by (simp add: gena_subscribe_def Let_def split: prod.split sum.split)

lemma inv_conn:
  assumes "facade_inv_on W F" and "own_request V body client F"
  shows "facade_inv_on W (snd (handle_conn C V docs nonce sid client head body F))"
  using assms inv_subscribe [of W F]
  by (auto simp: handle_conn_def Let_def split_beta inv_stamp inv_soap split: ReqClass.split option.split)

lemma inv_learned: "facade_inv_on W F \<Longrightarrow> facade_inv_on W (tuple_learned now err agg p t F)"
  by (subst facade_inv_frame [where F = F]) (simp_all add: tuple_learned_def notify_subscribers_def Let_def)

section \<open>The machine\<close>

inductive facade_step :: "UpnpConfig \<Rightarrow> Facade \<Rightarrow> Facade \<Rightarrow> bool" for C where
  datagram: "own_datagram V pkt client F \<Longrightarrow> facade_step C F (snd (pcp_serve C V pkt client peer F))"
| request: "own_request V body client F \<Longrightarrow>
     facade_step C F (snd (handle_conn C V docs nonce sid client head body F))"
| learned: "facade_step C F (tuple_learned now err agg p t F)"
| tick: "(\<And>t. v_nft V t) \<Longrightarrow> facade_step C F (gc_loop C V F)"
| prune: "facade_step C F (F\<lparr>f_gena := prune_expired now (f_gena F)\<rparr>)"

inductive_cases facade_stepE: "facade_step C F F'"

text \<open>
  A tick in which nft refuses a statement is a step too. It may leave a mapping it moved without rules, so
  the machine notes the ports that appear in the table in such a tick, for as long as they stay there.
\<close>

inductive facade_reach :: "UpnpConfig \<Rightarrow> Facade \<Rightarrow> u16 set \<Rightarrow> Facade \<Rightarrow> bool" for C F0 where
  start: "facade_reach C F0 {} F0"
| step: "facade_reach C F0 W F \<Longrightarrow> facade_step C F F' \<Longrightarrow> facade_reach C F0 (W \<inter> ports F') F'"
| refused_tick: "facade_reach C F0 W F \<Longrightarrow> F' = gc_loop C V F \<Longrightarrow>
     facade_reach C F0 (W \<inter> ports F' \<union> (ports F' - ports F)) F'"

lemma inv_step: "facade_step C F F' \<Longrightarrow> facade_inv_on W F \<Longrightarrow> facade_inv_on W F'"
  by (erule facade_stepE) (auto intro: inv_serve inv_conn inv_learned inv_tick)

lemma runs_in_table: "runs W tasks N b \<Longrightarrow> (fst b \<in> W \<Longrightarrow> fst b \<in> W') \<Longrightarrow> runs W' tasks N b"
  by (auto simp: runs_def split: option.splits)

lemma inv_in_table: "facade_inv_on W F \<Longrightarrow> W \<inter> ports F \<subseteq> W' \<Longrightarrow> facade_inv_on W' F"
  by (fastforce simp: facade_inv_but_def ports_def image_iff dest: bspec intro: runs_in_table [of W])

lemma inv_more: "facade_inv_on W F \<Longrightarrow> W \<subseteq> W' \<Longrightarrow> facade_inv_on W' F"
  by (rule inv_in_table) auto

lemma inv_reach: "facade_reach C F0 W F \<Longrightarrow> facade_inv F0 \<Longrightarrow> facade_inv_on W F"
proof (induction rule: facade_reach.induct)
  case (step W F F')
  then show ?case using inv_in_table [OF inv_step [of C F F' W]] by simp
next
  case (refused_tick W F F' V)
  have "facade_inv_on (W \<union> - ports F) F'"
    unfolding refused_tick by (intro inv_tick inv_more [OF refused_tick.IH [OF refused_tick.prems]]) auto
  then show ?case by (rule inv_in_table) auto
qed simp

text \<open>Without a persisted index the facade starts empty, whatever the operator's mappings.\<close>

lemma fresh_start_inv:
  assumes "tbl_inv T" and "\<forall>s \<in> set (t_slots T). is_static s"
  shows "facade_inv (facade_start V T N pub dev dp_file leases_file None)"
proof -
  have "snd b = None" if "b \<in> sigs T" for b using that assms(2) by (auto simp: sigs_def)
  then have "runs {} tasks M b" if "b \<in> sigs T" for b tasks M
    using that by (simp add: runs_def split_beta)
  with assms(1) show ?thesis
    by (auto simp: facade_start_def restore_entries_def restorable_def spawn_restored_grants_def
        facade_inv_but_def entries_ok_def index_inv_def)
qed

text \<open>C1 (invariant): the mappings a facade lists are real. From a start with only the operator's
  static mappings, after any datagrams and control requests of clients (that map for themselves),
  learned tuples, expiries and ticks of the collector, each entry of the index is one mapping of
  its requester, stands on a lease of the table with its own key and port, and that lease has its
  task running towards the client; no two entries share an internal tuple. Its rules are in place,
  but for one case: its port appeared in the table in a tick of the collector in which nft refused a
  statement, and has been there since.\<close>

theorem every_mapping_is_backed:
  assumes "facade_reach C (facade_start V T N pub dev dp_file leases_file None) W F"
    and "tbl_inv T" and "\<forall>s \<in> set (t_slots T). is_static s"
  shows "distinct (map tuple_of (f_entries F)) \<and>
    (\<forall>e \<in> set (f_entries F). fe_owner e = fe_client e \<and>
      (\<exists>s \<in> set (t_slots (f_table F)). s_bind_port s = fe_bind_port e
         \<and> slot_key s = Some (fe_proto e, fe_int_port e, fe_client e))
      \<and> f_tasks F (fe_bind_port e) = Some (fe_proto e, (fe_client e, fe_int_port e))
      \<and> (fe_bind_port e \<in> W
         \<or> serves (f_nft F) (fe_client e) (fe_int_port e) (fe_bind_port e) (fe_proto e = Tcp)))"
proof -
  have inv: "facade_inv_on W F" using inv_reach [OF assms(1) fresh_start_inv [OF assms(2,3)]] .
  then have "runs W (f_tasks F) (f_nft F) (entry_binding e)" if "e \<in> set (f_entries F)" for e
    using that by (auto simp: facade_inv_but_def entries_ok_def)
  with inv show ?thesis
    by (fastforce simp: facade_inv_but_def entries_ok_def index_inv_def sigs_def entry_binding_def runs_def)
qed

text \<open>A device maps UDP port 4000 over NAT-PMP, beside a static mapping of the operator.\<close>

definition demo_client :: ipv4 where "demo_client = ipv4_of 192 168 21 5"

definition demo_env :: Env where
  "demo_env = \<lparr>v_now = 1000, v_nft = (\<lambda>_. True), v_live = Inr [], v_bind = (\<lambda>_ _. None),
     v_write = (\<lambda>_. Some ''ENOSPC''), v_remove = (\<lambda>_. True), v_up = (\<lambda>_. True), v_conntrack = None\<rparr>"

definition demo_config :: UpnpConfig where
  "demo_config = \<lparr>c_lan_ip = ipv4_of 192 168 21 1, c_grace_secs = 300, c_started = 900\<rparr>"

definition demo_table :: LeaseTable where
  "demo_table = snd (insert_static 30000 (ipv4_of 192 168 21 9) 3074
     (LeaseTable_new \<lparr>pa_lo = 30000, pa_hi = 30003\<rparr> 4 4))"

definition demo_start :: Facade where
  "demo_start = facade_start demo_env demo_table nft_empty (with_watch Map.empty None 0) zero_id None [] None"

definition demo_npmp :: "u8 list" where
  "demo_npmp = [0, 1, 0, 0] @ to_be (4000 :: u16) @ to_be (4000 :: u16) @ to_be (3600 :: u32)"

definition demo_mapped :: Facade where
  "demo_mapped = snd (pcp_serve demo_config demo_env demo_npmp demo_client True demo_start)"

lemma demo_mapped_entries:
  "map (\<lambda>e. (fe_bind_port e, fe_int_port e, fe_client e = demo_client)) (f_entries demo_mapped)
     = [(30001, 4000, True)]"
  by code_simp

lemma demo_reach: "facade_reach demo_config demo_start {} demo_mapped"
proof -
  have "own_datagram demo_env demo_npmp demo_client demo_start" by code_simp
  then have "facade_step demo_config demo_start demo_mapped" unfolding demo_mapped_def by (rule datagram)
  from facade_reach.step [OF facade_reach.start this] show ?thesis by simp
qed

lemma demo_table_sound: "tbl_inv demo_table"
  unfolding demo_table_def by (intro insert_static_inv tbl_inv_new)

lemma demo_table_static: "\<forall>s \<in> set (t_slots demo_table). is_static s"
  by (simp add: demo_table_def insert_static_def is_static_def LeaseTable_new_def split: if_splits)

theorem every_mapping_is_backed_witness:
  "\<exists>e \<in> set (f_entries demo_mapped). fe_bind_port e = 30001 \<and> fe_int_port e = 4000
     \<and> f_tasks demo_mapped 30001 = Some (fe_proto e, (demo_client, 4000))
     \<and> serves (f_nft demo_mapped) demo_client 4000 30001 (fe_proto e = Tcp)"
proof -
  obtain e where e: "e \<in> set (f_entries demo_mapped)"
    "fe_bind_port e = 30001" "fe_int_port e = 4000" "fe_client e = demo_client"
    using demo_mapped_entries by auto
  have "f_tasks demo_mapped (fe_bind_port e) = Some (fe_proto e, (fe_client e, fe_int_port e))
      \<and> serves (f_nft demo_mapped) (fe_client e) (fe_int_port e) (fe_bind_port e) (fe_proto e = Tcp)"
    using every_mapping_is_backed [OF demo_reach [unfolded demo_start_def] demo_table_sound demo_table_static] e(1)
    by blast
  with e show ?thesis by metis
qed

end
