(* ===== verification/Facade_Safety.thy ===== *)
theory Facade_Safety
  imports Facade_Props
begin

text \<open>
  What one caller can do to the mappings of the others: nothing, up to the eviction a full table
  makes.
\<close>

section \<open>The entries of other control points\<close>

definition others :: "ipv4 \<Rightarrow> Facade \<Rightarrow> FacadeEntry set" where
  "others c F = {e \<in> set (f_entries F). fe_owner e \<noteq> c}"

text \<open>A table is crowded when it holds all the slots it may, or when no port of its range is free.\<close>

definition crowded :: "LeaseTable \<Rightarrow> bool" where
  "crowded T \<longleftrightarrow> is_full T \<or> find_free_bind_port T = None"

text \<open>
  An operation of \<open>c\<close> leaves the entries of others, up to one eviction from a crowded table: crowded as it
  is, or once the tuples of the devices' live flows are avoided.
\<close>

definition spared :: "bool \<Rightarrow> Env \<Rightarrow> ipv4 \<Rightarrow> Facade \<Rightarrow> Facade \<Rightarrow> bool" where
  "spared pressed V c F F' \<longleftrightarrow> others c F' = others c F \<or>
     pressed \<and> (\<exists>p x. evict_idle_client (v_now V) LEASE_GRACE_S c (f_table F) = Some (p, x)
        \<and> others c F' = {e \<in> others c F. fe_bind_port e \<noteq> p})"

definition spares :: "Env \<Rightarrow> ipv4 \<Rightarrow> Facade \<Rightarrow> Facade \<Rightarrow> bool" where
  "spares V c F F' \<longleftrightarrow>
     spared (crowded (f_table F) \<or> crowded (f_table (collision_probe V F))) V c F F'"

lemma spares_same: "f_entries F' = f_entries F \<Longrightarrow> spares V c F F'"
  by (simp add: spares_def spared_def others_def)

lemma spares_then:
  "spares V c F F' \<Longrightarrow> others c F'' = others c F' \<Longrightarrow> spares V c F F''"
  by (simp add: spares_def spared_def)

lemma upsert_full: "upsert_pcp pr ip c l now tg tp T = (TableFull, T') \<Longrightarrow> T' = T \<and> crowded T"
  by (auto simp: upsert_pcp_def crowded_def Let_def split: option.splits if_splits)

lemma evict_avoid [simp]: "evict_idle_client now g c (avoid_ports live T) = evict_idle_client now g c T"
  by (simp add: evict_idle_client_def avoid_ports_def)

lemma probe_frame [simp]: "f_entries (collision_probe V F) = f_entries F"
  "f_tasks (collision_probe V F) = f_tasks F" "f_nft (collision_probe V F) = f_nft F"
  "f_dp (collision_probe V F) = f_dp F"
  "evict_idle_client now g c (f_table (collision_probe V F)) = evict_idle_client now g c (f_table F)"
  by (auto simp: collision_probe_def split: sum.split)

lemma upsert_once_frame: "upsert_once pr i c l now F = (r, F') \<Longrightarrow>
    f_entries F' = f_entries F \<and> f_tasks F' = f_tasks F \<and> f_nft F' = f_nft F \<and> f_dp F' = f_dp F
    \<and> (r = TableFull \<longrightarrow> F' = F \<and> crowded (f_table F))"
  by (cases F) (auto simp: upsert_once_def dest: upsert_full split: prod.splits)

lemma spares_upsert:
  assumes "upsert_or_evict V pr i c l F = (r, F')"
  shows "spared (crowded (f_table F)) V c F F'" and "f_dp F' = f_dp F" and "index_inv (f_entries F) \<Longrightarrow> index_inv (f_entries F')"
proof -
  obtain r1 F1 where u: "upsert_once pr i c l (v_now V) F = (r1, F1)" by fastforce
  note f1 = upsert_once_frame [OF u]
  have "spared (crowded (f_table F)) V c F F' \<and> f_dp F' = f_dp F \<and> (index_inv (f_entries F) \<longrightarrow> index_inv (f_entries F'))"
  proof (cases "r1 = TableFull")
    case True
    with f1 have F1: "F1 = F" and full: "crowded (f_table F)" by simp_all
    show ?thesis
    proof (cases "evict_idle_client (v_now V) LEASE_GRACE_S c (f_table F)")
      case None
      with assms u True F1 show ?thesis
        by (simp add: upsert_or_evict_def evict_candidate_def spared_def)
    next
      case (Some x)
      obtain p a b q where x: "x = (p, a, b, q)" by (metis prod_cases4)
      define F2 where "F2 = snd (evict_candidate V c F)"
      have F2: "f_entries F2 = filter (\<lambda>e. fe_bind_port e \<noteq> p) (f_entries F)" "f_dp F2 = f_dp F"
        "evict_candidate V c F = (Some x, F2)"
        by (simp_all add: F2_def evict_candidate_def Some x Let_def)
      with assms u True F1 have "upsert_once pr i c l (v_now V) F2 = (r, F')"
        by (simp add: upsert_or_evict_def)
      with upsert_once_frame F2 Some x full show ?thesis by (auto simp: spared_def others_def index_filter)
    qed
  qed (use assms u f1 in \<open>auto simp: upsert_or_evict_def spared_def others_def\<close>)
  then show "spared (crowded (f_table F)) V c F F'" and "f_dp F' = f_dp F"
    and "index_inv (f_entries F) \<Longrightarrow> index_inv (f_entries F')" by blast+
qed

lemma install_frame: "install V pr c i p F = (ok, F') \<Longrightarrow> f_entries F' = f_entries F \<and> f_dp F' = f_dp F"
  by (auto simp: install_def spawn_slot_def drop_datapath_def Let_def split: prod.splits bool.splits option.splits)

lemma others_record:
  assumes "index_inv (f_entries F)"
  shows "others owner (record_grant V r owner l p F) = others owner F"
    and "f_dp (record_grant V r owner l p F) = f_dp F"
proof -
  obtain stray es where a: "apply_entry (mr_ext r) (mr_proto r) (mr_client r) owner (mr_int_port r) p l
      (v_now V) (mr_desc r) (f_entries F) = (stray, es)" by fastforce
  have e: "f_entries (record_grant V r owner l p F) = es" and d: "f_dp (record_grant V r owner l p F) = f_dp F"
    by (simp_all add: record_grant_def a Let_def split: option.split)
  show "f_dp (record_grant V r owner l p F) = f_dp F" by (rule d)
  have "{x \<in> set es. fe_owner x \<noteq> owner} = {x \<in> set (f_entries F). fe_owner x \<noteq> owner}"
    by (cases rule: apply_entry_cases [OF assms, of "mr_proto r" owner "mr_int_port r" "mr_ext r" "mr_client r" p l
          "v_now V" "mr_desc r"]) (use a in \<open>auto simp: same_tuple_def same_label_def\<close>)
  then show "others owner (record_grant V r owner l p F) = others owner F"
    by (simp add: others_def e)
qed

lemma spares_grant:
  assumes idx: "index_inv (f_entries F)" and own: "\<And>c. view = Some c \<Longrightarrow> cn_caller c = owner"
    and mine: "view = None \<Longrightarrow> owner = mr_client r"
  shows "spares V owner F (snd (grant_mapping C V r owner view F))"
    and "f_dp (snd (grant_mapping C V r owner view F)) = f_dp F"
proof -
  define F1 where "F1 = (if by_pcp_key (mr_proto r, mr_int_port r, owner) (f_table F) = None
    then collision_probe V F else F)"
  define l where "l = (if mr_lifetime r = 0 then INFINITE_LEASE else mr_lifetime r)"
  obtain out F2 where u: "upsert_or_evict V (mr_proto r) (mr_int_port r) (mr_client r) l F1 = (out, F2)"
    by fastforce
  have f1: "f_entries F1 = f_entries F" "f_dp F1 = f_dp F"
    "\<And>n g c. evict_idle_client n g c (f_table F1) = evict_idle_client n g c (f_table F)"
    by (simp_all add: F1_def)
  have press: "crowded (f_table F1) \<Longrightarrow> crowded (f_table F) \<or> crowded (f_table (collision_probe V F))"
    by (auto simp: F1_def split: if_splits)
  define refused where "refused \<longleftrightarrow>
    (case view of Some c \<Rightarrow> \<not> request_within c (mr_client r) (mr_ext r) (mr_int_port r) | None \<Rightarrow> False)"
  have "spares V owner F (snd (grant_mapping C V r owner view F))
    \<and> f_dp (snd (grant_mapping C V r owner view F)) = f_dp F"
  proof (cases "refused \<or> \<not> in_lan (mr_client r) (c_lan_ip C)")
    case True
    then show ?thesis by (auto simp: grant_mapping_def refused_def spares_same)
  next
    case False
    then have me: "owner = mr_client r"
      using own mine by (cases view) (auto simp: refused_def request_within_def)
    have sp: "spares V owner F F2" and dp: "f_dp F2 = f_dp F" and idx2: "index_inv (f_entries F2)"
      using spares_upsert [OF u] idx press by (auto simp: me spares_def spared_def others_def f1)
    have g: "grant_mapping C V r owner view F = (case out of
          Granted_at p \<Rightarrow>
            (case install V (mr_proto r) (mr_client r) (mr_int_port r) p F2 of
               (False, F3) \<Rightarrow> (Inl ActionFailed, F3)
             | (True, F3) \<Rightarrow> (Inr out, record_grant V r owner l p F3))
        | Refreshed_at p \<Rightarrow> (Inr out, record_grant V r owner l p F2)
        | UserQuotaExceeded \<Rightarrow> (Inl ActionFailed, F2)
        | TableFull \<Rightarrow> (Inl ActionFailed, F2))"
      using u False unfolding grant_mapping_def Let_def l_def [symmetric] refused_def [symmetric]
        F1_def [symmetric] by simp
    show ?thesis
    proof (cases out)
      case (Granted_at p)
      obtain ok F3 where i: "install V (mr_proto r) (mr_client r) (mr_int_port r) p F2 = (ok, F3)" by fastforce
      note f = install_frame [OF i]
      then have "others owner F3 = others owner F2" by (simp add: others_def)
      with f g i Granted_at sp dp others_record [of F3] idx2 show ?thesis
        by (cases ok) (auto intro: spares_then)
    next
      case (Refreshed_at p)
      with g sp dp others_record [OF idx2] show ?thesis by (auto intro: spares_then)
    qed (use g sp dp in simp_all)
  qed
  then show "spares V owner F (snd (grant_mapping C V r owner view F))"
    and "f_dp (snd (grant_mapping C V r owner view F)) = f_dp F" by blast+
qed

lemma spares_allocate:
  assumes "index_inv (f_entries F)" and "\<And>c. view = Some c \<Longrightarrow> cn_caller c = owner" and "view = None \<Longrightarrow> owner = mr_client r"
  shows "spares V owner F (snd (allocate_exact C V r owner view F))"
    and "f_dp (snd (allocate_exact C V r owner view F)) = f_dp F"
    and "spares V owner F (snd (allocate_preferred C V r owner view F))"
    and "f_dp (snd (allocate_preferred C V r owner view F)) = f_dp F"
proof -
  have e: "snd (allocate_exact C V r owner view F) = snd (grant_mapping C V r owner view F)" for r view
    by (simp add: allocate_exact_def split: prod.split sum.split)
  show "spares V owner F (snd (allocate_exact C V r owner view F))"
    and "f_dp (snd (allocate_exact C V r owner view F)) = f_dp F"
    unfolding e using spares_grant [OF assms] by blast+
  let ?r = "r\<lparr>mr_ext := preferred_port (f_entries F) (mr_ext r) (mr_proto r)\<rparr>"
  have "snd (allocate_preferred C V r owner view F) = F \<or>
      (owner = mr_client r \<and> snd (allocate_preferred C V r owner view F) = snd (grant_mapping C V ?r owner None F))"
    using assms(2,3) e [of ?r None]
    by (cases view; cases "fst (allocate_exact C V ?r owner None F)";
        cases "allocate_exact C V ?r owner None F")
      (auto simp: allocate_preferred_def Let_def request_within_def)
  then show "spares V owner F (snd (allocate_preferred C V r owner view F))"
    and "f_dp (snd (allocate_preferred C V r owner view F)) = f_dp F"
    using spares_grant(1) [OF assms(1), where view = None and owner = owner and r = ?r and V = V and C = C]
      spares_grant(2) [OF assms(1), where view = None and owner = owner and r = ?r and V = V and C = C]
    by (auto intro: spares_same)
qed

lemma others_delete: "others c (snd (delete_mapping V ext pr c view F)) = others c F"
  "f_dp (snd (delete_mapping V ext pr c' view F)) = f_dp F"
  by (auto simp: delete_mapping_def others_def Let_def same_label_def split: option.split)

lemma range_effect:
  "(\<forall>t \<in> set ts. snd t = c) \<Longrightarrow>
     others c (fold (\<lambda>(ext, owner) F. snd (delete_mapping V ext pr owner view F)) ts F) = others c F"
  "f_dp (fold (\<lambda>(ext, owner) F. snd (delete_mapping V ext pr owner view F)) ts F) = f_dp F"
  by (induction ts arbitrary: F) (auto simp: others_delete)

lemma others_range:
  "cn_caller k = c \<Longrightarrow> others c (snd (delete_mapping_range V a z pr (Some k) F)) = others c F"
  "f_dp (snd (delete_mapping_range V a z pr view F)) = f_dp F"
  by (auto simp: delete_mapping_range_def Let_def range_effect range_targets_def may_see_def entry_within_def
      intro!: range_effect(1))

lemma spares_admit_map:
  assumes "index_inv (f_entries F)" and that: "\<And>c. view = Some c \<Longrightarrow> cn_caller c = owner"
  shows "spares V owner F (snd (admit_map C V owner owner view pr i x y l cap fs F))"
proof (cases "proto_of pr")
  case (Some proto)
  let ?r = "\<lparr>mr_ext = x, mr_proto = proto, mr_client = owner, mr_int_port = i,
    mr_lifetime = lifetime_cap l cap, mr_desc = ''pcp''\<rparr>"
  obtain res F1 where g: "grant_mapping C V ?r owner view F = (res, F1)" by fastforce
  have "spares V owner F F1" using spares_grant(1) [where r = ?r and C = C and V = V and view = view and owner = owner and F = F]
      assms g by simp
  then have "spares V owner F (F1\<lparr>f_wait := w\<rparr>)" for w by (simp add: spares_def spared_def others_def)
  moreover have "others owner (snd (admit_delete V owner proto i x y F)) = others owner F"
    using others_delete(1) [of owner V _ proto None F]
    by (auto simp: admit_delete_def split: option.split prod.split sum.split) (metis snd_conv)+
  ultimately show ?thesis using Some g \<open>spares V owner F F1\<close>
    by (cases res) (auto simp: admit_map_def discovery_answer_def Let_def spares_same spares_def [of V owner F F] spared_def
        intro: spares_then [OF spares_same] split: UpnpErr.split option.split)
qed (simp add: admit_map_def spares_same)

lemma spares_datagram:
  assumes idx: "index_inv (f_entries F)" and nolift: "\<not> dp_holds_lift client (v_now V) F"
  shows "spares V client F (snd (pcp_serve C V pkt client peer F))"
proof -
  note m = spares_admit_map [OF idx, of "Some \<lparr>cn_caller = client, cn_high_port = False\<rparr>" client V]
  have "spares V client F (snd (pcp_handle C V pkt client peer F))"
    using m nolift
    by (auto simp: pcp_handle_def Let_def split_beta map_target_def admit_peer_def discovery_answer_def
        intro: spares_same split: sum.split Refusal.split Req.split option.split)
  moreover have "spares V client F (snd (npmp_handle C V pkt client F))"
    using m by (auto simp: npmp_handle_def Let_def split_beta intro: spares_same
        split: sum.split NpmpErr.split NpmpReq.split)
  ultimately show ?thesis by (simp add: pcp_serve_def spares_same split: Sniff.split)
qed

lemma on_cases: "snd (on ok r F) = snd r \<or> snd (on ok r F) = F"
  by (simp add: on_def)

lemma spares_on: "spares V c F (snd r) \<Longrightarrow> spares V c F (snd (on ok r F))"
  by (simp add: on_def spares_same)

lemma spares_with_args:
  "(\<And>x. args = Inr x \<Longrightarrow> spares V c F (snd (f x))) \<Longrightarrow> spares V c F (snd (with_args args f F))"
  by (cases args) (simp_all add: with_args_def spares_same)

lemma dp_action_entries:
  "f_entries (snd (dp_challenge now nonce client body F)) = f_entries F"
  "f_entries (snd (dp_login now client body F)) = f_entries F"
  "f_entries (snd (dp_logout now client F)) = f_entries F"
  "f_entries (snd (dp_add_identities V client body F)) = f_entries F"
  "f_entries (snd (dp_remove_identity V client body F)) = f_entries F"
  "f_entries (snd (dp_set_password V client body F)) = f_entries F"
  "f_entries (snd (dp_add_roles V client body add F)) = f_entries F"
  by (simp_all add: dp_actions with_dp_def saved_if_def dp_save_def Let_def split: sum.split prod.split)

lemmas dp_spares = dp_action_entries [THEN spares_same]

lemma spares_soap:
  assumes idx: "index_inv (f_entries F)" and nolift: "\<not> dp_holds_lift client (v_now V) F"
  shows "spares V client F (snd (handle_soap C V nonce service action is_v2 client body F))"
proof -
  obtain g F1 where gate: "soap_gate (v_now V) service action is_v2 client F = (g, F1)" by fastforce
  then have F1: "F1 = F" using gate_without_lift [OF nolift, of service action is_v2] by simp
  let ?k = "\<lparr>cn_caller = client, cn_high_port = is_v2\<rparr>"
  have view: "caller_view (v_now V) is_v2 client F = Some ?k" using nolift by (simp add: caller_view_def)
  have del: "spares V client F (snd (delete_mapping V x pr client w F))" for x pr w
    by (simp add: spares_def spared_def others_delete)
  have range: "spares V client F (snd (delete_mapping_range V a z pr (Some ?k) F))" for a z pr
    by (simp add: spares_def spared_def others_range)
  have alloc: "spares V client F (snd (allocate_exact C V r client (Some k) F))"
      "spares V client F (snd (allocate_preferred C V r client (Some k) F))"
    if "cn_caller k = client" for r k
    using spares_allocate(1,3) [OF idx, where view = "Some k" and owner = client] that by simp_all
  have "spares V client F (snd (soap_dispatch C V nonce service action is_v2 client (Some ?k) body F))"
  proof (cases action)
    case AddPortMapping
    then show ?thesis
      by (auto simp: soap_dispatch_def Let_def intro!: spares_on spares_with_args alloc)
  next
    case AddAnyPortMapping
    then show ?thesis
      by (auto simp: soap_dispatch_def Let_def intro!: spares_on spares_with_args alloc)
  next
    case DeletePortMapping
    then show ?thesis
      by (auto simp: soap_dispatch_def Let_def intro!: spares_on spares_with_args del)
  next
    case DeletePortMappingRange
    then show ?thesis
      by (auto simp: soap_dispatch_def Let_def intro!: spares_on spares_with_args range)
  qed (auto simp: soap_dispatch_def Let_def split_beta
        intro!: spares_on spares_with_args dp_spares spares_same [of F F])
  with gate view F1 show ?thesis by (cases g) (simp_all add: handle_soap_def spares_same)
qed

lemma spares_conn:
  assumes "index_inv (f_entries F)" and "\<not> dp_holds_lift client (v_now V) F"
  shows "spares V client F (snd (handle_conn C V docs nonce sid client head body F))"
proof -
  have st: "others client (stamp_client now c F') = others client F'" for now c F'
    by (simp add: stamp_client_def others_def)
  have sub: "f_entries (snd (gena_subscribe C V sid cb t client v2 F)) = f_entries F" for cb t v2
    by (simp add: gena_subscribe_def Let_def split: prod.split sum.split)
  show ?thesis
    using spares_soap [OF assms]
    by (auto simp: handle_conn_def Let_def split_beta sub spares_same
        intro: spares_then [OF _ st] split: ReqClass.split option.split)
qed

lemma own_without_lift:
  assumes "\<not> dp_holds_lift client (v_now V) F"
  shows "own_datagram V pkt client F" and "own_request V body client F"
  using assms by (auto simp: own_datagram_def own_request_def split: sum.split Req.split)


text \<open>Another device asks for the same label, and then sends a delete of that label.\<close>

definition demo_other :: ipv4 where "demo_other = ipv4_of 192 168 21 6"


end
