(* ===== verification/Facade_Auth.thy ===== *)
theory Facade_Auth
  imports Facade_Safety Dp_Props
begin

text \<open>
  What needs a login: the records of device protection and, on the second version of the service,
  every change of the mappings; what a refused request leaves, and how a request without an
  answer ends.
\<close>

section \<open>The records of device protection\<close>

definition records :: "Facade \<Rightarrow> DpUser list \<times> DpAcl" where
  "records F = (dp_users (f_dp F), dp_acl (f_dp F))"

lemma session_records [simp]:
  "dp_users (put_session k ss D) = dp_users D" "dp_acl (put_session k ss D) = dp_acl D"
  "dp_users (touch k now D) = dp_users D" "dp_acl (touch k now D) = dp_acl D"
  "dp_users (logout k now D) = dp_users D" "dp_acl (logout k now D) = dp_acl D"
  by (simp_all add: put_session_def touch_def logout_def split: option.split)

lemma ceremony_records [simp]:
  "dp_users (snd (begin_login k n nonce now D)) = dp_users D"
  "dp_acl (snd (begin_login k n nonce now D)) = dp_acl D"
  "dp_users (snd (login k ch au now D)) = dp_users D"
  "dp_acl (snd (login k ch au now D)) = dp_acl D"
  by (simp_all add: begin_login_def login_def Let_def split: option.split)

lemma with_dp_state [simp]: "f_dp (snd (with_dp F r out)) = snd r"
  by (simp add: with_dp_def split: prod.split sum.split)

lemma saved_state [simp]: "f_dp (snd (saved_if V F r)) = snd r"
  by (simp add: saved_if_def dp_save_def split: prod.split)

lemma ceremony_action_records:
  "records (snd (dp_challenge now nonce client body F)) = records F"
  "records (snd (dp_login now client body F)) = records F"
  "records (snd (dp_logout now client F)) = records F"
  by (simp_all add: records_def dp_challenge_def dp_login_def dp_logout_def split: sum.split prod.split)

lemma gate_admin: "admin_gate now client action F = Inr u \<Longrightarrow>
    action \<in> set [''GetACLData'', ''AddIdentityList'', ''RemoveIdentity'', ''SetUserLoginPassword'',
      ''AddRolesForIdentity'', ''RemoveRolesForIdentity''] \<Longrightarrow>
    authorize (session_roles client now (f_dp F)) (Roles [''Admin''])"
  by (auto simp: admin_gate_def enforce_def required_role_def split: sum.splits if_splits)

text \<open>An administrator, or a logged-in user setting the password of the name of the login.\<close>

definition may_change :: "u64 \<Rightarrow> ipv4 \<Rightarrow> Facade \<Rightarrow> Facade \<Rightarrow> bool" where
  "may_change now client F F' \<longleftrightarrow>
     authorize (session_roles client now (f_dp F)) (Roles [''Admin''])
     \<or> (\<exists>name stored salt. session_user client now (f_dp F) = Some name
          \<and> f_dp F' = snd (set_user_password name stored salt (f_dp F)))"

lemma admin_action_records:
  "records (snd (dp_add_identities V client body F)) = records F
     \<or> may_change (v_now V) client F (snd (dp_add_identities V client body F))"
  "records (snd (dp_remove_identity V client body F)) = records F
     \<or> may_change (v_now V) client F (snd (dp_remove_identity V client body F))"
  "records (snd (dp_set_password V client body F)) = records F
     \<or> may_change (v_now V) client F (snd (dp_set_password V client body F))"
  "records (snd (dp_add_roles V client body add F)) = records F
     \<or> may_change (v_now V) client F (snd (dp_add_roles V client body add F))"
  by (auto simp: may_change_def dp_add_identities_def dp_remove_identity_def dp_set_password_def
      dp_add_roles_def and_then_def dest: gate_admin split: sum.splits if_splits)

lemma record_grant_dp: "f_dp (record_grant V r owner l p F) = f_dp F"
  by (simp add: record_grant_def Let_def split: prod.split option.split)

lemma granted_dp:
  assumes "upsert_or_evict V pr i c l F = (out, F2)"
  shows "f_dp (snd (case out of
          Granted_at p \<Rightarrow>
            (case install V pr c i p F2 of
               (False, F3) \<Rightarrow> (Inl ActionFailed, F3)
             | (True, F3) \<Rightarrow> (Inr out, record_grant V r owner l p F3))
        | Refreshed_at p \<Rightarrow> (Inr out, record_grant V r owner l p F2)
        | UserQuotaExceeded \<Rightarrow> (Inl ActionFailed, F2)
        | TableFull \<Rightarrow> (Inl ActionFailed, F2))) = f_dp F"
proof (cases out)
  case (Granted_at p)
  obtain ok F3 where "install V pr c i p F2 = (ok, F3)" by fastforce
  with install_frame [OF this] spares_upsert(2) [OF assms] Granted_at show ?thesis
    by (cases ok) (simp_all add: record_grant_dp)
qed (use spares_upsert(2) [OF assms] in \<open>simp_all add: record_grant_dp\<close>)

lemma grant_dp: "f_dp (snd (grant_mapping C V r owner view F)) = f_dp F"
proof -
  define F1 where "F1 = (if by_pcp_key (mr_proto r, mr_int_port r, owner) (f_table F) = None
    then collision_probe V F else F)"
  define l where "l = (if mr_lifetime r = 0 then INFINITE_LEASE else mr_lifetime r)"
  obtain out F2 where u: "upsert_or_evict V (mr_proto r) (mr_int_port r) (mr_client r) l F1 = (out, F2)"
    by fastforce
  have "f_dp F1 = f_dp F" by (simp add: F1_def)
  with u granted_dp [OF u, of r owner] show ?thesis
    unfolding grant_mapping_def Let_def l_def [symmetric] F1_def [symmetric] by simp
qed

lemma allocate_dp:
  "f_dp (snd (allocate_exact C V r owner view F)) = f_dp F"
  "f_dp (snd (allocate_preferred C V r owner view F)) = f_dp F"
proof -
  have e: "snd (allocate_exact C V r owner view F) = snd (grant_mapping C V r owner view F)" for r view
    by (simp add: allocate_exact_def split: prod.split sum.split)
  have "f_dp (snd (case allocate_exact C V r owner None F of (Inl e, F1) \<Rightarrow> (Inl e, F1) | (Inr a, F1) \<Rightarrow> (Inr x, F1)))
      = f_dp F" for r and x :: string
    using e [of r None] grant_dp [of C V r owner None F]
    by (cases "allocate_exact C V r owner None F"; cases "fst (allocate_exact C V r owner None F)") simp_all
  then show "f_dp (snd (allocate_preferred C V r owner view F)) = f_dp F"
    by (simp add: allocate_preferred_def Let_def)
  show "f_dp (snd (allocate_exact C V r owner view F)) = f_dp F" by (simp add: e grant_dp)
qed

lemma discovery_dp: "f_dp (snd (discovery_answer now p x y F)) = f_dp F"
  by (simp add: discovery_answer_def Let_def split: option.split)

lemma admit_map_dp: "f_dp (snd (admit_map C V owner target view pr i x y l cap fs F)) = f_dp F"
proof (cases "proto_of pr")
  case (Some proto)
  let ?r = "\<lparr>mr_ext = x, mr_proto = proto, mr_client = target, mr_int_port = i,
    mr_lifetime = lifetime_cap l cap, mr_desc = ''pcp''\<rparr>"
  obtain res F1 where g: "grant_mapping C V ?r owner view F = (res, F1)" by fastforce
  then have "f_dp F1 = f_dp F" using grant_dp [of C V ?r owner view F] by simp
  moreover have "f_dp (snd (admit_delete V owner proto i x y F)) = f_dp F"
    using others_delete(2) [of V _ proto owner None F]
    by (auto simp: admit_delete_def split: option.split prod.split sum.split) (metis snd_conv)+
  ultimately show ?thesis using Some g
    by (cases res) (auto simp: admit_map_def discovery_dp split: UpnpErr.split option.split)
qed (simp add: admit_map_def)

lemma datagram_dp: "f_dp (snd (pcp_serve C V pkt client peer F)) = f_dp F"
proof -
  have p: "f_dp (snd (admit_peer now owner pr i x y l pe F)) = f_dp F" for now owner pr i x y l pe
    by (simp add: admit_peer_def discovery_dp split: option.split)
  show ?thesis
    by (simp add: pcp_serve_def pcp_handle_def npmp_handle_def Let_def split_beta admit_map_dp p
        split: Sniff.split sum.split Refusal.split Req.split NpmpErr.split NpmpReq.split option.split)
qed

lemma records_of_dp: "f_dp F' = f_dp F \<Longrightarrow> records F' = records F"
  by (simp add: records_def)

lemma on_records: "records (snd r) = records F \<Longrightarrow> records (snd (on ok r F)) = records F"
  by (simp add: on_def)

lemma with_args_records:
  "(\<And>x. records (snd (f x)) = records F) \<Longrightarrow> records (snd (with_args a f F)) = records F"
  by (cases a) (simp_all add: with_args_def)

text \<open>
  What a request can do to the service's state: nothing to the records, or the effect of one of the
  four administrator's actions. The rule is the case split for every property of the records.
\<close>

lemma soap_records_cases:
  assumes same: "\<And>F'. records F' = records F \<Longrightarrow> P (f_dp F')"
    and admin: "P (f_dp (snd (dp_add_identities V client body F)))"
      "P (f_dp (snd (dp_remove_identity V client body F)))"
      "P (f_dp (snd (dp_set_password V client body F)))"
      "\<And>add. P (f_dp (snd (dp_add_roles V client body add F)))"
  shows "P (f_dp (snd (handle_soap C V nonce service action is_v2 client body F)))"
proof -
  obtain g F1 where gate: "soap_gate (v_now V) service action is_v2 client F = (g, F1)" by fastforce
  then have r1: "records F1 = records F" by (auto simp: soap_gate_def records_def split: if_splits sum.splits)
  have F1: "F1 = F" if "action \<notin> set [AddPortMapping, AddAnyPortMapping, DeletePortMapping, DeletePortMappingRange]"
    using gate that by (auto simp: soap_gate_def split: if_splits)
  define view where "view = caller_view (v_now V) is_v2 client F1"
  let ?G = "snd (soap_dispatch C V nonce service action is_v2 client view body F1)"
  have "P (f_dp ?G)"
  proof (cases "action \<in> set [AddPortMapping, AddAnyPortMapping, DeletePortMapping, DeletePortMappingRange]")
    case True
    have "records ?G = records F1"
    proof (cases action)
      case AddPortMapping
      then show ?thesis
        by (simp add: soap_dispatch_def Let_def) (intro conjI impI on_records with_args_records records_of_dp allocate_dp)
    next
      case AddAnyPortMapping
      then show ?thesis
        by (simp add: soap_dispatch_def Let_def) (intro conjI impI on_records with_args_records records_of_dp allocate_dp)
    next
      case DeletePortMapping
      then show ?thesis
        by (simp add: soap_dispatch_def Let_def)
          (intro on_records with_args_records, auto simp: others_delete intro: records_of_dp split: prod.split)
    next
      case DeletePortMappingRange
      then show ?thesis
        by (simp add: soap_dispatch_def Let_def)
          (intro on_records with_args_records, auto simp: others_range intro: records_of_dp split: prod.split)
    qed (use True in simp_all)
    with r1 show ?thesis by (intro same) simp
  next
    case False
    note simps = soap_dispatch_def Let_def on_def with_args_def F1 [OF False]
    show ?thesis
    proof (cases action)
      case AddIdentityList
      then show ?thesis using admin(1) same [where F' = F] by (simp add: simps)
    next
      case RemoveIdentity
      then show ?thesis using admin(2) same [where F' = F] by (simp add: simps)
    next
      case SetUserLoginPassword
      then show ?thesis using admin(3) same [where F' = F] by (simp add: simps)
    next
      case AddRolesForIdentity
      then show ?thesis using admin(4) [where add = True] same [where F' = F] by (simp add: simps)
    next
      case RemoveRolesForIdentity
      then show ?thesis using admin(4) [where add = False] same [where F' = F] by (simp add: simps)
    qed (use False in \<open>simp_all add: simps split_beta ceremony_action_records same split: sum.split\<close>)
  qed
  with gate r1 show ?thesis by (cases g) (simp_all add: handle_soap_def view_def same)
qed

lemma conn_records_cases:
  assumes same: "\<And>F'. records F' = records F \<Longrightarrow> P (f_dp F')"
    and admin: "P (f_dp (snd (dp_add_identities V client body F)))"
      "P (f_dp (snd (dp_remove_identity V client body F)))"
      "P (f_dp (snd (dp_set_password V client body F)))"
      "\<And>add. P (f_dp (snd (dp_add_roles V client body add F)))"
  shows "P (f_dp (snd (handle_conn C V docs nonce sid client head body F)))"
proof -
  have sub: "f_dp (snd (gena_subscribe C V sid cb t client v2 F)) = f_dp F" for cb t v2
    by (simp add: gena_subscribe_def Let_def split: prod.split sum.split)
  have st: "f_dp (stamp_client now c F') = f_dp F'" for now c F'
    by (simp add: stamp_client_def)
  show ?thesis
  proof (cases "classify head")
    case (Soap service action is_v2)
    with soap_records_cases [where F = F and P = P and V = V and C = C, OF same admin] show ?thesis
      by (simp add: handle_conn_def split_beta st)
  qed (use same [where F' = F] in \<open>simp_all add: handle_conn_def Let_def split_beta sub split: option.split\<close>)
qed

lemma conn_records:
  "records (snd (handle_conn C V docs nonce sid client head body F)) = records F
   \<or> may_change (v_now V) client F (snd (handle_conn C V docs nonce sid client head body F))"
  using admin_action_records [where V = V and client = client and body = body and F = F]
    conn_records_cases [where F = F and V = V and client = client and body = body and P = "\<lambda>D. (dp_users D, dp_acl D) = records F
      \<or> authorize (session_roles client (v_now V) (f_dp F)) (Roles [''Admin''])
      \<or> (\<exists>name stored salt. session_user client (v_now V) (f_dp F) = Some name
          \<and> D = snd (set_user_password name stored salt (f_dp F)))"]
  unfolding may_change_def by (simp add: records_def [symmetric])

text \<open>C7 (safety): only an administrator changes who may log in and with which roles. After any
  datagram the users and the identities are those of before; after any control request they are
  too, unless the session of the caller holds the role of administrator, or the caller is logged
  in and the request sets the password of the name of that login and nothing else.\<close>

theorem only_admin_changes_records:
  "f_dp (snd (pcp_serve C V pkt client peer F)) = f_dp F
   \<and> (records (snd (handle_conn C V docs nonce sid client head body F)) = records F
      \<or> may_change (v_now V) client F (snd (handle_conn C V docs nonce sid client head body F)))"
  using datagram_dp conn_records by blast

section \<open>The login gate of the second version\<close>

lemma other_actions_keep:
  assumes "action \<notin> set [AddPortMapping, AddAnyPortMapping, DeletePortMapping, DeletePortMappingRange]"
  shows "f_entries (snd (soap_dispatch C V nonce service action is_v2 client view body F)) = f_entries F"
  using assms
  by (cases action) (simp_all add: soap_dispatch_def Let_def on_def with_args_def dp_action_entries split_beta
      split: sum.split)

text \<open>C5 (safety): on the second version of the service a change needs a login. If a control request
  named with the version-2 service of the WAN connection changes the index of mappings, the caller
  has a session with a logged-in user, used within its lifetime, whose roles hold the basic role;
  every other request answers without a change.\<close>

theorem v2_changes_need_login:
  assumes "classify head = Soap WanIpConn action True"
    and "f_entries (snd (handle_conn C V docs nonce sid client head body F)) \<noteq> f_entries F"
  shows "\<exists>u. session_user client (v_now V) (f_dp F) = Some u
    \<and> authorize (session_roles client (v_now V) (f_dp F)) (Roles [''Basic''])"
proof -
  obtain g F1 where gate: "soap_gate (v_now V) WanIpConn action True client F = (g, F1)" by fastforce
  have ch: "f_entries (snd (handle_soap C V nonce WanIpConn action True client body F)) \<noteq> f_entries F"
    using assms by (simp add: handle_conn_def split_beta stamp_client_def)
  have e1: "f_entries F1 = f_entries F" using gate by (auto simp: soap_gate_def split: if_splits sum.splits)
  have "\<exists>u. g = Inr u"
    using ch gate e1 by (cases g) (simp_all add: handle_soap_def)
  moreover have "action \<in> set [AddPortMapping, AddAnyPortMapping, DeletePortMapping, DeletePortMappingRange]"
  proof (rule ccontr)
    assume "\<not> ?thesis"
    from other_actions_keep [OF this] ch gate e1 show False by (cases g) (simp_all add: handle_soap_def)
  qed
  ultimately have lift: "authorize (session_roles client (v_now V) (f_dp F)) (Roles [''Basic''])"
    using gate by (auto simp: soap_gate_def enforce_def required_role_def split: if_splits sum.splits)
  then have "session_roles client (v_now V) (f_dp F) \<noteq> []" by (auto simp: authorize_def)
  then have "\<exists>u. session_user client (v_now V) (f_dp F) = Some u"
    by (auto simp: session_roles_def session_user_def not_less split: option.splits if_splits)
  with lift show ?thesis by blast
qed

text \<open>A logged-in device deletes a mapping of its own.\<close>

definition demo_user :: DpUser where
  "demo_user = \<lparr>u_name = ''alice'', u_salt = replicate 16 1, u_stored = replicate 16 2, u_roles = [''Basic'']\<rparr>"

definition demo_session :: DpSession where
  "demo_session = (fresh_session 990)\<lparr>ss_user := Some ''alice''\<rparr>"

definition demo_mapping :: FacadeEntry where
  "demo_mapping = \<lparr>fe_req_ext = 4000, fe_proto = Udp, fe_owner = demo_client, fe_client = demo_client,
     fe_int_port = 4000, fe_bind_port = 30001, fe_lifetime = 3600, fe_expires = 4600, fe_desc = ''game''\<rparr>"

definition demo_logged_in :: Facade where
  "demo_logged_in = demo_start\<lparr>f_entries := [demo_mapping], f_dp := (f_dp demo_start)\<lparr>dp_users := [demo_user],
     dp_sessions := [demo_client \<mapsto> demo_session]\<rparr>\<rparr>"

definition demo_head :: string where
  "demo_head = ''POST /ctl/IPConn HTTP/1.1'' @ [cr, nl] @ ''SOAPACTION: '' @ dquote
     @ ''urn:schemas-upnp-org:service:WANIPConnection:2#DeletePortMapping'' @ dquote @ [cr, nl, cr, nl]"

definition demo_body :: string where
  "demo_body = ''<NewExternalPort>4000</NewExternalPort><NewProtocol>UDP</NewProtocol>''"

theorem v2_changes_need_login_witness:
  "f_entries (snd (handle_conn demo_config demo_env (\<lambda>_. []) [] zero_id demo_client demo_head demo_body
     demo_logged_in)) = []
   \<and> f_entries demo_logged_in \<noteq> []
   \<and> (\<exists>u. session_user demo_client 1000 (f_dp demo_logged_in) = Some u)"
proof -
  have 1: "classify demo_head = Soap WanIpConn DeletePortMapping True" by code_simp
  have 2: "f_entries (snd (handle_conn demo_config demo_env (\<lambda>_. []) [] zero_id demo_client demo_head demo_body
     demo_logged_in)) = []" by code_simp
  have 3: "f_entries demo_logged_in \<noteq> []" by (simp add: demo_logged_in_def)
  show ?thesis
    using v2_changes_need_login [OF 1, of demo_config demo_env "\<lambda>_. []" "[]" zero_id demo_client demo_body
        demo_logged_in] 2 3
    by (simp add: demo_env_def)
qed

section \<open>Well-formed records\<close>

abbreviation well_formed :: "DpState \<Rightarrow> bool" where
  "well_formed D \<equiv> dp_ok (dp_users D) (dp_acl D)"

lemma role_list_valid: "dp_role_list body = Inr roles \<Longrightarrow> list_all valid_role roles"
  by (auto simp: dp_role_list_def and_then_def list_all_iff list_ex_iff split: sum.splits if_splits)

lemma tag16_length: "dp_b64_tag16 body tag = Inr v \<Longrightarrow> length v = 16"
  by (auto simp: dp_b64_tag16_def and_then_def split: sum.splits if_splits)

lemma admin_actions_ok:
  assumes ok: "well_formed (f_dp F)"
  shows "well_formed (f_dp (snd (dp_add_identities V client body F)))"
    and "well_formed (f_dp (snd (dp_remove_identity V client body F)))"
    and "well_formed (f_dp (snd (dp_set_password V client body F)))"
    and "well_formed (f_dp (snd (dp_add_roles V client body add F)))"
proof -
  have save: "f_dp (dp_save V F') = f_dp F'" for F' by (simp add: dp_save_def)
  have "list_all (\<lambda>i. id_alias i = None \<and> length (id_id i) = 16 \<and> list_all valid_role (id_roles i))
      (map (\<lambda>name. \<lparr>id_name = name, id_alias = None, id_id = zero_id, id_roles = []\<rparr>) ns)" for ns
    by (simp add: list_all_iff zero_id_def)
  from add_identities_ok [OF ok this] show "well_formed (f_dp (snd (dp_add_identities V client body F)))"
    using ok by (simp add: dp_add_identities_def Let_def split_beta save split: sum.split)
  show "well_formed (f_dp (snd (dp_remove_identity V client body F)))"
    using ok remove_identity_ok [OF ok] by (simp add: dp_remove_identity_def split: sum.split)
  show "well_formed (f_dp (snd (dp_set_password V client body F)))"
    using ok set_user_password_ok [OF ok] tag16_length
    by (auto simp: dp_set_password_def and_then_def split: sum.split if_splits)
  show "well_formed (f_dp (snd (dp_add_roles V client body add F)))"
    using ok role_changes_ok [OF ok] role_list_valid
    by (auto simp: dp_add_roles_def and_then_def split: sum.split)
qed

text \<open>C37 (type): the records of device protection keep their types. When every user and identity has
  a one-line name without a tab, ids, salts and secrets of sixteen octets and known roles (as when
  there is none), every datagram and every control request, whatever it says, keeps them so; and
  what is written for them is read back at the next start as the same users and the same access
  list.\<close>

theorem records_stay_well_formed:
  assumes "well_formed (f_dp F)"
    and "F' = snd (handle_conn C V docs nonce sid client head body F) \<or> F' = snd (pcp_serve C V pkt client peer F)"
  shows "well_formed (f_dp F')
    \<and> dp_load (Some (config_tsv (dp_users (f_dp F')) (dp_acl (f_dp F')))) dev
        = DpState_new dev (dp_users (f_dp F')) (dp_acl (f_dp F'))"
proof -
  have "well_formed (f_dp (snd (handle_conn C V docs nonce sid client head body F)))"
    using assms(1) by (intro conn_records_cases [where P = well_formed] admin_actions_ok) (simp_all add: records_def)
  with assms have "well_formed (f_dp F')" by (auto simp: datagram_dp)
  then show ?thesis by (simp add: dp_load_def file_of_ok)
qed

theorem records_stay_well_formed_witness:
  "well_formed (f_dp (snd (pcp_serve demo_config demo_env demo_npmp demo_client True demo_logged_in)))"
proof -
  have "well_formed (f_dp demo_logged_in)" by code_simp
  from records_stay_well_formed [OF this disjI2 [OF refl]] show ?thesis by blast
qed

section \<open>Refusals\<close>

text \<open>
  What a refused request may leave: no entry, no lease, no task and no served port that was not there
  before. (For the rules: when nft takes the statements that delete elements. An eviction on the way may
  have taken something away.)
\<close>

definition adds_nothing :: "Env \<Rightarrow> Facade \<Rightarrow> Facade \<Rightarrow> bool" where
  "adds_nothing V F F' \<longleftrightarrow> set (f_entries F') \<subseteq> set (f_entries F)
     \<and> (tbl_inv (f_table F) \<longrightarrow> tbl_inv (f_table F') \<and> set (t_slots (f_table F')) \<subseteq> set (t_slots (f_table F)))
     \<and> f_tasks F' \<subseteq>\<^sub>m f_tasks F
     \<and> ((\<forall>t. starts_with t ''delete element'' \<longrightarrow> v_nft V t) \<longrightarrow>
          (\<forall>c i p tcp. serves (f_nft F') c i p tcp \<longrightarrow> serves (f_nft F) c i p tcp))"

lemma adds_nothing_same [simp]: "adds_nothing V F F"
  by (simp add: adds_nothing_def)

lemma adds_nothing_trans: "adds_nothing V F F1 \<Longrightarrow> adds_nothing V F1 F2 \<Longrightarrow> adds_nothing V F F2"
  unfolding adds_nothing_def by (blast intro: map_le_trans)

lemma adds_nothing_probe: "adds_nothing V F (collision_probe V F)"
  by (auto simp: adds_nothing_def collision_probe_def avoid_inv split: sum.split) (simp add: avoid_ports_def)

text \<open>A deletion takes the port out of service, and no deletion puts one in.\<close>

lemma deletion_text: "starts_with (stmt_text (Del_port t s p) @ x) ''delete element''"
  "starts_with (stmt_text (Del_dnat m p) @ x) ''delete element''"
  by (simp_all add: starts_with_def)

lemma revoke_less: "serves (revoke_datapath ok p tcp N) c i q tcp' \<Longrightarrow> serves N c i q tcp'"
  by (auto simp: revoke_datapath_def run_script_def revoke_stmts_def serves_def split: if_splits)

lemma revoke_ends:
  assumes "\<forall>t. starts_with t ''delete element'' \<longrightarrow> ok t"
  shows "\<not> serves (revoke_datapath ok p tcp N) c i p tcp" and "\<not> serves (del_input_accept ok p tcp N) c i p tcp"
proof -
  have 1: "ok (stmt_text (Del_port t s p) @ x)" "ok (stmt_text (Del_dnat m p) @ x)" for t s m x
    using assms deletion_text by blast+
  then show "\<not> serves (revoke_datapath ok p tcp N) c i p tcp"
    by (simp add: revoke_datapath_def run_script_def revoke_stmts_def serves_def del: stmt_text.simps)
  show "\<not> serves (del_input_accept ok p tcp N) c i p tcp"
    using 1(1) [of _ _ "[]"]
    by (simp add: del_input_accept_def accept_element_text serves_def del: stmt_text.simps)
qed

lemma grant_only: "serves (snd (grant_datapath ok c i p tcp N)) c' i' q tcp' \<Longrightarrow>
    serves N c' i' q tcp' \<or> q = p \<and> tcp' = tcp"
  by (auto simp: grant_datapath_def run_script_def add_input_accept_def grant_stmts_def serves_def split: if_splits)

lemma unaccept_less: "serves (del_input_accept ok p tcp N) c i q tcp' \<Longrightarrow> serves N c i q tcp'"
  by (auto simp: del_input_accept_def serves_def split: if_splits)

lemma taken_back_rules:
  assumes "\<forall>t. starts_with t ''delete element'' \<longrightarrow> ok t"
    and "N' = revoke_datapath ok p tcp (snd (grant_datapath ok c i p tcp N))
       \<or> N' = del_input_accept ok p tcp (snd (grant_datapath ok c i p tcp N))"
    and "serves N' c' i' q tcp'"
  shows "serves N c' i' q tcp'"
proof -
  have "serves (snd (grant_datapath ok c i p tcp N)) c' i' q tcp'"
    using assms(2,3) revoke_less unaccept_less by blast
  moreover have "\<not> (q = p \<and> tcp' = tcp)" using assms(2,3) revoke_ends [OF assms(1)] by blast
  ultimately show ?thesis using grant_only by blast
qed

lemma adds_nothing_evict:
  assumes "evict_candidate V c F = (r, F')"
  shows "adds_nothing V F F'"
proof (cases "evict_idle_client (v_now V) LEASE_GRACE_S c (f_table F)")
  case (Some x)
  obtain p a b pr where "x = (p, a, b, pr)" by (metis prod_cases4)
  with assms Some have F': "F' = persist V ((release_port V p pr F)\<lparr>f_entries :=
      filter (\<lambda>e. fe_bind_port e \<noteq> p) (f_entries F)\<rparr>)"
    by (simp add: evict_candidate_def Let_def)
  have "tbl_inv (f_table F) \<Longrightarrow> set (t_slots (snd (delete_by_bind_port p (f_table F)))) \<subseteq> set (t_slots (f_table F))"
    by (auto simp: delete_eq_filter)
  then show ?thesis unfolding F' adds_nothing_def by (auto simp: delete_inv map_le_def revoke_less)
qed (use assms in \<open>simp add: evict_candidate_def\<close>)

lemma upsert_slots: "upsert_pcp pr ip c l now tg tp T = (r, T') \<Longrightarrow> (case r of
    Granted_at p \<Rightarrow> \<forall>s \<in> set (t_slots T'). s_bind_port s = p \<or> s \<in> set (t_slots T)
  | Refreshed_at p \<Rightarrow> True | _ \<Rightarrow> T' = T)"
  by (auto simp: upsert_pcp_def Let_def split: option.splits if_splits)

text \<open>The outcome of an admission to the table: a refusal adds nothing, a grant is one upsert after it.\<close>

lemma upsert_or_evict_adds:
  assumes "upsert_or_evict V pr i c l F = (r, F')"
  shows "(\<exists>p. r = Refreshed_at p) \<or> adds_nothing V F F' \<and> (\<forall>p. r \<noteq> Granted_at p)
    \<or> (\<exists>p F0. r = Granted_at p \<and> adds_nothing V F F0 \<and> upsert_once pr i c l (v_now V) F0 = (Granted_at p, F'))"
proof -
  have once: "(\<exists>p. r = Refreshed_at p) \<or> F' = F \<and> (\<forall>p. r \<noteq> Granted_at p) \<or> (\<exists>p. r = Granted_at p)"
    if u: "upsert_once pr i c l (v_now V) F = (r, F')" for r F F'
  proof -
    from u obtain T where "upsert_pcp pr i c l (v_now V) c i (f_table F) = (r, T)" "F' = F\<lparr>f_table := T\<rparr>"
      by (auto simp: upsert_once_def split: prod.splits)
    with upsert_slots [of pr i c l "v_now V" c i "f_table F" r T] show ?thesis by (cases r) auto
  qed
  obtain r1 F1 where u: "upsert_once pr i c l (v_now V) F = (r1, F1)" by fastforce
  show ?thesis
  proof (cases "r1 = TableFull")
    case False
    with assms u have "r = r1" "F' = F1" by (simp_all add: upsert_or_evict_def)
    with once [OF u] u adds_nothing_same show ?thesis by metis
  next
    case True
    with once [OF u] have F1: "F1 = F" by auto
    obtain x F2 where e: "evict_candidate V c F1 = (x, F2)" by fastforce
    note less = adds_nothing_evict [OF e, unfolded F1]
    show ?thesis
    proof (cases x)
      case None
      with assms u e True less show ?thesis by (simp add: upsert_or_evict_def)
    next
      case (Some y)
      with assms u e True have "upsert_once pr i c l (v_now V) F2 = (r, F')" by (simp add: upsert_or_evict_def)
      with once [OF this] less show ?thesis by metis
    qed
  qed
qed

lemma adds_nothing_install:
  assumes u: "upsert_once pr i c l now F = (Granted_at p, F1)" and ins: "install V pr c i p F1 = (False, F2)"
  shows "adds_nothing V F F2"
proof -
  obtain T where T: "upsert_pcp pr i c l now c i (f_table F) = (Granted_at p, T)" "F1 = F\<lparr>f_table := T\<rparr>"
    using u by (auto simp: upsert_once_def split: prod.splits)
  have slots: "tbl_inv (snd (delete_by_bind_port p T)) \<and>
      set (t_slots (snd (delete_by_bind_port p T))) \<subseteq> set (t_slots (f_table F))" if "tbl_inv (f_table F)"
  proof -
    have "tbl_inv T" using upsert_inv [OF that, of pr i c l now c i] T(1) by simp
    with upsert_slots [OF T(1)] show ?thesis by (auto simp: delete_eq_filter delete_inv)
  qed
  obtain g N where g: "grant_datapath (v_nft V) c i p (pr = Tcp) (f_nft F) = (g, N)" by fastforce
  have "f_entries F2 = f_entries F \<and> f_tasks F2 = f_tasks F \<and> f_table F2 = snd (delete_by_bind_port p T)
    \<and> (f_nft F2 = revoke_datapath (v_nft V) p (pr = Tcp) N \<or> f_nft F2 = del_input_accept (v_nft V) p (pr = Tcp) N)"
    using ins g by (auto simp: install_def T(2) spawn_slot_def drop_datapath_def Let_def
        split: prod.splits bool.splits option.splits)
  with slots taken_back_rules [where N = "f_nft F" and N' = "f_nft F2" and ok = "v_nft V" and tcp = "pr = Tcp"
      and p = p and c = c and i = i] g show ?thesis
    by (auto simp: adds_nothing_def)
qed

lemma grant_error_adds:
  assumes "grant_mapping C V r owner view F = (Inl e, F')"
  shows "adds_nothing V F F'"
proof -
  define F1 where "F1 = (if by_pcp_key (mr_proto r, mr_int_port r, owner) (f_table F) = None
    then collision_probe V F else F)"
  define l where "l = (if mr_lifetime r = 0 then INFINITE_LEASE else mr_lifetime r)"
  obtain out F2 where u: "upsert_or_evict V (mr_proto r) (mr_int_port r) (mr_client r) l F1 = (out, F2)"
    by fastforce
  have less: "adds_nothing V F F1" by (simp add: F1_def adds_nothing_probe)
  have "F' = F \<or> F' = F2 \<and> (\<forall>p. out \<noteq> Granted_at p \<and> out \<noteq> Refreshed_at p)
      \<or> (\<exists>p. out = Granted_at p \<and> install V (mr_proto r) (mr_client r) (mr_int_port r) p F2 = (False, F'))"
    using assms u unfolding grant_mapping_def Let_def l_def [symmetric] F1_def [symmetric]
    by (auto split: if_splits UpsertOutcome.splits prod.splits bool.splits)
  then show ?thesis
  proof (elim disjE exE conjE)
    fix p assume p: "out = Granted_at p"
      and ins: "install V (mr_proto r) (mr_client r) (mr_int_port r) p F2 = (False, F')"
    with upsert_or_evict_adds [OF u] obtain F0 where "adds_nothing V F1 F0"
      "upsert_once (mr_proto r) (mr_int_port r) (mr_client r) l (v_now V) F0 = (Granted_at p, F2)" by blast
    with adds_nothing_install [OF _ ins] less adds_nothing_trans show ?thesis by metis
  next
    assume "F' = F2" "\<forall>p. out \<noteq> Granted_at p \<and> out \<noteq> Refreshed_at p"
    with upsert_or_evict_adds [OF u] less adds_nothing_trans show ?thesis by metis
  qed simp
qed

text \<open>
  A bind that fails after its rules were granted takes back the acceptance only: the port stays in the
  inbound set, and a UDP port in the map.
\<close>

lemma failed_bind_leaves_elements:
  assumes "grant_datapath (v_nft V) c i p (pr = Tcp) (f_nft F) = (True, N)" and "v_bind V pr p = Some err"
  shows "fst (install V pr c i p F) = False
    \<and> p \<in> n_sets (f_nft (snd (install V pr c i p F))) (inbound_set (pr = Tcp))"
  using assms grant_effect [OF assms(1)]
  by (auto simp: install_def spawn_slot_def del_input_accept_def)

lemma grant_ok_port:
  assumes "grant_mapping C V r owner view F = (Inr out, F')"
  shows "outcome_port out \<noteq> None \<and> outcome_code out = rc_SUCCESS"
proof -
  define F1 where "F1 = (if by_pcp_key (mr_proto r, mr_int_port r, owner) (f_table F) = None
    then collision_probe V F else F)"
  define l where "l = (if mr_lifetime r = 0 then INFINITE_LEASE else mr_lifetime r)"
  show ?thesis
    using assms unfolding grant_mapping_def Let_def l_def [symmetric] F1_def [symmetric]
    by (auto simp: outcome_port_def outcome_code_def split: if_splits UpsertOutcome.splits prod.splits bool.splits)
qed

lemma discovery_code:
  "discovery_answer now p x y F = (Map_answer code l q a, F') \<Longrightarrow> code = rc_NETWORK_FAILURE"
  by (auto simp: discovery_answer_def discovery_verdict_def pcp_error_def Let_def split: option.splits if_splits)

lemma adds_nothing_log: "adds_nothing V F (log_f ev d F)"
  by (simp add: adds_nothing_def)

text \<open>C28 (error): a refused mapping request grants nothing. When the shared admission of PCP and NAT-PMP
  answers with any code but success, and but the network failure that ends the wait for a tuple, then
  every entry of the index was there before; of a sound table every lease was there before, unchanged;
  every task was running before; and when nft takes the statements that delete elements, no port is
  served to a client that was not before. The answer carries the error's own lifetime and gives back
  the port and the address the client suggested.\<close>

theorem refusal_grants_nothing:
  assumes "admit_map C V owner target view pr i x y l cap fs F = (Map_answer code life q a, F')"
    and "code \<noteq> rc_SUCCESS" and "code \<noteq> rc_NETWORK_FAILURE"
  shows "set (f_entries F') \<subseteq> set (f_entries F)
    \<and> (tbl_inv (f_table F) \<longrightarrow> set (t_slots (f_table F')) \<subseteq> set (t_slots (f_table F)))
    \<and> (\<forall>p task. f_tasks F' p = Some task \<longrightarrow> f_tasks F p = Some task)
    \<and> ((\<forall>t. starts_with t ''delete element'' \<longrightarrow> v_nft V t) \<longrightarrow>
         (\<forall>c i p tcp. serves (f_nft F') c i p tcp \<longrightarrow> serves (f_nft F) c i p tcp))
    \<and> life = error_lifetime code \<and> q = x \<and> a = y"
proof -
  have "adds_nothing V F F' \<and> life = error_lifetime code \<and> q = x \<and> a = y"
  proof (cases "proto_of pr")
    case (Some proto)
    let ?r = "\<lparr>mr_ext = x, mr_proto = proto, mr_client = target, mr_int_port = i,
      mr_lifetime = lifetime_cap l cap, mr_desc = ''pcp''\<rparr>"
    consider "fs \<noteq> []" | "fs = []" "l = 0" | "fs = []" "l \<noteq> 0" by blast
    then show ?thesis
    proof cases
      case 2
      have "adds_nothing V F F1" if "delete_mapping V e proto owner None F = (Inl err, F1)" for e err F1
        using that by (auto simp: delete_mapping_def Let_def split: option.splits if_splits)
      with 2 Some assms show ?thesis
        by (auto simp: admit_map_def admit_delete_def pcp_error_def split: option.splits prod.splits sum.splits)
    next
      case 3
      obtain res F1 where g: "grant_mapping C V ?r owner view F = (res, F1)" by fastforce
      show ?thesis
      proof (cases res)
        case (Inl e)
        with 3 Some g assms grant_error_adds [of C V ?r owner view F e F1] show ?thesis
          by (auto simp: admit_map_def pcp_error_def split: UpnpErr.splits)
      next
        case (Inr out)
        with 3 Some g assms grant_ok_port [of C V ?r owner view F out F1] show ?thesis
          by (auto simp: admit_map_def dest: discovery_code split: option.splits)
      qed
    qed (use Some assms adds_nothing_log in \<open>auto simp: admit_map_def pcp_error_def\<close>)
  qed (use assms in \<open>auto simp: admit_map_def pcp_error_def\<close>)
  moreover from this have "\<forall>p task. f_tasks F' p = Some task \<longrightarrow> f_tasks F p = Some task"
    unfolding adds_nothing_def map_le_def by (metis domI)
  ultimately show ?thesis unfolding adds_nothing_def by blast
qed

text \<open>A first request of a device whose socket does not bind.\<close>

definition demo_no_bind :: Env where
  "demo_no_bind = demo_env\<lparr>v_bind := (\<lambda>_ _. Some ''EADDRINUSE'')\<rparr>"

theorem refusal_grants_nothing_witness:
  "\<exists>F'. admit_map demo_config demo_no_bind demo_client demo_client None 17 4000 4000 0 3600 MAX_LIFETIME [] demo_start
       = (Map_answer rc_NO_RESOURCES (error_lifetime rc_NO_RESOURCES) 4000 0, F')
     \<and> set (f_entries F') \<subseteq> set (f_entries demo_start) \<and> set (t_slots (f_table F')) \<subseteq> set (t_slots (f_table demo_start))
     \<and> (serves (f_nft F') demo_client 4000 30001 False \<longrightarrow> serves (f_nft demo_start) demo_client 4000 30001 False)"
proof -
  let ?r = "admit_map demo_config demo_no_bind demo_client demo_client None 17 4000 4000 0 3600 MAX_LIFETIME [] demo_start"
  have "fst ?r = Map_answer rc_NO_RESOURCES (error_lifetime rc_NO_RESOURCES) 4000 0" by code_simp
  then have eq: "?r = (Map_answer rc_NO_RESOURCES (error_lifetime rc_NO_RESOURCES) 4000 0, snd ?r)"
    by (metis prod.collapse)
  have codes: "rc_NO_RESOURCES \<noteq> rc_SUCCESS" "rc_NO_RESOURCES \<noteq> rc_NETWORK_FAILURE" by code_simp+
  have sound: "tbl_inv (f_table demo_start)"
    using fresh_start_inv [OF demo_table_sound demo_table_static] by (simp add: demo_start_def facade_inv_but_def)
  have "\<forall>t. starts_with t ''delete element'' \<longrightarrow> v_nft demo_no_bind t" by (simp add: demo_no_bind_def demo_env_def)
  with refusal_grants_nothing [OF eq codes] eq sound show ?thesis by blast
qed

section \<open>Waiting for a tuple\<close>

lemma published_tuple: "slot_tuple q (publish_slot r agg q t P) = Some t"
  by (auto simp: slot_tuple_def publish_slot_def publish_def note_write_def log_transition_def Let_def
      split: option.split)

lemma learned_publisher: "f_pub (tuple_learned now err agg p t F) = publish_slot err agg p t (f_pub F)"
  by (simp add: tuple_learned_def notify_subscribers_def Let_def)

text \<open>
  A request for a mapping: by PCP or NAT-PMP (both end in \<open>admit_map\<close>, each with its own cap on the lifetime),
  or by PEER where it is enabled. \<open>ask_port\<close> is the port of the mapping the request is about.
\<close>

datatype Ask =
    Ask_map ipv4 ipv4 "Contain option" u8 u16 u16 ipv4 u32 u32
  | Ask_peer ipv4 u8 u16 u16 ipv4 u32

fun ask :: "UpnpConfig \<Rightarrow> Ask \<Rightarrow> Env \<Rightarrow> Facade \<Rightarrow> MapAnswer \<times> Facade" where
  "ask C (Ask_map owner target view pr i x y l cap) V F = admit_map C V owner target view pr i x y l cap [] F"
| "ask C (Ask_peer owner pr i x y l) V F = admit_peer (v_now V) owner pr i x y l True F"

fun ask_port :: "Ask \<Rightarrow> Facade \<Rightarrow> u16 option" where
  "ask_port (Ask_map owner target view pr i x y l cap) F =
     Option.bind (proto_of pr) (\<lambda>proto. lease_port (f_table F) (proto, i, target))"
| "ask_port (Ask_peer owner pr i x y l) F = Option.bind (proto_of pr) (\<lambda>proto. bind_port_of proto owner i F)"

text \<open>The port and address it suggests, and the lifetime it is granted.\<close>

fun ask_hint :: "Ask \<Rightarrow> u16 \<times> ipv4" where
  "ask_hint (Ask_map owner target view pr i x y l cap) = (x, y)"
| "ask_hint (Ask_peer owner pr i x y l) = (x, y)"

fun ask_life :: "Ask \<Rightarrow> u32" where
  "ask_life (Ask_map owner target view pr i x y l cap) = lifetime_cap l cap"
| "ask_life (Ask_peer owner pr i x y l) = lifetime_cap l MAX_LIFETIME"

text \<open>The answers to a client that repeats its request, each time in its own environment.\<close>

primrec asks :: "UpnpConfig \<Rightarrow> Ask \<Rightarrow> Env list \<Rightarrow> Facade \<Rightarrow> MapAnswer list \<times> Facade" where
  "asks C q [] F = ([], F)"
| "asks C q (V # Vs) F = (let (a, F1) = ask C q V F; (rest, F2) = asks C q Vs F1 in (a # rest, F2))"

lemma asks_append:
  "asks C q (Vs @ Us) F = (let (a, F1) = asks C q Vs F; (b, F2) = asks C q Us F1 in (a @ b, F2))"
  by (induction Vs arbitrary: F) (simp_all add: split_beta Let_def)

text \<open>What a grant does to the lease of its own key, to the waits and to the tuple of its port.\<close>

lemma lease_port_sigs: "tbl_inv T \<Longrightarrow> lease_port T k = Some p \<longleftrightarrow> (p, Some k) \<in> sigs T"
proof
  show "lease_port T k = Some p \<Longrightarrow> (p, Some k) \<in> sigs T"
    by (auto simp: lease_port_def sigs_def dest!: leases_SomeD)
  assume inv: "tbl_inv T" and "(p, Some k) \<in> sigs T"
  then obtain s where s: "s \<in> set (t_slots T)" "s_bind_port s = p" "slot_key s = Some k" by (auto simp: sigs_def)
  then obtain s' where s': "leases T k = Some s'" using leases_None_iff [of T k] by (cases "leases T k") auto
  from leases_SomeD [OF s'] same_key [OF inv s(1) _ s(3)] have "s' = s" by metis
  with s' s(2) show "lease_port T k = Some p" by (simp add: lease_port_def)
qed

lemma waits_frame [simp]:
  "f_wait (persist V F) = f_wait F" "f_wait (signal_change now F) = f_wait F" "f_wait (log_f ev d F) = f_wait F"
  "f_wait (log_steering p F) = f_wait F" "f_wait (release_port V p pr F) = f_wait F"
  "f_wait (collision_probe V F) = f_wait F" "f_wait (record_grant V r owner l p F) = f_wait F"
  by (simp_all add: persist_def signal_change_def notify_subscribers_def log_f_def log_steering_def release_port_def
      abort_tasks_def drop_datapath_def collision_probe_def record_grant_def Let_def split: sum.split prod.split option.split)

lemma evict_waits [simp]: "f_wait (snd (evict_candidate V c F)) = f_wait F"
  by (simp add: evict_candidate_def Let_def split: option.split)

lemma once_waits: "upsert_once pr i c l now F = (r, F') \<Longrightarrow> f_wait F' = f_wait F"
  by (auto simp: upsert_once_def split: prod.splits)

lemma upsert_waits:
  assumes "upsert_or_evict V pr i c l F = (r, F')"
  shows "f_wait F' = f_wait F"
proof -
  obtain r1 F1 where o: "upsert_once pr i c l (v_now V) F = (r1, F1)" by fastforce
  obtain x F2 where e: "evict_candidate V c F1 = (x, F2)" by fastforce
  have "f_wait F2 = f_wait F1" using evict_waits [of V c F1] e by simp
  with assms o e once_waits [OF o] show ?thesis
    by (cases x; cases "r1 = TableFull") (auto simp: upsert_or_evict_def dest!: once_waits)
qed

lemma install_waits: "install V pr c i p F = (ok, F') \<Longrightarrow> f_wait F' = f_wait F \<and> (ok \<longrightarrow> f_table F' = f_table F)"
  by (auto simp: install_def spawn_slot_def drop_datapath_def Let_def split: prod.splits bool.splits option.splits)

lemma tuple_frame [simp]:
  "external_tuple p (persist V F) = external_tuple p F" "external_tuple p (signal_change now F) = external_tuple p F"
  "q \<noteq> p \<Longrightarrow> external_tuple p (release_port V q pr F) = external_tuple p F"
  "external_tuple p (F\<lparr>f_entries := es\<rparr>) = external_tuple p F" "external_tuple p (F\<lparr>f_table := T\<rparr>) = external_tuple p F"
  "external_tuple p (F\<lparr>f_wait := w\<rparr>) = external_tuple p F"
  "external_tuple p (collision_probe V F) = external_tuple p F"
  by (simp_all add: external_tuple_def slot_tuple_def persist_def note_write_def log_transition_def signal_change_def
      notify_subscribers_def release_port_def abort_tasks_def drop_datapath_def Publish.remove_slot_def
      collision_probe_def log_f_def Let_def split: option.split sum.split)

lemma probe_table: "tbl_inv (f_table F) \<Longrightarrow> tbl_inv (f_table (collision_probe V F))"
  "sigs (f_table (collision_probe V F)) = sigs (f_table F)"
  by (simp_all add: collision_probe_def avoid_inv split: sum.split)

lemma record_keeps_lease:
  assumes "tbl_inv (f_table F)" and "lease_port (f_table F) k = Some p"
  shows "tbl_inv (f_table (record_grant V r owner l p F))"
    and "lease_port (f_table (record_grant V r owner l p F)) k = Some p"
    and "external_tuple p (record_grant V r owner l p F) = external_tuple p F"
proof -
  obtain stray es where a: "apply_entry (mr_ext r) (mr_proto r) (mr_client r) owner (mr_int_port r) p l
      (v_now V) (mr_desc r) (f_entries F) = (stray, es)" by fastforce
  have other: "q \<noteq> p" if "stray = Some (q, x)" for q x
    using a that by (auto simp: apply_entry_def Let_def split: option.splits if_splits)
  have "tbl_inv (f_table (record_grant V r owner l p F)) \<and> lease_port (f_table (record_grant V r owner l p F)) k = Some p
    \<and> external_tuple p (record_grant V r owner l p F) = external_tuple p F"
  proof (cases stray)
    case (Some s)
    obtain q x where q: "s = (q, x)" by (cases s)
    with other Some have "q \<noteq> p" by simp
    with a Some q assms show ?thesis
      by (simp add: record_grant_def Let_def delete_inv lease_port_sigs leases.bindings_release split: prod.split)
  qed (use a assms in \<open>simp add: record_grant_def\<close>)
  then show "tbl_inv (f_table (record_grant V r owner l p F))"
    and "lease_port (f_table (record_grant V r owner l p F)) k = Some p"
    and "external_tuple p (record_grant V r owner l p F) = external_tuple p F" by blast+
qed

lemma once_lease:
  assumes inv: "tbl_inv (f_table F)" and u: "upsert_once pr i c l now F = (r, F')"
  shows "tbl_inv (f_table F')" and "outcome_port r = Some p \<Longrightarrow> lease_port (f_table F') (pr, i, c) = Some p"
    and "lease_port (f_table F) (pr, i, c) = Some p \<Longrightarrow> r = Refreshed_at p \<and> external_tuple p F' = external_tuple p F"
proof -
  obtain T where T: "upsert_pcp pr i c l now c i (f_table F) = (r, T)" "F' = F\<lparr>f_table := T\<rparr>"
    using u by (auto simp: upsert_once_def split: prod.splits)
  show inv': "tbl_inv (f_table F')" using upsert_inv [OF inv, of pr i c l now c i] T by simp
  note s = upsert_sigs [OF inv T(1)]
  show "lease_port (f_table F') (pr, i, c) = Some p" if "outcome_port r = Some p"
    using that s inv' T(2) by (cases r) (auto simp: outcome_port_def lease_port_sigs)
  assume held: "lease_port (f_table F) (pr, i, c) = Some p"
  then obtain j where "index_of_key (pr, i, c) (f_table F) = Some j"
    using index_of_key_None [of "(pr, i, c)" "f_table F"] by (cases "index_of_key (pr, i, c) (f_table F)") (auto simp: lease_port_def)
  with T(1) obtain q where q: "r = Refreshed_at q" by (auto simp: upsert_pcp_def Let_def)
  with s leases.one_port [OF inv] held have "q = p" by (auto simp: lease_port_sigs [OF inv])
  with q T(2) show "r = Refreshed_at p \<and> external_tuple p F' = external_tuple p F" by simp
qed

lemma upsert_or_evict_once:
  assumes inv: "tbl_inv (f_table F)" and u: "upsert_or_evict V pr i c l F = (r, F')"
  shows "\<exists>F0. tbl_inv (f_table F0) \<and> (r = TableFull \<or> upsert_once pr i c l (v_now V) F0 = (r, F'))"
proof -
  obtain r1 F1 where o: "upsert_once pr i c l (v_now V) F = (r1, F1)" by fastforce
  obtain x F2 where e: "evict_candidate V c F1 = (x, F2)" by fastforce
  have "adds_nothing V F1 F2" by (rule adds_nothing_evict [OF e])
  then have "tbl_inv (f_table F2)" using once_lease(1) [OF inv o] by (simp add: adds_nothing_def)
  with inv o e u show ?thesis by (cases x; cases "r1 = TableFull") (auto simp: upsert_or_evict_def)
qed

lemma upsert_held:
  assumes "tbl_inv (f_table F)" and "lease_port (f_table F) (pr, i, c) = Some p"
    and u: "upsert_or_evict V pr i c l F = (r, F')"
  shows "r = Refreshed_at p \<and> external_tuple p F' = external_tuple p F"
proof -
  obtain r1 F1 where o: "upsert_once pr i c l (v_now V) F = (r1, F1)" by fastforce
  from once_lease(3) [OF assms(1) o assms(2)] u o show ?thesis by (simp add: upsert_or_evict_def)
qed

lemma grant_lease:
  assumes inv: "tbl_inv (f_table F)" and g: "grant_mapping C V r owner view F = (Inr out, F')"
  shows "\<exists>p. outcome_port out = Some p \<and> tbl_inv (f_table F') \<and> f_wait F' = f_wait F
    \<and> lease_port (f_table F') (mr_proto r, mr_int_port r, mr_client r) = Some p"
proof -
  define F1 where "F1 = (if by_pcp_key (mr_proto r, mr_int_port r, owner) (f_table F) = None
    then collision_probe V F else F)"
  define l where "l = (if mr_lifetime r = 0 then INFINITE_LEASE else mr_lifetime r)"
  let ?k = "(mr_proto r, mr_int_port r, mr_client r)"
  obtain o1 F2 where u: "upsert_or_evict V (mr_proto r) (mr_int_port r) (mr_client r) l F1 = (o1, F2)" by fastforce
  have F1: "tbl_inv (f_table F1)" "f_wait F1 = f_wait F"
    using inv by (simp_all add: F1_def probe_table)
  obtain F0 where F0: "tbl_inv (f_table F0)"
    "o1 = TableFull \<or> upsert_once (mr_proto r) (mr_int_port r) (mr_client r) l (v_now V) F0 = (o1, F2)"
    using upsert_or_evict_once [OF F1(1) u] by blast
  have ok: "o1 = out \<and> (\<exists>p F3. outcome_port out = Some p \<and> F' = record_grant V r owner l p F3
      \<and> f_table F3 = f_table F2 \<and> f_wait F3 = f_wait F2)"
    using g u unfolding grant_mapping_def Let_def l_def [symmetric] F1_def [symmetric]
    by (auto simp: outcome_port_def dest!: install_waits
        split: if_splits UpsertOutcome.splits prod.splits bool.splits)
  then obtain p F3 where p: "outcome_port out = Some p" "F' = record_grant V r owner l p F3"
    "f_table F3 = f_table F2" "f_wait F3 = f_wait F2" by blast
  have "tbl_inv (f_table F3)" "lease_port (f_table F3) ?k = Some p"
    using F0 once_lease [OF F0(1)] ok p by (auto simp: outcome_port_def)
  from record_keeps_lease [OF this] p upsert_waits [OF u] F1(2) show ?thesis by auto
qed

lemma grant_held:
  assumes inv: "tbl_inv (f_table F)" and held: "lease_port (f_table F) (mr_proto r, mr_int_port r, mr_client r) = Some p"
    and within: "\<And>c. view = Some c \<Longrightarrow> request_within c (mr_client r) (mr_ext r) (mr_int_port r)"
    and lan: "in_lan (mr_client r) (c_lan_ip C)"
  shows "\<exists>F'. grant_mapping C V r owner view F = (Inr (Refreshed_at p), F') \<and> external_tuple p F' = external_tuple p F"
proof -
  define F1 where "F1 = (if by_pcp_key (mr_proto r, mr_int_port r, owner) (f_table F) = None
    then collision_probe V F else F)"
  define l where "l = (if mr_lifetime r = 0 then INFINITE_LEASE else mr_lifetime r)"
  let ?k = "(mr_proto r, mr_int_port r, mr_client r)"
  obtain out F2 where u: "upsert_or_evict V (mr_proto r) (mr_int_port r) (mr_client r) l F1 = (out, F2)" by fastforce
  have F1: "tbl_inv (f_table F1)" "external_tuple p F1 = external_tuple p F"
    using inv by (simp_all add: F1_def probe_table)
  have "sigs (f_table F1) = sigs (f_table F)" by (simp add: F1_def probe_table)
  then have "lease_port (f_table F1) ?k = Some p" using held by (simp add: lease_port_sigs inv F1(1))
  note h = upsert_held [OF F1(1) this u]
  obtain F0 where F0: "tbl_inv (f_table F0)"
    "upsert_once (mr_proto r) (mr_int_port r) (mr_client r) l (v_now V) F0 = (out, F2)"
    using upsert_or_evict_once [OF F1(1) u] h by auto
  have "tbl_inv (f_table F2)" "lease_port (f_table F2) ?k = Some p"
    using once_lease(1,2) [OF F0] h by (simp_all add: outcome_port_def)
  note rec = record_keeps_lease(3) [OF this, of V r owner l]
  have "\<not> (case view of Some c \<Rightarrow> \<not> request_within c (mr_client r) (mr_ext r) (mr_int_port r) | None \<Rightarrow> False)"
    using within by (cases view) auto
  then have "grant_mapping C V r owner view F = (Inr out, record_grant V r owner l p F2)"
    using u h lan unfolding grant_mapping_def Let_def l_def [symmetric] F1_def [symmetric] by simp
  with h rec F1(2) show ?thesis by simp
qed

text \<open>The requests that are about a mapping at all, and a state in which such a request waits for its tuple.\<close>

fun ask_ok :: "UpnpConfig \<Rightarrow> Ask \<Rightarrow> bool" where
  "ask_ok C (Ask_map owner target view pr i x y l cap) \<longleftrightarrow> proto_of pr \<noteq> None \<and> l \<noteq> 0
     \<and> (\<forall>c. view = Some c \<longrightarrow> request_within c target x i) \<and> in_lan target (c_lan_ip C)"
| "ask_ok C (Ask_peer owner pr i x y l) \<longleftrightarrow> proto_of pr \<noteq> None"

definition awaiting :: "Ask \<Rightarrow> u16 \<Rightarrow> u64 \<Rightarrow> Facade \<Rightarrow> bool" where
  "awaiting q p t0 F \<longleftrightarrow> tbl_inv (f_table F) \<and> ask_port q F = Some p \<and> external_tuple p F = None
     \<and> f_wait F p = Some t0"

lemma ask_held:
  assumes "ask_ok C q" and inv: "tbl_inv (f_table F)" and "ask_port q F = Some p"
  shows "\<exists>F'. tbl_inv (f_table F') \<and> ask_port q F' = Some p \<and> external_tuple p F' = external_tuple p F
    \<and> f_wait F' = f_wait F
    \<and> (external_tuple p F = None \<longrightarrow>
        ask C q V F = discovery_answer (v_now V) p (fst (ask_hint q)) (snd (ask_hint q)) F')
    \<and> (\<forall>e. external_tuple p F = Some e \<longrightarrow>
        fst (ask C q V F) = Map_answer rc_SUCCESS (ask_life q) (snd e) (fst e))"
proof (cases q)
  case (Ask_map owner target view pr i x y l cap)
  with assms(1) obtain proto where pr: "proto_of pr = Some proto" by auto
  let ?r = "\<lparr>mr_ext = x, mr_proto = proto, mr_client = target, mr_int_port = i,
    mr_lifetime = lifetime_cap l cap, mr_desc = ''pcp''\<rparr>"
  have held: "lease_port (f_table F) (mr_proto ?r, mr_int_port ?r, mr_client ?r) = Some p"
    using assms(3) Ask_map pr by simp
  obtain F' where g: "grant_mapping C V ?r owner view F = (Inr (Refreshed_at p), F')"
    "external_tuple p F' = external_tuple p F"
    using grant_held [OF inv held, of view C V owner] assms(1) Ask_map by auto
  from grant_lease [OF inv g(1)] have F': "tbl_inv (f_table F')" "f_wait F' = f_wait F" "ask_port q F' = Some p"
    by (auto simp: outcome_port_def Ask_map pr)
  have code: "outcome_code (Refreshed_at p) = rc_SUCCESS" by (simp add: outcome_code_def)
  have "ask C q V F = (case external_tuple p F of
      Some (ip, port) \<Rightarrow> (Map_answer rc_SUCCESS (ask_life q) port ip, F'\<lparr>f_wait := (f_wait F')(p := None)\<rparr>)
    | None \<Rightarrow> discovery_answer (v_now V) p x y F')"
    using assms(1) g code
    by (cases "external_tuple p F") (auto simp: Ask_map admit_map_def pr outcome_port_def)
  with F' g(2) show ?thesis by (intro exI [of _ F']) (auto simp: Ask_map split: option.splits)
next
  case (Ask_peer owner pr i x y l)
  with assms show ?thesis by (intro exI [of _ F]) (auto simp: admit_peer_def split: option.splits)
qed

lemma discovery_keeps:
  assumes "discovery_answer now p x y F = (a, F')"
  shows "f_table F' = f_table F" and "f_entries F' = f_entries F" and "external_tuple k F' = external_tuple k F"
    and "ask_port q F' = ask_port q F"
proof -
  obtain w where F': "F' = F\<lparr>f_wait := w\<rparr>"
    using assms by (auto simp: discovery_answer_def Let_def split: option.splits)
  show "f_table F' = f_table F" "f_entries F' = f_entries F" "external_tuple k F' = external_tuple k F"
    by (simp_all add: F')
  show "ask_port q F' = ask_port q F" by (cases q) (simp_all add: F' bind_port_of_def)
qed

lemma discovery_drop: "discovery_answer now p x y F = (Map_drop, F') \<Longrightarrow> f_wait F p = None \<Longrightarrow> f_wait F' p = Some now"
  by (auto simp: discovery_answer_def discovery_verdict_def pcp_error_def Let_def split: option.splits if_splits)

text \<open>An unanswered first request has started the wait of the port of its mapping.\<close>

lemma ask_dropped:
  assumes inv: "tbl_inv (f_table F)" and d: "ask C q V F = (Map_drop, F1)" and p: "ask_port q F1 = Some p"
    and w: "f_wait F p = None"
  shows "ask_ok C q \<and> awaiting q p (v_now V) F1"
proof (cases q)
  case (Ask_map owner target view pr i x y l cap)
  then have d': "admit_map C V owner target view pr i x y l cap [] F = (Map_drop, F1)" using d by simp
  obtain proto where pr: "proto_of pr = Some proto"
    using d' by (auto simp: admit_map_def pcp_error_def split: option.splits)
  let ?r = "\<lparr>mr_ext = x, mr_proto = proto, mr_client = target, mr_int_port = i,
    mr_lifetime = lifetime_cap l cap, mr_desc = ''pcp''\<rparr>"
  have l: "l \<noteq> 0"
    using d' by (auto simp: admit_map_def pr admit_delete_def pcp_error_def split: option.splits prod.splits sum.splits)
  obtain res F' where g: "grant_mapping C V ?r owner view F = (res, F')" by fastforce
  obtain out where out: "res = Inr out"
    using d' g l by (cases res) (auto simp: admit_map_def pr pcp_error_def split: UpnpErr.splits)
  from grant_lease [OF inv g [unfolded out]] obtain k where
    k: "outcome_port out = Some k" "tbl_inv (f_table F')" "f_wait F' = f_wait F"
      "lease_port (f_table F') (proto, i, target) = Some k" by auto
  from d' g out l k(1) have da: "external_tuple k F' = None" "discovery_answer (v_now V) k x y F' = (Map_drop, F1)"
    by (auto simp: admit_map_def pr pcp_error_def split: if_splits option.splits)
  note keep = discovery_keeps [OF da(2)]
  have "k = p" using p keep(1) k(4) by (simp add: Ask_map pr)
  moreover have "(\<forall>c. view = Some c \<longrightarrow> request_within c target x i) \<and> in_lan target (c_lan_ip C)"
    using g out by (auto simp: grant_mapping_def split: if_splits)
  ultimately show ?thesis
    using k da keep w discovery_drop [OF da(2)] pr l by (simp add: awaiting_def Ask_map)
next
  case (Ask_peer owner pr i x y l)
  then have d': "admit_peer (v_now V) owner pr i x y l True F = (Map_drop, F1)" using d by simp
  then obtain proto k where pr: "proto_of pr = Some proto" and k: "bind_port_of proto owner i F = Some k"
    and da: "external_tuple k F = None" "discovery_answer (v_now V) k x y F = (Map_drop, F1)"
    by (auto simp: admit_peer_def pcp_error_def split: option.splits)
  note keep = discovery_keeps [OF da(2)]
  have "k = p" using p keep(4) [of q] k by (simp add: Ask_peer pr)
  with keep(1,3) keep(4) [of q] k da w discovery_drop [OF da(2)] pr inv show ?thesis
    by (simp add: awaiting_def Ask_peer)
qed

lemma ask_silent:
  assumes "ask_ok C q" and w: "awaiting q p t0 F" and "sat_sub (v_now V) t0 < DISCOVERY_GRACE_S"
  shows "\<exists>F'. ask C q V F = (Map_drop, F') \<and> awaiting q p t0 F'"
proof -
  from ask_held [OF assms(1), of F p V] w obtain F' where F': "tbl_inv (f_table F')" "ask_port q F' = Some p"
    "external_tuple p F' = None" "f_wait F' p = Some t0"
    "ask C q V F = discovery_answer (v_now V) p (fst (ask_hint q)) (snd (ask_hint q)) F'"
    by (auto simp: awaiting_def)
  have d: "discovery_answer (v_now V) p (fst (ask_hint q)) (snd (ask_hint q)) F'
      = (Map_drop, F'\<lparr>f_wait := (f_wait F')(p \<mapsto> t0)\<rparr>)"
    using assms(3) F'(4) by (simp add: discovery_answer_def discovery_verdict_def)
  from discovery_keeps [OF d] F'(1-3) have "awaiting q p t0 (F'\<lparr>f_wait := (f_wait F')(p \<mapsto> t0)\<rparr>)"
    by (simp add: awaiting_def)
  with F'(5) d show ?thesis by simp
qed

lemma asks_silent:
  "ask_ok C q \<Longrightarrow> awaiting q p t0 F \<Longrightarrow> \<forall>V \<in> set Vs. sat_sub (v_now V) t0 < DISCOVERY_GRACE_S \<Longrightarrow>
     fst (asks C q Vs F) = replicate (length Vs) Map_drop \<and> awaiting q p t0 (snd (asks C q Vs F))"
proof (induction Vs arbitrary: F)
  case (Cons V Vs)
  from ask_silent [OF Cons.prems(1,2), of V] Cons.prems(3) obtain F' where
    F': "ask C q V F = (Map_drop, F')" "awaiting q p t0 F'" by auto
  from Cons.IH [OF Cons.prems(1) F'(2)] Cons.prems(3) F'(1) show ?case by (simp add: split_beta)
qed simp

text \<open>The wait of a port is not forgotten with its mapping, so the next mapping on the port may find it long over.\<close>

lemma wait_outlives_mapping:
  assumes "f_wait F p = Some t0" and "DISCOVERY_GRACE_S \<le> sat_sub now t0"
  shows "fst (discovery_answer now p x y (snd (delete_mapping V ext pr c view F)))
    = Map_answer rc_NETWORK_FAILURE (error_lifetime rc_NETWORK_FAILURE) x y"
proof -
  have "f_wait (snd (delete_mapping V ext pr c view F)) = f_wait F"
    by (simp add: delete_mapping_def Let_def split: option.split)
  with assms show ?thesis by (simp add: discovery_answer_def discovery_verdict_def pcp_error_def)
qed

text \<open>C29 (liveness): a client that repeats its request for a mapping whose tuple is not known yet is not
  kept waiting for ever. The request is any one of PCP or NAT-PMP for a mapping, or a PEER request
  where PEER is enabled, in a table that is sound. When the first is met with silence, and no wait was
  noted for the port of the mapping before, then what follows from the same client, with no other
  event in between, is silence for ten seconds; the next request after that is answered with a network
  failure, and the wait starts afresh. And if the tuple is learned in the meantime, the next request is
  answered with that tuple.\<close>

theorem discovery_silence_ends:
  assumes "tbl_inv (f_table F)" and "ask C q V0 F = (Map_drop, F1)" and "ask_port q F1 = Some p"
    and "f_wait F p = None"
    and "\<forall>V \<in> set Vs. sat_sub (v_now V) (v_now V0) < DISCOVERY_GRACE_S"
    and "DISCOVERY_GRACE_S \<le> sat_sub (v_now V) (v_now V0)"
  shows "fst (asks C q (V0 # Vs @ [V]) F) = replicate (length Vs + 1) Map_drop
        @ [Map_answer rc_NETWORK_FAILURE (error_lifetime rc_NETWORK_FAILURE) (fst (ask_hint q)) (snd (ask_hint q))]
    \<and> f_wait (snd (asks C q (V0 # Vs @ [V]) F)) p = None
    \<and> fst (ask C q V (tuple_learned t' err agg p ext (snd (asks C q (V0 # Vs) F))))
      = Map_answer rc_SUCCESS (ask_life q) (snd ext) (fst ext)"
proof -
  from ask_dropped [OF assms(1-4)] have ok: "ask_ok C q" and w1: "awaiting q p (v_now V0) F1" by blast+
  define F2 where "F2 = snd (asks C q Vs F1)"
  from asks_silent [OF ok w1 assms(5)] have silent: "asks C q Vs F1 = (replicate (length Vs) Map_drop, F2)"
    and w2: "awaiting q p (v_now V0) F2" by (simp_all add: F2_def prod_eq_iff)
  have w2': "tbl_inv (f_table F2)" "ask_port q F2 = Some p" "external_tuple p F2 = None" "f_wait F2 p = Some (v_now V0)"
    using w2 by (simp_all add: awaiting_def)
  from ask_held [OF ok w2'(1,2), of V] w2'(3) obtain F' where "f_wait F' = f_wait F2"
    and F': "ask C q V F2 = discovery_answer (v_now V) p (fst (ask_hint q)) (snd (ask_hint q)) F'" by blast
  then have w': "f_wait F' p = Some (v_now V0)" using w2'(4) by simp
  have last: "ask C q V F2 = (Map_answer rc_NETWORK_FAILURE (error_lifetime rc_NETWORK_FAILURE) (fst (ask_hint q))
      (snd (ask_hint q)), F'\<lparr>f_wait := (f_wait F')(p := None)\<rparr>)"
    using w' leD [OF assms(6)] by (simp add: F' discovery_answer_def discovery_verdict_def pcp_error_def)
  let ?L = "tuple_learned t' err agg p ext F2"
  have L: "f_table ?L = f_table F2" "f_entries ?L = f_entries F2" "external_tuple p ?L = Some ext"
    by (simp_all add: external_tuple_def learned_publisher published_tuple)
      (simp_all add: tuple_learned_def notify_subscribers_def Let_def)
  have "ask_port q ?L = ask_port q F2" by (cases q) (simp_all add: L bind_port_of_def)
  with w2' L have "tbl_inv (f_table ?L)" "ask_port q ?L = Some p" by simp_all
  from ask_held [OF ok this, of V] L(3) have "fst (ask C q V ?L) = Map_answer rc_SUCCESS (ask_life q) (snd ext) (fst ext)"
    by blast
  with assms(2) silent last show ?thesis by (simp add: asks_append F2_def [symmetric])
qed

text \<open>A device asks over NAT-PMP for a mapping it does not have, again after four and nine seconds, and at eleven.\<close>

definition demo_at :: "u64 \<Rightarrow> Env" where
  "demo_at t = demo_env\<lparr>v_now := t\<rparr>"

definition demo_ask :: Ask where
  "demo_ask = Ask_map demo_client demo_client (Some \<lparr>cn_caller = demo_client, cn_high_port = False\<rparr>) 17 4000 4000 0 3600
     NPMP_LIFETIME"

theorem discovery_silence_ends_witness:
  "fst (asks demo_config demo_ask [demo_at 1000, demo_at 1004, demo_at 1009, demo_at 1011] demo_start)
     = [Map_drop, Map_drop, Map_drop, Map_answer rc_NETWORK_FAILURE (error_lifetime rc_NETWORK_FAILURE) 4000 0]
   \<and> fst (ask demo_config demo_ask (demo_at 1011) (tuple_learned 1010 None True 30001 (ipv4_of 203 0 113 9, 4242)
         (snd (asks demo_config demo_ask [demo_at 1000, demo_at 1004, demo_at 1009] demo_start))))
     = Map_answer rc_SUCCESS 3600 4242 (ipv4_of 203 0 113 9)"
proof -
  have sound: "tbl_inv (f_table demo_start)"
    using fresh_start_inv [OF demo_table_sound demo_table_static] by (simp add: demo_start_def facade_inv_but_def)
  have "fst (ask demo_config demo_ask (demo_at 1000) demo_start) = Map_drop" by code_simp
  then have first: "ask demo_config demo_ask (demo_at 1000) demo_start
      = (Map_drop, snd (ask demo_config demo_ask (demo_at 1000) demo_start))" by (metis prod.collapse)
  have port: "ask_port demo_ask (snd (ask demo_config demo_ask (demo_at 1000) demo_start)) = Some 30001"
    and none: "f_wait demo_start 30001 = None"
    and early: "\<forall>V \<in> set [demo_at 1004, demo_at 1009]. sat_sub (v_now V) (v_now (demo_at 1000)) < DISCOVERY_GRACE_S"
    and late: "DISCOVERY_GRACE_S \<le> sat_sub (v_now (demo_at 1011)) (v_now (demo_at 1000))"
    by code_simp+
  have "ask_hint demo_ask = (4000, 0)" "ask_life demo_ask = 3600" by code_simp+
  with discovery_silence_ends [OF sound first port none early late, of 1010 None True "(ipv4_of 203 0 113 9, 4242)"]
  show ?thesis by (simp add: numeral_eq_Suc)
qed

section \<open>Two requesters on one lease\<close>

text \<open>
  The index is keyed by the requester and the table by the target. A caller with a session maps a port of
  another device, and the device itself maps that port: both entries stand on one lease. When the first
  requester deletes its mapping, the entry of the device is left without a lease.
\<close>

definition demo_two_requesters :: Facade where
  "demo_two_requesters =
     (let r = \<lparr>mr_ext = 4000, mr_proto = Udp, mr_client = demo_other, mr_int_port = 4000, mr_lifetime = 3600,
        mr_desc = ''game''\<rparr>;
          F1 = snd (grant_mapping demo_config demo_env r demo_client None demo_start);
          F2 = snd (grant_mapping demo_config demo_env r demo_other
                 (Some \<lparr>cn_caller = demo_other, cn_high_port = False\<rparr>) F1)
      in snd (delete_mapping demo_env 4000 Udp demo_client None F2))"

lemma entry_left_without_lease:
  "map fe_bind_port (f_entries demo_two_requesters) = [30001]
   \<and> by_bind_port 30001 (f_table demo_two_requesters) = None"
  by code_simp

end
