(* ===== verification/Udp_Slot.thy ===== *)
theory Udp_Slot
  imports Health Stun Slot_Table Publish
begin

text \<open>
  A UDP slot at work (\<open>run_slot\<close> and \<open>keepalive_loop\<close> of \<open>src/src/main.rs\<close>): what its socket does
  with a datagram, with an answer of the relayed service, and on a tick of the keepalive; and that
  nobody but the STUN servers moves the tuple it publishes.
\<close>

section \<open>State and steps\<close>

text \<open>
  The state that the two tasks of the slot at \<open>bind_port\<close> share, with the table and the publisher
  of the daemon. What leaves the slot is a list of sends.
\<close>

record UdpSlot =
  us_state :: State
  us_vote :: VoteState
  us_peer :: "tuple4 option"
  us_table :: LeaseTable
  us_pub :: Publisher

datatype Send = From_slot "u8 list" tuple4 | To_service "u8 list" tuple4 | Forward "u8 list" tuple4 tuple4

definition LEASE_STAMP_MIN_S :: u64 where "LEASE_STAMP_MIN_S = 15"

text \<open>The octets of \<open>dslp-poke\<close>.\<close>

definition POKE_MARK :: "u8 list" where
  "POKE_MARK = [100, 115, 108, 112, 45, 112, 111, 107, 101]"

definition slot_start :: "tuple4 list \<Rightarrow> tuple4 option \<Rightarrow> LeaseTable \<Rightarrow> Publisher \<Rightarrow> UdpSlot" where
  "slot_start servers poke T pub = \<lparr>us_state = (State_new servers)\<lparr>st_poke := poke\<rparr>, us_vote = VoteState_new,
     us_peer = None, us_table = T, us_pub = pub\<rparr>"

text \<open>What the clocks and the file system answer while one datagram is handled.\<close>

record recv_env =
  rv_now :: u64
  rv_mono :: nat
  rv_slot_err :: "string option"
  rv_agg_ok :: bool

definition show_bool :: "bool \<Rightarrow> string" where
  "show_bool b = (if b then ''true'' else ''false'')"

definition act_on :: "recv_env \<Rightarrow> u16 \<Rightarrow> VoteDecision \<Rightarrow> UdpSlot \<Rightarrow> UdpSlot" where
  "act_on V bind_port d S =
     (case d of
        Churn t \<Rightarrow> S\<lparr>us_pub := publish_slot (rv_slot_err V) (rv_agg_ok V) bind_port t
          (log_transition ''churn'' (''slot '' @ show_word bind_port @ '' confirmed '' @ tuple_text t) (us_pub S))\<rparr>
      | Disagree idx \<Rightarrow>
          let (rotated, st) = mark_suspect (us_state S)
          in S\<lparr>us_state := st, us_pub := log_transition ''suspect''
               (''slot '' @ show_word bind_port @ '' STUN server '' @ show_nat idx @ '' disagreed; rotated=''
                  @ show_bool rotated) (us_pub S)\<rparr>
      | Stable \<Rightarrow> S)"

definition stun_answer :: "recv_env \<Rightarrow> u16 \<Rightarrow> tuple4 \<Rightarrow> tuple4 \<Rightarrow> UdpSlot \<Rightarrow> UdpSlot" where
  "stun_answer V bind_port src t S =
     (let S1 = S\<lparr>us_state := snd (note_response (rv_mono V) t (us_state S))\<rparr>;
          (d, v) = (case server_index src (us_state S1) of
                      Some idx \<Rightarrow> observe idx t (us_vote S1) | None \<Rightarrow> (Stable, us_vote S1))
      in act_on V bind_port d (S1\<lparr>us_vote := v\<rparr>))"

definition slot_recv ::
  "recv_env \<Rightarrow> u16 \<Rightarrow> tuple4 \<Rightarrow> bool \<Rightarrow> tuple4 \<Rightarrow> u8 list \<Rightarrow> UdpSlot \<Rightarrow> Send list \<times> UdpSlot" where
  "slot_recv V bind_port target relay src pkt S =
     (if is_stun_server src (us_state S)
      then (case parse_mapped pkt of
              Some t \<Rightarrow> ([], stun_answer V bind_port src t S)
            | None \<Rightarrow> ([], S))
      else
        let S1 = S\<lparr>us_table := stamp_activity_if_stale bind_port (rv_now V) LEASE_STAMP_MIN_S (us_table S)\<rparr>
        in if relay then ([To_service pkt target], S1\<lparr>us_peer := Some src\<rparr>)
           else ([Forward pkt src target], S1))"

text \<open>The relay task: an answer of the service leaves from the slot's own socket.\<close>

definition service_answer :: "u8 list \<Rightarrow> UdpSlot \<Rightarrow> Send list" where
  "service_answer pkt S = (case us_peer S of Some p \<Rightarrow> [From_slot pkt p] | None \<Rightarrow> [])"

text \<open>One tick of the keepalive; without a server to read, the task panics.\<close>

definition keepalive_tick :: "u64 \<Rightarrow> UdpSlot \<Rightarrow> (Send list \<times> UdpSlot) option" where
  "keepalive_tick seed S =
     (case current_server (us_state S) of
        None \<Rightarrow> None
      | Some server \<Rightarrow>
          let pokes = (case st_poke (us_state S) of Some dest \<Rightarrow> [From_slot POKE_MARK dest] | None \<Rightarrow> []);
              st = snd (note_silence (us_state S))
          in Some (From_slot (binding_request (random_txn seed)) server # pokes, S\<lparr>us_state := st\<rparr>))"

datatype SlotEvent = Datagram recv_env tuple4 "u8 list" | Keepalive u64 | Service "u8 list"

fun slot_event :: "u16 \<Rightarrow> tuple4 \<Rightarrow> bool \<Rightarrow> SlotEvent \<Rightarrow> UdpSlot \<Rightarrow> UdpSlot" where
  "slot_event p target relay (Datagram V src pkt) S = snd (slot_recv V p target relay src pkt S)"
| "slot_event p target relay (Keepalive seed) S = (case keepalive_tick seed S of Some (_, S1) \<Rightarrow> S1 | None \<Rightarrow> S)"
| "slot_event p target relay (Service pkt) S = S"

section \<open>The reports a run has seen\<close>

fun report_of :: "tuple4 list \<Rightarrow> SlotEvent \<Rightarrow> (nat \<times> tuple4) option" where
  "report_of servers (Datagram V src pkt) =
     (case (position (\<lambda>x. x = src) servers, parse_mapped pkt) of
        (Some i, Some t) \<Rightarrow> Some (i, t) | _ \<Rightarrow> None)"
| "report_of servers _ = None"

definition reports :: "tuple4 list \<Rightarrow> SlotEvent list \<Rightarrow> (nat \<times> tuple4) list" where
  "reports servers evs = List.map_filter (report_of servers) evs"

lemma act_on_frame [simp]: "us_vote (act_on V p d S) = us_vote S" "us_peer (act_on V p d S) = us_peer S"
  "us_table (act_on V p d S) = us_table S" "st_servers (us_state (act_on V p d S)) = st_servers (us_state S)"
  "st_poke (us_state (act_on V p d S)) = st_poke (us_state S)"
  by (auto simp: act_on_def mark_suspect_def split: VoteDecision.split)

lemma log_slots [simp]: "pb_slots (log_transition ev d P) = pb_slots P"
  by (simp add: log_transition_def)

lemma publish_slots [simp]: "pb_slots (publish_slot r agg q t P) = (pb_slots P)(q \<mapsto> t)"
  by (auto simp: publish_slot_def publish_def note_write_def Let_def split: option.split)

lemma server_known: "is_stun_server src s \<longleftrightarrow> server_index src s \<noteq> None"
  by (auto simp: is_stun_server_def server_index_def position_None_iff)

text \<open>The vote has seen the reports of the servers, and what is published is what it confirmed.\<close>

definition slot_ok :: "tuple4 list \<Rightarrow> u16 \<Rightarrow> SlotEvent list \<Rightarrow> UdpSlot \<Rightarrow> bool" where
  "slot_ok servers p evs S \<longleftrightarrow> st_servers (us_state S) = servers
     \<and> us_vote S = vote_run (reports servers evs) \<and> pb_slots (us_pub S) p = v_confirmed (us_vote S)"

lemma observe_confirmed:
  "v_confirmed (snd (observe i t v)) = (case fst (observe i t v) of Churn u \<Rightarrow> Some u | _ \<Rightarrow> v_confirmed v)"
  by (simp add: observe_def Let_def clear_pend_def)

lemma act_on_slots: "pb_slots (us_pub (act_on V p d S)) p =
    (case d of Churn u \<Rightarrow> Some u | _ \<Rightarrow> pb_slots (us_pub S) p)"
  by (simp add: act_on_def split_beta split: VoteDecision.split)

lemma slot_event_ok:
  assumes "slot_ok servers p evs S"
  shows "slot_ok servers p (evs @ [e]) (slot_event p target relay e S)"
proof (cases "\<exists>V src pkt. e = Datagram V src pkt \<and> report_of servers e \<noteq> None")
  case True
  then obtain V src pkt i t where e: "e = Datagram V src pkt" "report_of servers e = Some (i, t)" by force
  then have i: "position (\<lambda>x. x = src) servers = Some i" and t: "parse_mapped pkt = Some t"
    by (auto split: option.splits)
  have idx: "server_index src (us_state S) = Some i"
    "server_index src (snd (note_response m t (us_state S))) = Some i" for m
    using i assms by (auto simp: server_index_def slot_ok_def note_response_def)
  have "reports servers (evs @ [e]) = reports servers evs @ [(i, t)]"
    using e(2) by (simp add: reports_def map_filter_def)
  then have run: "vote_run (reports servers (evs @ [e])) = snd (observe i t (us_vote S))"
    using assms by (simp add: vote_run_def vote_step_def slot_ok_def)
  have "slot_event p target relay e S = stun_answer V p src t S"
    using e(1) t idx(1) by (simp add: slot_recv_def server_known)
  then show ?thesis
    using assms run idx(2)
    by (simp add: slot_ok_def stun_answer_def Let_def split_beta act_on_slots observe_confirmed note_response_def
        split: VoteDecision.split)
next
  case False
  then have none: "report_of servers e = None" by (metis SlotEvent.exhaust report_of.simps(2,3))
  then have "reports servers (evs @ [e]) = reports servers evs"
    by (simp add: reports_def map_filter_def)
  moreover have "slot_ok servers p evs (slot_event p target relay e S)"
  proof (cases e)
    case (Datagram V src pkt)
    with none assms have "server_index src (us_state S) = None \<or> parse_mapped pkt = None"
      by (auto simp: slot_ok_def server_index_def split: option.splits)
    with Datagram assms show ?thesis
      by (auto simp: slot_recv_def server_known Let_def slot_ok_def split: option.split)
  next
    case (Keepalive seed)
    with assms show ?thesis
      by (auto simp: slot_ok_def keepalive_tick_def note_silence_def Let_def split: option.split)
  qed (use assms in simp)
  ultimately show ?thesis by (simp add: slot_ok_def)
qed

definition slot_run :: "tuple4 list \<Rightarrow> tuple4 option \<Rightarrow> LeaseTable \<Rightarrow> Publisher \<Rightarrow> u16 \<Rightarrow> tuple4 \<Rightarrow> bool
    \<Rightarrow> SlotEvent list \<Rightarrow> UdpSlot" where
  "slot_run servers poke T pub p target relay evs = fold (slot_event p target relay) evs (slot_start servers poke T pub)"

lemma slot_run_ok: "pb_slots pub p = None \<Longrightarrow> slot_ok servers p evs (slot_run servers poke T pub p target relay evs)"
proof (induction evs rule: rev_induct)
  case Nil
  then show ?case
    by (simp add: slot_run_def slot_start_def slot_ok_def reports_def map_filter_def vote_run_def VoteState_new_def
        State_new_def)
next
  case (snoc e evs)
  then show ?case
    using slot_event_ok [of servers p evs "slot_run servers poke T pub p target relay evs" e target relay]
    by (simp add: slot_run_def)
qed

lemma report_datagram:
  "(i, t) \<in> set (reports servers evs) \<Longrightarrow>
   \<exists>V src pkt. Datagram V src pkt \<in> set evs \<and> position (\<lambda>x. x = src) servers = Some i \<and> parse_mapped pkt = Some t"
proof -
  assume "(i, t) \<in> set (reports servers evs)"
  then obtain e where e: "e \<in> set evs" "report_of servers e = Some (i, t)"
    by (auto simp: reports_def map_filter_def)
  from e(2) obtain V src pkt where "e = Datagram V src pkt"
    by (metis SlotEvent.exhaust option.distinct(1) report_of.simps(2,3))
  with e show ?thesis by (auto split: option.splits simp del: split_paired_Ex)
qed

text \<open>C8 (safety): nobody on the network moves the tuple a slot publishes, short of two STUN servers. In
  any run of datagrams from anywhere, keepalive ticks and service answers, of a slot that starts with
  no published tuple, when a datagram changes the tuple that is published, then it comes from a
  configured server and carries the new tuple as a valid STUN response, and an earlier datagram of
  the run, from another configured server, carried the same tuple.\<close>

theorem tuple_moves_by_two_servers:
  assumes fresh: "pb_slots pub p = None"
    and S: "S = slot_run servers poke T pub p target relay evs"
    and old: "pb_slots (us_pub S) p = Some c"
    and new: "pb_slots (us_pub (snd (slot_recv V p target relay src pkt S))) p \<noteq> Some c"
  shows "src \<in> set servers \<and> (\<exists>u V' src' pkt'. pb_slots (us_pub (snd (slot_recv V p target relay src pkt S))) p = Some u
    \<and> parse_mapped pkt = Some u \<and> Datagram V' src' pkt' \<in> set evs \<and> src' \<in> set servers \<and> src' \<noteq> src
    \<and> parse_mapped pkt' = Some u)"
proof -
  let ?v = "us_vote S"
  have ok: "slot_ok servers p evs S" unfolding S by (rule slot_run_ok [OF fresh])
  then have v: "?v = vote_run (reports servers evs)" and conf: "v_confirmed ?v = Some c"
    and sv: "st_servers (us_state S) = servers"
    using old by (simp_all add: slot_ok_def)
  have srv: "is_stun_server src (us_state S)" and "parse_mapped pkt \<noteq> None"
    using new old by (auto simp: slot_recv_def Let_def split: if_splits option.splits)
  then obtain t i where t: "parse_mapped pkt = Some t" and i: "server_index src (us_state S) = Some i"
    by (auto simp: server_known)
  have i': "position (\<lambda>x. x = src) servers = Some i" using i sv by (simp add: server_index_def)
  have idx: "server_index src (snd (note_response m t (us_state S))) = Some i" for m
    using i by (simp add: server_index_def note_response_def)
  have pub: "pb_slots (us_pub (snd (slot_recv V p target relay src pkt S))) p
      = (case fst (observe i t ?v) of Churn u \<Rightarrow> Some u | _ \<Rightarrow> Some c)"
    using srv t idx old
    by (simp add: slot_recv_def stun_answer_def Let_def split_beta act_on_slots split: VoteDecision.split)
  with new obtain u where u: "fst (observe i t ?v) = Churn u" by (auto split: VoteDecision.splits)
  from churn_two_reports [of "reports servers evs" c i t u] conf u
  obtain j where j: "u = t" "j \<noteq> i" "(j, t) \<in> set (reports servers evs)" by (auto simp: v)
  from report_datagram [OF j(3)] obtain V' src' pkt' where
    d: "Datagram V' src' pkt' \<in> set evs" "position (\<lambda>x. x = src') servers = Some j" "parse_mapped pkt' = Some t"
    by blast
  have "src' \<noteq> src" using d(2) i' j(2) by auto
  moreover have "src' \<in> set servers" using position_SomeD [OF d(2)] by auto
  moreover have "src \<in> set servers" using srv sv by (simp add: is_stun_server_def)
  ultimately show ?thesis using pub u j(1) t d(1,3) by (simp del: split_paired_Ex) blast
qed

text \<open>The carrier moves a slot: the first server reports 9.0.0.1, then the second a new address, then the first.\<close>

definition demo_servers :: "tuple4 list" where
  "demo_servers = [(1, 3478), (2, 3478)]"

definition demo_answer :: recv_env where
  "demo_answer = \<lparr>rv_now = 100, rv_mono = 7, rv_slot_err = None, rv_agg_ok = True\<rparr>"

definition demo_events :: "SlotEvent list" where
  "demo_events = [Datagram demo_answer (1, 3478) (build_mapped_response True [9, 0, 0, 1] 4000),
     Datagram demo_answer (77, 9) [1, 2, 3], Datagram demo_answer (2, 3478) (build_mapped_response True [9, 0, 0, 2] 5000)]"

definition demo_slot :: UdpSlot where
  "demo_slot = slot_run demo_servers None (LeaseTable_new \<lparr>pa_lo = 30000, pa_hi = 30003\<rparr> 4 4)
     (with_watch Map.empty None 0) 30000 (5, 80) False demo_events"

theorem tuple_moves_by_two_servers_witness:
  "pb_slots (us_pub demo_slot) 30000 = Some (0x09000001, 4000)
   \<and> (\<exists>V' src' pkt'. Datagram V' src' pkt' \<in> set demo_events \<and> src' \<noteq> (1, 3478)
        \<and> parse_mapped pkt' = Some (0x09000002, 5000))"
proof -
  let ?e = "Datagram demo_answer (1, 3478) (build_mapped_response True [9, 0, 0, 2] 5000)"
  have fresh: "pb_slots (with_watch Map.empty None 0) 30000 = None" by (simp add: with_watch_def)
  have ok: "slot_ok demo_servers 30000 demo_events demo_slot"
    unfolding demo_slot_def by (rule slot_run_ok [OF fresh])
  have ips: "(from_be [9, 0, 0, 1] :: ipv4) = 0x09000001" "(from_be [9, 0, 0, 2] :: ipv4) = 0x09000002" by code_simp+
  have reps: "reports demo_servers demo_events = [(0, (0x09000001, 4000)), (1, (0x09000002, 5000))]"
    "reports demo_servers (demo_events @ [?e]) = [(0, (0x09000001, 4000)), (1, (0x09000002, 5000)), (0, (0x09000002, 5000))]"
    by (simp_all add: reports_def map_filter_def demo_events_def demo_servers_def parse_build_mapped ips)
  have r: "v_confirmed (vote_run (reports demo_servers demo_events)) = Some (0x09000001, 4000)"
    "v_confirmed (vote_run (reports demo_servers (demo_events @ [?e]))) = Some (0x09000002, 5000)"
    unfolding reps by code_simp+
  have old: "pb_slots (us_pub demo_slot) 30000 = Some (0x09000001, 4000)" using ok r(1) by (simp add: slot_ok_def)
  have new: "pb_slots (us_pub (snd (slot_recv demo_answer 30000 (5, 80) False (1, 3478)
      (build_mapped_response True [9, 0, 0, 2] 5000) demo_slot))) 30000 \<noteq> Some (0x09000001, 4000)"
    using slot_event_ok [OF ok, of ?e "(5, 80)" False] r(2) by (simp add: slot_ok_def)
  have pkt: "parse_mapped (build_mapped_response True [9, 0, 0, 2] 5000) = Some (0x09000002, 5000)"
    by (simp add: parse_build_mapped ips)
  from tuple_moves_by_two_servers [OF fresh demo_slot_def old new] pkt old show ?thesis
    by (auto simp del: split_paired_Ex)
qed

end
