(* ===== verification/Keepalive.thy ===== *)
theory Keepalive
  imports Nft_Props
begin

text \<open>
  The devices the keepalive acts for (\<open>src/keepalive.rs\<close>): the reader of the allowlist file, the
  rules that hold their flows, and the installation of these rules (\<open>apply_hold\<close>, \<open>remove_hold\<close> and
  \<open>hold_in_force\<close> of \<open>src/nft.rs\<close>).
\<close>

section \<open>The allowlist file\<close>

definition allow_code :: "string \<Rightarrow> string" where
  "allow_code raw = trim (hd (split_on CHR ''#'' raw))"

fun allow_from :: "string list \<Rightarrow> ipv4 list \<Rightarrow> string list \<Rightarrow> ipv4 list \<times> string list" where
  "allow_from [] ips bad = (ips, bad)"
| "allow_from (raw # raws) ips bad =
     (let code = allow_code raw
      in if code = [] then allow_from raws ips bad
         else (case parse_ipv4 code of
                 Some ip \<Rightarrow> allow_from raws (if ip \<in> set ips then ips else ips @ [ip]) bad
               | None \<Rightarrow> allow_from raws ips (bad @ [code])))"

definition parse_allowlist :: "string \<Rightarrow> ipv4 list \<times> string list" where
  "parse_allowlist text = allow_from (lines text) [] []"

definition allowed :: "ipv4 list \<Rightarrow> ipv4 \<Rightarrow> bool" where
  "allowed ips ip \<longleftrightarrow> ip \<in> set ips"

section \<open>The rules\<close>

definition HOLD_TABLE :: string where "HOLD_TABLE = ''ip dslp''"
definition UDP_POLICY :: string where "UDP_POLICY = ''dslp_udp_long''"
definition TCP_POLICY :: string where "TCP_POLICY = ''dslp_tcp_long''"
definition HOLD_CHAIN :: string where "HOLD_CHAIN = ''hold''"
definition UDP_POLICY_BODY :: string where
  "UDP_POLICY_BODY = ''policy = { unreplied : 5m, replied : 5m }''"
definition TCP_POLICY_BODY :: string where
  "TCP_POLICY_BODY = ''policy = { established : 2h4m }''"

definition hold_set :: "ipv4 list \<Rightarrow> string" where
  "hold_set ips = join '', '' (map show_ipv4 ips)"

definition hold_rule :: "string \<Rightarrow> string \<Rightarrow> string \<Rightarrow> string" where
  "hold_rule addrs l4 policy = tab # tab # ''ip saddr { '' @ addrs @ '' } meta l4proto '' @ l4
     @ '' ct timeout set '' @ dquote @ policy @ dquote"

definition hold_lines :: "string \<Rightarrow> string list" where
  "hold_lines addrs =
     [''table '' @ HOLD_TABLE @ '' {'',
      tab # ''ct timeout '' @ UDP_POLICY @ '' {'', tab # tab # ''protocol udp'', tab # tab # UDP_POLICY_BODY, tab # ''}'',
      tab # ''ct timeout '' @ TCP_POLICY @ '' {'', tab # tab # ''protocol tcp'', tab # tab # TCP_POLICY_BODY, tab # ''}'',
      tab # ''chain '' @ HOLD_CHAIN @ '' {'',
      tab # tab # ''type filter hook prerouting priority -150; policy accept;'',
      hold_rule addrs ''udp'' UDP_POLICY, hold_rule addrs ''tcp'' TCP_POLICY,
      tab # ''}'', ''}'']"

definition ruleset :: "ipv4 list \<Rightarrow> string" where
  "ruleset ips = (if ips = [] then [] else concat (map (\<lambda>l. l @ [nl]) (hold_lines (hold_set ips))))"

definition teardown :: string where
  "teardown = concat (map (\<lambda>l. l @ [nl])
     [''delete chain '' @ HOLD_TABLE @ '' '' @ HOLD_CHAIN, ''delete ct timeout '' @ HOLD_TABLE @ '' '' @ UDP_POLICY,
      ''delete ct timeout '' @ HOLD_TABLE @ '' '' @ TCP_POLICY])"

definition hold_present :: "string \<Rightarrow> bool" where
  "hold_present listed = str_contains listed (''ct timeout '' @ UDP_POLICY)"

text \<open>The scripts given to \<open>nft\<close>, in order, and whether the installation succeeded.\<close>

definition apply_hold :: "(string \<Rightarrow> bool) \<Rightarrow> ipv4 list \<Rightarrow> string list \<times> bool" where
  "apply_hold nft_ok ips =
     (if ips = [] then ([teardown], True) else ([teardown, ruleset ips], nft_ok (ruleset ips)))"

definition hold_in_force :: "string option \<Rightarrow> bool" where
  "hold_in_force listed = (case listed of Some out \<Rightarrow> hold_present out | None \<Rightarrow> False)"

section \<open>What is read\<close>

lemma remdups_app: "remdups (xs @ ys) = filter (\<lambda>x. x \<notin> set ys) (remdups xs) @ remdups ys"
  by (induction xs) auto

text \<open>The first occurrence of each element, in order.\<close>

definition firsts :: "'a list \<Rightarrow> 'a list" where
  "firsts xs = rev (remdups (rev xs))"

lemma firsts_props [simp]: "distinct (firsts xs)" "set (firsts xs) = set xs"
  by (simp_all add: firsts_def)

lemma firsts_id: "distinct xs \<Longrightarrow> firsts xs = xs"
  by (simp add: firsts_def distinct_remdups_id)

lemma firsts_seen: "x \<in> set xs \<Longrightarrow> firsts (xs @ x # ys) = firsts (xs @ ys)"
  unfolding firsts_def by (simp add: remdups_app) (metis)

lemma no_address [simp]: "parse_ipv4 [] = None"
  by code_simp

lemma allow_from_reads:
  "distinct ips \<Longrightarrow> allow_from raws ips bad =
     (firsts (ips @ List.map_filter (\<lambda>l. parse_ipv4 (allow_code l)) raws),
      bad @ filter (\<lambda>c. c \<noteq> [] \<and> parse_ipv4 c = None) (map allow_code raws))"
proof (induction raws arbitrary: ips bad)
  case Nil
  then show ?case by (simp add: map_filter_def firsts_id)
next
  case (Cons raw raws)
  show ?case
  proof (cases "parse_ipv4 (allow_code raw)")
    case None
    with Cons show ?thesis by (simp add: Let_def List.map_filter_simps)
  next
    case (Some ip)
    then have ne: "allow_code raw \<noteq> []" by auto
    show ?thesis
    proof (cases "ip \<in> set ips")
      case True
      with Some ne Cons.IH [OF Cons.prems] show ?thesis
        by (simp add: Let_def List.map_filter_simps firsts_seen)
    next
      case False
      with Cons.prems have "distinct (ips @ [ip])" by simp
      from Cons.IH [OF this] Some ne False show ?thesis
        by (simp add: Let_def List.map_filter_simps)
    qed
  qed
qed

section \<open>What the rules hold\<close>

text \<open>A reader of one rule line: the addresses of its set, when it gives the policy to that protocol.\<close>

definition rule_addresses :: "string \<Rightarrow> string \<Rightarrow> string \<Rightarrow> ipv4 option list option" where
  "rule_addresses l4 policy line =
     (case after_marker ''ip saddr { '' line of
        None \<Rightarrow> None
      | Some rest \<Rightarrow>
          (case split_once CHR ''}'' rest of
             Some (addrs, after) \<Rightarrow>
               if after = '' meta l4proto '' @ l4 @ '' ct timeout set '' @ dquote @ policy @ dquote
               then Some (map parse_ipv4 (split_on CHR '','' (filter (\<lambda>c. c \<noteq> CHR '' '') addrs)))
               else None
           | None \<Rightarrow> None))"

lemma addr_plain: "c \<in> set (show_ipv4 a) \<Longrightarrow> c \<noteq> CHR '' '' \<and> c \<noteq> CHR '','' \<and> c \<noteq> CHR ''}'' \<and> c \<noteq> nl \<and> c \<noteq> cr"
  using show_ipv4_chars [of c a] digit_not_special [of c] by (auto simp: is_digit_def nl_def cr_def)

lemma filter_join: "\<forall>p \<in> set ps. CHR '' '' \<notin> set p \<Longrightarrow>
    filter (\<lambda>c. c \<noteq> CHR '' '') (join '', '' ps) = join '','' ps"
proof (induction ps rule: induct_list012)
  case (3 x y zs)
  then have "filter (\<lambda>c. c \<noteq> CHR '' '') x = x" by (intro filter_True) auto
  with 3 show ?case by simp
qed (auto intro: filter_True)

lemma hold_set_back: "ips \<noteq> [] \<Longrightarrow>
    map parse_ipv4 (split_on CHR '','' (filter (\<lambda>c. c \<noteq> CHR '' '') (hold_set ips @ '' ''))) = map Some ips"
proof -
  assume ne: "ips \<noteq> []"
  have "\<forall>p \<in> set (map show_ipv4 ips). CHR '' '' \<notin> set p \<and> CHR '','' \<notin> set p" by (auto dest: addr_plain)
  then have "split_on CHR '','' (filter (\<lambda>c. c \<noteq> CHR '' '') (hold_set ips @ '' '')) = map show_ipv4 ips"
    using ne by (simp add: hold_set_def filter_join split_on_join)
  then show ?thesis by simp
qed

lemma hold_set_chars: "c \<in> set (hold_set ips) \<Longrightarrow> c \<noteq> CHR ''}'' \<and> c \<noteq> nl \<and> c \<noteq> cr"
  using set_join [of "'', ''" "map show_ipv4 ips"] addr_plain
  by (fastforce simp: hold_set_def nl_def cr_def)

lemma hold_lines_plain: "\<forall>l \<in> set (hold_lines (hold_set ips)). nl \<notin> set l \<and> cr \<notin> set l"
  by (auto simp: hold_lines_def hold_rule_def HOLD_TABLE_def UDP_POLICY_def TCP_POLICY_def HOLD_CHAIN_def
      UDP_POLICY_BODY_def TCP_POLICY_BODY_def nl_def cr_def tab_def dquote_def
      dest: hold_set_chars [unfolded nl_def cr_def])

lemma rule_read: "ips \<noteq> [] \<Longrightarrow> rule_addresses l4 policy (hold_rule (hold_set ips) l4' policy') =
    (if '' meta l4proto '' @ l4' @ '' ct timeout set '' @ dquote @ policy' @ dquote
        = '' meta l4proto '' @ l4 @ '' ct timeout set '' @ dquote @ policy @ dquote
     then Some (map Some ips) else None)"
proof -
  assume ne: "ips \<noteq> []"
  have cut: "split_once CHR ''}'' (hold_set ips @ CHR '' '' # CHR ''}'' # rest) = Some (hold_set ips @ '' '', rest)" for rest
    using split_once_append [of "CHR ''}''" "hold_set ips @ '' ''" rest] by (auto dest: hold_set_chars)
  show ?thesis
    using hold_set_back [OF ne]
    by (simp add: rule_addresses_def hold_rule_def starts_with_def tab_def cut)
qed

lemma in_map_filter: "y \<in> set (List.map_filter f xs) \<longleftrightarrow> (\<exists>x \<in> set xs. f x = Some y)"
  by (induction xs) (auto simp: List.map_filter_simps split: option.split)

lemma not_a_rule:
  "after_marker ''ip saddr { '' line = None \<Longrightarrow> rule_addresses l4 policy line = None"
  by (simp add: rule_addresses_def)

lemma only_two_rules:
  assumes "ips \<noteq> []"
  shows "List.map_filter (rule_addresses ''udp'' UDP_POLICY) (lines (ruleset ips)) = [map Some ips]
    \<and> List.map_filter (rule_addresses ''tcp'' TCP_POLICY) (lines (ruleset ips)) = [map Some ips]"
proof -
  have lines: "lines (ruleset ips) = hold_lines (hold_set ips)"
    using assms lines_concat [OF hold_lines_plain] by (simp add: ruleset_def)
  have other: "after_marker ''ip saddr { '' l = None"
    if "l \<in> set (hold_lines addrs) - {hold_rule addrs ''udp'' UDP_POLICY, hold_rule addrs ''tcp'' TCP_POLICY}"
    for l addrs
    using that
    by (auto simp: hold_lines_def HOLD_TABLE_def UDP_POLICY_def TCP_POLICY_def HOLD_CHAIN_def
        UDP_POLICY_BODY_def TCP_POLICY_BODY_def tab_def starts_with_def)
  show ?thesis
    using assms unfolding lines hold_lines_def
    by (simp add: List.map_filter_simps rule_read not_a_rule other [unfolded hold_lines_def] UDP_POLICY_def TCP_POLICY_def
        HOLD_TABLE_def HOLD_CHAIN_def UDP_POLICY_BODY_def TCP_POLICY_BODY_def tab_def starts_with_def)
qed

lemma ruleset_present: "ips \<noteq> [] \<Longrightarrow> hold_present (ruleset ips)"
proof -
  assume ne: "ips \<noteq> []"
  let ?m = "''ct timeout '' @ UDP_POLICY"
  have "ruleset ips = ((''table '' @ HOLD_TABLE @ '' {'') @ [nl] @ [tab]) @ ?m
      @ ('' {'' @ [nl] @ concat (map (\<lambda>l. l @ [nl]) (drop 2 (hold_lines (hold_set ips)))))"
    using ne by (simp add: ruleset_def hold_lines_def)
  then show ?thesis unfolding hold_present_def str_contains_prefix by blast
qed


definition demo_allow_file :: string where
  "demo_allow_file = ''# devices'' @ nl # ''192.168.21.68  # switch'' @ nl # ''192.168.21.138'' @ nl # ''not-one'' @ [nl]"


end
