(* ===== verification/Args.thy ===== *)
theory Args
  imports Keepalive Crypto Slot_Table
begin

text \<open>
  The command line (\<open>parse_args_from\<close> of \<open>src/main.rs\<close>) with the files it reads at once: the allowlist
  and the PEM files of the identity (\<open>src/identity.rs\<close>). What a file holds is an argument, \<open>None\<close> when
  it cannot be read. A refusal is one value for each message of the code; the wording of the
  standard library inside a message is left out.
\<close>

section \<open>Socket addresses\<close>

text \<open>\<open>SocketAddr::from_str\<close>. An IPv6 address is its eight groups, the scope and the port.\<close>

datatype SocketAddr = V4 tuple4 | V6 "u16 list" u32 u16

fun sock_port :: "SocketAddr \<Rightarrow> u16" where
  "sock_port (V4 t) = snd t"
| "sock_port (V6 _ _ p) = p"

definition scan_number :: "nat \<Rightarrow> nat option \<Rightarrow> bool \<Rightarrow> nat \<Rightarrow> string \<Rightarrow> (nat \<times> string) option" where
  "scan_number radix max_digits zero_prefix limit s =
     (let ds = takeWhile (\<lambda>c. case hex_digit c of Some d \<Rightarrow> unat d < radix | None \<Rightarrow> False) s;
          v = foldl (\<lambda>a c. radix * a + unat (the (hex_digit c))) 0 ds
      in if ds = [] \<or> (\<exists>m \<in> set_option max_digits. m < length ds)
            \<or> (\<not> zero_prefix \<and> hd ds = CHR ''0'' \<and> 1 < length ds) \<or> limit < v
         then None else Some (v, drop (length ds) s))"

definition scan_char :: "char \<Rightarrow> string \<Rightarrow> string option" where
  "scan_char c s = (case s of x # xs \<Rightarrow> if x = c then Some xs else None | [] \<Rightarrow> None)"

text \<open>The separator stands before every part but the first.\<close>

definition scan_sep :: "char \<Rightarrow> nat \<Rightarrow> string \<Rightarrow> string option" where
  "scan_sep c i s = (if i = 0 then Some s else scan_char c s)"

definition scan_octet :: "nat \<Rightarrow> string \<Rightarrow> (nat \<times> string) option" where
  "scan_octet i s = Option.bind (scan_sep CHR ''.'' i s) (scan_number 10 (Some 3) False 255)"

definition scan_v4 :: "string \<Rightarrow> (ipv4 \<times> string) option" where
  "scan_v4 s = Option.bind (scan_octet 0 s) (\<lambda>(a, s). Option.bind (scan_octet 1 s) (\<lambda>(b, s).
     Option.bind (scan_octet 2 s) (\<lambda>(c, s). Option.bind (scan_octet 3 s) (\<lambda>(d, s).
       Some (ipv4_of (of_nat a) (of_nat b) (of_nat c) (of_nat d), s)))))"

text \<open>Up to \<open>left\<close> groups, the flag when the last two are a dotted quad.\<close>

fun scan_groups :: "nat \<Rightarrow> nat \<Rightarrow> string \<Rightarrow> u16 list \<times> bool \<times> string" where
  "scan_groups i 0 s = ([], False, s)"
| "scan_groups i (Suc left) s =
     (case (if left = 0 then None else Option.bind (scan_sep CHR '':'' i s) scan_v4) of
        Some (a, s1) \<Rightarrow> ([ucast (drop_bit 16 a), ucast a], True, s1)
      | None \<Rightarrow>
          (case Option.bind (scan_sep CHR '':'' i s) (scan_number 16 (Some 4) True 65535) of
             Some (g, s1) \<Rightarrow> (let (gs, v4, s2) = scan_groups (Suc i) left s1 in (of_nat g # gs, v4, s2))
           | None \<Rightarrow> ([], False, s)))"

definition scan_v6 :: "string \<Rightarrow> (u16 list \<times> string) option" where
  "scan_v6 s =
     (let (front, v4, s1) = scan_groups 0 8 s
      in if length front = 8 then Some (front, s1)
         else if v4 then None
         else Option.bind (Option.bind (scan_char CHR '':'' s1) (scan_char CHR '':'')) (\<lambda>s2.
           let (rest, _, s3) = scan_groups 0 (7 - length front) s2
           in Some (front @ replicate (8 - length front - length rest) 0 @ rest, s3)))"

definition parse_sock_port :: "string \<Rightarrow> u16 option" where
  "parse_sock_port s = (case scan_number 10 None True 65535 s of
     Some (p, []) \<Rightarrow> Some (of_nat p) | _ \<Rightarrow> None)"

definition parse_sock4 :: "string \<Rightarrow> tuple4 option" where
  "parse_sock4 s = (case split_once CHR '':'' s of
     Some (a, p) \<Rightarrow> (case (parse_ipv4 a, parse_sock_port p) of (Some ip, Some port) \<Rightarrow> Some (ip, port) | _ \<Rightarrow> None)
   | None \<Rightarrow> None)"

definition scan_scope :: "string \<Rightarrow> u32 \<times> string" where
  "scan_scope s = (case Option.bind (scan_char CHR ''%'' s) (scan_number 10 None True (2 ^ 32 - 1)) of
     Some (v, s1) \<Rightarrow> (of_nat v, s1) | None \<Rightarrow> (0, s))"

definition parse_sock6 :: "string \<Rightarrow> SocketAddr option" where
  "parse_sock6 s =
     Option.bind (Option.bind (scan_char CHR ''['' s) scan_v6) (\<lambda>(ip, s1).
       let (scope, s2) = scan_scope s1
       in Option.bind (Option.bind (scan_char CHR '']'' s2) (scan_char CHR '':''))
            (\<lambda>s3. map_option (V6 ip scope) (parse_sock_port s3)))"

definition parse_sock :: "string \<Rightarrow> SocketAddr option" where
  "parse_sock s = (case parse_sock4 s of Some t \<Rightarrow> Some (V4 t) | None \<Rightarrow> parse_sock6 s)"

section \<open>PEM files\<close>

type_synonym files = "string \<Rightarrow> string option"

datatype PemErr = Unreadable | No_body | Not_base64

definition der_from_pem :: "string \<Rightarrow> PemErr + u8 list" where
  "der_from_pem text =
     (let body = filter (\<lambda>c. \<not> is_ws c)
        (concat (filter (\<lambda>l. \<not> starts_with (trim_start l) ''-----'') (lines text)))
      in if body = [] then Inl No_body
         else (case base64_decode body of Some der \<Rightarrow> Inr der | None \<Rightarrow> Inl Not_base64))"

definition der_from_file :: "files \<Rightarrow> string \<Rightarrow> PemErr + u8 list" where
  "der_from_file fs path = (case fs path of None \<Rightarrow> Inl Unreadable | Some text \<Rightarrow> der_from_pem text)"

text \<open>The path that failed comes with the reason.\<close>

definition load_identity :: "files \<Rightarrow> string \<Rightarrow> string \<Rightarrow> (string \<times> PemErr) + (u8 list \<times> u8 list)" where
  "load_identity fs cert key =
     (case der_from_file fs cert of
        Inl e \<Rightarrow> Inl (cert, e)
      | Inr chain \<Rightarrow> (case der_from_file fs key of Inl e \<Rightarrow> Inl (key, e) | Inr k \<Rightarrow> Inr (chain, k)))"

section \<open>The locals of the parser and the configuration\<close>

record StaticMap =
  m_bind_port :: u16
  m_target :: tuple4

datatype CdcKind = Cdc_proc | Cdc_nft | Cdc_aya

record Args =
  a_bind :: "SocketAddr option"
  a_target :: "tuple4 option"
  a_static_maps :: "StaticMap list"
  a_stun :: "string list"
  a_interval :: u64
  a_gateway :: string
  a_state_dir :: string
  a_slot_range :: string
  a_max_slots :: nat
  a_max_maps :: u16
  a_gc_grace :: u32
  a_observation :: bool
  a_max_refresh :: u32
  a_allow :: "ipv4 list"
  a_hold :: bool
  a_pcp :: bool
  a_pcp_peer :: bool
  a_upnp :: bool
  a_upnp_port :: u16
  a_lan_ip :: ipv4
  a_upnp_name :: string
  a_poke :: "tuple4 option"
  a_identity :: "(string \<times> string) option"
  a_anchor :: "string option"
  a_endpoint :: "string option"
  a_front_name :: "string option"
  a_probe :: bool
  a_probe_interval :: u64
  a_probe_misses :: u64
  a_probe_poll :: u64
  a_cdc :: CdcKind

definition UPNP_DEFAULT_PORT :: u16 where "UPNP_DEFAULT_PORT = 49152"
definition DEFAULT_LAN_IP :: ipv4 where "DEFAULT_LAN_IP = ipv4_of 192 168 21 1"

definition args_default :: Args where
  "args_default = \<lparr>a_bind = None, a_target = None, a_static_maps = [], a_stun = [], a_interval = 2,
     a_gateway = ''192.168.0.1'', a_state_dir = ''/run/ds-lite-punch'', a_slot_range = ''30000-39999'',
     a_max_slots = 32, a_max_maps = 16, a_gc_grace = 3, a_observation = False, a_max_refresh = 8,
     a_allow = [], a_hold = False, a_pcp = False, a_pcp_peer = False, a_upnp = True,
     a_upnp_port = UPNP_DEFAULT_PORT, a_lan_ip = DEFAULT_LAN_IP, a_upnp_name = ''ds-lite-punch IGD'',
     a_poke = None, a_identity = None, a_anchor = None, a_endpoint = None, a_front_name = None,
     a_probe = False, a_probe_interval = 900, a_probe_misses = 3, a_probe_poll = 5, a_cdc = Cdc_nft\<rparr>"

record Config =
  k_bind :: SocketAddr
  k_target :: tuple4
  k_static_maps :: "StaticMap list"
  k_stun :: "string list"
  k_interval :: u64
  k_poke :: "tuple4 option"
  k_gateway :: string
  k_state_dir :: string
  k_endpoint :: "string option"
  k_front_name :: "string option"
  k_identity :: "(string \<times> string) option"
  k_anchor :: "string option"
  k_slot_lo :: u16
  k_slot_hi :: u16
  k_max_slots :: nat
  k_max_maps :: u16
  k_gc_grace :: u32
  k_observation :: bool
  k_max_refresh :: u32
  k_cdc :: CdcKind
  k_allow :: "ipv4 list"
  k_hold :: bool
  k_pcp :: bool
  k_pcp_peer :: bool
  k_upnp :: bool
  k_upnp_port :: u16
  k_lan_ip :: ipv4
  k_upnp_name :: string
  k_probe :: bool
  k_probe_interval :: u64
  k_probe_misses :: u64
  k_probe_poll :: u64

datatype ArgErr = Missing_value string | Bad_value string | Not_a_map string | Bad_map_port string
  | Bad_map_target string | Not_a_pair | Unreadable_allowlist string | Not_addresses string "string list"
  | Unknown_backend string | Unknown_argument string | Bind_with_maps | Bind_without_target
  | Target_without_bind | No_mappings | Not_a_range string | Bad_range_lo | Bad_range_hi
  | Invalid_range u16 u16 | Bad_identity string PemErr | Bad_anchor string PemErr
  | Endpoint_without_name | Name_without_endpoint | Endpoint_without_identity | Endpoint_without_anchor

text \<open>A flag that prints something ends the process; a refusal is returned.\<close>

datatype Stop = Refused ArgErr | Show_help | Show_version | Ct_probe

section \<open>One argument\<close>

text \<open>The result is how many of the following arguments were taken, with the new locals.\<close>

type_synonym taken = "Stop + (nat \<times> Args)"

definition flag :: "Args \<Rightarrow> taken" where
  "flag A = Inr (0, A)"

definition value_of :: "string \<Rightarrow> string list \<Rightarrow> (string \<Rightarrow> ArgErr + Args) \<Rightarrow> taken" where
  "value_of k rest f =
     (case rest of
        [] \<Rightarrow> Inl (Refused (Missing_value k))
      | v # _ \<Rightarrow> (case f v of Inl e \<Rightarrow> Inl (Refused e) | Inr A \<Rightarrow> Inr (1, A)))"

text \<open>A value that must parse.\<close>

definition parsed :: "string \<Rightarrow> string list \<Rightarrow> (string \<Rightarrow> 'a option) \<Rightarrow> ('a \<Rightarrow> Args) \<Rightarrow> taken" where
  "parsed k rest parse set_to = value_of k rest (\<lambda>v. case parse v of
     Some x \<Rightarrow> Inr (set_to x) | None \<Rightarrow> Inl (Bad_value k))"

definition parse_usize :: "string \<Rightarrow> nat option" where
  "parse_usize = parse_uint (2 ^ 64 - 1)"

definition static_map_arg :: "string \<Rightarrow> ArgErr + StaticMap" where
  "static_map_arg spec =
     (case split_once CHR ''='' spec of
        None \<Rightarrow> Inl (Not_a_map spec)
      | Some (r, rest) \<Rightarrow>
          (case parse_word r of
             None \<Rightarrow> Inl (Bad_map_port r)
           | Some p \<Rightarrow>
               (case parse_sock4 rest of
                  None \<Rightarrow> Inl (Bad_map_target rest)
                | Some t \<Rightarrow> Inr \<lparr>m_bind_port = p, m_target = t\<rparr>)))"

definition stun_list :: "string \<Rightarrow> string list" where
  "stun_list v = filter (\<lambda>s. s \<noteq> []) (map trim (split_on CHR '','' v))"

definition allowlist_arg :: "files \<Rightarrow> string \<Rightarrow> ArgErr + ipv4 list" where
  "allowlist_arg fs path =
     (case fs path of
        None \<Rightarrow> Inl (Unreadable_allowlist path)
      | Some text \<Rightarrow> (let (ips, bad) = parse_allowlist text
                      in if bad \<noteq> [] then Inl (Not_addresses path bad) else Inr ips))"

definition cdc_arg :: "string \<Rightarrow> ArgErr + CdcKind" where
  "cdc_arg v = (if v = ''proc'' then Inr Cdc_proc else if v = ''nft'' then Inr Cdc_nft
     else if v = ''aya'' then Inr Cdc_aya else Inl (Unknown_backend v))"

definition arg_step :: "files \<Rightarrow> string \<Rightarrow> string list \<Rightarrow> Args \<Rightarrow> taken" where
  "arg_step fs k rest A =
     (if k = ''--bind'' then parsed k rest parse_sock (\<lambda>b. A\<lparr>a_bind := Some b\<rparr>)
      else if k = ''--target'' then parsed k rest parse_sock4 (\<lambda>t. A\<lparr>a_target := Some t\<rparr>)
      else if k = ''--static-map'' then value_of k rest
        (\<lambda>v. map_sum id (\<lambda>m. A\<lparr>a_static_maps := a_static_maps A @ [m]\<rparr>) (static_map_arg v))
      else if k = ''--slot-port-range'' then value_of k rest (\<lambda>v. Inr (A\<lparr>a_slot_range := v\<rparr>))
      else if k = ''--max-slots'' then parsed k rest parse_usize (\<lambda>n. A\<lparr>a_max_slots := n\<rparr>)
      else if k = ''--max-maps-per-client'' then parsed k rest parse_word (\<lambda>n. A\<lparr>a_max_maps := n\<rparr>)
      else if k = ''--gc-grace-factor'' then parsed k rest parse_word (\<lambda>n. A\<lparr>a_gc_grace := n\<rparr>)
      else if k = ''--stun'' then value_of k rest (\<lambda>v. Inr (A\<lparr>a_stun := stun_list v\<rparr>))
      else if k = ''--interval'' then parsed k rest parse_word (\<lambda>n. A\<lparr>a_interval := n\<rparr>)
      else if k = ''--poke'' then parsed k rest parse_sock4 (\<lambda>t. A\<lparr>a_poke := Some t\<rparr>)
      else if k = ''--client-identity'' then value_of k rest
        (\<lambda>v. case split_once CHR '':'' v of None \<Rightarrow> Inl Not_a_pair
             | Some ck \<Rightarrow> Inr (A\<lparr>a_identity := Some ck\<rparr>))
      else if k = ''--front-anchor'' then value_of k rest (\<lambda>v. Inr (A\<lparr>a_anchor := Some v\<rparr>))
      else if k = ''--front-endpoint'' then value_of k rest (\<lambda>v. Inr (A\<lparr>a_endpoint := Some v\<rparr>))
      else if k = ''--front-name'' then value_of k rest (\<lambda>v. Inr (A\<lparr>a_front_name := Some v\<rparr>))
      else if k = ''--gateway'' then value_of k rest (\<lambda>v. Inr (A\<lparr>a_gateway := v\<rparr>))
      else if k = ''--state-dir'' then value_of k rest (\<lambda>v. Inr (A\<lparr>a_state_dir := v\<rparr>))
      else if k = ''--observation'' then flag (A\<lparr>a_observation := True\<rparr>)
      else if k = ''--max-refresh-attempts'' then parsed k rest parse_word (\<lambda>n. A\<lparr>a_max_refresh := n\<rparr>)
      else if k = ''--allowlist'' then value_of k rest
        (\<lambda>v. map_sum id (\<lambda>ips. A\<lparr>a_allow := ips\<rparr>) (allowlist_arg fs v))
      else if k = ''--keepalive'' then flag (A\<lparr>a_hold := True\<rparr>)
      else if k = ''--pcp'' then flag (A\<lparr>a_pcp := True\<rparr>)
      else if k = ''--pcp-peer'' then flag (A\<lparr>a_pcp_peer := True\<rparr>)
      else if k = ''--carrier-probe'' then flag (A\<lparr>a_probe := True\<rparr>)
      else if k = ''--carrier-probe-interval'' then parsed k rest parse_word (\<lambda>n. A\<lparr>a_probe_interval := n\<rparr>)
      else if k = ''--carrier-probe-misses'' then parsed k rest parse_word (\<lambda>n. A\<lparr>a_probe_misses := n\<rparr>)
      else if k = ''--carrier-probe-poll'' then parsed k rest parse_word (\<lambda>n. A\<lparr>a_probe_poll := n\<rparr>)
      else if k = ''--cdc'' then value_of k rest (\<lambda>v. map_sum id (\<lambda>c. A\<lparr>a_cdc := c\<rparr>) (cdc_arg v))
      else if k = ''--upnp-port'' then parsed k rest parse_word (\<lambda>n. A\<lparr>a_upnp_port := n\<rparr>)
      else if k = ''--lan-ip'' then parsed k rest parse_ipv4 (\<lambda>ip. A\<lparr>a_lan_ip := ip\<rparr>)
      else if k = ''--upnp-name'' then value_of k rest (\<lambda>v. Inr (A\<lparr>a_upnp_name := v\<rparr>))
      else if k = ''--no-upnp'' then flag (A\<lparr>a_upnp := False\<rparr>)
      else if k = ''-h'' \<or> k = ''--help'' then Inl Show_help
      else if k = ''-V'' \<or> k = ''--version'' then Inl Show_version
      else if k = ''--ct-probe'' then Inl Ct_probe
      else Inl (Refused (Unknown_argument k)))"

fun arg_loop :: "files \<Rightarrow> string list \<Rightarrow> Args \<Rightarrow> Stop + Args" where
  "arg_loop fs [] A = Inr A"
| "arg_loop fs (k # rest) A =
     (case arg_step fs k rest A of
        Inl e \<Rightarrow> Inl e
      | Inr (n, A1) \<Rightarrow> arg_loop fs (drop n rest) A1)"

section \<open>The checks after the last argument\<close>

text \<open>The legacy pair is one static map.\<close>

definition merge_pair :: "Args \<Rightarrow> ArgErr + StaticMap list" where
  "merge_pair A =
     (case (a_bind A, a_target A) of
        (Some b, Some t) \<Rightarrow>
          if a_static_maps A \<noteq> [] then Inl Bind_with_maps else Inr [\<lparr>m_bind_port = sock_port b, m_target = t\<rparr>]
      | (Some b, None) \<Rightarrow> Inl Bind_without_target
      | (None, Some t) \<Rightarrow> Inl Target_without_bind
      | (None, None) \<Rightarrow> Inr (a_static_maps A))"

definition range_arg :: "string \<Rightarrow> ArgErr + (u16 \<times> u16)" where
  "range_arg s =
     (case split_once CHR ''-'' s of
        None \<Rightarrow> Inl (Not_a_range s)
      | Some (lo, hi) \<Rightarrow>
          (case parse_word lo of
             None \<Rightarrow> Inl Bad_range_lo
           | Some l \<Rightarrow> (case parse_word hi of
                 None \<Rightarrow> Inl Bad_range_hi
               | Some h \<Rightarrow> if PortAllocator_new l h = None then Inl (Invalid_range l h) else Inr (l, h))))"

definition default_stun :: "string list" where
  "default_stun = [''stun.l.google.com:19302'', ''stun.cloudflare.com:3478'', ''stun.nextcloud.com:443'']"

definition front_check :: "files \<Rightarrow> Args \<Rightarrow> ArgErr option" where
  "front_check fs A =
     (case a_identity A of
        Some (cert, key) \<Rightarrow> (case load_identity fs cert key of
            Inl (path, e) \<Rightarrow> Some (Bad_identity path e) | Inr _ \<Rightarrow> None)
      | None \<Rightarrow> None)"

definition anchor_check :: "files \<Rightarrow> Args \<Rightarrow> ArgErr option" where
  "anchor_check fs A =
     (case a_anchor A of
        Some path \<Rightarrow> (case der_from_file fs path of Inl e \<Rightarrow> Some (Bad_anchor path e) | Inr _ \<Rightarrow> None)
      | None \<Rightarrow> None)"

definition channel_check :: "Args \<Rightarrow> ArgErr option" where
  "channel_check A =
     (case (a_endpoint A, a_front_name A) of
        (Some _, None) \<Rightarrow> Some Endpoint_without_name
      | (None, Some _) \<Rightarrow> Some Name_without_endpoint
      | (Some _, Some _) \<Rightarrow>
          if a_identity A = None then Some Endpoint_without_identity
          else if a_anchor A = None then Some Endpoint_without_anchor else None
      | (None, None) \<Rightarrow> None)"

definition config_of :: "Args \<Rightarrow> StaticMap list \<Rightarrow> u16 \<Rightarrow> u16 \<Rightarrow> Config" where
  "config_of A maps lo hi =
     \<lparr>k_bind = (case a_bind A of Some b \<Rightarrow> b | None \<Rightarrow> V4 (ipv4_of 192 168 0 21, m_bind_port (hd maps))),
      k_target = m_target (hd maps), k_static_maps = maps,
      k_stun = (if a_stun A = [] then default_stun else a_stun A),
      k_interval = max (a_interval A) 1, k_poke = a_poke A, k_gateway = a_gateway A,
      k_state_dir = a_state_dir A, k_endpoint = a_endpoint A, k_front_name = a_front_name A,
      k_identity = a_identity A, k_anchor = a_anchor A, k_slot_lo = lo, k_slot_hi = hi,
      k_max_slots = a_max_slots A, k_max_maps = a_max_maps A, k_gc_grace = a_gc_grace A,
      k_observation = a_observation A, k_max_refresh = a_max_refresh A, k_cdc = a_cdc A,
      k_allow = a_allow A, k_hold = a_hold A, k_pcp = a_pcp A, k_pcp_peer = a_pcp_peer A,
      k_upnp = a_upnp A, k_upnp_port = a_upnp_port A, k_lan_ip = a_lan_ip A,
      k_upnp_name = a_upnp_name A, k_probe = a_probe A, k_probe_interval = a_probe_interval A,
      k_probe_misses = a_probe_misses A, k_probe_poll = a_probe_poll A\<rparr>"

definition finish_args :: "files \<Rightarrow> Args \<Rightarrow> ArgErr + Config" where
  "finish_args fs A =
     (case merge_pair A of
        Inl e \<Rightarrow> Inl e
      | Inr maps \<Rightarrow>
          if maps = [] then Inl No_mappings
          else (case range_arg (a_slot_range A) of
             Inl e \<Rightarrow> Inl e
           | Inr (lo, hi) \<Rightarrow>
               (case front_check fs A of Some e \<Rightarrow> Inl e
                | None \<Rightarrow> (case anchor_check fs A of Some e \<Rightarrow> Inl e
                  | None \<Rightarrow> (case channel_check A of Some e \<Rightarrow> Inl e
                     | None \<Rightarrow> Inr (config_of A maps lo hi))))))"

definition parse_args_from :: "files \<Rightarrow> string list \<Rightarrow> Stop + Config" where
  "parse_args_from fs args =
     (case arg_loop fs (drop 1 args) args_default of
        Inl e \<Rightarrow> Inl e
      | Inr A \<Rightarrow> map_sum Refused id (finish_args fs A))"

end
