(* ===== verification/Boot.thy ===== *)
theory Boot
  imports Args Facade_Run Engine
begin

text \<open>
  The start of the daemon (\<open>main\<close> of \<open>src/main.rs\<close>): from the command line and the state files to the
  tasks that run, or to the exit code. Each refusal of the outside ends the process where the code
  ends it.
\<close>

section \<open>The external address of the last run\<close>

definition tuple_files :: "string \<Rightarrow> u16 \<Rightarrow> string list" where
  "tuple_files state_dir primary =
     [state_dir @ ''/tuple-'' @ show_word primary, state_dir @ ''/tuple'']"

definition seed_external_ip :: "files \<Rightarrow> string \<Rightarrow> u16 \<Rightarrow> ipv4" where
  "seed_external_ip fs state_dir primary =
     (case find_map (\<lambda>f. Option.bind (fs f) (\<lambda>s. Option.bind (split_once CHR '':'' (trim s)) (\<lambda>(ip, _). parse_ipv4 ip)))
             (tuple_files state_dir primary) of
        Some ip \<Rightarrow> ip | None \<Rightarrow> 0)"

section \<open>What the outside answers, and what runs\<close>

text \<open>\<open>b_env\<close> answers \<open>nft\<close> and the sockets of the restored grants; \<open>b_bind\<close> the sockets of the slots
  that \<open>main\<close> spawns itself.\<close>

record BootEnv =
  b_files :: files
  b_resolved :: "tuple4 list"
  b_now :: u64
  b_leases_file :: "string option"
  b_index_file :: "string option"
  b_dp_file :: "string option"
  b_device_id :: "u8 list"
  b_written :: bool
  b_ruleset :: bool
  b_nft :: Nft
  b_env :: Env
  b_bind :: "Proto \<Rightarrow> u16 \<Rightarrow> bool"
  b_facade_up :: bool
  b_flow_obs :: bool
  b_pcp_bind :: bool

datatype SlotTask = Udp_task u16 tuple4 "tuple4 option" bool u32 | Tcp_task u16 tuple4 "tuple4 option"

record EngineStart =
  es_engine :: Engine
  es_owned :: "tuple4 list"
  es_servers :: "tuple4 list"
  es_cdc :: CdcKind

record Daemon =
  dm_config :: Config
  dm_upnp :: UpnpConfig
  dm_table :: LeaseTable
  dm_nft :: Nft
  dm_leases_file :: "string option"
  dm_external_ip :: ipv4
  dm_tasks :: "SlotTask list"
  dm_gc :: "u64 option"
  dm_front :: bool
  dm_facade :: "Facade option"
  dm_hold :: "string list"
  dm_engine :: "EngineStart option"
  dm_probe :: "(u64 \<times> u64 \<times> u64) option"
  dm_pcp :: "bool option"

datatype BootOut = Exits nat | Panics | Daemon_runs Daemon

section \<open>The slots\<close>

definition bind_ip :: "Config \<Rightarrow> ipv4" where
  "bind_ip c = (case k_bind c of V4 t \<Rightarrow> fst t | V6 _ _ _ \<Rightarrow> ipv4_of 192 168 0 21)"

definition phase_of :: "nat \<Rightarrow> nat \<Rightarrow> u32" where
  "phase_of n i = (if 1 < n then of_nat i * 2000 div of_nat n else 0)"

definition slot_task :: "Config \<Rightarrow> nat \<Rightarrow> nat \<Rightarrow> Slot \<Rightarrow> SlotTask" where
  "slot_task c n i s =
     (case s_proto s of
        Tcp \<Rightarrow> Tcp_task (s_bind_port s) (s_target s, s_target_port s) (k_poke c)
      | Udp \<Rightarrow> Udp_task (s_bind_port s) (s_target s, s_target_port s) (k_poke c) (k_poke c \<noteq> None) (phase_of n i))"

fun spawn_slots :: "Config \<Rightarrow> (Proto \<Rightarrow> u16 \<Rightarrow> bool) \<Rightarrow> nat \<Rightarrow> nat \<Rightarrow> Slot list \<Rightarrow> SlotTask list option" where
  "spawn_slots c bind_ok n i [] = Some []"
| "spawn_slots c bind_ok n i (s # ss) =
     (if k_upnp c \<and> \<not> is_static s then spawn_slots c bind_ok n (Suc i) ss
      else if \<not> bind_ok (s_proto s) (s_bind_port s) then None
      else map_option ((#) (slot_task c n i s)) (spawn_slots c bind_ok n (Suc i) ss))"

section \<open>The services\<close>

definition grace_secs :: "Config \<Rightarrow> u64" where
  "grace_secs c = ucast (sat_mul (k_gc_grace c) 60)"

definition upnp_config :: "BootEnv \<Rightarrow> Config \<Rightarrow> UpnpConfig" where
  "upnp_config E c = \<lparr>c_lan_ip = k_lan_ip c, c_grace_secs = grace_secs c, c_started = b_now E\<rparr>"

text \<open>The exit code, or the engine.\<close>

definition boot_engine :: "BootEnv \<Rightarrow> Config \<Rightarrow> LeaseTable \<Rightarrow> nat + EngineStart option" where
  "boot_engine E c T =
     (let engine = \<lparr>es_engine = Engine_new (k_max_refresh c) (k_allow c) (k_hold c),
            es_owned = map (\<lambda>s. (bind_ip c, s_bind_port s)) (t_slots T), es_servers = b_resolved E, es_cdc = k_cdc c\<rparr>
      in if \<not> k_observation c then Inr None
         else (case k_cdc c of
                 Cdc_proc \<Rightarrow> Inr (Some engine)
               | Cdc_nft \<Rightarrow> if b_flow_obs E then Inr (Some engine) else Inl 1
               | Cdc_aya \<Rightarrow> Inl 2))"

definition boot_pcp :: "BootEnv \<Rightarrow> Config \<Rightarrow> Facade option \<Rightarrow> nat + bool option" where
  "boot_pcp E c facade =
     (if \<not> k_pcp c then Inr None
      else (case facade of
              None \<Rightarrow> Inl 2
            | Some F \<Rightarrow> if b_pcp_bind E then Inr (Some (k_pcp_peer c)) else Inl 1))"

definition boot_facade :: "BootEnv \<Rightarrow> Config \<Rightarrow> LeaseTable \<Rightarrow> Nft \<Rightarrow> string option \<Rightarrow> Facade option" where
  "boot_facade E c T N leases_file =
     (if k_upnp c \<and> b_facade_up E
      then Some (facade_start (b_env E) T N
        (with_watch (\<lambda>p. b_files E (k_state_dir c @ ''/tuple-'' @ show_word p)) (b_files E (k_state_dir c @ ''/tuple''))
           (seed_external_ip (b_files E) (k_state_dir c) (sock_port (k_bind c))))
        (b_device_id E) (b_dp_file E) (file_text leases_file) (b_index_file E))
      else None)"

definition front_called :: "Config \<Rightarrow> bool" where
  "front_called c \<longleftrightarrow> k_endpoint c \<noteq> None \<and> k_front_name c \<noteq> None \<and> k_identity c \<noteq> None \<and> k_anchor c \<noteq> None"

definition boot_services :: "BootEnv \<Rightarrow> Config \<Rightarrow> LeaseTable \<Rightarrow> Nft \<Rightarrow> SlotTask list \<Rightarrow> BootOut" where
  "boot_services E c T N tasks =
     (let leases_file = (if b_written E then Some (tsv (snapshot (t_slots T) (b_now E))) else b_leases_file E);
          facade = boot_facade E c T N leases_file
      in case boot_engine E c T of
           Inl code \<Rightarrow> Exits code
         | Inr engine \<Rightarrow>
             (case boot_pcp E c facade of
                Inl code \<Rightarrow> Exits code
              | Inr pcp \<Rightarrow> Daemon_runs \<lparr>dm_config = c, dm_upnp = upnp_config E c, dm_table = T, dm_nft = N,
                  dm_leases_file = leases_file,
                  dm_external_ip = seed_external_ip (b_files E) (k_state_dir c) (sock_port (k_bind c)),
                  dm_tasks = tasks, dm_gc = (if k_upnp c then None else Some (grace_secs c)),
                  dm_front = front_called c, dm_facade = facade,
                  dm_hold = (if k_hold c \<and> k_allow c \<noteq> [] then fst (apply_hold (v_nft (b_env E)) (k_allow c)) else []),
                  dm_engine = engine,
                  dm_probe = (if k_probe c
                    then Some (k_probe_interval c, k_probe_misses c, max (k_probe_poll c) 1) else None),
                  dm_pcp = pcp\<rparr>))"

section \<open>The whole start\<close>

definition boot_datapath :: "BootEnv \<Rightarrow> Config \<Rightarrow> LeaseTable \<Rightarrow> BootOut" where
  "boot_datapath E c T =
     (if \<not> b_ruleset E then Exits 1
      else (case grant_restored (b_env E) (t_slots T) (b_nft E) of
              None \<Rightarrow> Exits 1
            | Some N \<Rightarrow>
                (case spawn_slots c (b_bind E) (length (t_slots T)) 0 (t_slots T) of
                   None \<Rightarrow> Exits 1
                 | Some tasks \<Rightarrow> boot_services E c T N tasks)))"

definition static_tuples :: "Config \<Rightarrow> (u16 \<times> ipv4 \<times> u16) list" where
  "static_tuples c = map (\<lambda>m. (m_bind_port m, m_target m)) (k_static_maps c)"

definition boot :: "BootEnv \<Rightarrow> string list \<Rightarrow> BootOut" where
  "boot E args =
     (case parse_args_from (b_files E) args of
        Inl (Refused _) \<Rightarrow> Exits 2
      | Inl _ \<Rightarrow> Exits 0
      | Inr c \<Rightarrow>
          if b_resolved E = [] then Exits 1
          else (case PortAllocator_new (k_slot_lo c) (k_slot_hi c) of
                  None \<Rightarrow> Panics
                | Some al \<Rightarrow>
                    (case boot_table (static_tuples c) (b_leases_file E) (b_now E)
                            (LeaseTable_new al (k_max_slots c) (k_max_maps c)) of
                       Restored T \<Rightarrow> boot_datapath E c T
                     | Rejected _ \<Rightarrow> Exits 1
                     | ClampPanic \<Rightarrow> Panics)))"

end
