(* ===== verification/Args_Props.thy ===== *)
theory Args_Props
  imports Args
begin

text \<open>
  What the command line parser accepts: only configurations the daemon can run with, and all of
  them, each from the command line that spells it out.
\<close>

section \<open>Sound configurations\<close>

definition files_ok :: "files \<Rightarrow> Config \<Rightarrow> bool" where
  "files_ok fs c \<longleftrightarrow>
     (\<forall>cert key. k_identity c = Some (cert, key) \<longrightarrow> (\<exists>i. load_identity fs cert key = Inr i))
     \<and> (\<forall>path. k_anchor c = Some path \<longrightarrow> (\<exists>der. der_from_file fs path = Inr der))"

definition channel_ok :: "Config \<Rightarrow> bool" where
  "channel_ok c \<longleftrightarrow> (k_endpoint c = None \<longleftrightarrow> k_front_name c = None)
     \<and> (k_endpoint c \<noteq> None \<longrightarrow> k_identity c \<noteq> None \<and> k_anchor c \<noteq> None)"

definition allow_ok :: "files \<Rightarrow> ipv4 list \<Rightarrow> bool" where
  "allow_ok fs ips \<longleftrightarrow> ips = [] \<or> (\<exists>path text. fs path = Some text \<and> parse_allowlist text = (ips, []))"

definition config_ok :: "files \<Rightarrow> Config \<Rightarrow> bool" where
  "config_ok fs c \<longleftrightarrow> k_static_maps c \<noteq> [] \<and> k_target c = m_target (hd (k_static_maps c))
     \<and> sock_port (k_bind c) = m_bind_port (hd (k_static_maps c))
     \<and> k_stun c \<noteq> [] \<and> [] \<notin> set (k_stun c) \<and> 1 \<le> k_interval c
     \<and> PortAllocator_new (k_slot_lo c) (k_slot_hi c) \<noteq> None
     \<and> allow_ok fs (k_allow c) \<and> files_ok fs c \<and> channel_ok c"

section \<open>The loop\<close>

lemmas arg_defs = arg_step_def parsed_def value_of_def flag_def

lemma map_sum_Inr [simp]: "map_sum f g r = Inr y \<longleftrightarrow> (\<exists>x. r = Inr x \<and> y = g x)"
  by (cases r) auto

definition locals_ok :: "files \<Rightarrow> Args \<Rightarrow> bool" where
  "locals_ok fs A \<longleftrightarrow> [] \<notin> set (a_stun A) \<and> allow_ok fs (a_allow A)"

lemma allowlist_arg_ok: "allowlist_arg fs v = Inr ips \<Longrightarrow> allow_ok fs ips"
  by (auto simp: allowlist_arg_def allow_ok_def Let_def split: option.splits prod.splits if_splits)

lemma step_keeps:
  assumes "arg_step fs k rest A = Inr (n, B)" and "locals_ok fs A"
  shows "locals_ok fs B"
  using assms unfolding arg_defs locals_ok_def
  by (auto split: if_split_asm list.split_asm option.split_asm sum.split_asm
      simp: stun_list_def dest: allowlist_arg_ok)

lemma loop_keeps: "arg_loop fs args A = Inr B \<Longrightarrow> locals_ok fs A \<Longrightarrow> locals_ok fs B"
  by (induction fs args A rule: arg_loop.induct) (auto split: sum.split_asm dest: step_keeps)

lemma merge_pair_ok: "merge_pair A = Inr maps \<Longrightarrow> maps \<noteq> [] \<Longrightarrow>
    sock_port (k_bind (config_of A maps lo hi)) = m_bind_port (hd maps)"
  by (auto simp: merge_pair_def config_of_def split: option.splits if_splits)

lemma finish_ok:
  assumes "finish_args fs A = Inr c" and "locals_ok fs A"
  shows "config_ok fs c"
proof -
  from assms(1) obtain maps lo hi where m: "merge_pair A = Inr maps" "maps \<noteq> []"
    and r: "range_arg (a_slot_range A) = Inr (lo, hi)" and f: "front_check fs A = None" "anchor_check fs A = None"
      "channel_check A = None" and c: "c = config_of A maps lo hi"
    by (auto simp: finish_args_def split: sum.splits if_splits option.splits)
  have "PortAllocator_new lo hi \<noteq> None"
    using r by (auto simp: range_arg_def split: option.splits if_splits)
  moreover have "files_ok fs c"
    using f by (auto simp: c config_of_def files_ok_def front_check_def anchor_check_def split: option.splits sum.splits)
  moreover have "channel_ok c"
    using f by (auto simp: c config_of_def channel_ok_def channel_check_def split: option.splits if_splits)
  ultimately show ?thesis
    using assms(2) merge_pair_ok [OF m] m(2)
    by (simp add: c config_ok_def locals_ok_def) (simp add: config_of_def default_stun_def)
qed

lemma accepted_ok: "parse_args_from fs args = Inr c \<Longrightarrow> config_ok fs c"
proof -
  assume "parse_args_from fs args = Inr c"
  then obtain A where "arg_loop fs (drop 1 args) args_default = Inr A" "finish_args fs A = Inr c"
    by (auto simp: parse_args_from_def split: sum.splits)
  moreover have "locals_ok fs args_default" by (simp add: locals_ok_def args_default_def allow_ok_def)
  ultimately show ?thesis using loop_keeps finish_ok by blast
qed

section \<open>The command line of a configuration\<close>

definition show_sock4 :: "tuple4 \<Rightarrow> string" where
  "show_sock4 t = show_ipv4 (fst t) @ CHR '':'' # show_word (snd t)"

definition opt_arg :: "string \<Rightarrow> string option \<Rightarrow> string list" where
  "opt_arg k v = (case v of Some x \<Rightarrow> [k, x] | None \<Rightarrow> [])"

definition flag_arg :: "string \<Rightarrow> bool \<Rightarrow> string list" where
  "flag_arg k b = (if b then [k] else [])"

definition show_static_map :: "StaticMap \<Rightarrow> string" where
  "show_static_map m = show_word (m_bind_port m) @ CHR ''='' # show_sock4 (m_target m)"

fun show_cdc :: "CdcKind \<Rightarrow> string" where
  "show_cdc Cdc_proc = ''proc''" | "show_cdc Cdc_nft = ''nft''" | "show_cdc Cdc_aya = ''aya''"

text \<open>The default address of the static-map form; any other address needs the legacy pair.\<close>

definition default_bind :: "StaticMap list \<Rightarrow> SocketAddr" where
  "default_bind maps = V4 (ipv4_of 192 168 0 21, m_bind_port (hd maps))"

definition maps_args :: "Config \<Rightarrow> string list" where
  "maps_args c =
     (if k_bind c = default_bind (k_static_maps c)
      then concat (map (\<lambda>m. [''--static-map'', show_static_map m]) (k_static_maps c))
      else (case k_bind c of V4 b \<Rightarrow> [''--bind'', show_sock4 b, ''--target'', show_sock4 (k_target c)] | V6 _ _ _ \<Rightarrow> []))"

definition command_line :: "string \<Rightarrow> Config \<Rightarrow> string list" where
  "command_line allow_path c =
     [''ds-lite-punch''] @ maps_args c
     @ [''--stun'', join '','' (k_stun c), ''--interval'', show_word (k_interval c),
        ''--gateway'', k_gateway c, ''--state-dir'', k_state_dir c,
        ''--slot-port-range'', show_word (k_slot_lo c) @ CHR ''-'' # show_word (k_slot_hi c),
        ''--max-slots'', show_nat (k_max_slots c), ''--max-maps-per-client'', show_word (k_max_maps c),
        ''--gc-grace-factor'', show_word (k_gc_grace c),
        ''--max-refresh-attempts'', show_word (k_max_refresh c), ''--cdc'', show_cdc (k_cdc c),
        ''--allowlist'', allow_path, ''--upnp-port'', show_word (k_upnp_port c),
        ''--lan-ip'', show_ipv4 (k_lan_ip c), ''--upnp-name'', k_upnp_name c,
        ''--carrier-probe-interval'', show_word (k_probe_interval c),
        ''--carrier-probe-misses'', show_word (k_probe_misses c),
        ''--carrier-probe-poll'', show_word (k_probe_poll c)]
     @ opt_arg ''--poke'' (map_option show_sock4 (k_poke c))
     @ opt_arg ''--client-identity'' (map_option (\<lambda>(cert, key). cert @ CHR '':'' # key) (k_identity c))
     @ opt_arg ''--front-anchor'' (k_anchor c) @ opt_arg ''--front-endpoint'' (k_endpoint c)
     @ opt_arg ''--front-name'' (k_front_name c)
     @ flag_arg ''--observation'' (k_observation c) @ flag_arg ''--keepalive'' (k_hold c)
     @ flag_arg ''--pcp'' (k_pcp c) @ flag_arg ''--pcp-peer'' (k_pcp_peer c)
     @ flag_arg ''--carrier-probe'' (k_probe c) @ flag_arg ''--no-upnp'' (\<not> k_upnp c)"

text \<open>What a command line can spell: names without the separators, and one address per slot.\<close>

definition printable :: "Config \<Rightarrow> bool" where
  "printable c \<longleftrightarrow>
     (\<forall>h \<in> set (k_stun c). CHR '','' \<notin> set h \<and> trim h = h)
     \<and> (\<forall>cert key. k_identity c = Some (cert, key) \<longrightarrow> CHR '':'' \<notin> set cert)
     \<and> k_max_slots c \<le> 2 ^ 64 - 1
     \<and> (k_bind c \<noteq> default_bind (k_static_maps c) \<longrightarrow>
          (\<exists>b. k_bind c = V4 b) \<and> length (k_static_maps c) = 1)"

section \<open>Each value reads back\<close>

lemma digit_radix: "is_digit c \<Longrightarrow> (case hex_digit c of Some d \<Rightarrow> unat d < 10 | None \<Rightarrow> False)
    \<and> unat (the (hex_digit c)) = digit_val c"
proof -
  have all: "list_all (\<lambda>c. (case hex_digit c of Some d \<Rightarrow> unat d < 10 | None \<Rightarrow> False)
    \<and> unat (the (hex_digit c)) = digit_val c) ''0123456789''" by code_simp
  assume "is_digit c"
  with all show ?thesis unfolding is_digit_def list_all_iff by blast
qed

lemma port_back: "parse_sock_port (show_word p) = Some p"
proof -
  let ?P = "\<lambda>c. case hex_digit c of Some d \<Rightarrow> unat d < 10 | None \<Rightarrow> False"
  have dig: "\<forall>c \<in> set (show_word p). is_digit c" by (auto dest: show_word_chars)
  then have all: "takeWhile ?P (show_word p) = show_word p"
    using digit_radix by (simp add: takeWhile_eq_all_conv)
  have val: "foldl (\<lambda>a c. 10 * a + unat (the (hex_digit c))) a s = foldl (\<lambda>v c. 10 * v + digit_val c) a s"
    if "\<forall>c \<in> set s. is_digit c" for a s
    using that by (induction s arbitrary: a) (simp_all add: digit_radix)
  have "digits_val (show_word p) = unat p" by (simp add: show_word_def digits_val_show_nat)
  moreover have "unat p \<le> 65535" using unat_le_max [of p] by simp
  ultimately show ?thesis
    using dig by (simp add: parse_sock_port_def scan_number_def Let_def all val digits_val_def)
qed

lemma sock4_back [simp]: "parse_sock4 (show_sock4 t) = Some t"
proof -
  have "CHR '':'' \<notin> set (show_ipv4 (fst t))" using show_ipv4_plain by blast
  then show ?thesis by (simp add: parse_sock4_def show_sock4_def split_once_append port_back)
qed

lemma sock_back [simp]: "parse_sock (show_sock4 t) = Some (V4 t)"
  by (simp add: parse_sock_def)

lemma static_map_back [simp]: "static_map_arg (show_static_map m) = Inr m"
proof -
  have "CHR ''='' \<notin> set (show_word (m_bind_port m))"
    using show_word_chars by (fastforce simp: is_digit_def)
  then show ?thesis by (simp add: static_map_arg_def show_static_map_def split_once_append)
qed

lemma stun_back: "ss \<noteq> [] \<Longrightarrow> [] \<notin> set ss \<Longrightarrow> \<forall>h \<in> set ss. CHR '','' \<notin> set h \<and> trim h = h \<Longrightarrow>
    stun_list (join '','' ss) = ss"
  by (simp add: stun_list_def split_on_join map_idI filter_id_conv) (metis (mono_tags))

lemma range_back: "PortAllocator_new lo hi \<noteq> None \<Longrightarrow>
    range_arg (show_word lo @ CHR ''-'' # show_word hi) = Inr (lo, hi)"
proof -
  have "CHR ''-'' \<notin> set (show_word lo)" using show_word_chars by (fastforce simp: is_digit_def)
  moreover assume "PortAllocator_new lo hi \<noteq> None"
  ultimately show ?thesis by (auto simp: range_arg_def split_once_append)
qed

lemma usize_back: "n \<le> 2 ^ 64 - 1 \<Longrightarrow> parse_usize (show_nat n) = Some n"
  by (simp add: parse_usize_def parse_uint_show_nat)

lemma cdc_back [simp]: "cdc_arg (show_cdc c) = Inr c"
  by (cases c) (simp_all add: cdc_arg_def)

section \<open>The loop over the command line\<close>

lemma loop_values:
  "arg_loop fs (''--bind'' # show_sock4 b # rest) A = arg_loop fs rest (A\<lparr>a_bind := Some (V4 b)\<rparr>)"
  "arg_loop fs (''--target'' # show_sock4 t # rest) A = arg_loop fs rest (A\<lparr>a_target := Some t\<rparr>)"
  "arg_loop fs (''--stun'' # v # rest) A = arg_loop fs rest (A\<lparr>a_stun := stun_list v\<rparr>)"
  "arg_loop fs (''--interval'' # show_word i # rest) A = arg_loop fs rest (A\<lparr>a_interval := i\<rparr>)"
  "arg_loop fs (''--gateway'' # v # rest) A = arg_loop fs rest (A\<lparr>a_gateway := v\<rparr>)"
  "arg_loop fs (''--state-dir'' # v # rest) A = arg_loop fs rest (A\<lparr>a_state_dir := v\<rparr>)"
  "arg_loop fs (''--slot-port-range'' # v # rest) A = arg_loop fs rest (A\<lparr>a_slot_range := v\<rparr>)"
  "n \<le> 2 ^ 64 - 1 \<Longrightarrow> arg_loop fs (''--max-slots'' # show_nat n # rest) A = arg_loop fs rest (A\<lparr>a_max_slots := n\<rparr>)"
  "arg_loop fs (''--max-maps-per-client'' # show_word q # rest) A = arg_loop fs rest (A\<lparr>a_max_maps := q\<rparr>)"
  "arg_loop fs (''--gc-grace-factor'' # show_word g # rest) A = arg_loop fs rest (A\<lparr>a_gc_grace := g\<rparr>)"
  "arg_loop fs (''--max-refresh-attempts'' # show_word g # rest) A = arg_loop fs rest (A\<lparr>a_max_refresh := g\<rparr>)"
  "arg_loop fs (''--cdc'' # show_cdc k # rest) A = arg_loop fs rest (A\<lparr>a_cdc := k\<rparr>)"
  "fs v = Some text \<Longrightarrow> parse_allowlist text = (ips, []) \<Longrightarrow>
     arg_loop fs (''--allowlist'' # v # rest) A = arg_loop fs rest (A\<lparr>a_allow := ips\<rparr>)"
  "arg_loop fs (''--upnp-port'' # show_word q # rest) A = arg_loop fs rest (A\<lparr>a_upnp_port := q\<rparr>)"
  "arg_loop fs (''--lan-ip'' # show_ipv4 ip # rest) A = arg_loop fs rest (A\<lparr>a_lan_ip := ip\<rparr>)"
  "arg_loop fs (''--upnp-name'' # v # rest) A = arg_loop fs rest (A\<lparr>a_upnp_name := v\<rparr>)"
  "arg_loop fs (''--carrier-probe-interval'' # show_word i # rest) A = arg_loop fs rest (A\<lparr>a_probe_interval := i\<rparr>)"
  "arg_loop fs (''--carrier-probe-misses'' # show_word i # rest) A = arg_loop fs rest (A\<lparr>a_probe_misses := i\<rparr>)"
  "arg_loop fs (''--carrier-probe-poll'' # show_word i # rest) A = arg_loop fs rest (A\<lparr>a_probe_poll := i\<rparr>)"
  by (simp_all add: arg_defs usize_back allowlist_arg_def)

lemma loop_maps:
  "arg_loop fs (concat (map (\<lambda>m. [''--static-map'', show_static_map m]) ms) @ rest) A
     = arg_loop fs rest (A\<lparr>a_static_maps := a_static_maps A @ ms\<rparr>)"
  by (induction ms arbitrary: A) (simp_all add: arg_defs)

definition given :: "'a option \<Rightarrow> 'a option \<Rightarrow> 'a option" where
  "given v old = (case v of Some x \<Rightarrow> Some x | None \<Rightarrow> old)"

lemma given_new [simp]: "given v None = v"
  by (simp add: given_def split: option.split)

lemma loop_options:
  "arg_loop fs (opt_arg ''--poke'' (map_option show_sock4 p) @ rest) A
     = arg_loop fs rest (A\<lparr>a_poke := given p (a_poke A)\<rparr>)"
  "(\<And>cert key. i = Some (cert, key) \<Longrightarrow> CHR '':'' \<notin> set cert) \<Longrightarrow>
   arg_loop fs (opt_arg ''--client-identity'' (map_option (\<lambda>(cert, key). cert @ CHR '':'' # key) i) @ rest) A
     = arg_loop fs rest (A\<lparr>a_identity := given i (a_identity A)\<rparr>)"
  "arg_loop fs (opt_arg ''--front-anchor'' v @ rest) A
     = arg_loop fs rest (A\<lparr>a_anchor := given v (a_anchor A)\<rparr>)"
  "arg_loop fs (opt_arg ''--front-endpoint'' v @ rest) A
     = arg_loop fs rest (A\<lparr>a_endpoint := given v (a_endpoint A)\<rparr>)"
  "arg_loop fs (opt_arg ''--front-name'' v @ rest) A
     = arg_loop fs rest (A\<lparr>a_front_name := given v (a_front_name A)\<rparr>)"
  by (auto simp: opt_arg_def arg_defs split_once_append given_def split: option.split)

lemma loop_flags:
  "arg_loop fs (flag_arg ''--observation'' b @ rest) A = arg_loop fs rest (A\<lparr>a_observation := b \<or> a_observation A\<rparr>)"
  "arg_loop fs (flag_arg ''--keepalive'' b @ rest) A = arg_loop fs rest (A\<lparr>a_hold := b \<or> a_hold A\<rparr>)"
  "arg_loop fs (flag_arg ''--pcp'' b @ rest) A = arg_loop fs rest (A\<lparr>a_pcp := b \<or> a_pcp A\<rparr>)"
  "arg_loop fs (flag_arg ''--pcp-peer'' b @ rest) A = arg_loop fs rest (A\<lparr>a_pcp_peer := b \<or> a_pcp_peer A\<rparr>)"
  "arg_loop fs (flag_arg ''--carrier-probe'' b @ rest) A = arg_loop fs rest (A\<lparr>a_probe := b \<or> a_probe A\<rparr>)"
  "arg_loop fs (flag_arg ''--no-upnp'' b) A = Inr (A\<lparr>a_upnp := \<not> b \<and> a_upnp A\<rparr>)"
  by (simp_all add: flag_arg_def arg_defs)

text \<open>The locals after the command line of \<open>c\<close>.\<close>

definition filled :: "Config \<Rightarrow> Args" where
  "filled c =
     (let usual = (k_bind c = default_bind (k_static_maps c))
      in \<lparr>a_bind = (if usual then None else Some (k_bind c)), a_target = (if usual then None else Some (k_target c)),
       a_static_maps = (if usual then k_static_maps c else []), a_stun = k_stun c, a_interval = k_interval c,
       a_gateway = k_gateway c, a_state_dir = k_state_dir c,
       a_slot_range = show_word (k_slot_lo c) @ CHR ''-'' # show_word (k_slot_hi c),
       a_max_slots = k_max_slots c, a_max_maps = k_max_maps c, a_gc_grace = k_gc_grace c,
       a_observation = k_observation c, a_max_refresh = k_max_refresh c, a_allow = k_allow c,
       a_hold = k_hold c, a_pcp = k_pcp c, a_pcp_peer = k_pcp_peer c, a_upnp = k_upnp c,
       a_upnp_port = k_upnp_port c, a_lan_ip = k_lan_ip c, a_upnp_name = k_upnp_name c, a_poke = k_poke c,
       a_identity = k_identity c, a_anchor = k_anchor c, a_endpoint = k_endpoint c,
       a_front_name = k_front_name c, a_probe = k_probe c, a_probe_interval = k_probe_interval c,
       a_probe_misses = k_probe_misses c, a_probe_poll = k_probe_poll c, a_cdc = k_cdc c\<rparr>)"

lemma maps_read:
  assumes "printable c"
  shows "arg_loop fs (maps_args c @ rest) args_default = arg_loop fs rest (args_default\<lparr>
     a_bind := a_bind (filled c), a_target := a_target (filled c), a_static_maps := a_static_maps (filled c)\<rparr>)"
  using assms
  by (auto simp: maps_args_def filled_def Let_def loop_maps loop_values printable_def args_default_def
      simp del: arg_loop.simps)

lemma line_read:
  assumes "config_ok fs c" and "printable c" and "fs path = Some text" and "parse_allowlist text = (k_allow c, [])"
  shows "arg_loop fs (drop 1 (command_line path c)) args_default = Inr (filled c)"
proof -
  have stun: "stun_list (join '','' (k_stun c)) = k_stun c"
    using assms(1,2) by (intro stun_back) (auto simp: config_ok_def printable_def)
  have slots: "k_max_slots c \<le> 2 ^ 64 - 1" and cert: "k_identity c = Some (cert, key) \<Longrightarrow> CHR '':'' \<notin> set cert" for cert key
    using assms(2) by (auto simp: printable_def)
  have "arg_loop fs (drop 1 (command_line path c)) args_default
      = arg_loop fs (maps_args c @ drop (Suc (length (maps_args c))) (command_line path c)) args_default"
    by (simp add: command_line_def)
  also have "\<dots> = Inr (filled c)"
    unfolding maps_read [OF assms(2)]
    by (simp add: command_line_def loop_values loop_options loop_flags slots [simplified] cert stun assms(3,4)
        del: arg_loop.simps)
      (simp add: args_default_def filled_def Let_def)
  finally show ?thesis .
qed

lemma filled_finish:
  assumes "config_ok fs c" and "printable c"
  shows "finish_args fs (filled c) = Inr c"
proof -
  have maps: "merge_pair (filled c) = Inr (k_static_maps c)"
  proof (cases "k_bind c = default_bind (k_static_maps c)")
    case True
    then show ?thesis by (simp add: merge_pair_def filled_def Let_def)
  next
    case False
    with assms(2) obtain b m where "k_bind c = V4 b" "k_static_maps c = [m]"
      by (auto simp: printable_def length_Suc_conv)
    with assms(1) False show ?thesis by (simp add: merge_pair_def filled_def Let_def config_ok_def)
  qed
  have "front_check fs (filled c) = None" "anchor_check fs (filled c) = None"
    using assms(1)
    by (auto simp: front_check_def anchor_check_def filled_def Let_def config_ok_def files_ok_def split: option.split sum.split)
  moreover have "channel_check (filled c) = None"
    using assms(1) by (auto simp: channel_check_def filled_def Let_def config_ok_def channel_ok_def split: option.split)
  moreover have "range_arg (a_slot_range (filled c)) = Inr (k_slot_lo c, k_slot_hi c)"
    using assms(1) by (simp add: filled_def Let_def range_back config_ok_def)
  moreover have "config_of (filled c) (k_static_maps c) (k_slot_lo c) (k_slot_hi c) = c"
    using assms(1) by (cases c) (auto simp: config_of_def filled_def Let_def config_ok_def default_bind_def max_def)
  ultimately show ?thesis
    using maps assms(1) by (simp add: finish_args_def config_ok_def)
qed

text \<open>C39 (safety): an accepted command line gives a configuration the daemon can run with. There is at
  least one static map and the first is the target and the bound port, there is a STUN server to
  ask and an interval of at least a second, the slot range is one the allocator takes, the
  allowlist is what its file says without an unreadable line, the identity and the anchor load,
  and a front endpoint comes with its name, an identity and an anchor.\<close>

theorem accepted_configuration_is_sound:
  assumes "parse_args_from fs args = Inr c"
  shows "config_ok fs c"
  using assms by (rule accepted_ok)


section \<open>Concrete command lines\<close>

definition cmd_pem :: string where
  "cmd_pem = ''-----BEGIN-----'' @ nl # ''AAECAwQ='' @ nl # ''-----END-----'' @ [nl]"

definition cmd_files :: files where
  "cmd_files = [''/etc/allow'' \<mapsto> ''192.168.21.68 # switch'', ''c.pem'' \<mapsto> cmd_pem, ''k.pem'' \<mapsto> cmd_pem]"

definition cmd_args :: "string list" where
  "cmd_args = [''ds-lite-punch'', ''--static-map'', ''30000=192.168.21.68:3074'', ''--allowlist'', ''/etc/allow'',
     ''--keepalive'', ''--client-identity'', ''c.pem:k.pem'', ''--front-anchor'', ''c.pem'',
     ''--front-endpoint'', ''front.example:443'', ''--front-name'', ''front.example'', ''--interval'', ''0'']"

definition cmd_config :: Config where
  "cmd_config = config_of (args_default\<lparr>a_allow := [ipv4_of 192 168 21 68], a_hold := True,
     a_identity := Some (''c.pem'', ''k.pem''), a_anchor := Some ''c.pem'', a_endpoint := Some ''front.example:443'',
     a_front_name := Some ''front.example'', a_interval := 0\<rparr>)
     [\<lparr>m_bind_port = 30000, m_target = (ipv4_of 192 168 21 68, 3074)\<rparr>] 30000 39999"

lemma cmd_values:
  "static_map_arg ''30000=192.168.21.68:3074'' = Inr \<lparr>m_bind_port = 30000, m_target = (ipv4_of 192 168 21 68, 3074)\<rparr>"
  "allowlist_arg cmd_files ''/etc/allow'' = Inr [ipv4_of 192 168 21 68]"
  "split_once CHR '':'' ''c.pem:k.pem'' = Some (''c.pem'', ''k.pem'')" "parse_word ''0'' = Some (0 :: u64)"
  "range_arg ''30000-39999'' = Inr (30000, 39999)" "der_from_pem cmd_pem = Inr [0, 1, 2, 3, 4]"
  by code_simp+

lemma cmd_args_read: "parse_args_from cmd_files cmd_args = Inr cmd_config"
proof -
  let ?A = "args_default\<lparr>a_static_maps := [\<lparr>m_bind_port = 30000, m_target = (ipv4_of 192 168 21 68, 3074)\<rparr>],
     a_allow := [ipv4_of 192 168 21 68], a_hold := True,
     a_identity := Some (''c.pem'', ''k.pem''), a_anchor := Some ''c.pem'', a_endpoint := Some ''front.example:443'',
     a_front_name := Some ''front.example'', a_interval := 0\<rparr>"
  have "arg_loop cmd_files (drop 1 cmd_args) args_default = Inr ?A"
    by (simp add: cmd_args_def arg_defs cmd_values) (simp add: args_default_def)
  moreover have "finish_args cmd_files ?A = Inr cmd_config"
    by (simp add: finish_args_def merge_pair_def front_check_def anchor_check_def channel_check_def load_identity_def
        der_from_file_def cmd_values cmd_files_def args_default_def cmd_config_def config_of_def)
  ultimately show ?thesis by (simp add: parse_args_from_def)
qed

theorem accepted_configuration_is_sound_witness:
  "config_ok cmd_files cmd_config \<and> k_interval cmd_config = 1 \<and> k_hold cmd_config"
  using accepted_configuration_is_sound [OF cmd_args_read] by (simp add: cmd_config_def config_of_def args_default_def)

lemma cmd_allow: "parse_allowlist ''192.168.21.68 # switch'' = (k_allow cmd_config, [])"
  by code_simp


end
