(* ===== verification/Boot_Props.thy ===== *)
theory Boot_Props
  imports Boot Args_Props Facade_Props
begin

text \<open>
  What a start gives: every slot of the restored table is served from the first moment, and a
  restart over the files of the last run brings every mapping of the facade back to life.
\<close>

section \<open>The restored table\<close>

definition slot_ports :: "LeaseTable \<Rightarrow> u16 list" where
  "slot_ports T = map s_bind_port (t_slots T)"

lemma by_port_None: "by_bind_port p T = None \<longleftrightarrow> p \<notin> set (slot_ports T)"
  by (auto simp: by_bind_port_def find_None_all slot_ports_def)

lemma restore_statics_slots:
  "restore_statics ms T = Restored T' \<Longrightarrow>
     t_slots T' = t_slots T @ map static_slot ms \<and> (distinct (slot_ports T) \<longrightarrow> distinct (slot_ports T'))"
proof (induction ms arbitrary: T)
  case (Cons m ms)
  obtain p ip port where m: "m = (p, ip, port)" by (cases m)
  with Cons.prems obtain T1 where T1: "insert_static p ip port T = (Inr p, T1)" "restore_statics ms T1 = Restored T'"
    by (auto simp: insert_static_def split: if_splits)
  then have "t_slots T1 = t_slots T @ [static_slot m]" "p \<notin> set (slot_ports T)"
    by (auto simp: insert_static_def static_slot_def m by_port_None [symmetric] split: if_splits)
  moreover have "s_bind_port (static_slot m) = p" by (simp add: static_slot_def m)
  ultimately have "distinct (slot_ports T) \<longrightarrow> distinct (slot_ports T1)" and "t_slots T1 = t_slots T @ [static_slot m]"
    by (simp_all add: slot_ports_def)
  with Cons.IH [OF T1(2)] show ?case by simp
qed simp

lemma restore_grants_slots:
  "restore_grants rs now T = Restored T' \<Longrightarrow>
     (\<exists>gs. t_slots T' = t_slots T @ gs \<and> (\<forall>s \<in> set gs. \<not> is_static s)) \<and> (distinct (slot_ports T) \<longrightarrow> distinct (slot_ports T'))"
proof (induction rs arbitrary: T)
  case (Cons r rs)
  then obtain x where "by_bind_port (g_bind_port r) T = None"
    and IH: "restore_grants rs now (T\<lparr>t_slots := t_slots T @ [restored_slot r x now]\<rparr>) = Restored T'"
    by (auto split: if_splits option.splits)
  then have "distinct (slot_ports T) \<longrightarrow> distinct (slot_ports (T\<lparr>t_slots := t_slots T @ [restored_slot r x now]\<rparr>))"
    by (auto simp: by_port_None slot_ports_def restored_slot_def)
  moreover have "\<not> is_static (restored_slot r x now)" by (simp add: restored_slot_def is_static_def)
  ultimately show ?case using Cons.IH [OF IH] by auto
qed simp

lemma boot_table_slots:
  assumes "boot_table ms file now (LeaseTable_new al n q) = Restored T"
  shows "filter is_static (t_slots T) = map static_slot ms" and "distinct (slot_ports T)"
proof -
  from assms obtain T1 rs where T1: "restore_statics ms (LeaseTable_new al n q) = Restored T1"
    and T: "restore_grants rs now T1 = Restored T"
    by (auto simp: boot_table_def restore_def Let_def split: prod.splits restored.splits)
  have new: "t_slots (LeaseTable_new al n q) = []" by (simp add: LeaseTable_new_def)
  from restore_grants_slots [OF T] obtain gs where gs: "t_slots T = t_slots T1 @ gs" "\<forall>s \<in> set gs. \<not> is_static s"
    and d: "distinct (slot_ports T1) \<longrightarrow> distinct (slot_ports T)" by blast
  from restore_statics_slots [OF T1] new have s: "t_slots T1 = map static_slot ms" and "distinct (slot_ports T1)"
    by (auto simp: slot_ports_def)
  with d show "distinct (slot_ports T)" by simp
  have "filter is_static gs = []" using gs(2) by simp
  moreover have "filter is_static (map static_slot ms) = map static_slot ms"
    by (intro filter_True) (auto simp: static_slot_def is_static_def split: prod.split)
  ultimately show "filter is_static (t_slots T) = map static_slot ms" by (simp add: gs(1) s)
qed

section \<open>Rules and tasks\<close>

definition slot_served :: "Nft \<Rightarrow> Slot \<Rightarrow> bool" where
  "slot_served N s \<longleftrightarrow> serves N (s_target s) (s_target_port s) (s_bind_port s) (s_proto s = Tcp)"

lemma grant_restored_serves:
  "grant_restored V ss N0 = Some N \<Longrightarrow> distinct (map s_bind_port ss) \<Longrightarrow> s \<in> set ss \<Longrightarrow> slot_served N s"
proof (induction ss arbitrary: N rule: rev_induct)
  case (snoc x ss)
  let ?g = "grant_datapath (v_nft V) (s_target x) (s_target_port x) (s_bind_port x) (s_proto x = Tcp)"
  from snoc.prems(1) obtain N1 where N1: "grant_restored V ss N0 = Some N1" "?g N1 = (True, N)"
    by (auto simp: grant_restored_def split: option.splits prod.splits bool.splits)
  show ?case
  proof (cases "s = x")
    case True
    then show ?thesis using grant_serves [OF N1(2)] by (simp add: slot_served_def)
  next
    case False
    with snoc.prems(3) have s: "s \<in> set ss" by simp
    have "distinct (map s_bind_port ss)" "s_bind_port x \<notin> s_bind_port ` set ss" using snoc.prems(2) by simp_all
    moreover from this(2) s have "s_bind_port s \<noteq> s_bind_port x" by (metis image_eqI)
    moreover have "N = snd (?g N1)" using N1(2) by simp
    ultimately show ?thesis
      using snoc.IH [OF N1(1) _ s] by (simp add: slot_served_def grant_keeps)
  qed
qed simp

text \<open>What a task serves, and what a slot asks for.\<close>

fun task_view :: "SlotTask \<Rightarrow> u16 \<times> Proto \<times> tuple4" where
  "task_view (Udp_task p t _ _ _) = (p, Udp, t)"
| "task_view (Tcp_task p t _) = (p, Tcp, t)"

definition slot_view :: "Slot \<Rightarrow> u16 \<times> Proto \<times> tuple4" where
  "slot_view s = (s_bind_port s, s_proto s, (s_target s, s_target_port s))"

lemma spawn_slots_view:
  "spawn_slots c bind_ok n i ss = Some tasks \<Longrightarrow>
     map task_view tasks = map slot_view (filter (\<lambda>s. is_static s \<or> \<not> k_upnp c) ss)"
  by (induction ss arbitrary: i tasks)
    (auto simp: slot_task_def slot_view_def split: if_splits Proto.splits)

section \<open>Every start\<close>

lemma boot_runsE:
  assumes "boot E args = Daemon_runs D"
  obtains c al T N tasks where "parse_args_from (b_files E) args = Inr c"
    and "boot_table (static_tuples c) (b_leases_file E) (b_now E) (LeaseTable_new al (k_max_slots c) (k_max_maps c)) = Restored T"
    and "grant_restored (b_env E) (t_slots T) (b_nft E) = Some N"
    and "spawn_slots c (b_bind E) (length (t_slots T)) 0 (t_slots T) = Some tasks"
    and "boot_services E c T N tasks = Daemon_runs D"
  using assms
  by (auto simp: boot_def boot_datapath_def split: sum.splits Stop.splits if_splits option.splits restored.splits)

lemma services_runs:
  assumes "boot_services E c T N tasks = Daemon_runs D"
  shows "dm_config D = c" and "dm_table D = T" and "dm_nft D = N" and "dm_tasks D = tasks"
    and "dm_facade D = boot_facade E c T N (dm_leases_file D)"
    and "boot_engine E c T = Inr (dm_engine D)" and "boot_pcp E c (dm_facade D) = Inr (dm_pcp D)"
    and "dm_front D = front_called c"
  using assms by (auto simp: boot_services_def Let_def split: sum.splits)

lemma engine_owns: "boot_engine E c T = Inr r \<Longrightarrow> r = None \<or> map snd (es_owned (the r)) = slot_ports T"
  by (auto simp: boot_engine_def Let_def slot_ports_def comp_def split: if_splits CdcKind.splits)

text \<open>C9 (safety): a start either ends or serves every slot. When the daemon runs, the slots of its
  table stand on different ports and the static ones are the configured maps in order; each slot,
  restored or static, has its rules in place; the tasks of \<open>main\<close> are those of the slots it owns,
  one for each and towards its target; the observation engine is told every port as owned; the PCP
  listener runs only over a facade; and the front is called only with a sound configuration.\<close>

theorem boot_serves_every_slot:
  assumes "boot E args = Daemon_runs D"
  shows "distinct (slot_ports (dm_table D))
    \<and> filter is_static (t_slots (dm_table D)) = map static_slot (static_tuples (dm_config D))
    \<and> list_all (slot_served (dm_nft D)) (t_slots (dm_table D))
    \<and> map task_view (dm_tasks D)
        = map slot_view (filter (\<lambda>s. is_static s \<or> \<not> k_upnp (dm_config D)) (t_slots (dm_table D)))
    \<and> (dm_engine D = None \<or> map snd (es_owned (the (dm_engine D))) = slot_ports (dm_table D))
    \<and> (dm_pcp D = None \<or> dm_facade D \<noteq> None) \<and> config_ok (b_files E) (dm_config D)"
proof -
  from boot_runsE [OF assms] obtain c al T N tasks where
    args: "parse_args_from (b_files E) args = Inr c"
    and T: "boot_table (static_tuples c) (b_leases_file E) (b_now E) (LeaseTable_new al (k_max_slots c) (k_max_maps c)) = Restored T"
    and N: "grant_restored (b_env E) (t_slots T) (b_nft E) = Some N"
    and tasks: "spawn_slots c (b_bind E) (length (t_slots T)) 0 (t_slots T) = Some tasks"
    and D: "boot_services E c T N tasks = Daemon_runs D" by metis
  note D' = services_runs [OF D]
  have "list_all (slot_served N) (t_slots T)"
    using grant_restored_serves [OF N] boot_table_slots(2) [OF T] by (auto simp: list_all_iff slot_ports_def)
  moreover have "dm_engine D = None \<or> map snd (es_owned (the (dm_engine D))) = slot_ports T"
    using D'(6) by (rule engine_owns)
  moreover have "dm_pcp D = None \<or> dm_facade D \<noteq> None"
    using D'(7) by (auto simp: boot_pcp_def split: if_splits option.splits)
  ultimately show ?thesis
    using boot_table_slots [OF T] spawn_slots_view [OF tasks] accepted_ok [OF args] by (simp add: D'(1-4))
qed

section \<open>A start over the files of the last run\<close>

definition outside_ok :: "BootEnv \<Rightarrow> Config \<Rightarrow> bool" where
  "outside_ok E c \<longleftrightarrow> b_resolved E \<noteq> [] \<and> b_ruleset E \<and> (\<forall>t. v_nft (b_env E) t) \<and> (\<forall>proto p. b_bind E proto p)
     \<and> (\<forall>proto p. v_bind (b_env E) proto p = None) \<and> b_facade_up E
     \<and> (k_observation c \<longrightarrow> k_cdc c \<noteq> Cdc_aya \<and> b_flow_obs E) \<and> (k_pcp c \<longrightarrow> k_upnp c \<and> b_pcp_bind E)"

lemma grant_restored_ok: "\<forall>t. v_nft V t \<Longrightarrow> \<exists>N. grant_restored V ss N0 = Some N"
proof (induction ss rule: rev_induct)
  case (snoc s ss)
  then obtain N1 where "grant_restored V ss N0 = Some N1" by blast
  moreover have "fst (grant_datapath (v_nft V) ip i p tcp N) = True" for ip i p tcp N
    using snoc.prems by (simp add: grant_datapath_def run_script_def add_input_accept_def)
  ultimately show ?case
    by (auto simp: grant_restored_def split: prod.split bool.split) (metis fst_conv)
qed (simp add: grant_restored_def)

lemma spawn_slots_ok: "\<forall>proto p. bind_ok proto p \<Longrightarrow> \<exists>tasks. spawn_slots c bind_ok n i ss = Some tasks"
  by (induction ss arbitrary: i) simp_all

lemma boot_goes_on:
  assumes "parse_args_from (b_files E) args = Inr c" and "PortAllocator_new (k_slot_lo c) (k_slot_hi c) = Some al"
    and "boot_table (static_tuples c) (b_leases_file E) (b_now E) (LeaseTable_new al (k_max_slots c) (k_max_maps c)) = Restored T"
    and "outside_ok E c"
  obtains D where "boot E args = Daemon_runs D" "dm_table D = T" "grant_restored (b_env E) (t_slots T) (b_nft E) = Some (dm_nft D)"
    "dm_facade D = boot_facade E c T (dm_nft D) (dm_leases_file D)"
proof -
  from assms(4) have "\<forall>t. v_nft (b_env E) t" "\<forall>proto p. b_bind E proto p" by (auto simp: outside_ok_def)
  with grant_restored_ok spawn_slots_ok obtain N tasks where
    N: "grant_restored (b_env E) (t_slots T) (b_nft E) = Some N"
    and tasks: "spawn_slots c (b_bind E) (length (t_slots T)) 0 (t_slots T) = Some tasks" by metis
  let ?f = "if b_written E then Some (tsv (snapshot (t_slots T) (b_now E))) else b_leases_file E"
  have "\<exists>engine. boot_engine E c T = Inr engine"
    using assms(4) by (cases "k_cdc c") (auto simp: boot_engine_def outside_ok_def Let_def split: if_splits)
  then obtain engine where engine: "boot_engine E c T = Inr engine" ..
  have "\<exists>pcp. boot_pcp E c (boot_facade E c T N ?f) = Inr pcp"
    using assms(4) by (auto simp: boot_pcp_def boot_facade_def outside_ok_def)
  then obtain pcp where "boot_pcp E c (boot_facade E c T N ?f) = Inr pcp" ..
  with engine obtain D where D: "boot_services E c T N tasks = Daemon_runs D"
    by (simp add: boot_services_def Let_def)
  have "boot E args = Daemon_runs D"
    using assms N tasks D by (simp add: boot_def boot_datapath_def outside_ok_def)
  with that services_runs [OF D] N show ?thesis by metis
qed

section \<open>The restored grants\<close>

lemma spawn_restored_frame [simp]:
  "f_table (spawn_restored V e F) = f_table F" "f_nft (spawn_restored V e F) = f_nft F"
  "f_entries (spawn_restored V e F) = f_entries F"
  by (simp_all add: spawn_restored_def spawn_slot_def split: option.split)

lemma spawn_fold_frame [simp]:
  "f_table (fold (spawn_restored V) es F) = f_table F" "f_nft (fold (spawn_restored V) es F) = f_nft F"
  "f_entries (fold (spawn_restored V) es F) = f_entries F"
  by (induction es arbitrary: F) simp_all

lemma spawn_restored_tasks:
  "f_tasks (spawn_restored V e F) = (case by_bind_port (fe_bind_port e) (f_table F) of
     None \<Rightarrow> f_tasks F
   | Some s \<Rightarrow> if is_static s \<or> v_bind V (fe_proto e) (fe_bind_port e) \<noteq> None then f_tasks F
       else (f_tasks F)(fe_bind_port e \<mapsto> (fe_proto e, (fe_client e, fe_int_port e))))"
  by (simp add: spawn_restored_def spawn_slot_def split: option.split)

definition runs_for :: "Facade \<Rightarrow> FacadeEntry \<Rightarrow> bool" where
  "runs_for F e \<longleftrightarrow> f_tasks F (fe_bind_port e) = Some (fe_proto e, (fe_client e, fe_int_port e))"

lemma spawn_fold_runs:
  assumes "\<forall>proto p. v_bind V proto p = None" and "distinct (map fe_bind_port es)" and "e \<in> set es"
    and "by_bind_port (fe_bind_port e) (f_table F) = Some s" and "\<not> is_static s"
  shows "runs_for (fold (spawn_restored V) es F) e"
  using assms(2,3)
proof (induction es rule: rev_induct)
  case (snoc x es)
  let ?F = "fold (spawn_restored V) es F"
  show ?case
  proof (cases "e = x")
    case True
    with assms show ?thesis by (simp add: runs_for_def spawn_restored_tasks)
  next
    case False
    with snoc.prems have e: "e \<in> set es" "distinct (map fe_bind_port es)" and "fe_bind_port x \<notin> fe_bind_port ` set es"
      by auto
    then have "fe_bind_port e \<noteq> fe_bind_port x" by (metis image_eqI)
    with snoc.IH [OF e(2,1)] show ?thesis
      by (simp add: runs_for_def spawn_restored_tasks split: option.split)
  qed
qed simp

text \<open>A granted slot forwards to its own flow, so its key names its target.\<close>

lemma restored_key:
  assumes "T = Tn\<lparr>t_slots := map static_slot ms @ map (\<lambda>s. restored_slot (record_of (g s)) (h s) later) ss\<rparr>"
    and "s \<in> set (t_slots T)" and "slot_key s = Some (proto, int_port, client)"
  shows "\<not> is_static s \<and> s_proto s = proto \<and> s_target s = client \<and> s_target_port s = int_port"
  using assms by (auto simp: static_slot_def slot_key_def is_static_def restored_slot_def record_of_def)

lemma sigs_cases:
  assumes "tbl_inv T"
  shows "(p, k) \<in> sigs T \<longleftrightarrow> (case k of
      Some key \<Rightarrow> lease_port T key = Some p
    | None \<Rightarrow> p \<in> bound_ports T \<and> (\<forall>key. lease_port T key \<noteq> Some p))"
proof -
  have port: "lease_port T key = Some p \<longleftrightarrow> (p, Some key) \<in> sigs T" for key
    using leases_Some_iff [OF assms, of key] by (force simp: lease_port_def sigs_def)
  have "p \<in> bound_ports T \<longleftrightarrow> (\<exists>k. (p, k) \<in> sigs T)" by (auto simp: bound_ports_def sigs_def)
  moreover have "(p, None) \<notin> sigs T" if "(p, Some key) \<in> sigs T" for key
    using leases.one_binding [OF assms that] by blast
  ultimately have "(p, None) \<in> sigs T \<longleftrightarrow> p \<in> bound_ports T \<and> (\<forall>key. (p, Some key) \<notin> sigs T)"
    by (metis not_Some_eq)
  with port show ?thesis by (cases k) simp_all
qed

lemma sigs_eq:
  "tbl_inv T \<Longrightarrow> tbl_inv T' \<Longrightarrow> lease_port T' = lease_port T \<and> bound_ports T' = bound_ports T \<Longrightarrow> sigs T' = sigs T"
  by (intro set_eqI) (simp only: split_paired_all sigs_cases)

lemma entries_distinct_ports:
  assumes "facade_inv F"
  shows "distinct (map fe_bind_port (f_entries F))"
proof -
  have d: "distinct (map tuple_of (f_entries F))" and own: "\<forall>e \<in> set (f_entries F). fe_owner e = fe_client e"
    and b: "\<forall>e \<in> set (f_entries F). entry_binding e \<in> sigs (f_table F)" and inv: "tbl_inv (f_table F)"
    using assms by (auto simp: facade_inv_but_def entries_ok_def index_inv_def)
  have "tuple_of e = tuple_of e'"
    if "e \<in> set (f_entries F)" "e' \<in> set (f_entries F)" "fe_bind_port e = fe_bind_port e'" for e e'
    using leases.entry_port_inj [OF inv _ _ that(3)] that(1,2) b own by (simp add: tuple_of_def)
  then have "inj_on fe_bind_port (set (f_entries F))"
    using d unfolding distinct_map inj_on_def by blast
  with d show ?thesis by (simp add: distinct_map)
qed

text \<open>The state files are those of the tables, as they are after a write.\<close>

definition persisted :: "Facade \<Rightarrow> bool" where
  "persisted F \<longleftrightarrow> (\<exists>t. f_leases_file F = tsv (snapshot (t_slots (f_table F)) t))
     \<and> f_index_file F = entries_file (f_entries F)"

definition all_listed :: "Facade \<Rightarrow> bool" where
  "all_listed F \<longleftrightarrow> (\<forall>b \<in> sigs (f_table F). snd b \<noteq> None \<longrightarrow> (\<exists>e \<in> set (f_entries F). entry_binding e = b))"

text \<open>What the restored facade is made of.\<close>

lemma boot_facade_parts:
  assumes "boot_facade E c T N f = Some F'" and "b_index_file E = Some (entries_file es)"
    and "\<forall>e \<in> set es. entry_ok e" and "\<forall>e \<in> set es. by_bind_port (fe_bind_port e) T \<noteq> None"
  shows "f_entries F' = es" and "f_table F' = T" and "f_nft F' = N"
    and "\<exists>F0. F' = fold (spawn_restored (b_env E)) es F0 \<and> f_table F0 = T"
  using assms entries_file_back [OF assms(3)]
  by (auto simp: boot_facade_def facade_start_def spawn_restored_grants_def restorable_def split: if_splits)

lemma binding_slot:
  assumes "tbl_inv T" and "entry_binding e \<in> sigs T"
  obtains s where "s \<in> set (t_slots T)" "by_bind_port (fe_bind_port e) T = Some s"
    "slot_key s = Some (fe_proto e, fe_int_port e, fe_client e)"
proof -
  from assms(2) obtain s where s: "s \<in> set (t_slots T)" "s_bind_port s = fe_bind_port e"
    "slot_key s = Some (fe_proto e, fe_int_port e, fe_client e)"
    by (auto simp: sigs_def entry_binding_def)
  moreover have "fe_bind_port e \<in> set (slot_ports T)" using s(1) by (simp add: slot_ports_def s(2) [symmetric])
  then have "by_bind_port (fe_bind_port e) T \<noteq> None" by (simp add: by_port_None)
  then obtain s' where s': "by_bind_port (fe_bind_port e) T = Some s'" by blast
  then have "s' \<in> set (t_slots T)" "s_bind_port s' = fe_bind_port e"
    by (auto simp: by_bind_port_def find_Some_iff)
  with s same_port [OF assms(1)] have "s' = s" by metis
  ultimately show ?thesis using that s' by simp
qed

lemma revived:
  assumes inv: "facade_inv F" and files: "persisted F"
    and life: "\<forall>s \<in> set (t_slots (f_table F)). \<forall>c ip e. s_lease s \<noteq> Granted c ip 0 e"
    and names: "\<forall>e \<in> set (f_entries F). entry_ok e"
    and cfg: "static_tuples c = static_config (f_table F)"
      "PortAllocator_new (k_slot_lo c) (k_slot_hi c) = Some (t_allocator (f_table F))" "k_upnp c"
    and args: "parse_args_from (b_files E) args = Inr c"
    and disk: "b_leases_file E = Some (f_leases_file F)" "b_index_file E = Some (f_index_file F)"
    and out: "outside_ok E c"
  obtains D F' where "boot E args = Daemon_runs D" "dm_facade D = Some F'" "f_entries F' = f_entries F"
    "tbl_inv (f_table F')" "sigs (f_table F') = sigs (f_table F)"
    "lease_port (f_table F') = lease_port (f_table F)"
    "\<forall>e \<in> set (f_entries F). runs {} (f_tasks F') (f_nft F') (entry_binding e)"
proof -
  let ?T = "f_table F"
  have tinv: "tbl_inv ?T" and bound: "\<forall>e \<in> set (f_entries F). entry_binding e \<in> sigs ?T"
    using inv by (auto simp: facade_inv_but_def entries_ok_def)
  from files obtain t where leases: "f_leases_file F = tsv (snapshot (t_slots ?T) t)"
    and index: "f_index_file F = entries_file (f_entries F)" by (auto simp: persisted_def)
  from boot_slots [OF tinv life] obtain T' where
    boot: "boot_table (static_tuples c) (b_leases_file E) (b_now E)
        (LeaseTable_new (t_allocator ?T) (k_max_slots c) (k_max_maps c)) = Restored T'"
    and T': "T' = (LeaseTable_new (t_allocator ?T) (k_max_slots c) (k_max_maps c))\<lparr>t_slots :=
      map static_slot (static_config ?T) @
      map (\<lambda>s. restored_slot (record_of (snapshot_row t s))
             (restored_expiry (record_of (snapshot_row t s)) (b_now E)) (b_now E)) (sort_key s_bind_port (grants (t_slots ?T)))\<rparr>"
    by (simp add: disk leases cfg(1))
  have inv': "tbl_inv T'" and hold: "lease_port T' = lease_port ?T \<and> bound_ports T' = bound_ports ?T"
    using boot_holdings [of T' ?T t "\<lambda>s. restored_expiry (record_of (snapshot_row t s)) (b_now E)" "b_now E"] tinv
    by (simp_all add: T' LeaseTable_new_def)
  have sigs': "sigs T' = sigs ?T" by (rule sigs_eq [OF tinv inv' hold])
  from boot_goes_on [OF args cfg(2) boot out] obtain D where D: "boot E args = Daemon_runs D" "dm_table D = T'"
    "grant_restored (b_env E) (t_slots T') (b_nft E) = Some (dm_nft D)"
    "dm_facade D = boot_facade E c T' (dm_nft D) (dm_leases_file D)" by metis
  have up: "k_upnp c" "b_facade_up E" "\<forall>proto p. v_bind (b_env E) proto p = None"
    using cfg(3) out by (auto simp: outside_ok_def)
  then obtain F' where F': "boot_facade E c T' (dm_nft D) (dm_leases_file D) = Some F'"
    by (simp add: boot_facade_def)
  have slot: "\<exists>s. s \<in> set (t_slots T') \<and> by_bind_port (fe_bind_port e) T' = Some s
      \<and> slot_key s = Some (fe_proto e, fe_int_port e, fe_client e)" if "e \<in> set (f_entries F)" for e
    using binding_slot [OF inv', of e] bound that sigs' by metis
  then have present: "\<forall>e \<in> set (f_entries F). by_bind_port (fe_bind_port e) T' \<noteq> None" by fastforce
  note parts = boot_facade_parts [OF F' _ names present]
  have parts': "f_entries F' = f_entries F" "f_table F' = T'" "f_nft F' = dm_nft D"
    using parts disk(2) index by simp_all
  from parts(4) disk(2) index obtain F0 where
    F0: "F' = fold (spawn_restored (b_env E)) (f_entries F) F0" "f_table F0 = T'" by auto
  have "runs {} (f_tasks F') (f_nft F') (entry_binding e)" if e: "e \<in> set (f_entries F)" for e
  proof -
    from slot [OF e] obtain s where s: "s \<in> set (t_slots T')" "by_bind_port (fe_bind_port e) T' = Some s"
      "slot_key s = Some (fe_proto e, fe_int_port e, fe_client e)" by blast
    from restored_key [OF T' s(1,3)] have k: "\<not> is_static s" "s_proto s = fe_proto e" "s_target s = fe_client e"
      "s_target_port s = fe_int_port e" by simp_all
    have "s_bind_port s = fe_bind_port e" using s(2) by (auto simp: by_bind_port_def find_Some_iff)
    moreover have "slot_served (dm_nft D) s"
      using grant_restored_serves [OF D(3) _ s(1)] tbl_invD(1) [OF inv'] by simp
    moreover have "runs_for F' e"
      unfolding F0(1)
      using spawn_fold_runs [OF up(3) entries_distinct_ports [OF inv] e] s(2) k(1) F0(2) by simp
    ultimately show ?thesis
      using k parts'(3) by (simp add: runs_def entry_binding_def runs_for_def slot_served_def)
  qed
  with that [OF D(1)] D(4) F' parts' inv' sigs' hold show ?thesis by simp
qed

text \<open>C3 (invariant): a restart revives every mapping. Take a consistent facade whose state files are those
  of its tables, and start the daemon again over these files with the same static maps and port
  range, at any later time and with any leases, as long as none has a lifetime of zero and the
  outside takes what it is given. The daemon runs; its facade has the same entries and every lease
  key its port; and each entry has its task towards its client and its rules. If no lease was
  without an entry, the new facade is consistent again, so all that holds of a run holds after it.\<close>

theorem boot_revives_mappings:
  assumes "facade_inv F" and "persisted F"
    and "\<forall>s \<in> set (t_slots (f_table F)). \<forall>c ip e. s_lease s \<noteq> Granted c ip 0 e"
    and "\<forall>e \<in> set (f_entries F). entry_ok e"
    and "static_tuples c = static_config (f_table F)"
    and "PortAllocator_new (k_slot_lo c) (k_slot_hi c) = Some (t_allocator (f_table F))" and "k_upnp c"
    and "parse_args_from (b_files E) args = Inr c"
    and "b_leases_file E = Some (f_leases_file F)" and "b_index_file E = Some (f_index_file F)"
    and "outside_ok E c"
  shows "\<exists>D F'. boot E args = Daemon_runs D \<and> dm_facade D = Some F' \<and> f_entries F' = f_entries F
    \<and> lease_port (f_table F') = lease_port (f_table F)
    \<and> (\<forall>e \<in> set (f_entries F'). f_tasks F' (fe_bind_port e) = Some (fe_proto e, (fe_client e, fe_int_port e))
        \<and> serves (f_nft F') (fe_client e) (fe_int_port e) (fe_bind_port e) (fe_proto e = Tcp))
    \<and> (all_listed F \<longrightarrow> facade_inv F')"
proof -
  from revived [OF assms] obtain D F' where D: "boot E args = Daemon_runs D" "dm_facade D = Some F'"
    and F': "f_entries F' = f_entries F" "tbl_inv (f_table F')" "sigs (f_table F') = sigs (f_table F)"
      "lease_port (f_table F') = lease_port (f_table F)"
    and r: "\<forall>e \<in> set (f_entries F). runs {} (f_tasks F') (f_nft F') (entry_binding e)" by metis
  have "facade_inv F'" if "all_listed F"
  proof -
    have "runs {} (f_tasks F') (f_nft F') b" if "b \<in> sigs (f_table F)" for b
    proof (cases "snd b")
      case None
      then show ?thesis by (cases b) (simp add: runs_def)
    next
      case (Some k)
      with that \<open>all_listed F\<close> obtain e where "e \<in> set (f_entries F)" "entry_binding e = b"
        unfolding all_listed_def by (metis option.distinct(1))
      with r show ?thesis by blast
    qed
    then show ?thesis using F' assms(1) by (simp add: facade_inv_but_def)
  qed
  moreover have "f_tasks F' (fe_bind_port e) = Some (fe_proto e, (fe_client e, fe_int_port e))
      \<and> serves (f_nft F') (fe_client e) (fe_int_port e) (fe_bind_port e) (fe_proto e = Tcp)"
    if "e \<in> set (f_entries F)" for e
    using r that by (auto simp: runs_def entry_binding_def)
  ultimately show ?thesis using D F'(1,4) by metis
qed

section \<open>A run, and the daemon started again over its files\<close>

text \<open>The device's mapping of port 4000, after a write of the state files.\<close>

definition last_life :: Facade where
  "last_life = persist (demo_env\<lparr>v_write := (\<lambda>_. None)\<rparr>) demo_mapped"

definition again_args :: "string list" where
  "again_args = [''ds-lite-punch'', ''--static-map'', ''30000=192.168.21.9:3074'',
     ''--slot-port-range'', ''30000-30003'', ''--pcp'', ''--observation'']"

definition again_config :: Config where
  "again_config = config_of (args_default\<lparr>a_slot_range := ''30000-30003'', a_pcp := True, a_observation := True\<rparr>)
     [\<lparr>m_bind_port = 30000, m_target = (ipv4_of 192 168 21 9, 3074)\<rparr>] 30000 30003"

definition again_env :: BootEnv where
  "again_env = \<lparr>b_files = Map.empty, b_resolved = [(1, 3478)], b_now = 5000,
     b_leases_file = Some (f_leases_file last_life), b_index_file = Some (f_index_file last_life),
     b_dp_file = None, b_device_id = zero_id, b_written = True, b_ruleset = True, b_nft = nft_empty,
     b_env = demo_env, b_bind = (\<lambda>_ _. True), b_facade_up = True, b_flow_obs = True, b_pcp_bind = True\<rparr>"

lemma again_args_read: "parse_args_from Map.empty again_args = Inr again_config"
proof -
  let ?m = "\<lparr>m_bind_port = 30000, m_target = (ipv4_of 192 168 21 9, 3074)\<rparr>"
  let ?A = "args_default\<lparr>a_static_maps := [?m], a_slot_range := ''30000-30003'', a_pcp := True, a_observation := True\<rparr>"
  have v: "static_map_arg ''30000=192.168.21.9:3074'' = Inr ?m" "range_arg ''30000-30003'' = Inr (30000, 30003)"
    by code_simp+
  have "arg_loop Map.empty (drop 1 again_args) args_default = Inr ?A"
    by (simp add: again_args_def arg_defs v) (simp add: args_default_def)
  moreover have "finish_args Map.empty ?A = Inr again_config"
    by (simp add: finish_args_def merge_pair_def front_check_def anchor_check_def channel_check_def v
        args_default_def again_config_def config_of_def)
  ultimately show ?thesis by (simp add: parse_args_from_def)
qed

lemma life_table:
  "t_slots (f_table last_life) = [\<lparr>s_bind_port = 30000, s_proto = Udp, s_target = 0xC0A81509, s_target_port = 3074,
       s_lease = Static, s_phase_ms = 0, s_last_activity = 0\<rparr>,
     \<lparr>s_bind_port = 30001, s_proto = Udp, s_target = 0xC0A81505, s_target_port = 4000,
       s_lease = Granted 0xC0A81505 4000 3600 4600, s_phase_ms = 0, s_last_activity = 1000\<rparr>]
   \<and> t_allocator (f_table last_life) = \<lparr>pa_lo = 30000, pa_hi = 30003\<rparr>"
proof -
  have "f_table demo_mapped = \<lparr>t_slots = [\<lparr>s_bind_port = 30000, s_proto = Udp, s_target = 0xC0A81509,
       s_target_port = 3074, s_lease = Static, s_phase_ms = 0, s_last_activity = 0\<rparr>,
     \<lparr>s_bind_port = 30001, s_proto = Udp, s_target = 0xC0A81505, s_target_port = 4000,
       s_lease = Granted 0xC0A81505 4000 3600 4600, s_phase_ms = 0, s_last_activity = 1000\<rparr>],
     t_allocator = \<lparr>pa_lo = 30000, pa_hi = 30003\<rparr>, t_max_slots = 4, t_max_maps_per_client = 4, t_avoid = []\<rparr>"
    by code_simp
  then show ?thesis by (simp add: last_life_def)
qed

lemma life_index:
  "f_entries last_life = [\<lparr>fe_req_ext = 4000, fe_proto = Udp, fe_owner = 0xC0A81505, fe_client = 0xC0A81505,
     fe_int_port = 4000, fe_bind_port = 30001, fe_lifetime = 3600, fe_expires = 4600, fe_desc = ''pcp''\<rparr>]"
proof -
  have "f_entries demo_mapped = [\<lparr>fe_req_ext = 4000, fe_proto = Udp, fe_owner = 0xC0A81505, fe_client = 0xC0A81505,
     fe_int_port = 4000, fe_bind_port = 30001, fe_lifetime = 3600, fe_expires = 4600, fe_desc = ''pcp''\<rparr>]"
    by code_simp
  then show ?thesis by (simp add: last_life_def)
qed

lemma life_consistent: "facade_inv last_life"
proof -
  have "tbl_inv demo_table" unfolding demo_table_def by (intro insert_static_inv tbl_inv_new)
  moreover have "\<forall>s \<in> set (t_slots demo_table). is_static s"
    by (simp add: demo_table_def insert_static_def is_static_def LeaseTable_new_def split: if_splits)
  ultimately show ?thesis
    using inv_reach [OF demo_reach] fresh_start_inv by (simp add: last_life_def demo_start_def)
qed

lemma life_facts:
  shows "persisted last_life" and "all_listed last_life"
    and "\<forall>s \<in> set (t_slots (f_table last_life)). \<forall>c ip e. s_lease s \<noteq> Granted c ip 0 e"
    and "\<forall>e \<in> set (f_entries last_life). entry_ok e"
    and "static_tuples again_config = static_config (f_table last_life)"
    and "PortAllocator_new (k_slot_lo again_config) (k_slot_hi again_config) = Some (t_allocator (f_table last_life))"
    and "k_upnp again_config" and "outside_ok again_env again_config"
proof -
  show "persisted last_life" by (auto simp: persisted_def last_life_def persist_def Let_def)
  show "all_listed last_life"
    by (simp add: all_listed_def sigs_def life_table life_index entry_binding_def slot_key_def)
  show "\<forall>s \<in> set (t_slots (f_table last_life)). \<forall>c ip e. s_lease s \<noteq> Granted c ip 0 e"
    by (simp add: life_table)
  show "\<forall>e \<in> set (f_entries last_life). entry_ok e"
    by (simp add: life_index entry_ok_def nl_def cr_def tab_def)
  have "ipv4_of 192 168 21 9 = 0xC0A81509" by code_simp
  then show "static_tuples again_config = static_config (f_table last_life)"
    by (simp add: static_tuples_def static_config_def life_table is_static_def again_config_def config_of_def)
  show "PortAllocator_new (k_slot_lo again_config) (k_slot_hi again_config) = Some (t_allocator (f_table last_life))"
    by (simp add: life_table again_config_def config_of_def PortAllocator_new_def)
  show "k_upnp again_config" "outside_ok again_env again_config"
    by (simp_all add: outside_ok_def again_env_def again_config_def config_of_def args_default_def demo_env_def)
qed

lemma again_files: "b_files again_env = Map.empty" "b_leases_file again_env = Some (f_leases_file last_life)"
  "b_index_file again_env = Some (f_index_file last_life)"
  by (simp_all add: again_env_def)

theorem boot_revives_mappings_witness:
  "\<exists>D F'. boot again_env again_args = Daemon_runs D \<and> dm_facade D = Some F' \<and> facade_inv F'
     \<and> f_tasks F' 30001 = Some (Udp, (0xC0A81505, 4000))"
proof -
  have args: "parse_args_from (b_files again_env) again_args = Inr again_config"
    by (simp add: again_files again_args_read)
  from boot_revives_mappings [OF life_consistent life_facts(1,3-7) args again_files(2,3) life_facts(8)] life_facts(2)
  obtain D F' where D: "boot again_env again_args = Daemon_runs D" "dm_facade D = Some F'" "facade_inv F'"
    "f_entries F' = f_entries last_life"
    "\<forall>e \<in> set (f_entries F'). f_tasks F' (fe_bind_port e) = Some (fe_proto e, (fe_client e, fe_int_port e))
        \<and> serves (f_nft F') (fe_client e) (fe_int_port e) (fe_bind_port e) (fe_proto e = Tcp)" by blast
  then have "f_tasks F' 30001 = Some (Udp, (0xC0A81505, 4000))" by (simp add: life_index)
  with D(1-3) show ?thesis by blast
qed

theorem boot_serves_every_slot_witness:
  "\<exists>D. boot again_env again_args = Daemon_runs D \<and> dm_pcp D = Some False
     \<and> list_all (slot_served (dm_nft D)) (t_slots (dm_table D)) \<and> config_ok Map.empty (dm_config D)"
proof -
  have args: "parse_args_from (b_files again_env) again_args = Inr again_config"
    by (simp add: again_files again_args_read)
  from revived [OF life_consistent life_facts(1,3-7) args again_files(2,3) life_facts(8)]
  obtain D where D: "boot again_env again_args = Daemon_runs D" by metis
  moreover from boot_runsE [OF D] obtain c al T N tasks where
    "parse_args_from (b_files again_env) again_args = Inr c" and s: "boot_services again_env c T N tasks = Daemon_runs D"
    by metis
  with args services_runs(7) [OF s] have "dm_pcp D = Some False"
    by (auto simp: boot_pcp_def again_config_def config_of_def args_default_def split: option.splits if_splits)
  ultimately show ?thesis using boot_serves_every_slot [OF D] by (simp add: again_files)
qed

end
