(* ===== verification/Identity.thy ===== *)
theory Identity
  imports Upnp_Props Crypto
begin

text \<open>
  Who the device is (\<open>load_identity\<close>, \<open>read_mac\<close>, \<open>fnv1a\<close> and \<open>dp_device_id\<close> of \<open>src/src/upnpsvc.rs\<close>):
  the unique device name that the first start derives and writes and every later start reads, and the
  identity that device protection takes from it.
\<close>

section \<open>Deriving\<close>

definition fnv1a :: "u8 list \<Rightarrow> u64 \<Rightarrow> u64" where
  "fnv1a octs seed = foldl (\<lambda>h b. (h XOR ucast b) * 0x100000001b3) seed octs"

definition FNV_SEED1 :: u64 where "FNV_SEED1 = 0xcbf29ce484222325"
definition FNV_SEED2 :: u64 where "FNV_SEED2 = 0x9e3779b97f4a7c15"

text \<open>The octets of a string literal or of a name.\<close>

definition ascii :: "string \<Rightarrow> u8 list" where
  "ascii s = map of_char s"

definition digest16 :: "u8 list \<Rightarrow> u8 list" where
  "digest16 octs = to_be (fnv1a octs FNV_SEED1) @ to_be (fnv1a octs FNV_SEED2)"

text \<open>
  \<open>u8::from_str_radix(p, 16)\<close>: one leading plus sign before a digit, then digits that may not overflow.
\<close>

fun radix_digits :: "nat \<Rightarrow> string \<Rightarrow> nat option" where
  "radix_digits v [] = Some v"
| "radix_digits v (c # cs) = (case hex_digit c of
     Some d \<Rightarrow> (let v1 = v * 16 + unat d in if v1 \<le> 255 then radix_digits v1 cs else None)
   | None \<Rightarrow> None)"

definition radix_u8 :: "string \<Rightarrow> u8 option" where
  "radix_u8 s = (let ds = (if starts_with s ''+'' \<and> length s \<noteq> 1 then tl s else s)
     in if ds = [] then None else map_option of_nat (radix_digits 0 ds))"

text \<open>The address file of the bridge; the zero address stands for anything unreadable.\<close>

definition read_mac :: "string option \<Rightarrow> u8 list" where
  "read_mac address = (case address of
       None \<Rightarrow> replicate 6 0
     | Some s \<Rightarrow>
         let parts = split_on CHR '':'' (trim s)
         in if length parts = 6
            then (case those (map radix_u8 parts) of Some mac \<Rightarrow> mac | None \<Rightarrow> replicate 6 0)
            else replicate 6 0)"

text \<open>Version 5 and the variant of the name.\<close>

definition uuid_v5 :: "u8 list \<Rightarrow> u8 list" where
  "uuid_v5 raw = raw[6 := ((raw ! 6) AND 0x0f) OR 0x50, 8 := ((raw ! 8) AND 0x3f) OR 0x80]"

definition derive_name :: "u8 list \<Rightarrow> ipv4 \<Rightarrow> ipv4 \<Rightarrow> u8 list" where
  "derive_name mac lan_ip bind_ip = uuid_v5 (digest16 (ascii ''ds-lite-punch'' @ mac @ octets lan_ip @ octets bind_ip))"

text \<open>
  The name and the boot counter, and what is written when the file did not give them. \<open>stored\<close> is the
  file, \<open>None\<close> when it cannot be read.
\<close>

definition stored_name :: "string option \<Rightarrow> (string \<times> u32) option" where
  "stored_name stored = (case stored of
       None \<Rightarrow> None
     | Some s \<Rightarrow> (case lines s of
         u # b # rest \<Rightarrow> map_option (\<lambda>n. (trim u, n)) (parse_word (trim b))
       | _ \<Rightarrow> None))"

definition device_identity :: "string option \<Rightarrow> string option \<Rightarrow> ipv4 \<Rightarrow> ipv4 \<Rightarrow> string \<times> u32 \<times> string option" where
  "device_identity stored address lan_ip bind_ip = (case stored_name stored of
       Some (udn, b) \<Rightarrow> (udn, b, None)
     | None \<Rightarrow> (let udn = uuid_hex (derive_name (read_mac address) lan_ip bind_ip)
               in (udn, 1, Some (udn @ [nl] @ ''1'' @ [nl]))))"

text \<open>The identity for device protection: the octets of the name, or a digest of one that is no UUID.\<close>

definition device_id_of :: "string \<Rightarrow> u8 list" where
  "device_id_of udn =
     (let core = (if starts_with udn ''uuid:'' then drop 5 udn else udn)
      in case unhex16 (filter (\<lambda>c. c \<noteq> CHR ''-'') core) of
           Some octs \<Rightarrow> octs
         | None \<Rightarrow> digest16 (ascii ''dp-device-id'' @ ascii udn))"

section \<open>The identity stays\<close>

lemma length_digest16 [simp]: "length (digest16 octs) = 16"
  by (simp add: digest16_def)

lemma length_derive_name [simp]: "length (derive_name mac lan_ip bind_ip) = 16"
  by (simp add: derive_name_def uuid_v5_def)

lemma hex_bytes_hex: "hex_bytes v = hex v"
  by (simp add: hex_bytes_def hex_def nibble_char_def hex_char_def)

lemma nibble_word: "d < 16 \<Longrightarrow> \<not> is_ws (nibble_char d) \<and> nibble_char d \<notin> {CHR ''u'', CHR '':''}"
proof -
  have "list_all (\<lambda>n. \<not> is_ws (nibble_char (of_nat n)) \<and> nibble_char (of_nat n) \<notin> {CHR ''u'', CHR '':''}) [0..<16]"
    by code_simp
  moreover assume "d < 16"
  then have "unat d \<in> set [0..<16]" by (simp add: word_less_nat_alt)
  ultimately show ?thesis unfolding list_all_iff by fastforce
qed

lemma hex_bytes_word: "c \<in> set (hex_bytes b) \<Longrightarrow> \<not> is_ws c \<and> c \<noteq> CHR ''u''"
proof -
  assume "c \<in> set (hex_bytes b)"
  then obtain x where "c = nibble_char (drop_bit 4 x) \<or> c = nibble_char (x AND 15)"
    by (auto simp: hex_bytes_def)
  then show ?thesis using nibble_word [OF nibbles(1), of x] nibble_word [OF nibbles(2), of x] by auto
qed

lemma uuid_word: "c \<in> set (uuid_hex v) \<Longrightarrow> \<not> is_ws c \<and> c \<noteq> CHR ''u''"
  using hex_bytes_word [of c] by (auto simp: uuid_hex_def is_ws_def)

text \<open>A device id read from a generated name is the octets the name was made of.\<close>

lemma device_id_of_uuid:
  assumes "length v = 16"
  shows "device_id_of (uuid_hex v) = v"
proof -
  have "\<not> starts_with (uuid_hex v) ''uuid:''"
    using uuid_word [of _ v] dashed(2) [OF assms] by (cases "uuid_hex v") (auto simp: starts_with_def)
  then show ?thesis
    by (simp add: device_id_of_def dashed(1) [OF assms] hex_bytes_hex unhex16_hex assms)
qed

lemma name_file_back: "length v = 16 \<Longrightarrow> stored_name (Some (uuid_hex v @ [nl] @ ''1'' @ [nl])) = Some (uuid_hex v, 1)"
proof -
  assume "length v = 16"
  have "lines (concat (map (\<lambda>r. r @ [nl]) [uuid_hex v, ''1''])) = [uuid_hex v, ''1'']"
    using uuid_word [of _ v] by (intro lines_concat) (auto simp: is_ws_def nl_def cr_def)
  moreover have "trim (uuid_hex v) = uuid_hex v" using uuid_word by (intro trim_plain) blast
  moreover have "parse_word (trim ''1'') = Some (1 :: u32)" by code_simp
  ultimately show ?thesis by (simp add: stored_name_def)
qed

lemma version_bits: "drop_bit 4 (((b :: u8) AND 0x0f) OR 0x50) = 5" "drop_bit 6 (((b :: u8) AND 0x3f) OR 0x80) = 2"
  by (simp_all add: drop_bit_and drop_bit_or)

text \<open>C34 (functional): the device keeps its name. A start that finds no name derives one, with the version and variant bits
  of a name-based UUID, and writes it; every later start, whatever the bridge's address and the
  configured addresses are by then, reads the same name from that file and writes nothing; and the identity that
  device protection takes from the name is the octets the name was made of.\<close>

theorem device_keeps_its_name:
  assumes "stored_name stored = None"
  shows "\<exists>v udn text. v = derive_name (read_mac address) lan_ip bind_ip \<and> udn = uuid_hex v
    \<and> device_identity stored address lan_ip bind_ip = (udn, 1, Some text)
    \<and> device_identity (Some text) address' lan_ip' bind_ip' = (udn, 1, None)
    \<and> device_id_of udn = v \<and> drop_bit 4 (v ! 6) = 5 \<and> drop_bit 6 (v ! 8) = 2"
proof -
  define v where "v = derive_name (read_mac address) lan_ip bind_ip"
  have len: "length v = 16" by (simp add: v_def)
  have "drop_bit 4 (v ! 6) = 5" "drop_bit 6 (v ! 8) = 2"
    by (simp_all add: v_def derive_name_def uuid_v5_def version_bits)
  moreover have "device_identity stored address lan_ip bind_ip = (uuid_hex v, 1, Some (uuid_hex v @ [nl] @ ''1'' @ [nl]))"
    using assms by (simp add: device_identity_def v_def Let_def)
  moreover have "device_identity (Some (uuid_hex v @ [nl] @ ''1'' @ [nl])) address' lan_ip' bind_ip' = (uuid_hex v, 1, None)"
    unfolding device_identity_def name_file_back [OF len] by simp
  ultimately show ?thesis unfolding v_def [symmetric] using device_id_of_uuid [OF len] by blast
qed

theorem device_keeps_its_name_witness:
  "\<exists>udn text. device_identity None (Some ''02:00:5e:10:00:01'') 1 2 = (udn, 1, Some text)
    \<and> device_identity (Some text) None 3 4 = (udn, 1, None)"
proof -
  have "stored_name None = None" by (simp add: stored_name_def)
  from device_keeps_its_name [OF this, of "Some ''02:00:5e:10:00:01''" 1 2 None 3 4] show ?thesis by blast
qed

text \<open>The example of the address file.\<close>

lemma read_mac_example: "read_mac (Some (''02:00:5e:10:00:fF'' @ [nl])) = [2, 0, 0x5e, 0x10, 0, 0xff]"
  by code_simp

end
