(* ===== verification/Documents.thy ===== *)
theory Documents
  imports Control Identity
begin

text \<open>
  The documents the facade serves (\<open>src/src/upnpsvc.rs\<close>): the root descriptions of the two versions and the
  service descriptions. A service description is the tree of its actions and state variables, with the
  rendering to the text of the source.
\<close>

section \<open>Service descriptions\<close>

datatype Direction = D_in | D_out

datatype ScpdArg = Arg string Direction string

datatype ScpdAction = Act string "ScpdArg list"

text \<open>Name, evented or not, type, default, allowed values, allowed bounds.\<close>

datatype ScpdVar = Var string bool string "string option" "string list" "(string \<times> string) option"

datatype Scpd = Scpd "ScpdAction list" "ScpdVar list"

fun arg_text :: "ScpdArg \<Rightarrow> string" where
  "arg_text (Arg name dir var) = ''<argument>'' @ elem ''name'' name
     @ elem ''direction'' (case dir of D_in \<Rightarrow> ''in'' | D_out \<Rightarrow> ''out'')
     @ elem ''relatedStateVariable'' var @ ''</argument>'' @ [nl]"

fun action_text :: "ScpdAction \<Rightarrow> string" where
  "action_text (Act name args) = ''<action>'' @ elem ''name'' name
     @ (if args = [] then [] else ''<argumentList>'' @ [nl] @ concat (map arg_text args) @ ''</argumentList>'')
     @ ''</action>'' @ [nl]"

fun var_text :: "ScpdVar \<Rightarrow> string" where
  "var_text (Var name evented ty def allowed bounds) =
     ''<stateVariable sendEvents='' @ dquote @ (if evented then ''yes'' else ''no'') @ dquote @ ''>''
     @ elem ''name'' name @ elem ''dataType'' ty
     @ (case def of None \<Rightarrow> [] | Some d \<Rightarrow> elem ''defaultValue'' d)
     @ (if allowed = [] then [] else elem ''allowedValueList'' (concat (map (elem ''allowedValue'') allowed)))
     @ (case bounds of None \<Rightarrow> [] | Some (lo, hi) \<Rightarrow> elem ''allowedValueRange'' (elem ''minimum'' lo @ elem ''maximum'' hi))
     @ ''</stateVariable>'' @ [nl]"

definition xml_version :: string where
  "xml_version = ''<?xml version='' @ dquote @ ''1.0'' @ dquote @ ''?>'' @ [nl]"

definition spec_version :: string where
  "spec_version = elem ''specVersion'' (elem ''major'' ''1'' @ elem ''minor'' ''0'')"

fun scpd_text :: "Scpd \<Rightarrow> string" where
  "scpd_text (Scpd acts vars) =
     xml_version @ ''<scpd xmlns='' @ dquote @ ''urn:schemas-upnp-org:service-1-0'' @ dquote @ ''>'' @ [nl]
     @ spec_version @ [nl] @ ''<actionList>'' @ [nl] @ concat (map action_text acts) @ ''</actionList>'' @ [nl]
     @ ''<serviceStateTable>'' @ [nl] @ concat (map var_text vars) @ ''</serviceStateTable>'' @ [nl] @ ''</scpd>'' @ [nl]"

definition SCPD_WANIP :: Scpd where
  "SCPD_WANIP = Scpd
   [Act ''GetConnectionTypeInfo'' [Arg ''NewConnectionType'' D_out ''ConnectionType'',
       Arg ''NewPossibleConnectionTypes'' D_out ''PossibleConnectionTypes''],
    Act ''GetStatusInfo'' [Arg ''NewConnectionStatus'' D_out ''ConnectionStatus'',
       Arg ''NewLastConnectionError'' D_out ''LastConnectionError'',
       Arg ''NewUptime'' D_out ''Uptime''],
    Act ''GetExternalIPAddress'' [Arg ''NewExternalIPAddress'' D_out ''ExternalIPAddress''],
    Act ''AddPortMapping'' [Arg ''NewRemoteHost'' D_in ''RemoteHost'',
       Arg ''NewExternalPort'' D_in ''ExternalPort'',
       Arg ''NewProtocol'' D_in ''PortMappingProtocol'',
       Arg ''NewInternalPort'' D_in ''InternalPort'',
       Arg ''NewInternalClient'' D_in ''InternalClient'',
       Arg ''NewEnabled'' D_in ''PortMappingEnabled'',
       Arg ''NewPortMappingDescription'' D_in ''PortMappingDescription'',
       Arg ''NewLeaseDuration'' D_in ''PortMappingLeaseDuration''],
    Act ''DeletePortMapping'' [Arg ''NewRemoteHost'' D_in ''RemoteHost'',
       Arg ''NewExternalPort'' D_in ''ExternalPort'',
       Arg ''NewProtocol'' D_in ''PortMappingProtocol''],
    Act ''GetGenericPortMappingEntry'' [Arg ''NewPortMappingIndex'' D_in ''PortMappingNumberOfEntries'',
       Arg ''NewRemoteHost'' D_out ''RemoteHost'',
       Arg ''NewExternalPort'' D_out ''ExternalPort'',
       Arg ''NewProtocol'' D_out ''PortMappingProtocol'',
       Arg ''NewInternalPort'' D_out ''InternalPort'',
       Arg ''NewInternalClient'' D_out ''InternalClient'',
       Arg ''NewEnabled'' D_out ''PortMappingEnabled'',
       Arg ''NewPortMappingDescription'' D_out ''PortMappingDescription'',
       Arg ''NewLeaseDuration'' D_out ''PortMappingLeaseDuration''],
    Act ''GetSpecificPortMappingEntry'' [Arg ''NewRemoteHost'' D_in ''RemoteHost'',
       Arg ''NewExternalPort'' D_in ''ExternalPort'',
       Arg ''NewProtocol'' D_in ''PortMappingProtocol'',
       Arg ''NewInternalPort'' D_out ''InternalPort'',
       Arg ''NewInternalClient'' D_out ''InternalClient'',
       Arg ''NewEnabled'' D_out ''PortMappingEnabled'',
       Arg ''NewPortMappingDescription'' D_out ''PortMappingDescription'',
       Arg ''NewLeaseDuration'' D_out ''PortMappingLeaseDuration'']]
   [Var ''ConnectionType'' False ''string'' None [] None,
    Var ''PossibleConnectionTypes'' False ''string'' None [] None,
    Var ''ConnectionStatus'' True ''string'' None [] None,
    Var ''LastConnectionError'' False ''string'' None [] None,
    Var ''ExternalIPAddress'' True ''string'' None [] None,
    Var ''Uptime'' False ''ui4'' None [] None,
    Var ''RemoteHost'' False ''string'' None [] None,
    Var ''ExternalPort'' False ''ui2'' None [] None,
    Var ''PortMappingProtocol'' False ''string'' None [''TCP'', ''UDP''] None,
    Var ''InternalPort'' False ''ui2'' None [] None,
    Var ''InternalClient'' False ''string'' None [] None,
    Var ''PortMappingEnabled'' False ''boolean'' None [] None,
    Var ''PortMappingDescription'' False ''string'' None [] None,
    Var ''PortMappingLeaseDuration'' False ''ui4'' None [] None,
    Var ''PortMappingNumberOfEntries'' True ''ui2'' None [] None]"

definition SCPD_WANCMN :: Scpd where
  "SCPD_WANCMN = Scpd
   [Act ''GetCommonLinkProperties'' [Arg ''NewWANAccessType'' D_out ''WANAccessType'',
       Arg ''NewLayer1UpstreamMaxBitRate'' D_out ''Layer1UpstreamMaxBitRate'',
       Arg ''NewLayer1DownstreamMaxBitRate'' D_out ''Layer1DownstreamMaxBitRate'',
       Arg ''NewPhysicalLinkStatus'' D_out ''PhysicalLinkStatus'']]
   [Var ''WANAccessType'' False ''string'' None [''DSL'', ''Cable'', ''POTS''] None,
    Var ''Layer1UpstreamMaxBitRate'' False ''ui4'' None [] None,
    Var ''Layer1DownstreamMaxBitRate'' False ''ui4'' None [] None,
    Var ''PhysicalLinkStatus'' True ''string'' None [''Up'', ''Down''] None]"

definition SCPD_WIP2 :: Scpd where
  "SCPD_WIP2 = Scpd
   [Act ''SetConnectionType'' [Arg ''NewConnectionType'' D_in ''ConnectionType''],
    Act ''GetConnectionTypeInfo'' [Arg ''NewConnectionType'' D_out ''ConnectionType'',
       Arg ''NewPossibleConnectionTypes'' D_out ''PossibleConnectionTypes''],
    Act ''RequestConnection'' [],
    Act ''ForceTermination'' [],
    Act ''GetStatusInfo'' [Arg ''NewConnectionStatus'' D_out ''ConnectionStatus'',
       Arg ''NewLastConnectionError'' D_out ''LastConnectionError'',
       Arg ''NewUptime'' D_out ''Uptime''],
    Act ''GetNATRSIPStatus'' [Arg ''NewRSIPAvailable'' D_out ''RSIPAvailable'',
       Arg ''NewNATEEnabled'' D_out ''NATEEnabled''],
    Act ''GetGenericPortMappingEntry'' [Arg ''NewPortMappingIndex'' D_in ''PortMappingNumberOfEntries'',
       Arg ''NewRemoteHost'' D_out ''RemoteHost'',
       Arg ''NewExternalPort'' D_out ''ExternalPort'',
       Arg ''NewProtocol'' D_out ''PortMappingProtocol'',
       Arg ''NewInternalPort'' D_out ''InternalPort'',
       Arg ''NewInternalClient'' D_out ''InternalClient'',
       Arg ''NewEnabled'' D_out ''PortMappingEnabled'',
       Arg ''NewPortMappingDescription'' D_out ''PortMappingDescription'',
       Arg ''NewLeaseDuration'' D_out ''PortMappingLeaseDuration''],
    Act ''GetSpecificPortMappingEntry'' [Arg ''NewRemoteHost'' D_in ''RemoteHost'',
       Arg ''NewExternalPort'' D_in ''ExternalPort'',
       Arg ''NewProtocol'' D_in ''PortMappingProtocol'',
       Arg ''NewInternalPort'' D_out ''InternalPort'',
       Arg ''NewInternalClient'' D_out ''InternalClient'',
       Arg ''NewEnabled'' D_out ''PortMappingEnabled'',
       Arg ''NewPortMappingDescription'' D_out ''PortMappingDescription'',
       Arg ''NewLeaseDuration'' D_out ''PortMappingLeaseDuration''],
    Act ''AddPortMapping'' [Arg ''NewRemoteHost'' D_in ''RemoteHost'',
       Arg ''NewExternalPort'' D_in ''ExternalPort'',
       Arg ''NewProtocol'' D_in ''PortMappingProtocol'',
       Arg ''NewInternalPort'' D_in ''InternalPort'',
       Arg ''NewInternalClient'' D_in ''InternalClient'',
       Arg ''NewEnabled'' D_in ''PortMappingEnabled'',
       Arg ''NewPortMappingDescription'' D_in ''PortMappingDescription'',
       Arg ''NewLeaseDuration'' D_in ''PortMappingLeaseDuration''],
    Act ''AddAnyPortMapping'' [Arg ''NewRemoteHost'' D_in ''RemoteHost'',
       Arg ''NewExternalPort'' D_in ''ExternalPort'',
       Arg ''NewProtocol'' D_in ''PortMappingProtocol'',
       Arg ''NewInternalPort'' D_in ''InternalPort'',
       Arg ''NewInternalClient'' D_in ''InternalClient'',
       Arg ''NewEnabled'' D_in ''PortMappingEnabled'',
       Arg ''NewPortMappingDescription'' D_in ''PortMappingDescription'',
       Arg ''NewLeaseDuration'' D_in ''PortMappingLeaseDuration'',
       Arg ''NewReservedPort'' D_out ''ExternalPort''],
    Act ''DeletePortMapping'' [Arg ''NewRemoteHost'' D_in ''RemoteHost'',
       Arg ''NewExternalPort'' D_in ''ExternalPort'',
       Arg ''NewProtocol'' D_in ''PortMappingProtocol''],
    Act ''DeletePortMappingRange'' [Arg ''NewStartPort'' D_in ''ExternalPort'',
       Arg ''NewEndPort'' D_in ''ExternalPort'',
       Arg ''NewProtocol'' D_in ''PortMappingProtocol'',
       Arg ''NewManage'' D_in ''A_ARG_TYPE_Manage''],
    Act ''GetExternalIPAddress'' [Arg ''NewExternalIPAddress'' D_out ''ExternalIPAddress''],
    Act ''GetListOfPortMappings'' [Arg ''NewStartPort'' D_in ''ExternalPort'',
       Arg ''NewEndPort'' D_in ''ExternalPort'',
       Arg ''NewProtocol'' D_in ''PortMappingProtocol'',
       Arg ''NewManage'' D_in ''A_ARG_TYPE_Manage'',
       Arg ''NewNumberOfPorts'' D_in ''PortMappingNumberOfEntries'',
       Arg ''NewPortListing'' D_out ''A_ARG_TYPE_PortListing'']]
   [Var ''ConnectionType'' False ''string'' (Some ''IP_Routed'') [''Unconfigured'', ''IP_Routed'', ''IP_Bridged''] None,
    Var ''PossibleConnectionTypes'' True ''string'' None [] None,
    Var ''ConnectionStatus'' True ''string'' None [''Unconfigured'', ''Connecting'', ''Connected'', ''PendingDisconnect'', ''Disconnecting'', ''Disconnected''] None,
    Var ''Uptime'' False ''ui4'' None [] None,
    Var ''LastConnectionError'' False ''string'' None [''ERROR_NONE'', ''ERROR_COMMAND_ABORTED'', ''ERROR_NOT_ENABLED_FOR_INTERNET'', ''ERROR_ISP_DISCONNECT'', ''ERROR_USER_DISCONNECT'', ''ERROR_IDLE_DISCONNECT'', ''ERROR_FORCED_DISCONNECT'', ''ERROR_NO_CARRIER'', ''ERROR_IP_CONFIGURATION'', ''ERROR_UNKNOWN''] None,
    Var ''AutoDisconnectTime'' False ''ui4'' None [] None,
    Var ''IdleDisconnectTime'' False ''ui4'' None [] None,
    Var ''WarnDisconnectDelay'' False ''ui4'' None [] None,
    Var ''RSIPAvailable'' False ''boolean'' None [] None,
    Var ''NATEEnabled'' False ''boolean'' None [] None,
    Var ''ExternalIPAddress'' True ''string'' None [] None,
    Var ''PortMappingNumberOfEntries'' True ''ui2'' None [] None,
    Var ''PortMappingEnabled'' False ''boolean'' None [] None,
    Var ''PortMappingLeaseDuration'' False ''ui4'' (Some ''Vendor-defined'') [] (Some (''0'', ''604800'')),
    Var ''RemoteHost'' False ''string'' None [] None,
    Var ''ExternalPort'' False ''ui2'' None [] (Some (''0'', ''65535'')),
    Var ''InternalPort'' False ''ui2'' None [] (Some (''1'', ''65535'')),
    Var ''PortMappingProtocol'' False ''string'' None [''TCP'', ''UDP''] None,
    Var ''InternalClient'' False ''string'' None [] None,
    Var ''PortMappingDescription'' False ''string'' None [] None,
    Var ''SystemUpdateID'' True ''ui4'' None [] None,
    Var ''A_ARG_TYPE_Manage'' False ''boolean'' None [] None,
    Var ''A_ARG_TYPE_PortListing'' False ''string'' None [] None]"

definition SCPD_DP :: Scpd where
  "SCPD_DP = Scpd
   [Act ''SendSetupMessage'' [Arg ''ProtocolType'' D_in ''A_ARG_TYPE_String'',
       Arg ''InMessage'' D_in ''A_ARG_TYPE_Base64'',
       Arg ''OutMessage'' D_out ''A_ARG_TYPE_Base64''],
    Act ''GetSupportedProtocols'' [Arg ''ProtocolList'' D_out ''SupportedProtocols''],
    Act ''GetAssignedRoles'' [Arg ''RoleList'' D_out ''A_ARG_TYPE_String''],
    Act ''GetRolesForAction'' [Arg ''DeviceUDN'' D_in ''A_ARG_TYPE_String'',
       Arg ''ServiceId'' D_in ''A_ARG_TYPE_String'',
       Arg ''ActionName'' D_in ''A_ARG_TYPE_String'',
       Arg ''RoleList'' D_out ''A_ARG_TYPE_String'',
       Arg ''RestrictedRoleList'' D_out ''A_ARG_TYPE_String''],
    Act ''GetUserLoginChallenge'' [Arg ''ProtocolType'' D_in ''A_ARG_TYPE_String'',
       Arg ''Name'' D_in ''A_ARG_TYPE_String'',
       Arg ''Salt'' D_out ''A_ARG_TYPE_Base64'',
       Arg ''Challenge'' D_out ''A_ARG_TYPE_Base64''],
    Act ''UserLogin'' [Arg ''ProtocolType'' D_in ''A_ARG_TYPE_String'',
       Arg ''Challenge'' D_in ''A_ARG_TYPE_Base64'',
       Arg ''Authenticator'' D_in ''A_ARG_TYPE_Base64''],
    Act ''UserLogout'' [],
    Act ''GetACLData'' [Arg ''ACL'' D_out ''A_ARG_TYPE_ACL''],
    Act ''AddIdentityList'' [Arg ''IdentityList'' D_in ''A_ARG_TYPE_IdentityList'',
       Arg ''IdentityListResult'' D_out ''A_ARG_TYPE_IdentityList''],
    Act ''RemoveIdentity'' [Arg ''Identity'' D_in ''A_ARG_TYPE_Identity''],
    Act ''SetUserLoginPassword'' [Arg ''ProtocolType'' D_in ''A_ARG_TYPE_String'',
       Arg ''Name'' D_in ''A_ARG_TYPE_String'',
       Arg ''Stored'' D_in ''A_ARG_TYPE_Base64'',
       Arg ''Salt'' D_in ''A_ARG_TYPE_Base64''],
    Act ''AddRolesForIdentity'' [Arg ''Identity'' D_in ''A_ARG_TYPE_Identity'',
       Arg ''RoleList'' D_in ''A_ARG_TYPE_String''],
    Act ''RemoveRolesForIdentity'' [Arg ''Identity'' D_in ''A_ARG_TYPE_Identity'',
       Arg ''RoleList'' D_in ''A_ARG_TYPE_String'']]
   [Var ''SetupReady'' True ''boolean'' None [] None,
    Var ''SupportedProtocols'' False ''string'' None [] None,
    Var ''A_ARG_TYPE_ACL'' False ''string'' None [] None,
    Var ''A_ARG_TYPE_IdentityList'' False ''string'' None [] None,
    Var ''A_ARG_TYPE_Identity'' False ''string'' None [] None,
    Var ''A_ARG_TYPE_Base64'' False ''bin.base64'' None [] None,
    Var ''A_ARG_TYPE_String'' False ''string'' None [] None]"

definition SCPD_WANPPP :: Scpd where "SCPD_WANPPP = SCPD_WANIP"

section \<open>Root descriptions\<close>

record ServiceDesc =
  sv_type :: string
  sv_id :: string
  sv_scpd :: string
  sv_control :: string
  sv_event :: string

definition service_text :: "ServiceDesc \<Rightarrow> string" where
  "service_text s = elem ''service'' (elem ''serviceType'' (sv_type s) @ elem ''serviceId'' (sv_id s)
     @ elem ''SCPDURL'' (sv_scpd s) @ elem ''controlURL'' (sv_control s) @ elem ''eventSubURL'' (sv_event s))"

definition wan_common :: "string \<Rightarrow> ServiceDesc" where
  "wan_common scpd = \<lparr>sv_type = ''urn:schemas-upnp-org:service:WANCommonInterfaceConfig:1'',
     sv_id = ''urn:upnp-org:serviceId:WANCommonIFC1'', sv_scpd = scpd, sv_control = ''/ctl/CmnIfCfg'',
     sv_event = ''/ctl/CmnIfCfg''\<rparr>"

definition wan_ip1 :: ServiceDesc where
  "wan_ip1 = \<lparr>sv_type = ''urn:schemas-upnp-org:service:WANIPConnection:1'', sv_id = ''urn:upnp-org:serviceId:WANIPConn1'',
     sv_scpd = ''/WANIPC.xml'', sv_control = ''/ctl/IPConn'', sv_event = ''/ctl/IPConn''\<rparr>"

definition wan_ppp1 :: ServiceDesc where
  "wan_ppp1 = \<lparr>sv_type = ''urn:schemas-upnp-org:service:WANPPPConnection:1'', sv_id = ''urn:upnp-org:serviceId:WANPPPConn1'',
     sv_scpd = ''/WANPPP.xml'', sv_control = ''/ctl/PPPConn'', sv_event = ''/ctl/PPPConn''\<rparr>"

definition wan_ip2 :: ServiceDesc where
  "wan_ip2 = \<lparr>sv_type = ''urn:schemas-upnp-org:service:WANIPConnection:2'', sv_id = ''urn:upnp-org:serviceId:WANIPConn2'',
     sv_scpd = ''/igd/v2/WANIPCn.xml'', sv_control = ''/ctl/IPConn'', sv_event = ''/ctl/IPConn''\<rparr>"

definition device_protection1 :: ServiceDesc where
  "device_protection1 = \<lparr>sv_type = ''urn:schemas-upnp-org:service:DeviceProtection:1'',
     sv_id = ''urn:upnp-org:serviceId:DeviceProtection1'', sv_scpd = ''/igd/v2/DP.xml'', sv_control = ''/ctl/DP'',
     sv_event = ''/ctl/DP''\<rparr>"

text \<open>The name of an embedded device, from the root's and a tag.\<close>

definition derived_udn :: "string \<Rightarrow> string \<Rightarrow> string" where
  "derived_udn base tag =
     uuid_hex (uuid_v5 (digest16 (ascii base @ ascii tag)))"

definition root_head :: "ipv4 \<Rightarrow> u16 \<Rightarrow> string \<Rightarrow> string" where
  "root_head lan_ip port inner =
     xml_version @ ''<root xmlns='' @ dquote @ ''urn:schemas-upnp-org:device-1-0'' @ dquote @ ''>'' @ spec_version
     @ elem ''URLBase'' (''http://'' @ show_ipv4 lan_ip @ '':'' @ show_word port @ ''/'') @ elem ''device'' inner
     @ ''</root>'' @ [nl]"

definition root_names :: "string \<Rightarrow> string \<Rightarrow> string \<Rightarrow> string" where
  "root_names ty name udn = elem ''deviceType'' ty @ elem ''friendlyName'' name
     @ elem ''manufacturer'' ''ds-lite-punch''
     @ elem ''modelDescription'' ''CGNAT-aware IGD facade for the Virgin Media ds-lite line''
     @ elem ''modelName'' ''ds-lite-punch'' @ elem ''modelNumber'' ''0.1'' @ elem ''UDN'' (''uuid:'' @ udn)"

definition device_names :: "string \<Rightarrow> string \<Rightarrow> string \<Rightarrow> string" where
  "device_names ty name udn = elem ''deviceType'' ty @ elem ''friendlyName'' name
     @ elem ''manufacturer'' ''ds-lite-punch'' @ elem ''modelName'' ''ds-lite-punch'' @ elem ''UDN'' (''uuid:'' @ udn)"

definition sub_device :: "string \<Rightarrow> string" where
  "sub_device inner = elem ''deviceList'' (elem ''device'' inner)"

definition service_list :: "ServiceDesc list \<Rightarrow> string" where
  "service_list ss = elem ''serviceList'' (concat (map service_text ss))"

definition root_desc :: "ipv4 \<Rightarrow> u16 \<Rightarrow> string \<Rightarrow> string \<Rightarrow> string" where
  "root_desc lan_ip port name udn = root_head lan_ip port
     (root_names ''urn:schemas-upnp-org:device:InternetGatewayDevice:1'' name udn
      @ sub_device (device_names ''urn:schemas-upnp-org:device:WANDevice:1'' ''WANDevice'' (derived_udn udn ''WANDevice'')
        @ service_list [wan_common ''/WANCfg.xml'']
        @ sub_device (device_names ''urn:schemas-upnp-org:device:WANConnectionDevice:1'' ''WANConnectionDevice''
            (derived_udn udn ''WANConn'')
          @ service_list [wan_ip1, wan_ppp1])))"

definition root_desc_v2 :: "ipv4 \<Rightarrow> u16 \<Rightarrow> string \<Rightarrow> string \<Rightarrow> string" where
  "root_desc_v2 lan_ip port name udn = root_head lan_ip port
     (root_names ''urn:schemas-upnp-org:device:InternetGatewayDevice:2'' name udn
      @ service_list [device_protection1, wan_common ''/igd/v1/WANCfg.xml'']
      @ sub_device (device_names ''urn:schemas-upnp-org:device:WANDevice:2'' ''WANDevice'' (derived_udn udn ''WANDevice'')
        @ sub_device (device_names ''urn:schemas-upnp-org:device:WANConnectionDevice:2'' ''WANConnectionDevice''
            (derived_udn udn ''WANConn'')
          @ service_list [wan_ip2])))"

section \<open>What a path serves\<close>

definition scpd_of :: "Doc \<Rightarrow> Scpd option" where
  "scpd_of d = (case d of
       Root_desc \<Rightarrow> None | Root_desc_v2 \<Rightarrow> None | Scpd_wanip \<Rightarrow> Some SCPD_WANIP | Scpd_wanppp \<Rightarrow> Some SCPD_WANPPP
     | Scpd_wancmn \<Rightarrow> Some SCPD_WANCMN | Scpd_wip2 \<Rightarrow> Some SCPD_WIP2 | Scpd_dp \<Rightarrow> Some SCPD_DP)"

definition doc_text :: "ipv4 \<Rightarrow> u16 \<Rightarrow> string \<Rightarrow> string \<Rightarrow> Doc \<Rightarrow> string" where
  "doc_text lan_ip port name udn d = (case scpd_of d of
       Some s \<Rightarrow> scpd_text s
     | None \<Rightarrow> if d = Root_desc_v2 then root_desc_v2 lan_ip port name udn else root_desc lan_ip port name udn)"

text \<open>The services of a root description, by its version.\<close>

definition described_services :: "bool \<Rightarrow> ServiceDesc list" where
  "described_services v2 = (if v2 then [device_protection1, wan_common ''/igd/v1/WANCfg.xml'', wan_ip2]
     else [wan_common ''/WANCfg.xml'', wan_ip1, wan_ppp1])"

definition scpd_actions :: "Scpd \<Rightarrow> ScpdAction list" where
  "scpd_actions s = (case s of Scpd acts vars \<Rightarrow> acts)"

definition scpd_vars :: "Scpd \<Rightarrow> ScpdVar list" where
  "scpd_vars s = (case s of Scpd acts vars \<Rightarrow> vars)"

definition outputs :: "ScpdArg list \<Rightarrow> string list" where
  "outputs args = List.map_filter (\<lambda>a. case a of Arg n D_out v \<Rightarrow> Some n | _ \<Rightarrow> None) args"

end
