(* ===== verification/Calendar.thy ===== *)
theory Calendar
  imports Text
begin

text \<open>
  The date line of the discovery texts (\<open>http_date\<close> of \<open>src/upnp.rs\<close>): the code's computation of the
  civil date from the seconds of the clock, and the Gregorian calendar it has to agree with, defined
  by the lengths of years and months.
\<close>

section \<open>The computation\<close>

text \<open>The days since 1970 never overflow the \<open>i64\<close> of the code, and none of its steps is negative; the
  year, month and day are integers here.\<close>

definition year_of_era :: "int \<Rightarrow> int" where
  "year_of_era doe = (doe - doe div 1460 + doe div 36524 - doe div 146096) div 365"

definition civil :: "int \<Rightarrow> int \<times> int \<times> int" where
  "civil days =
     (let z = days + 719468; era = z div 146097; doe = z mod 146097;
          yoe = year_of_era doe; y0 = yoe + era * 400;
          doy = doe - (365 * yoe + yoe div 4 - yoe div 100);
          mp = (5 * doy + 2) div 153;
          d = doy - (153 * mp + 2) div 5 + 1;
          m = (if mp < 10 then mp + 3 else mp - 9);
          y = (if m \<le> 2 then y0 + 1 else y0)
      in (y, m, d))"

definition WD :: "string list" where
  "WD = [''Sun'', ''Mon'', ''Tue'', ''Wed'', ''Thu'', ''Fri'', ''Sat'']"

definition MON :: "string list" where
  "MON = [''Jan'', ''Feb'', ''Mar'', ''Apr'', ''May'', ''Jun'', ''Jul'', ''Aug'', ''Sep'', ''Oct'', ''Nov'', ''Dec'']"

text \<open>\<open>{:02}\<close>.\<close>

definition two_digits :: "nat \<Rightarrow> string" where
  "two_digits n = (if n < 10 then CHR ''0'' # show_nat n else show_nat n)"

definition date_text :: "nat \<Rightarrow> int \<Rightarrow> int \<Rightarrow> int \<Rightarrow> nat \<Rightarrow> nat \<Rightarrow> nat \<Rightarrow> string" where
  "date_text wd y m d hh mm ss =
     WD ! wd @ '', '' @ two_digits (nat d) @ '' '' @ MON ! nat (m - 1) @ '' '' @ show_nat (nat y) @ '' ''
       @ two_digits hh @ '':'' @ two_digits mm @ '':'' @ two_digits ss @ '' GMT''"

definition http_date :: "u64 \<Rightarrow> string" where
  "http_date unix =
     (let days = int (unat unix div 86400); secs = unat unix mod 86400; (y, m, d) = civil days
      in date_text (nat ((days + 4) mod 7)) y m d (secs div 3600) (secs mod 3600 div 60) (secs mod 60))"

section \<open>The calendar\<close>

definition leap :: "int \<Rightarrow> bool" where
  "leap y \<longleftrightarrow> 4 dvd y \<and> (\<not> 100 dvd y \<or> 400 dvd y)"

definition month_days :: "int \<Rightarrow> int \<Rightarrow> int" where
  "month_days y m = (if m = 2 then (if leap y then 29 else 28) else if m \<in> {4, 6, 9, 11} then 30 else 31)"

definition year_days :: "int \<Rightarrow> int" where
  "year_days y = (if leap y then 366 else 365)"

definition valid_date :: "int \<times> int \<times> int \<Rightarrow> bool" where
  "valid_date t = (case t of (y, m, d) \<Rightarrow> 0 \<le> y \<and> 1 \<le> m \<and> m \<le> 12 \<and> 1 \<le> d \<and> d \<le> month_days y m)"

text \<open>The days from the first of January of the year 0: whole years, whole months, days.\<close>

definition day_number :: "int \<times> int \<times> int \<Rightarrow> int" where
  "day_number t = (case t of (y, m, d) \<Rightarrow>
     (\<Sum>k<nat y. year_days (int k)) + (\<Sum>k = 1..<nat m. month_days y (int k)) + (d - 1))"

section \<open>The two agree\<close>

definition one_if :: "bool \<Rightarrow> int" where
  "one_if b = (if b then 1 else 0)"

lemma leap_count: "one_if (leap y) = one_if (4 dvd y) - one_if (100 dvd y) + one_if (400 dvd y)"
proof -
  have gen: "one_if (A \<and> (\<not> B \<or> C)) = one_if A - one_if B + one_if C" if "C \<longrightarrow> B" "B \<longrightarrow> A" for A B C
    using that by (cases A; cases B; cases C) (simp_all add: one_if_def)
  have "400 dvd y \<longrightarrow> 100 dvd y" by (rule impI, rule dvd_trans [of 100 400]) simp_all
  moreover have "100 dvd y \<longrightarrow> 4 dvd y" by (rule impI, rule dvd_trans [of 4 100]) simp_all
  ultimately show ?thesis unfolding leap_def by (rule gen)
qed

lemma div_next:
  assumes "0 < (c::int)"
  shows "(y + c) div c = (y + (c - 1)) div c + one_if (c dvd y)"
proof -
  define q r where "q = y div c" and "r = y mod c"
  then have y: "y = r + c * q" and r: "0 \<le> r" "r < c" and zero: "c dvd y \<longleftrightarrow> r = 0"
    using assms by (simp_all add: dvd_eq_mod_eq_0)
  have "y + c = r + c * (q + 1)" by (simp add: y algebra_simps)
  then have "(y + c) div c = r div c + (q + 1)" using assms by (simp only: div_mult_self2)
  then have "(y + c) div c = q + 1" using r by simp
  moreover have "(y + (c - 1)) div c = (if r = 0 then q else q + 1)"
  proof (cases "r = 0")
    case True
    then have "y + (c - 1) = (c - 1) + c * q" by (simp add: y)
    then have "(y + (c - 1)) div c = (c - 1) div c + q" using assms by (simp only: div_mult_self2)
    with True assms show ?thesis by simp
  next
    case False
    have "y + (c - 1) = (r - 1) + c * (q + 1)" by (simp add: y algebra_simps)
    then have "(y + (c - 1)) div c = (r - 1) div c + (q + 1)" using assms by (simp only: div_mult_self2)
    with False r show ?thesis by simp
  qed
  ultimately show ?thesis using zero by (simp add: one_if_def)
qed

lemma div_step:
  "(y + 4) div 4 = (y + 3) div 4 + one_if (4 dvd y)"
  "(y + 100) div 100 = (y + 99) div 100 + one_if (100 dvd y)"
  "(y + 400) div 400 = (y + 399) div 400 + one_if (400 dvd y)"
  using div_next [of 4 y] div_next [of 100 y] div_next [of 400 y] by simp_all

text \<open>The leap days of the years before \<open>y\<close>.\<close>

definition leaps :: "int \<Rightarrow> int" where
  "leaps y = (y + 3) div 4 - (y + 99) div 100 + (y + 399) div 400"

lemma leaps_next: "leaps (y + 1) = leaps y + one_if (leap y)"
proof -
  have "y + 1 + 3 = y + 4" "y + 1 + 99 = y + 100" "y + 1 + 399 = y + 400" by simp_all
  then show ?thesis unfolding leaps_def leap_count by (simp only: div_step)
qed

lemma years_sum: "(\<Sum>k<n. year_days (int k)) = 365 * int n + leaps (int n)"
proof (induction n)
  case 0
  show ?case by (simp add: leaps_def)
next
  case (Suc n)
  have "year_days (int n) = 365 + one_if (leap (int n))" by (simp add: year_days_def one_if_def)
  with Suc leaps_next [of "int n"] show ?case by (simp add: algebra_simps)
qed

text \<open>The first of March of a year; the first of January of the next is 306 days later.\<close>

definition march :: "int \<Rightarrow> int" where
  "march y = 365 * y + (y div 4 - y div 100 + y div 400) + 60"

lemma leaps_march: "leaps (y + 1) = y div 4 - y div 100 + y div 400 + 1"
proof -
  have "y + 1 + 3 = y + 4" "y + 1 + 99 = y + 100" "y + 1 + 399 = y + 400" by simp_all
  moreover have "(y + 4) div 4 = y div 4 + 1" "(y + 100) div 100 = y div 100 + 1" "(y + 400) div 400 = y div 400 + 1"
    by simp_all
  ultimately show ?thesis unfolding leaps_def by (simp only: algebra_simps)
qed

lemma year_start:
  assumes "0 \<le> y"
  shows "(\<Sum>k<nat y. year_days (int k)) + 59 + one_if (leap y) = march y"
    and "(\<Sum>k<nat (y + 1). year_days (int k)) = march y + 306"
proof -
  define q where "q = y div 4 - y div 100 + y div 400"
  have l: "leaps (y + 1) = q + 1" "march y = 365 * y + q + 60"
    by (simp_all only: leaps_march march_def q_def)
  then show "(\<Sum>k<nat y. year_days (int k)) + 59 + one_if (leap y) = march y"
    using assms leaps_next [of y] by (simp add: years_sum)
  show "(\<Sum>k<nat (y + 1). year_days (int k)) = march y + 306"
    using assms l by (simp add: years_sum)
qed

text \<open>An era of 400 years from a first of March: its day as century, four years, year and day.\<close>

definition day_of_era :: "int \<Rightarrow> int \<Rightarrow> int \<Rightarrow> int \<Rightarrow> int" where
  "day_of_era c k j t = 36524 * c + 1461 * k + 365 * j + t"

definition era_day_ok :: "int \<Rightarrow> int \<Rightarrow> int \<Rightarrow> int \<Rightarrow> bool" where
  "era_day_ok c k j t \<longleftrightarrow> 0 \<le> c \<and> c \<le> 3 \<and> 0 \<le> k \<and> k \<le> 24 \<and> 0 \<le> j \<and> j \<le> 3
     \<and> 0 \<le> t \<and> t \<le> 364 + one_if (j = 3 \<and> (k < 24 \<or> c = 3))"

lemma era_day_cases:
  assumes "0 \<le> doe" and "doe < 146097"
  obtains c k j t where "doe = day_of_era c k j t" "era_day_ok c k j t"
proof -
  define c where "c = (if doe = 146096 then 3 else doe div 36524)"
  define r where "r = doe - 36524 * c"
  define k where "k = r div 1461"
  define s where "s = r mod 1461"
  define j where "j = (if s = 1460 then 3 else s div 365)"
  have c: "0 \<le> c" "c \<le> 3" and r: "0 \<le> r" "r \<le> 36524" "c < 3 \<Longrightarrow> r < 36524"
  proof -
    have "doe \<noteq> 146096 \<Longrightarrow> doe = 36524 * (doe div 36524) + doe mod 36524" "0 \<le> doe mod 36524" "doe mod 36524 < 36524"
      by simp_all
    then show "0 \<le> c" "c \<le> 3" "0 \<le> r" "r \<le> 36524" "c < 3 \<Longrightarrow> r < 36524"
      using assms unfolding c_def r_def by (auto split: if_splits)
  qed
  have k: "0 \<le> k" "k \<le> 24" "r = 1461 * k + s" "0 \<le> s" "s < 1461"
    using r unfolding k_def s_def by simp_all
  have last: "k < 24 \<or> c = 3" if "s = 1460"
    using k c(2) r(3) that by linarith
  have j: "0 \<le> j" "j \<le> 3" "s = 365 * j + (s - 365 * j)" "0 \<le> s - 365 * j"
    "s - 365 * j \<le> 364 + one_if (j = 3 \<and> (k < 24 \<or> c = 3))"
  proof -
    have d: "s = 365 * (s div 365) + s mod 365" "0 \<le> s mod 365" "s mod 365 < 365" by simp_all
    show "0 \<le> j" using k d unfolding j_def by auto
    show "j \<le> 3" using k d unfolding j_def by auto
    show "s = 365 * j + (s - 365 * j)" by simp
    show "0 \<le> s - 365 * j" using k d unfolding j_def by auto
    show "s - 365 * j \<le> 364 + one_if (j = 3 \<and> (k < 24 \<or> c = 3))"
      using d last unfolding j_def one_if_def by auto
  qed
  have "doe = day_of_era c k j (s - 365 * j)" using k(3) by (simp add: day_of_era_def r_def)
  moreover have "era_day_ok c k j (s - 365 * j)" using c k j by (simp add: era_day_ok_def)
  ultimately show ?thesis by (rule that)
qed

lemma era_year:
  assumes ok: "era_day_ok c k j t"
  shows "year_of_era (day_of_era c k j t) = 100 * c + 4 * k + j"
proof -
  let ?doe = "day_of_era c k j t"
  have b: "0 \<le> c" "c \<le> 3" "0 \<le> k" "k \<le> 24" "0 \<le> j" "j \<le> 3" "0 \<le> t" "t \<le> 365" "t = 365 \<Longrightarrow> j = 3"
    using ok by (auto simp: era_day_ok_def one_if_def split: if_splits)
  define h :: int where "h = one_if (1460 \<le> 24 * c + k + 365 * j + t)"
  define e :: int where "e = one_if (?doe = 146096)"
  have "?doe div 1460 = 25 * c + k + h"
    using b by (intro int_div_pos_eq [where r = "24 * c + k + 365 * j + t - 1460 * h"])
      (auto simp: day_of_era_def h_def one_if_def)
  moreover have "?doe div 36524 = c + e"
    using ok by (intro int_div_pos_eq [where r = "1461 * k + 365 * j + t - 36524 * e"])
      (auto simp: day_of_era_def era_day_ok_def e_def one_if_def split: if_splits)
  moreover have "?doe div 146096 = e"
    using ok by (intro int_div_pos_eq [where r = "?doe - 146096 * e"])
      (auto simp: day_of_era_def era_day_ok_def e_def one_if_def split: if_splits)
  ultimately have "?doe - ?doe div 1460 + ?doe div 36524 - ?doe div 146096 = 365 * (100 * c + 4 * k + j) + (t - h)"
    by (simp add: day_of_era_def)
  moreover have "0 \<le> t - h" "t - h < 365"
  proof -
    have "t < 365 \<or> j = 3 \<and> t = 365" using b by linarith
    then show "0 \<le> t - h" "t - h < 365" using b unfolding h_def one_if_def by auto
  qed
  ultimately show ?thesis unfolding year_of_era_def by (intro int_div_pos_eq) simp_all
qed

text \<open>The day in the year that begins in March, and the length of that year.\<close>

lemma era_start:
  assumes ok: "era_day_ok c k j t" and y: "y = 100 * c + 4 * k + j"
  shows "day_of_era c k j t - (365 * y + y div 4 - y div 100) = t"
    and "0 \<le> y" and "y < 400" and "t \<le> 364 + one_if (leap (y + 1 + 400 * era))"
proof -
  have b: "0 \<le> c" "c \<le> 3" "0 \<le> k" "k \<le> 24" "0 \<le> j" "j \<le> 3"
    using ok by (auto simp: era_day_ok_def)
  have "y div 4 = 25 * c + k" using b by (intro int_div_pos_eq [where r = j]) (auto simp: y)
  moreover have "y div 100 = c" using b by (intro int_div_pos_eq [where r = "4 * k + j"]) (auto simp: y)
  ultimately show "day_of_era c k j t - (365 * y + y div 4 - y div 100) = t"
    by (simp add: day_of_era_def y)
  show "0 \<le> y" "y < 400" using b by (auto simp: y)
  have "leap (y + 1 + 400 * era)" if j: "j = 3" and kc: "k < 24 \<or> c = 3"
  proof -
    have "y + 1 + 400 * era = 4 * (25 * c + k + 1 + 100 * era)" by (simp add: y j)
    then have four: "4 dvd y + 1 + 400 * era" by (metis dvd_triv_left)
    have hundred: "y + 1 + 400 * era = 4 * (k + 1) + 100 * (c + 4 * era)" by (simp add: y j)
    show ?thesis
    proof (cases "k < 24")
      case True
      have "\<not> 100 dvd 4 * (k + 1)"
      proof
        assume "100 dvd 4 * (k + 1)"
        then have "100 \<le> 4 * (k + 1)" using b by (intro zdvd_imp_le) simp_all
        with True show False by simp
      qed
      then have "\<not> 100 dvd y + 1 + 400 * era" unfolding hundred by (metis dvd_add_left_iff dvd_triv_left)
      with four show ?thesis by (simp add: leap_def)
    next
      case False
      with kc b have "y + 1 + 400 * era = 400 * (1 + era)" by (simp add: y j)
      then have "400 dvd y + 1 + 400 * era" by (metis dvd_triv_left)
      with four show ?thesis by (simp add: leap_def)
    qed
  qed
  with ok show "t \<le> 364 + one_if (leap (y + 1 + 400 * era))"
    by (auto simp: era_day_ok_def one_if_def split: if_splits)
qed

text \<open>Months of the year that begins in March.\<close>

definition months_before :: "int \<Rightarrow> int \<Rightarrow> int" where
  "months_before y m = (\<Sum>k = 1..<nat m. month_days y (int k))"

lemma month_sums:
  "months_before y 1 = 0" "months_before y 2 = 31" "months_before y 3 = 59 + one_if (leap y)"
  "months_before y 4 = 90 + one_if (leap y)" "months_before y 5 = 120 + one_if (leap y)"
  "months_before y 6 = 151 + one_if (leap y)" "months_before y 7 = 181 + one_if (leap y)"
  "months_before y 8 = 212 + one_if (leap y)" "months_before y 9 = 243 + one_if (leap y)"
  "months_before y 10 = 273 + one_if (leap y)" "months_before y 11 = 304 + one_if (leap y)"
  "months_before y 12 = 334 + one_if (leap y)"
  by (simp_all add: months_before_def eval_nat_numeral month_days_def one_if_def)

lemma day_number_months:
  "day_number (y, m, d) = (\<Sum>k<nat y. year_days (int k)) + months_before y m + (d - 1)"
  by (simp add: day_number_def months_before_def)

lemma march_month:
  assumes t: "0 \<le> t" "t \<le> 364 + one_if (leap (y0 + 1))" and y0: "0 \<le> y0"
    and mp: "mp = (5 * t + 2) div 153" and d: "d = t - (153 * mp + 2) div 5 + 1"
    and m: "m = (if mp < 10 then mp + 3 else mp - 9)" and y: "y = (if m \<le> 2 then y0 + 1 else y0)"
  shows "valid_date (y, m, d) \<and> day_number (y, m, d) = march y0 + t"
proof -
  have q: "153 * mp \<le> 5 * t + 2" "5 * t + 2 < 153 * mp + 153" and "t \<le> 365"
    using t by (simp_all add: mp one_if_def split: if_splits)
  then have "0 \<le> mp" "mp \<le> 11" using t(1) by linarith+
  then have "mp = 0 \<or> mp = 1 \<or> mp = 2 \<or> mp = 3 \<or> mp = 4 \<or> mp = 5 \<or> mp = 6 \<or> mp = 7 \<or> mp = 8 \<or> mp = 9
      \<or> mp = 10 \<or> mp = 11" by presburger
  then consider "mp = 0" | "mp = 1" | "mp = 2" | "mp = 3" | "mp = 4" | "mp = 5" | "mp = 6" | "mp = 7" | "mp = 8"
    | "mp = 9" | "mp = 10" | "mp = 11" by blast
  then show ?thesis
    using q t y0 year_start [OF y0]
    by cases (simp_all add: m y d valid_date_def day_number_months month_sums, simp_all add: month_days_def one_if_def split: if_splits)
qed

lemma march_era: "0 \<le> y \<Longrightarrow> y < 400 \<Longrightarrow> march (y + 400 * era) = 146097 * era + (365 * y + y div 4 - y div 100) + 60"
proof -
  assume y: "0 \<le> y" "y < 400"
  have "y + 400 * era = y + 4 * (100 * era)" "y + 400 * era = y + 100 * (4 * era)" by simp_all
  then have "(y + 400 * era) div 4 = 100 * era + y div 4" "(y + 400 * era) div 100 = 4 * era + y div 100"
    by (metis div_mult_self2 zero_neq_numeral)+
  moreover have "(y + 400 * era) div 400 = era" using y by simp
  ultimately show ?thesis unfolding march_def by (simp only: algebra_simps)
qed

lemma epoch_day: "day_number (1970, 1, 1) = 719528"
  by (simp add: day_number_def years_sum [of 1970, simplified] leaps_def)

lemma civil_is_the_date:
  assumes "0 \<le> days"
  shows "valid_date (civil days) \<and> day_number (civil days) = day_number (1970, 1, 1) + days"
proof -
  define era doe where "era = (days + 719468) div 146097" and "doe = (days + 719468) mod 146097"
  have era: "0 \<le> era" "days + 719468 = 146097 * era + doe" and doe: "0 \<le> doe" "doe < 146097"
    using assms by (simp_all add: era_def doe_def)
  from era_day_cases [OF doe] obtain c k j t where r: "doe = day_of_era c k j t" and ok: "era_day_ok c k j t" .
  define yoe where "yoe = 100 * c + 4 * k + j"
  have y: "year_of_era doe = yoe" using era_year [OF ok] by (simp add: r yoe_def)
  note start = era_start [OF ok yoe_def]
  have doy: "doe - (365 * yoe + yoe div 4 - yoe div 100) = t" using start(1) by (simp only: r)
  have t: "0 \<le> t" "t \<le> 364 + one_if (leap (yoe + era * 400 + 1))"
    using ok start(4) [of era] by (auto simp: era_day_ok_def algebra_simps)
  have sum: "march (yoe + era * 400) + t = days + 719528"
    using march_era [OF start(2,3), of era] era(2) doy by (simp add: algebra_simps)
  define mp where "mp = (5 * t + 2) div 153"
  define m where "m = (if mp < 10 then mp + 3 else mp - 9)"
  have civ: "civil days = (if m \<le> 2 then yoe + era * 400 + 1 else yoe + era * 400, m, t - (153 * mp + 2) div 5 + 1)"
    unfolding civil_def Let_def era_def [symmetric] doe_def [symmetric] y doy mp_def [symmetric] m_def [symmetric] by (rule refl)
  have pos: "0 \<le> yoe + era * 400" using start(2) era(1) by simp
  show ?thesis using march_month [OF t pos mp_def refl m_def refl] unfolding civ sum epoch_day by simp
qed

text \<open>C33 (equivalence): the date line names the instant of the clock: the day it writes is a day of the calendar, as many
  days after the first of January 1970 as the clock has whole days, its weekday counts on from the
  Thursday that day was, and the hours, minutes and seconds are the rest of the clock.\<close>

theorem http_date_is_the_calendar:
  "\<exists>y m d hh mm ss. valid_date (y, m, d) \<and> hh < 24 \<and> mm < 60 \<and> ss < 60
     \<and> int (unat unix) = 86400 * (day_number (y, m, d) - day_number (1970, 1, 1)) + int (3600 * hh + 60 * mm + ss)
     \<and> http_date unix = date_text (nat ((day_number (y, m, d) - day_number (1970, 1, 1) + 4) mod 7)) y m d hh mm ss"
proof -
  define n where "n = unat unix"
  obtain y m d where c: "civil (int (n div 86400)) = (y, m, d)" by (cases "civil (int (n div 86400))") auto
  have v: "valid_date (y, m, d)" and days: "day_number (y, m, d) - day_number (1970, 1, 1) = int (n div 86400)"
    using civil_is_the_date [of "int (n div 86400)"] by (simp_all add: c)
  define s where "s = n mod 86400"
  have s: "s < 86400" "n = 86400 * (n div 86400) + s" by (simp_all add: s_def)
  have split: "3600 * (s div 3600) + 60 * (s mod 3600 div 60) + s mod 60 = s"
  proof -
    have "s mod 60 = s mod 3600 mod 60" by (simp add: mod_mod_cancel)
    moreover have "60 * (s mod 3600 div 60) + s mod 3600 mod 60 = s mod 3600" by (rule mult_div_mod_eq)
    ultimately show ?thesis by (simp add: add.assoc)
  qed
  have whole: "int n = 86400 * int (n div 86400) + int (3600 * (s div 3600) + 60 * (s mod 3600 div 60) + s mod 60)"
    unfolding split by (subst s(2)) (simp only: of_nat_add of_nat_mult of_nat_numeral)
  have rest: "s div 3600 < 24" "s mod 3600 div 60 < 60" "s mod 60 < 60"
    using s(1) by (simp_all add: less_mult_imp_div_less)
  have line: "http_date unix
      = date_text (nat ((int (n div 86400) + 4) mod 7)) y m d (s div 3600) (s mod 3600 div 60) (s mod 60)"
    unfolding http_date_def Let_def n_def [symmetric] s_def [symmetric] c by (simp only: prod.case)
  show ?thesis unfolding n_def [symmetric]
    by (intro exI [of _ y] exI [of _ m] exI [of _ d] exI [of _ "s div 3600"] exI [of _ "s mod 3600 div 60"]
        exI [of _ "s mod 60"] conjI v rest) (simp_all only: days whole [symmetric] line)
qed

end
