(* ===== verification/Discovery.thy ===== *)
theory Discovery
  imports Calendar Control Args
begin

text \<open>
  Discovery: the texts of the SSDP answers and announcements (\<open>src/src/upnp.rs\<close>) and the responder of the
  facade (\<open>src/src/upnpsvc.rs\<close>), whose receive loop and deferred answers are a step relation.
\<close>

section \<open>The texts\<close>

definition SSDP_MCAST :: ipv4 where "SSDP_MCAST = ipv4_of 239 255 255 250"
definition SSDP_PORT :: u16 where "SSDP_PORT = 1900"
definition SSDP_MAX_AGE :: u32 where "SSDP_MAX_AGE = 1800"
definition SERVER_LINE :: string where "SERVER_LINE = ''ImmortalWrt/1.0 UPnP/1.0 ds-lite-punch/0.1''"
definition DOC_V1 :: string where "DOC_V1 = ''/igd/v1/rootDesc.xml''"
definition DOC_V2 :: string where "DOC_V2 = ''/igd/v2/rootDesc.xml''"
definition DISCOVERY_DEBOUNCE_MS :: nat where "DISCOVERY_DEBOUNCE_MS = 1000"

definition crlf :: string where "crlf = [cr, nl]"

text \<open>A header line, and the location line that both texts share.\<close>

definition header_line :: "string \<Rightarrow> string \<Rightarrow> string" where
  "header_line k v = k @ '': '' @ v @ crlf"

definition location :: "ipv4 \<Rightarrow> u16 \<Rightarrow> string \<Rightarrow> string" where
  "location lan_ip port loc_path = ''http://'' @ show_ipv4 lan_ip @ '':'' @ show_word port @ loc_path"

definition msearch_response :: "SearchTarget \<Rightarrow> string \<Rightarrow> ipv4 \<Rightarrow> u16 \<Rightarrow> u64 \<Rightarrow> string \<Rightarrow> string" where
  "msearch_response st udn lan_ip port now_unix loc_path =
     ''HTTP/1.1 200 OK'' @ crlf
     @ header_line ''CACHE-CONTROL'' (''max-age='' @ show_word SSDP_MAX_AGE)
     @ header_line ''DATE'' (http_date now_unix)
     @ ''EXT:'' @ crlf
     @ header_line ''LOCATION'' (location lan_ip port loc_path)
     @ header_line ''SERVER'' SERVER_LINE
     @ header_line ''ST'' (st_name st)
     @ header_line ''USN'' (''uuid:'' @ udn @ ''::'' @ st_name st)
     @ header_line ''Content-Length'' ''0'' @ crlf"

definition notify_payload :: "SearchTarget \<Rightarrow> string \<Rightarrow> string \<Rightarrow> ipv4 \<Rightarrow> u16 \<Rightarrow> u64 \<Rightarrow> string \<Rightarrow> string" where
  "notify_payload st nts udn lan_ip port now_unix loc_path =
     ''NOTIFY * HTTP/1.1'' @ crlf
     @ header_line ''HOST'' (show_ipv4 SSDP_MCAST @ '':'' @ show_word SSDP_PORT)
     @ header_line ''CACHE-CONTROL'' (''max-age='' @ show_word SSDP_MAX_AGE)
     @ header_line ''DATE'' (http_date now_unix)
     @ header_line ''LOCATION'' (location lan_ip port loc_path)
     @ header_line ''SERVER'' SERVER_LINE
     @ header_line ''NT'' (st_name st)
     @ header_line ''NTS'' (''ssdp:'' @ nts)
     @ header_line ''USN'' (''uuid:'' @ udn @ ''::'' @ st_name st)
     @ header_line ''Content-Length'' ''0'' @ crlf"

section \<open>Reading the texts back\<close>

lemma btrim_keep:
  assumes "s \<noteq> []" and "\<not> is_bws (hd s)" and "\<not> is_bws (last s)"
  shows "btrim s = s"
proof -
  have d: "dropWhile is_bws t = t" if "t \<noteq> []" "\<not> is_bws (hd t)" for t
    using that by (cases t) simp_all
  from d [of s] d [of "rev s"] assms show ?thesis by (simp add: btrim_def hd_rev)
qed

lemma btrim_space: "btrim (CHR '' '' # s) = btrim s"
  by (simp add: btrim_def is_bws_def)

definition header_name :: "string \<Rightarrow> bool" where
  "header_name k \<longleftrightarrow> k \<noteq> [] \<and> CHR '':'' \<notin> set k \<and> nl \<notin> set k \<and> \<not> is_bws (hd k) \<and> \<not> is_bws (last k)"

definition header_value :: "string \<Rightarrow> bool" where
  "header_value v \<longleftrightarrow> v \<noteq> [] \<and> nl \<notin> set v \<and> \<not> is_bws (hd v) \<and> \<not> is_bws (last v)"

lemma strip_cr_snoc: "strip_cr (s @ [cr]) = s"
  by (simp add: strip_cr_def)

lemma header_split:
  assumes "header_name k" and "nl \<notin> set v"
  shows "split_on nl (header_line k v @ rest) = (k @ '': '' @ v @ [cr]) # split_on nl rest"
proof -
  have "nl \<notin> set (k @ '': '' @ v @ [cr])" using assms by (auto simp: header_name_def nl_def cr_def)
  from split_on_append [OF this, of rest] show ?thesis by (simp add: header_line_def crlf_def)
qed

lemma header_in_line:
  assumes k: "header_name k" and v: "nl \<notin> set v"
  shows "header_in (split_on nl (header_line k v @ rest)) key
    = (if eq_ia k key then Some (btrim v) else header_in (split_on nl rest) key)"
proof -
  have "k @ '': '' @ v @ [cr] = (k @ '': '' @ v) @ [cr]" by simp
  then have "strip_cr (k @ '': '' @ v @ [cr]) = k @ '': '' @ v" using strip_cr_snoc by metis
  moreover have "split_once CHR '':'' (k @ '': '' @ v) = Some (k, CHR '' '' # v)"
    using k split_once_append [of "CHR '':''" k "CHR '' '' # v"] by (simp add: header_name_def)
  moreover have "btrim k = k" using k by (auto simp: header_name_def intro: btrim_keep)
  ultimately show ?thesis using k v by (subst header_split) (simp_all add: btrim_space)
qed

lemma header_value_trim: "header_value v \<Longrightarrow> btrim v = v"
  by (auto simp: header_value_def intro: btrim_keep)

lemma date_text_plain:
  assumes "wd < 7" and "1 \<le> m" and "m \<le> 12"
  shows "nl \<notin> set (date_text wd y m d hh mm ss)"
proof -
  have "list_all (\<lambda>s. nl \<notin> set s) WD" "list_all (\<lambda>s. nl \<notin> set s) MON" by code_simp+
  moreover have "wd < length WD" "nat (m - 1) < length MON" using assms by (simp_all add: WD_def MON_def)
  ultimately have "nl \<notin> set (WD ! wd)" "nl \<notin> set (MON ! nat (m - 1))" by (simp_all add: list_all_length)
  moreover have digits: "nl \<notin> set (show_nat n)" for n using show_nat_chars [of nl n] by (auto simp: is_digit_def nl_def)
  moreover have "nl \<notin> set (two_digits n)" for n using digits by (simp add: two_digits_def nl_def)
  ultimately show ?thesis by (simp add: date_text_def) (simp add: nl_def)
qed

lemma http_date_plain: "nl \<notin> set (http_date now)"
proof -
  let ?days = "int (unat now div 86400)"
  obtain y m d where c: "civil ?days = (y, m, d)" by (cases "civil ?days") auto
  have "valid_date (civil ?days)" using civil_is_the_date by simp
  then have "1 \<le> m" "m \<le> 12" by (simp_all add: c valid_date_def)
  moreover have "nat ((?days + 4) mod 7) < 7" by simp
  ultimately show ?thesis unfolding http_date_def Let_def c by (simp only: prod.case) (rule date_text_plain)
qed

lemma st_name_value: "header_value (st_name st)"
  by (induction st) code_simp+

lemma location_value:
  assumes "doc \<in> {DOC_V1, DOC_V2}"
  shows "header_value (location ip port doc)"
proof -
  have "nl \<notin> set doc" "doc \<noteq> []" "\<not> is_bws (last doc)"
    using assms by (auto simp: DOC_V1_def DOC_V2_def nl_def is_bws_def tab_def cr_def)
  then show ?thesis using show_ipv4_plain [of nl ip] show_word_plain [of nl port]
    by (auto simp: header_value_def location_def nl_def is_bws_def tab_def cr_def)
qed

text \<open>The first line is skipped, and the line \<open>EXT:\<close> has no value.\<close>

lemma response_header:
  assumes doc: "doc \<in> {DOC_V1, DOC_V2}" and key: "key \<in> {''LOCATION'', ''ST''}"
  shows "find_header (msearch_response st udn ip port now doc) key
    = Some (if key = ''ST'' then st_name st else location ip port doc)"
proof -
  have names: "header_name ''CACHE-CONTROL''" "header_name ''DATE''" "header_name ''LOCATION''" "header_name ''SERVER''"
    "header_name ''ST''" by code_simp+
  have plain: "nl \<notin> set (''max-age='' @ show_word SSDP_MAX_AGE)" "nl \<notin> set SERVER_LINE"
    using show_word_plain [of nl SSDP_MAX_AGE] by (auto simp: nl_def SERVER_LINE_def)
  have others: "\<not> eq_ia ''CACHE-CONTROL'' key" "\<not> eq_ia ''DATE'' key" "\<not> eq_ia ''SERVER'' key" "\<not> eq_ia ''EXT'' key"
    "eq_ia ''LOCATION'' key \<longleftrightarrow> key = ''LOCATION''" "eq_ia ''ST'' key \<longleftrightarrow> key = ''ST''"
    using key by (auto simp: eq_ia_def lower_def)
  have loc: "nl \<notin> set (location ip port doc)" "btrim (location ip port doc) = location ip port doc"
    using location_value [OF doc] by (simp_all add: header_value_trim) (simp add: header_value_def)
  have sn: "nl \<notin> set (st_name st)" "btrim (st_name st) = st_name st"
    using st_name_value [of st] by (simp_all add: header_value_trim) (simp add: header_value_def)
  have ext: "header_in (split_on nl (''EXT:'' @ crlf @ rest)) key = header_in (split_on nl rest) key" for rest
  proof -
    have "split_on nl (''EXT:'' @ crlf @ rest) = (''EXT:'' @ [cr]) # split_on nl rest"
      using split_on_append [of nl "''EXT:'' @ [cr]" rest] by (simp add: crlf_def nl_def cr_def)
    moreover have "split_once CHR '':'' (strip_cr (''EXT:'' @ [cr])) = Some (''EXT'', [])" by code_simp
    moreover have "btrim ''EXT'' = ''EXT''" by code_simp
    ultimately show ?thesis using others(4) by simp
  qed
  have first: "tl (split_on nl (''HTTP/1.1 200 OK'' @ crlf @ rest)) = split_on nl rest" for rest
    using split_on_append [of nl "''HTTP/1.1 200 OK'' @ [cr]" rest] by (simp add: crlf_def nl_def cr_def)
  have "find_header (msearch_response st udn ip port now doc) key
      = (if key = ''LOCATION'' then Some (location ip port doc) else if key = ''ST'' then Some (st_name st)
         else header_in (split_on nl (header_line ''USN'' (''uuid:'' @ udn @ ''::'' @ st_name st)
           @ header_line ''Content-Length'' ''0'' @ crlf)) key)"
    unfolding find_header_def msearch_response_def first
    by (simp only: header_in_line names plain loc sn http_date_plain others ext if_False simp_thms)
  then show ?thesis using key by auto
qed

lemma st_name_back: "parse_st (st_name st) = Some (if st = SsdpAll then RootDevice else st)"
  by (induction st) code_simp+

text \<open>
  What an answer says is what was meant. The facade's own header reader finds the search target in the
  answer, and the parser of search targets reads back the target that is answered (the root device for
  \<open>ssdp:all\<close>); the location it finds is that of the chosen description at the address and port of the
  service, whatever the name of the device and the date.\<close>

theorem discovery_response_back:
  "let p = msearch_response st udn ip port now (if v2 then DOC_V2 else DOC_V1)
   in Option.bind (find_header p ''ST'') parse_st = Some (if st = SsdpAll then RootDevice else st)
      \<and> find_header p ''LOCATION'' = Some (''http://'' @ show_ipv4 ip @ '':'' @ show_word port
          @ (if v2 then ''/igd/v2/rootDesc.xml'' else ''/igd/v1/rootDesc.xml''))"
proof -
  define doc where "doc = (if v2 then DOC_V2 else DOC_V1)"
  then have "doc \<in> {DOC_V1, DOC_V2}" by simp
  from response_header [OF this] show ?thesis
    unfolding Let_def doc_def [symmetric] by (simp add: st_name_back location_def doc_def DOC_V1_def DOC_V2_def)
qed

section \<open>The responder\<close>

datatype DiscoveryAction = ReplyV1 SearchTarget | ReplyV2 SearchTarget | Ignore_search | DeferAll

definition discovery_action :: "SearchTarget \<Rightarrow> bool \<Rightarrow> DiscoveryAction" where
  "discovery_action st v2_enabled =
     (if st = SsdpAll then (if v2_enabled then DeferAll else ReplyV1 SsdpAll)
      else if st \<in> set [RootDevice, InternetGatewayDevice, WanDevice, WanConnectionDevice, ST_WanIpConnection,
        ST_WanPppConnection] then ReplyV1 st
      else if st \<in> set [InternetGatewayDevice2, ST_WanIpConnection2, ST_WanPppConnection2] \<and> v2_enabled
      then ReplyV2 st
      else Ignore_search)"

text \<open>What the facade announces about itself: its name and where its description is served.\<close>

record Ssdp =
  sd_udn :: string
  sd_lan_ip :: ipv4
  sd_port :: u16

definition NOTIFY_STS :: "SearchTarget list" where
  "NOTIFY_STS = [RootDevice, InternetGatewayDevice, WanDevice, WanConnectionDevice, ST_WanIpConnection,
     ST_WanPppConnection]"

text \<open>One tick of the announcement loop, and the farewell: the datagrams sent to the multicast group.\<close>

definition ssdp_alive :: "Ssdp \<Rightarrow> u64 \<Rightarrow> string list" where
  "ssdp_alive D now = map (\<lambda>st. notify_payload st ''alive'' (sd_udn D) (sd_lan_ip D) (sd_port D) now DOC_V1) NOTIFY_STS"

definition send_byebye :: "Ssdp \<Rightarrow> u64 \<Rightarrow> string list" where
  "send_byebye D now = map (\<lambda>st. notify_payload st ''byebye'' (sd_udn D) (sd_lan_ip D) (sd_port D) now DOC_V1) NOTIFY_STS"

text \<open>
  A deferred answer waits on a value that a version 2 search turns true, then it is resolved, sent,
  and leaves the map. The receive loop sleeps before it sends, and receives nothing meanwhile. Times
  are milliseconds of the runtime's clock.
\<close>

datatype Burst = Watching bool nat | Resolved bool | Answered

datatype Receiver = Receiving | Sleeping SearchTarget tuple4 string nat

record Responder =
  rs_clock :: nat
  rs_bursts :: "tuple4 \<Rightarrow> Burst option"
  rs_loop :: Receiver

definition responder_start :: Responder where
  "responder_start = \<lparr>rs_clock = 0, rs_bursts = Map.empty, rs_loop = Receiving\<rparr>"

definition discovery_delay :: "u64 \<Rightarrow> u8 \<Rightarrow> u64" where
  "discovery_delay seed mx = (if mx = 0 then 0 else max (seed mod (ucast mx * 1000)) 1)"

definition send_discovery :: "SearchTarget \<Rightarrow> tuple4 \<Rightarrow> u8 \<Rightarrow> string \<Rightarrow> u64 \<Rightarrow> Responder \<Rightarrow> Responder" where
  "send_discovery st src mx loc seed R =
     R\<lparr>rs_loop := Sleeping st src loc (rs_clock R + unat (discovery_delay seed mx))\<rparr>"

definition flip_burst :: "tuple4 \<Rightarrow> Responder \<Rightarrow> Responder" where
  "flip_burst key R = (case rs_bursts R key of
       Some (Watching v opened) \<Rightarrow> R\<lparr>rs_bursts := (rs_bursts R)(key \<mapsto> Watching True opened)\<rparr>
     | _ \<Rightarrow> R)"

text \<open>Only the receive loop inserts, so the second test of the code, for a concurrent insert, never fires.\<close>

definition defer_all :: "tuple4 \<Rightarrow> Responder \<Rightarrow> Responder" where
  "defer_all key R = (case rs_bursts R key of
       Some _ \<Rightarrow> R
     | None \<Rightarrow> R\<lparr>rs_bursts := (rs_bursts R)(key \<mapsto> Watching False (rs_clock R))\<rparr>)"

text \<open>One datagram of the receive loop; \<open>seed\<close> is the clock's fraction that draws the delay.\<close>

definition hear :: "SocketAddr \<Rightarrow> string \<Rightarrow> u64 \<Rightarrow> Responder \<Rightarrow> Responder" where
  "hear src pkt seed R =
     (case parse_msearch pkt of
        Answer st mx \<Rightarrow>
          (case src of
             V4 key \<Rightarrow>
               (case discovery_action st IGD_V2_ENABLED of
                  Ignore_search \<Rightarrow> R
                | ReplyV1 t \<Rightarrow> send_discovery t key mx DOC_V1 seed R
                | ReplyV2 t \<Rightarrow> send_discovery t key mx DOC_V2 seed (flip_burst key R)
                | DeferAll \<Rightarrow> defer_all key R)
           | _ \<Rightarrow> R)
      | _ \<Rightarrow> R)"

datatype SsdpLabel = Heard SocketAddr string | Sent SearchTarget tuple4 string u64 | Waited nat | Inner

definition sent_text :: "Ssdp \<Rightarrow> SearchTarget \<Rightarrow> string \<Rightarrow> u64 \<Rightarrow> string" where
  "sent_text D st doc now = msearch_response st (sd_udn D) (sd_lan_ip D) (sd_port D) now doc"

text \<open>
  The steps. When the value has turned and the window has closed, either branch of the wait may be
  taken, so a window that has closed may always resolve to version 1.
\<close>

inductive ssdp_step :: "Responder \<Rightarrow> SsdpLabel \<Rightarrow> Responder \<Rightarrow> bool" where
  heard: "rs_loop R = Receiving \<Longrightarrow> ssdp_step R (Heard src pkt) (hear src pkt seed R)"
| replied: "rs_loop R = Sleeping st dst doc wake \<Longrightarrow> wake \<le> rs_clock R
    \<Longrightarrow> ssdp_step R (Sent st dst doc now) (R\<lparr>rs_loop := Receiving\<rparr>)"
| turned: "rs_bursts R key = Some (Watching True opened)
    \<Longrightarrow> ssdp_step R Inner (R\<lparr>rs_bursts := (rs_bursts R)(key \<mapsto> Resolved True)\<rparr>)"
| closed: "rs_bursts R key = Some (Watching v opened) \<Longrightarrow> opened + DISCOVERY_DEBOUNCE_MS \<le> rs_clock R
    \<Longrightarrow> ssdp_step R Inner (R\<lparr>rs_bursts := (rs_bursts R)(key \<mapsto> Resolved False)\<rparr>)"
| answered: "rs_bursts R key = Some (Resolved v)
    \<Longrightarrow> ssdp_step R (Sent SsdpAll key (if v then DOC_V2 else DOC_V1) now)
          (R\<lparr>rs_bursts := (rs_bursts R)(key \<mapsto> Answered)\<rparr>)"
| removed: "rs_bursts R key = Some Answered
    \<Longrightarrow> ssdp_step R Inner (R\<lparr>rs_bursts := (rs_bursts R)(key := None)\<rparr>)"
| waited: "ssdp_step R (Waited d) (R\<lparr>rs_clock := rs_clock R + d\<rparr>)"

inductive_cases ssdp_stepE: "ssdp_step R l R'"

inductive ssdp_run :: "SsdpLabel list \<Rightarrow> Responder \<Rightarrow> bool" where
  ssdp_start: "ssdp_run [] responder_start"
| ssdp_next: "ssdp_run tr R \<Longrightarrow> ssdp_step R l R' \<Longrightarrow> ssdp_run (tr @ [l]) R'"

section \<open>Runs\<close>

lemma ssdp_run_snocD:
  assumes "ssdp_run (tr @ [l]) R'"
  obtains R where "ssdp_run tr R" and "ssdp_step R l R'"
  using assms by (cases rule: ssdp_run.cases) auto

definition version_two :: "SearchTarget \<Rightarrow> bool" where
  "version_two st \<longleftrightarrow> st \<in> set [InternetGatewayDevice2, ST_WanIpConnection2, ST_WanPppConnection2]"

text \<open>A search from \<open>dst\<close> for a target that satisfies \<open>P\<close>, an answer to \<open>dst\<close>, the time that passes.\<close>

definition searched :: "tuple4 \<Rightarrow> (SearchTarget \<Rightarrow> bool) \<Rightarrow> SsdpLabel \<Rightarrow> bool" where
  "searched dst P l = (case l of
       Heard (V4 d) pkt \<Rightarrow> d = dst \<and> (case parse_msearch pkt of Answer st mx \<Rightarrow> P st | _ \<Rightarrow> False)
     | _ \<Rightarrow> False)"

definition answer_to :: "tuple4 \<Rightarrow> SsdpLabel \<Rightarrow> bool" where
  "answer_to dst l = (case l of Sent st d doc now \<Rightarrow> d = dst | _ \<Rightarrow> False)"

definition passed :: "SsdpLabel list \<Rightarrow> nat" where
  "passed tr = (\<Sum>l\<leftarrow>tr. case l of Waited d \<Rightarrow> d | _ \<Rightarrow> 0)"

definition answers :: "tuple4 \<Rightarrow> SsdpLabel list \<Rightarrow> nat" where
  "answers dst tr = length (filter (answer_to dst) tr)"

definition searches :: "tuple4 \<Rightarrow> SsdpLabel list \<Rightarrow> nat" where
  "searches dst tr = length (filter (searched dst (\<lambda>_. True)) tr)"

text \<open>The answers still to be sent.\<close>

definition owed :: "tuple4 \<Rightarrow> Responder \<Rightarrow> nat" where
  "owed dst R = (case rs_loop R of Sleeping st d doc wake \<Rightarrow> if d = dst then 1 else 0 | Receiving \<Rightarrow> 0)
     + (case rs_bursts R dst of Some (Watching v opened) \<Rightarrow> 1 | Some (Resolved v) \<Rightarrow> 1 | _ \<Rightarrow> 0)"

text \<open>
  What a run has seen: the search behind the answer that the receive loop is about to send, and behind
  every deferred one the \<open>ssdp:all\<close> that opened it, with the version 2 search that turned it or the
  window that closed on it.
\<close>

definition asked :: "SsdpLabel list \<Rightarrow> tuple4 \<Rightarrow> (SearchTarget \<Rightarrow> bool) \<Rightarrow> bool" where
  "asked tr dst P \<longleftrightarrow> (\<exists>l\<in>set tr. searched dst P l)"

definition asked_before :: "nat \<Rightarrow> SsdpLabel list \<Rightarrow> tuple4 \<Rightarrow> nat \<Rightarrow> bool" where
  "asked_before d tr dst opened \<longleftrightarrow>
     (\<exists>a l b. tr = a @ l # b \<and> searched dst (\<lambda>st. st = SsdpAll) l \<and> passed a = opened \<and> d \<le> passed b)"

definition loop_backed :: "SsdpLabel list \<Rightarrow> Receiver \<Rightarrow> bool" where
  "loop_backed tr L = (case L of
       Sleeping st dst doc wake \<Rightarrow> st \<noteq> SsdpAll \<and> asked tr dst (\<lambda>x. x = st)
         \<and> doc = (if version_two st then DOC_V2 else DOC_V1)
     | Receiving \<Rightarrow> True)"

definition burst_backed :: "SsdpLabel list \<Rightarrow> tuple4 \<Rightarrow> Burst option \<Rightarrow> bool" where
  "burst_backed tr dst B = (case B of
       Some (Watching v opened) \<Rightarrow> asked_before 0 tr dst opened \<and> (v \<longrightarrow> asked tr dst version_two)
     | Some (Resolved v) \<Rightarrow> (\<exists>opened. asked_before (if v then 0 else DISCOVERY_DEBOUNCE_MS) tr dst opened)
         \<and> (v \<longrightarrow> asked tr dst version_two)
     | _ \<Rightarrow> True)"

definition backed :: "SsdpLabel list \<Rightarrow> Responder \<Rightarrow> bool" where
  "backed tr R \<longleftrightarrow> rs_clock R = passed tr \<and> loop_backed tr (rs_loop R)
     \<and> (\<forall>dst. answers dst tr + owed dst R \<le> searches dst tr \<and> burst_backed tr dst (rs_bursts R dst))"

lemma passed_simps [simp]:
  "passed [] = 0" "passed (a @ b) = passed a + passed b" "passed [Waited d] = d"
  "passed [Heard src pkt] = 0" "passed [Sent st dst doc now] = 0" "passed [Inner] = 0"
  by (simp_all add: passed_def)

lemma asked_snoc [simp]: "asked (tr @ [l]) dst P \<longleftrightarrow> asked tr dst P \<or> searched dst P l"
  by (auto simp: asked_def)

lemma asked_before_snoc: "asked_before d tr dst opened \<Longrightarrow> asked_before d (tr @ [l]) dst opened"
  unfolding asked_before_def by (metis append.assoc append_Cons passed_simps(2) trans_le_add1)

lemma asked_before_waited:
  assumes "asked_before 0 tr dst opened" and "opened + d \<le> passed tr"
  shows "asked_before d tr dst opened"
proof -
  from assms(1) obtain a l b where tr: "tr = a @ l # b" and l: "searched dst (\<lambda>st. st = SsdpAll) l" "passed a = opened"
    unfolding asked_before_def by blast
  have "passed (l # b) = passed [l] + passed b" using passed_simps(2) [of "[l]" b] by simp
  moreover have "passed [l] = 0" using l(1) by (cases l) (simp_all add: searched_def)
  ultimately have "d \<le> passed b" using assms(2) l(2) by (simp add: tr)
  with tr l show ?thesis unfolding asked_before_def by blast
qed

lemma asked_before_now: "searched dst (\<lambda>st. st = SsdpAll) l \<Longrightarrow> asked_before 0 (tr @ [l]) dst (passed tr)"
  unfolding asked_before_def by force

lemma asked_before_asked: "asked_before d tr dst opened \<Longrightarrow> asked tr dst (\<lambda>st. st = SsdpAll)"
  unfolding asked_before_def asked_def by force

lemma loop_backed_snoc: "loop_backed tr L \<Longrightarrow> loop_backed (tr @ [l]) L"
  by (auto simp: loop_backed_def split: Receiver.splits)

lemma burst_backed_snoc: "burst_backed tr dst B \<Longrightarrow> burst_backed (tr @ [l]) dst B"
  by (auto simp: burst_backed_def split: option.splits Burst.splits) (blast intro: asked_before_snoc)+

lemma burst_done [simp]: "burst_backed tr dst None" "burst_backed tr dst (Some Answered)"
  by (simp_all add: burst_backed_def)

text \<open>What the receive loop makes of a datagram.\<close>

lemma hear_cases:
  obtains "hear src pkt seed R = R"
  | st key doc wake where "hear src pkt seed R = R\<lparr>rs_loop := Sleeping st key doc wake\<rparr>" "st \<noteq> SsdpAll"
      "searched key (\<lambda>x. x = st) (Heard src pkt)" "doc = (if version_two st then DOC_V2 else DOC_V1)"
  | st key wake opened v where
      "hear src pkt seed R = R\<lparr>rs_bursts := (rs_bursts R)(key \<mapsto> Watching True opened), rs_loop := Sleeping st key DOC_V2 wake\<rparr>"
      "st \<noteq> SsdpAll" "searched key (\<lambda>x. x = st) (Heard src pkt)" "version_two st"
      "rs_bursts R key = Some (Watching v opened)"
  | key where "hear src pkt seed R = R\<lparr>rs_bursts := (rs_bursts R)(key \<mapsto> Watching False (rs_clock R))\<rparr>"
      "searched key (\<lambda>x. x = SsdpAll) (Heard src pkt)" "rs_bursts R key = None"
proof (cases "parse_msearch pkt")
  case (Answer st mx)
  show ?thesis
  proof (cases src)
    case (V4 key)
    have s: "searched key (\<lambda>x. x = st) (Heard src pkt)" by (simp add: searched_def V4 Answer)
    note h = hear_def [of src pkt seed R, unfolded Answer V4, simplified, unfolded IGD_V2_ENABLED_def]
    show ?thesis
    proof (cases "discovery_action st True")
      case (ReplyV1 t)
      then have t: "t = st" "st \<noteq> SsdpAll" "\<not> version_two st"
        by (auto simp: discovery_action_def version_two_def split: if_splits)
      then have "hear src pkt seed R
          = R\<lparr>rs_loop := Sleeping st key DOC_V1 (rs_clock R + unat (discovery_delay seed mx))\<rparr>"
        using h ReplyV1 by (simp add: send_discovery_def V4)
      then show ?thesis by (rule that(2)) (use s t in simp_all)
    next
      case (ReplyV2 t)
      then have t: "t = st" "st \<noteq> SsdpAll" "version_two st"
        by (auto simp: discovery_action_def version_two_def split: if_splits)
      show ?thesis
      proof (cases "\<exists>v opened. rs_bursts R key = Some (Watching v opened)")
        case True
        then obtain v opened where b: "rs_bursts R key = Some (Watching v opened)" by blast
        then have "hear src pkt seed R = R\<lparr>rs_bursts := (rs_bursts R)(key \<mapsto> Watching True opened),
            rs_loop := Sleeping st key DOC_V2 (rs_clock R + unat (discovery_delay seed mx))\<rparr>"
          using h ReplyV2 t by (simp add: send_discovery_def flip_burst_def V4)
        then show ?thesis by (rule that(3)) (use s t b in simp_all)
      next
        case False
        then have "flip_burst key R = R" by (auto simp: flip_burst_def split: option.splits Burst.splits)
        then have "hear src pkt seed R
            = R\<lparr>rs_loop := Sleeping st key DOC_V2 (rs_clock R + unat (discovery_delay seed mx))\<rparr>"
          using h ReplyV2 t by (simp add: send_discovery_def V4)
        then show ?thesis by (rule that(2)) (use s t in simp_all)
      qed
    next
      case Ignore_search
      then show ?thesis using that(1) h by (simp add: V4)
    next
      case DeferAll
      then have "st = SsdpAll" by (auto simp: discovery_action_def split: if_splits)
      with s have all: "searched key (\<lambda>x. x = SsdpAll) (Heard src pkt)" by simp
      have "hear src pkt seed R = defer_all key R" using h DeferAll by (simp add: V4)
      then show ?thesis using that(1,4) all by (cases "rs_bursts R key") (simp_all add: defer_all_def)
    qed
  next
    case (V6 a b c)
    then show ?thesis using that(1) by (simp add: hear_def Answer)
  qed
next
  case Ignore
  then show ?thesis using that(1) by (simp add: hear_def)
next
  case Malformed
  then show ?thesis using that(1) by (simp add: hear_def)
qed

lemma searched_mono: "searched dst P l \<Longrightarrow> (\<And>st. P st \<Longrightarrow> Q st) \<Longrightarrow> searched dst Q l"
  by (auto simp: searched_def split: SsdpLabel.splits SocketAddr.splits MSearchParse.splits)

lemma searched_elsewhere: "searched key P l \<Longrightarrow> searched dst Q l \<Longrightarrow> key = dst"
  by (auto simp: searched_def split: SsdpLabel.splits SocketAddr.splits MSearchParse.splits)

lemma hear_owes:
  assumes "rs_loop R = Receiving"
  shows "owed dst (hear src pkt seed R) \<le> owed dst R + (if searched dst (\<lambda>_. True) (Heard src pkt) then 1 else 0)"
proof (rule hear_cases [of src pkt seed R])
  assume "hear src pkt seed R = R"
  then show ?thesis by simp
next
  fix st key doc wake
  assume h: "hear src pkt seed R = R\<lparr>rs_loop := Sleeping st key doc wake\<rparr>" and "searched key (\<lambda>x. x = st) (Heard src pkt)"
  then have "searched key (\<lambda>_. True) (Heard src pkt)" by (auto elim: searched_mono)
  with h assms show ?thesis by (auto simp: owed_def)
next
  fix st key wake opened v
  assume h: "hear src pkt seed R
      = R\<lparr>rs_bursts := (rs_bursts R)(key \<mapsto> Watching True opened), rs_loop := Sleeping st key DOC_V2 wake\<rparr>"
    and "searched key (\<lambda>x. x = st) (Heard src pkt)" and b: "rs_bursts R key = Some (Watching v opened)"
  then have "searched key (\<lambda>_. True) (Heard src pkt)" by (auto elim: searched_mono)
  with h b assms show ?thesis by (auto simp: owed_def)
next
  fix key
  assume h: "hear src pkt seed R = R\<lparr>rs_bursts := (rs_bursts R)(key \<mapsto> Watching False (rs_clock R))\<rparr>"
    and "searched key (\<lambda>x. x = SsdpAll) (Heard src pkt)" and b: "rs_bursts R key = None"
  then have "searched key (\<lambda>_. True) (Heard src pkt)" by (auto elim: searched_mono)
  with h b assms show ?thesis by (auto simp: owed_def)
qed

lemma step_owes:
  assumes "ssdp_step R l R'"
  shows "(if answer_to dst l then 1 else 0) + owed dst R'
    \<le> owed dst R + (if searched dst (\<lambda>_. True) l then 1 else 0)"
  using assms
proof cases
  case (heard src pkt seed)
  then show ?thesis using hear_owes [of R dst src pkt seed] by (simp add: answer_to_def)
qed (auto simp: owed_def answer_to_def searched_def split: option.splits Burst.splits)

lemma count_step:
  assumes "ssdp_step R l R'" and "answers dst tr + owed dst R \<le> searches dst tr"
  shows "answers dst (tr @ [l]) + owed dst R' \<le> searches dst (tr @ [l])"
  using step_owes [OF assms(1), of dst] assms(2) by (auto simp: answers_def searches_def split: if_splits)

lemma clock_step: "ssdp_step R l R' \<Longrightarrow> rs_clock R' = rs_clock R + passed [l]"
proof (erule ssdp_step.cases, goal_cases)
  case (1 R src pkt seed)
  then show ?case by (cases rule: hear_cases [of src pkt seed R]) simp_all
qed simp_all

lemma loop_step:
  assumes "ssdp_step R l R'" and "loop_backed tr (rs_loop R)"
  shows "loop_backed (tr @ [l]) (rs_loop R')"
  using assms(1)
proof cases
  case (heard src pkt seed)
  note kept = loop_backed_snoc [OF assms(2), of l]
  show ?thesis unfolding heard(1,2)
    by (cases rule: hear_cases [of src pkt seed R]) (use kept heard in \<open>simp_all add: loop_backed_def\<close>)
qed (use loop_backed_snoc [OF assms(2), of l] in \<open>simp_all add: loop_backed_def\<close>)

lemma burst_step:
  assumes "ssdp_step R l R'" and "burst_backed tr dst (rs_bursts R dst)" and clock: "rs_clock R = passed tr"
  shows "burst_backed (tr @ [l]) dst (rs_bursts R' dst)"
  using assms(1)
proof cases
  case (heard src pkt seed)
  note kept = burst_backed_snoc [OF assms(2), of l]
  show ?thesis
  proof (cases rule: hear_cases [of src pkt seed R])
    case (3 st key wake opened v)
    then have "searched key version_two (Heard src pkt)" by (intro searched_mono [OF 3(3)]) simp
    then have "asked (tr @ [l]) key version_two" using heard by simp
    with 3 kept heard show ?thesis by (auto simp: burst_backed_def)
  next
    case (4 key)
    then have "asked_before 0 (tr @ [l]) key (rs_clock R)" using heard asked_before_now clock by simp
    with 4 kept heard show ?thesis by (auto simp: burst_backed_def)
  qed (use kept heard in simp_all)
next
  case (turned key opened)
  then show ?thesis using burst_backed_snoc [OF assms(2), of l] by (auto simp: burst_backed_def)
next
  case (closed key v opened)
  show ?thesis
  proof (cases "key = dst")
    case True
    have "opened + DISCOVERY_DEBOUNCE_MS \<le> passed tr" using closed(4) unfolding clock .
    moreover have "asked_before 0 tr dst opened" using assms(2) closed(3) True by (simp add: burst_backed_def)
    ultimately have "asked_before DISCOVERY_DEBOUNCE_MS (tr @ [l]) dst opened"
      using asked_before_snoc asked_before_waited by blast
    with True closed(2) show ?thesis by (auto simp: burst_backed_def)
  next
    case False
    with closed show ?thesis using burst_backed_snoc [OF assms(2), of l] by simp
  qed
qed (use burst_backed_snoc [OF assms(2), of l] in simp_all)

lemma run_backed: "ssdp_run tr R \<Longrightarrow> backed tr R"
proof (induction rule: ssdp_run.induct)
  case ssdp_start
  show ?case
    by (simp add: backed_def responder_start_def loop_backed_def burst_backed_def answers_def owed_def)
next
  case (ssdp_next tr R l R')
  note step = ssdp_next(2)
  have clock: "rs_clock R = passed tr" and loop: "loop_backed tr (rs_loop R)"
    and each: "answers dst tr + owed dst R \<le> searches dst tr" "burst_backed tr dst (rs_bursts R dst)" for dst
    using ssdp_next(3) unfolding backed_def by blast+
  show ?case unfolding backed_def
    by (intro conjI allI loop_step [OF step loop] count_step [OF step each(1)] burst_step [OF step each(2) clock])
      (simp add: clock_step [OF step] clock)
qed

text \<open>C12 (safety): every answer of the responder is owed. A control point has been sent fewer answers than the searches it
  sent, so that the responder multiplies no datagram; the answer names a target that this control point
  searched for; it points to the version 2 description only if the control point has searched for a
  version 2 target; and an answer to \<open>ssdp:all\<close> that points to version 1 comes no sooner than the window
  after a search for \<open>ssdp:all\<close>.\<close>

theorem discovery_answers_what_was_asked:
  assumes "ssdp_run (tr @ [Sent st dst doc now]) R"
  shows "answers dst tr < searches dst tr \<and> asked tr dst (\<lambda>x. x = st)
    \<and> (doc = DOC_V2 \<and> asked tr dst version_two
       \<or> doc = DOC_V1 \<and> \<not> version_two st
         \<and> (st \<noteq> SsdpAll \<or> (\<exists>opened. asked_before DISCOVERY_DEBOUNCE_MS tr dst opened)))"
proof -
  from assms obtain R0 where run: "ssdp_run tr R0" and step: "ssdp_step R0 (Sent st dst doc now) R"
    by (rule ssdp_run_snocD)
  from run have b: "loop_backed tr (rs_loop R0)" "burst_backed tr dst (rs_bursts R0 dst)"
    "answers dst tr + owed dst R0 \<le> searches dst tr"
    using run_backed [OF run] unfolding backed_def by blast+
  from step show ?thesis
  proof cases
    case (replied wake)
    with b have "st \<noteq> SsdpAll" "asked tr dst (\<lambda>x. x = st)" "doc = (if version_two st then DOC_V2 else DOC_V1)"
      "0 < owed dst R0" by (simp_all add: loop_backed_def owed_def)
    moreover have "asked tr dst version_two" if "version_two st"
      using \<open>asked tr dst (\<lambda>x. x = st)\<close> that unfolding asked_def by (auto intro: searched_mono)
    ultimately show ?thesis using b(3) by auto
  next
    case (answered v)
    with b obtain opened where "asked_before (if v then 0 else DISCOVERY_DEBOUNCE_MS) tr dst opened"
      "v \<longrightarrow> asked tr dst version_two" "0 < owed dst R0" by (auto simp: burst_backed_def owed_def)
    moreover from this(1) have "asked tr dst (\<lambda>x. x = st)" using answered asked_before_asked by blast
    ultimately show ?thesis using b(3) answered by (cases v) (auto simp: version_two_def)
  qed
qed

section \<open>Examples\<close>

definition demo_search :: "string \<Rightarrow> string" where
  "demo_search st = ''M-SEARCH * HTTP/1.1'' @ crlf @ ''MAN: '' @ [CHR 0x22] @ ''ssdp:discover'' @ [CHR 0x22] @ crlf
     @ ''MX: 1'' @ crlf @ ''ST: '' @ st @ crlf @ crlf"

definition demo_cp :: tuple4 where "demo_cp = (ipv4_of 192 168 1 7, 50000)"

definition demo_all :: SsdpLabel where "demo_all = Heard (V4 demo_cp) (demo_search ''ssdp:all'')"
definition demo_two :: SsdpLabel where "demo_two = Heard (V4 demo_cp) (demo_search ''urn:schemas-upnp-org:device:InternetGatewayDevice:2'')"

lemma demo_parses:
  "parse_msearch (demo_search ''ssdp:all'') = Answer SsdpAll 1"
  "parse_msearch (demo_search ''urn:schemas-upnp-org:device:InternetGatewayDevice:2'') = Answer InternetGatewayDevice2 1"
  by code_simp+

lemma demo_hears:
  "hear (V4 demo_cp) (demo_search ''ssdp:all'') seed R = defer_all demo_cp R"
  "hear (V4 demo_cp) (demo_search ''urn:schemas-upnp-org:device:InternetGatewayDevice:2'') 0 R
     = send_discovery InternetGatewayDevice2 demo_cp 1 DOC_V2 0 (flip_burst demo_cp R)"
  by (simp_all add: hear_def demo_parses discovery_action_def IGD_V2_ENABLED_def)

lemma heard_as: "rs_loop R = Receiving \<Longrightarrow> hear src pkt seed R = R' \<Longrightarrow> ssdp_step R (Heard src pkt) R'"
  using ssdp_step.heard by blast

lemma demo_opened: "ssdp_run [demo_all] (defer_all demo_cp responder_start)"
  using ssdp_next [OF ssdp_start heard_as [OF _ demo_hears(1)]] by (simp add: responder_start_def demo_all_def)

text \<open>A search for everything, turned to version 2 by the next one.\<close>

lemma demo_turned: "\<exists>R. ssdp_run [demo_all, demo_two, Inner, Sent SsdpAll demo_cp DOC_V2 0] R"
proof -
  note one = ssdp_next [OF demo_opened heard_as [OF _ demo_hears(2)], folded demo_two_def]
  from ssdp_next [OF ssdp_next [OF one ssdp_step.turned [of _ demo_cp 0]] ssdp_step.answered [of _ demo_cp True 0]]
  show ?thesis by (auto simp: send_discovery_def flip_burst_def defer_all_def responder_start_def)
qed

theorem discovery_answers_what_was_asked_witness:
  "asked [demo_all, demo_two, Inner] demo_cp version_two
   \<and> answers demo_cp [demo_all, demo_two, Inner] < searches demo_cp [demo_all, demo_two, Inner]"
proof -
  obtain R where "ssdp_run ([demo_all, demo_two, Inner] @ [Sent SsdpAll demo_cp DOC_V2 0]) R"
    using demo_turned by auto
  from discovery_answers_what_was_asked [OF this] show ?thesis by (auto simp: DOC_V1_def DOC_V2_def)
qed

text \<open>
  The entry of a deferred answer leaves the map after the answer is sent, so a search that is read in
  between finds it there, is taken for one that is still pending, and is never answered.\<close>

lemma late_search_is_lost:
  "\<exists>R. ssdp_run [demo_all, Waited 1000, Inner, Sent SsdpAll demo_cp DOC_V1 0, demo_all, Inner] R
    \<and> owed demo_cp R = 0 \<and> rs_bursts R demo_cp = None"
proof -
  note sent = ssdp_next [OF ssdp_next [OF ssdp_next [OF demo_opened ssdp_step.waited [of _ 1000]] ssdp_step.closed [of _ demo_cp False 0]]
      ssdp_step.answered [of _ demo_cp False 0]]
  note again = ssdp_next [OF ssdp_next [OF sent heard_as [OF _ demo_hears(1)], folded demo_all_def]
      ssdp_step.removed [of _ demo_cp]]
  show ?thesis
    using again by (auto simp: defer_all_def responder_start_def DISCOVERY_DEBOUNCE_MS_def owed_def)
qed

end
