(* ===== verification/Documents_Props.thy ===== *)
theory Documents_Props
  imports Documents Discovery
begin

text \<open>
  The documents are true of the service: every action a description lists is understood where the root
  description says it is, and answered with the outputs the description declares.
\<close>

section \<open>What an action answers\<close>

text \<open>
  An answer with the outputs of the given names, in their order; \<open>None\<close> leaves the outputs open. No
  answer is the refusal of an action the service does not know.\<close>

definition answers_with :: "string list option \<Rightarrow> UpnpErr + string \<Rightarrow> bool" where
  "answers_with outs r = (case r of
       Inl e \<Rightarrow> e \<noteq> InvalidAction
     | Inr inner \<Rightarrow> (case outs of None \<Rightarrow> True
         | Some ns \<Rightarrow> \<exists>vals. length vals = length ns \<and> inner = concat (map2 elem ns vals)))"

named_theorems answering

lemma answers_Inl [answering]: "e \<noteq> InvalidAction \<Longrightarrow> answers_with outs (Inl e)"
  by (simp add: answers_with_def)

lemma answers_open [answering]: "answers_with None (Inr x)"
  by (simp add: answers_with_def)

lemma answers_nil [answering]: "answers_with (Some []) (Inr [])"
  by (simp add: answers_with_def)

lemma answers_one [answering]: "answers_with (Some [n]) (Inr (elem n v))"
  by (auto simp: answers_with_def intro: exI [of _ "[v]"])

lemma answers_more [answering]:
  assumes "answers_with (Some ns) (Inr rest)"
  shows "answers_with (Some (n # ns)) (Inr (elem n v @ rest))"
proof -
  from assms obtain vals where "length vals = length ns" "rest = concat (map2 elem ns vals)"
    by (auto simp: answers_with_def)
  then show ?thesis by (auto simp: answers_with_def intro: exI [of _ "v # vals"])
qed

text \<open>The parsers of arguments and the gates refuse with codes of their own.\<close>

definition refuses_well :: "UpnpErr + 'a \<Rightarrow> bool" where
  "refuses_well r \<longleftrightarrow> r \<noteq> Inl InvalidAction"

lemma refuses_then: "refuses_well r \<Longrightarrow> (\<And>x. refuses_well (f x)) \<Longrightarrow> refuses_well (and_then r f)"
  by (cases r) (simp_all add: and_then_def refuses_well_def)

lemma refuses_basic [simp]:
  "refuses_well (Inr x)" "refuses_well (Inl e) \<longleftrightarrow> e \<noteq> InvalidAction"
  "refuses_well (ok_or e r) \<longleftrightarrow> e \<noteq> InvalidAction \<or> r \<noteq> None"
  by (auto simp: refuses_well_def ok_or_def split: option.split)

lemma refuses_if [simp]: "refuses_well (if b then r else s) \<longleftrightarrow> (if b then refuses_well r else refuses_well s)"
  by simp

lemma map_dp_err_valid [simp]: "map_dp_err e \<noteq> InvalidAction"
  by (cases e) (simp_all add: map_dp_err_def)

lemma parsers_refuse_well [simp]:
  "refuses_well (tag_proto body)" "refuses_well (parse_add_args_impl body w)" "refuses_well (parse_delete_args body)"
  "refuses_well (parse_index_arg body)" "refuses_well (parse_range_args body)" "refuses_well (parse_list_args body)"
  "refuses_well (dp_str_tag body tag)" "refuses_well (dp_b64_tag16 body tag)" "refuses_well (dp_role_list body)"
  "refuses_well (pkcs5 body)" "refuses_well (first_name body)" "refuses_well (admin_gate now client name F)"
proof -
  show p: "refuses_well (tag_proto body)" by (simp add: tag_proto_def split: option.split)
  show "refuses_well (parse_add_args_impl body w)"
    unfolding parse_add_args_impl_def by (intro refuses_then) (simp_all add: p)
  show "refuses_well (parse_delete_args body)"
    unfolding parse_delete_args_def by (intro refuses_then) (simp_all add: p)
  show "refuses_well (parse_index_arg body)" by (simp add: parse_index_arg_def)
  show "refuses_well (parse_range_args body)"
    unfolding parse_range_args_def by (intro refuses_then) (auto intro: refuses_then simp: p)
  show "refuses_well (parse_list_args body)"
    unfolding parse_list_args_def by (intro refuses_then) (auto intro!: refuses_then split: option.split)
  show t: "refuses_well (dp_str_tag body tag)" for tag by (simp add: dp_str_tag_def)
  show "refuses_well (dp_b64_tag16 body tag)"
    unfolding dp_b64_tag16_def by (intro refuses_then) simp_all
  show "refuses_well (dp_role_list body)"
    unfolding dp_role_list_def by (intro refuses_then) (simp_all add: t)
  show "refuses_well (pkcs5 body)" by (simp add: pkcs5_def split: option.split)
  show "refuses_well (first_name body)" by (simp add: first_name_def split: list.split)
  show "refuses_well (admin_gate now client name F)"
    by (simp add: admin_gate_def refuses_well_def split: sum.split)
qed

lemma answers_parsed:
  assumes "refuses_well r" and "\<And>x. r = Inr x \<Longrightarrow> answers_with outs (fst (f x))"
  shows "answers_with outs (fst (case r of Inl e \<Rightarrow> (Inl e, F) | Inr x \<Rightarrow> f x))"
  using assms by (cases r) (auto simp: answers_with_def refuses_well_def)

section \<open>The handlers\<close>

lemma answers_args [answering]:
  "refuses_well r \<Longrightarrow> (\<And>x. answers_with outs (fst (f x))) \<Longrightarrow> answers_with outs (fst (with_args r f F))"
  by (cases r) (simp_all add: with_args_def answers_Inl)

lemma answers_then: "refuses_well r \<Longrightarrow> (\<And>x. answers_with outs (f x)) \<Longrightarrow> answers_with outs (and_then r f)"
  by (cases r) (simp_all add: and_then_def answers_Inl)

lemma answers_grant: "refuses_well (fst (grant_mapping C V r owner view F))"
  by (auto simp: grant_mapping_def Let_def split_beta split: UpsertOutcome.splits bool.splits)

lemma answers_exact [answering]: "answers_with (Some []) (fst (allocate_exact C V r owner view F))"
  using answers_grant [of C V r owner view F]
  by (auto simp: allocate_exact_def refuses_well_def answers_with_def split: prod.splits sum.splits)

lemma answers_preferred [answering]: "answers_with (Some [''NewReservedPort'']) (fst (allocate_preferred C V r owner view F))"
proof -
  define r1 where "r1 = r\<lparr>mr_ext := preferred_port (f_entries F) (mr_ext r) (mr_proto r)\<rparr>"
  have e: "answers_with (Some []) (fst (allocate_exact C V r1 owner None F))" by (rule answers_exact)
  obtain x F1 where x: "allocate_exact C V r1 owner None F = (x, F1)" by fastforce
  with e have "x \<noteq> Inl InvalidAction" by (auto simp: answers_with_def)
  with x show ?thesis
    by (cases x) (simp_all add: allocate_preferred_def Let_def r1_def [symmetric] answering)
qed

lemma answers_delete [answering]: "answers_with (Some []) (fst (delete_mapping V ext proto owner view F))"
  by (simp add: delete_mapping_def Let_def answering split: option.split)

lemma answers_delete_range [answering]: "answers_with (Some []) (fst (delete_mapping_range V a b proto view F))"
  by (simp add: delete_mapping_range_def Let_def answering)

definition entry_outputs :: "string list" where
  "entry_outputs = [''NewInternalPort'', ''NewInternalClient'', ''NewEnabled'', ''NewPortMappingDescription'', ''NewLeaseDuration'']"

lemma answers_specific [answering]: "answers_with (Some entry_outputs) (get_specific ext proto owner view es)"
  by (auto simp: get_specific_def entry_outputs_def entry_xml_def intro!: answering split: option.split)

lemma answers_generic [answering]:
  "answers_with (Some (''NewRemoteHost'' # ''NewExternalPort'' # ''NewProtocol'' # entry_outputs)) (get_generic i view es)"
  by (auto simp: get_generic_def Let_def entry_outputs_def entry_xml_def intro!: answering)

lemma answers_list [answering]: "answers_with (Some [''NewPortListing'']) (list_port_mappings a b proto n view now es)"
proof -
  have "''<NewPortListing><![CDATA['' @ x @ '']]></NewPortListing>''
      = elem ''NewPortListing'' (''<![CDATA['' @ x @ '']]>'')" for x
    by (simp add: elem_def)
  from this [of "PORT_LISTING_OPEN @ y @ ''</p:PortMappingList>''" for y] show ?thesis
    by (simp add: list_port_mappings_def Let_def answering)
qed

lemma answers_external_ip [answering]: "answers_with (Some [''NewExternalIPAddress'']) (get_external_ip F)"
  by (simp add: get_external_ip_def answering split: option.split)

lemma answers_status [answering]:
  "answers_with (Some [''NewConnectionStatus'', ''NewLastConnectionError'', ''NewUptime'']) (Inr (get_status_info C now))"
  by (simp add: get_status_info_def answering)

lemma answers_type_info [answering]:
  "answers_with (Some [''NewConnectionType'', ''NewPossibleConnectionTypes'']) (Inr get_connection_type_info)"
  by (simp add: get_connection_type_info_def answering)

lemma answers_link [answering]:
  "answers_with (Some [''NewWANAccessType'', ''NewLayer1UpstreamMaxBitRate'', ''NewLayer1DownstreamMaxBitRate'',
     ''NewPhysicalLinkStatus'']) (Inr (common_link_properties F))"
  by (simp add: common_link_properties_def answering)

text \<open>Device protection.\<close>

lemma answers_with_dp: "(\<And>x. answers_with outs (Inr (out x))) \<Longrightarrow> answers_with outs (fst (with_dp F r out))"
  by (auto simp: with_dp_def intro: answers_Inl split: prod.split sum.split)

lemma answers_saved [answering]: "answers_with (Some []) (fst (saved_if V F r))"
  by (auto simp: saved_if_def intro: answering split: prod.split)

lemma answers_challenge [answering]: "answers_with (Some [''Salt'', ''Challenge'']) (fst (dp_challenge now nonce client body F))"
  unfolding dp_challenge_def
  by (rule answers_parsed) (auto intro!: refuses_then answers_with_dp answering split: prod.split)

lemma answers_login [answering]: "answers_with (Some []) (fst (dp_login now client body F))"
  unfolding dp_login_def
  by (rule answers_parsed) (auto intro!: refuses_then answers_with_dp answering split: prod.split)

lemma answers_logout [answering]: "answers_with (Some []) (fst (dp_logout now client F))"
  by (simp add: dp_logout_def answering)

lemma answers_roles [answering]: "answers_with (Some [''RoleList'']) (Inr (dp_assigned_roles now client F))"
  by (simp add: dp_assigned_roles_def Let_def answering)

lemma answers_roles_for [answering]:
  "answers_with (Some [''RoleList'', ''RestrictedRoleList'']) (dp_roles_for_action body)"
  unfolding dp_roles_for_action_def by (intro answers_then) (simp_all add: answering)

lemma answers_setup [answering]: "answers_with outs (dp_send_setup body)"
  by (simp add: dp_send_setup_def answering split: option.split)

lemma answers_acl [answering]: "answers_with None (dp_get_acl now client F)"
  unfolding dp_get_acl_def by (intro answers_then) (simp_all add: answering)

lemma answers_identities [answering]: "answers_with None (fst (dp_add_identities V client body F))"
  unfolding dp_add_identities_def
  by (rule answers_parsed) (auto simp: Let_def answering split: prod.split)

lemma answers_remove [answering]: "answers_with (Some []) (fst (dp_remove_identity V client body F))"
  unfolding dp_remove_identity_def by (rule answers_parsed) (auto intro!: refuses_then answering)

lemma answers_password [answering]: "answers_with (Some []) (fst (dp_set_password V client body F))"
  unfolding dp_set_password_def
  by (rule answers_parsed) (auto intro!: refuses_then answering split: prod.split)

lemma answers_add_roles [answering]: "answers_with (Some []) (fst (dp_add_roles V client body add F))"
  unfolding dp_add_roles_def
  by (rule answers_parsed) (auto intro!: refuses_then answering split: prod.split)

section \<open>Every described action\<close>

text \<open>The outputs of the actions, and the services that know them.\<close>

fun action_outputs :: "SoapAction \<Rightarrow> string list option" where
  "action_outputs GetExternalIpAddress = Some [''NewExternalIPAddress'']"
| "action_outputs GetStatusInfo = Some [''NewConnectionStatus'', ''NewLastConnectionError'', ''NewUptime'']"
| "action_outputs GetConnectionTypeInfo = Some [''NewConnectionType'', ''NewPossibleConnectionTypes'']"
| "action_outputs GetNatRsipStatus = Some [''NewRSIPAvailable'', ''NewNATEEnabled'']"
| "action_outputs GetSpecificPortMappingEntry = Some entry_outputs"
| "action_outputs GetGenericPortMappingEntry = Some ([''NewRemoteHost'', ''NewExternalPort'', ''NewProtocol''] @ entry_outputs)"
| "action_outputs GetCommonLinkProperties = Some [''NewWANAccessType'', ''NewLayer1UpstreamMaxBitRate'',
     ''NewLayer1DownstreamMaxBitRate'', ''NewPhysicalLinkStatus'']"
| "action_outputs AddAnyPortMapping = Some [''NewReservedPort'']"
| "action_outputs GetListOfPortMappings = Some [''NewPortListing'']"
| "action_outputs SendSetupMessage = Some [''OutMessage'']"
| "action_outputs GetSupportedProtocols = None"
| "action_outputs GetAssignedRoles = Some [''RoleList'']"
| "action_outputs GetRolesForAction = Some [''RoleList'', ''RestrictedRoleList'']"
| "action_outputs GetUserLoginChallenge = Some [''Salt'', ''Challenge'']"
| "action_outputs GetAclData = None"
| "action_outputs AddIdentityList = None"
| "action_outputs _ = Some []"

definition knows :: "SoapService \<Rightarrow> SoapAction \<Rightarrow> bool" where
  "knows service action =
     (if action \<in> set [GetExternalIpAddress, GetStatusInfo, GetConnectionTypeInfo, SetConnectionType, RequestConnection,
          ForceTermination, GetNatRsipStatus, AddPortMapping, DeletePortMapping, GetSpecificPortMappingEntry,
          GetGenericPortMappingEntry] then service \<in> set [WanIpConn, WanPppConn]
      else if action = GetCommonLinkProperties then service = WanCommonIfaceCfg
      else if action \<in> set [AddAnyPortMapping, DeletePortMappingRange, GetListOfPortMappings] then service = WanIpConn
      else service = DeviceProt)"

lemma dispatch_answers:
  assumes "knows service action"
  shows "answers_with (action_outputs action)
    (fst (soap_dispatch C V nonce service action is_v2 client view body F))"
  using assms
  by (cases action) (auto simp: soap_dispatch_def Let_def on_def knows_def intro!: answering
      split: prod.split)

lemma gate_refuses_well: "refuses_well (fst (soap_gate now service action is_v2 client F))"
  by (simp add: soap_gate_def refuses_well_def split: sum.split)

lemma soap_answers:
  assumes "knows service action"
  shows "answers_with (action_outputs action) (fst (handle_soap C V nonce service action is_v2 client body F))"
proof -
  obtain r F1 where g: "soap_gate (v_now V) service action is_v2 client F = (r, F1)" by fastforce
  with gate_refuses_well [of "v_now V" service action is_v2 client F] have "refuses_well r" by simp
  with g show ?thesis
    by (cases r) (simp_all add: handle_soap_def answers_Inl dispatch_answers [OF assms])
qed

text \<open>The actions that the description of a service lists, and the request for one of them.\<close>

definition described_actions :: "ServiceDesc \<Rightarrow> ScpdAction list" where
  "described_actions sv = (case Option.bind (doc_of_path (sv_scpd sv)) scpd_of of
     Some s \<Rightarrow> scpd_actions s | None \<Rightarrow> [])"

definition action_head :: "string \<Rightarrow> string \<Rightarrow> string \<Rightarrow> string" where
  "action_head path ty name = ''POST'' @ '' '' @ path @ '' HTTP/1.1'' @ crlf
     @ header_line ''SOAPACTION'' (dquote @ ty @ ''#'' @ name @ dquote) @ crlf"

definition plain_word :: "string \<Rightarrow> bool" where
  "plain_word s \<longleftrightarrow> s \<noteq> [] \<and> list_all (\<lambda>c. \<not> is_bws c \<and> c \<noteq> CHR ''#'' \<and> c \<noteq> CHR 0x22) s"

lemma plain_wordD:
  assumes "plain_word s"
  shows "s \<noteq> []" "nl \<notin> set s" "CHR '' '' \<notin> set s" "CHR ''#'' \<notin> set s" "CHR 0x22 \<notin> set s"
    "\<not> is_bws (hd s)" "\<not> is_bws (last s)"
  using assms by (auto simp: plain_word_def list_all_iff is_bws_def)

lemma request_line:
  assumes path: "plain_word path" and meth: "meth \<in> {''GET'', ''POST''}"
  shows "split_once CHR '' '' (strip_cr (hd (split_on nl (meth @ '' '' @ path @ '' HTTP/1.1'' @ crlf @ rest))))
    = Some (meth, path @ '' HTTP/1.1'')"
    and "tl (split_on nl (meth @ '' '' @ path @ '' HTTP/1.1'' @ crlf @ rest)) = split_on nl rest"
    and "btrim (path @ '' HTTP/1.1'') = path @ '' HTTP/1.1''"
    and "takeWhile (\<lambda>c. c \<noteq> CHR '' '') (path @ '' HTTP/1.1'') = path"
proof -
  let ?line = "meth @ '' '' @ path @ '' HTTP/1.1''"
  have "nl \<notin> set (?line @ [cr])" using plain_wordD(2) [OF path] meth by (auto simp: nl_def cr_def)
  from split_on_append [OF this, of rest]
  have l: "split_on nl (meth @ '' '' @ path @ '' HTTP/1.1'' @ crlf @ rest) = (?line @ [cr]) # split_on nl rest"
    by (simp add: crlf_def)
  have "split_once CHR '' '' ?line = Some (meth, path @ '' HTTP/1.1'')"
    using split_once_append [of "CHR '' ''" meth "path @ '' HTTP/1.1''"] meth by auto
  then show "split_once CHR '' '' (strip_cr (hd (split_on nl (meth @ '' '' @ path @ '' HTTP/1.1'' @ crlf @ rest))))
      = Some (meth, path @ '' HTTP/1.1'')"
    unfolding l by (simp only: list.sel strip_cr_snoc)
  show "tl (split_on nl (meth @ '' '' @ path @ '' HTTP/1.1'' @ crlf @ rest)) = split_on nl rest"
    unfolding l by simp
  show "btrim (path @ '' HTTP/1.1'') = path @ '' HTTP/1.1''"
    using plain_wordD [OF path] by (intro btrim_keep) (auto simp: is_bws_def tab_def cr_def nl_def)
  show "takeWhile (\<lambda>c. c \<noteq> CHR '' '') (path @ '' HTTP/1.1'') = path"
    using plain_wordD(3) [OF path] by (auto simp: takeWhile_append)
qed

lemma one_header:
  assumes "plain_word path" and v: "nl \<notin> set v"
  shows "find_header (''POST'' @ '' '' @ path @ '' HTTP/1.1'' @ crlf @ header_line ''SOAPACTION'' v @ crlf) key
    = (if eq_ia ''SOAPACTION'' key then Some (btrim v) else None)"
proof -
  have "header_in (split_on nl crlf) key = None" by (simp add: crlf_def nl_def cr_def strip_cr_def)
  moreover have "header_name ''SOAPACTION''" by code_simp
  ultimately show ?thesis
    using request_line(2) [OF assms(1), of "''POST''"] header_in_line [OF _ v] unfolding find_header_def by simp
qed

text \<open>The quoted value of the header is taken apart again.\<close>

lemma action_header:
  assumes ty: "plain_word ty" and name: "plain_word name"
  defines "v \<equiv> dquote @ ty @ ''#'' @ name @ dquote"
  shows "nl \<notin> set v" and "btrim v = v" and "at_hash (strip_quotes (btrim v)) = Some (ty, name)"
proof -
  show "nl \<notin> set v" using plain_wordD(2) [OF ty] plain_wordD(2) [OF name] by (simp add: v_def dquote_def nl_def)
  show b: "btrim v = v" by (rule btrim_keep) (simp_all add: v_def dquote_def is_bws_def tab_def cr_def nl_def)
  have "strip_quotes v = ty @ ''#'' @ name" by (simp add: v_def strip_quotes_def dquote_def butlast_append)
  moreover have "takeWhile (\<lambda>c. c \<noteq> CHR ''#'') (rev name @ CHR ''#'' # rev ty) = rev name"
    "dropWhile (\<lambda>c. c \<noteq> CHR ''#'') (rev name @ CHR ''#'' # rev ty) = CHR ''#'' # rev ty"
    using plain_wordD(4) [OF name] by (auto simp: takeWhile_append dropWhile_append)
  ultimately show "at_hash (strip_quotes (btrim v)) = Some (ty, name)" by (simp add: b at_hash_def)
qed

lemma name_found: "find (\<lambda>a. eq_ia (soap_action_name a) (soap_action_name b)) soap_actions = Some b"
  by (induction b) code_simp+

lemma classify_action:
  assumes path: "plain_word path" and ty: "plain_word ty" and name: "plain_word (soap_action_name action)"
    and service: "service_of_path path = Some service"
  shows "classify (action_head path ty (soap_action_name action))
    = Soap service action (eq_ia ty ''urn:schemas-upnp-org:service:WANIPConnection:2'')"
proof -
  define v where "v = dquote @ ty @ ''#'' @ soap_action_name action @ dquote"
  note v = action_header [OF ty name, folded v_def]
  define head where "head = action_head path ty (soap_action_name action)"
  have h: "head = ''POST'' @ '' '' @ path @ '' HTTP/1.1'' @ crlf @ header_line ''SOAPACTION'' v @ crlf"
    by (simp add: head_def action_head_def v_def)
  have find: "find_header head key = (if eq_ia ''SOAPACTION'' key then Some v else None)" for key
    using one_header [OF path v(1), of key] v(2) by (simp add: h)
  have keys: "\<not> eq_ia ''SOAPACTION'' ''NT''" "\<not> eq_ia ''SOAPACTION'' ''SID''" "eq_ia ''SOAPACTION'' ''SOAPACTION''"
    by (simp_all add: eq_ia_def)
  have line: "split_once CHR '' '' (strip_cr (hd (split_on nl head))) = Some (''POST'', path @ '' HTTP/1.1'')"
    unfolding h by (rule request_line(1) [OF path]) simp
  note rest = request_line(3,4) [OF path, of "''POST''", simplified]
  have meth: "btrim ''POST'' = ''POST''" "\<not> eq_ia ''POST'' ''GET''" "\<not> eq_ia ''POST'' ''SUBSCRIBE''"
    "\<not> eq_ia ''POST'' ''UNSUBSCRIBE''" "eq_ia ''POST'' ''POST''" by code_simp+
  have "parse_soap_action v = Some action" using v(3) name_found by (simp add: parse_soap_action_def)
  moreover have "soapaction_is_v2 v = eq_ia ty ''urn:schemas-upnp-org:service:WANIPConnection:2''"
    using v(3) by (simp add: soapaction_is_v2_def)
  ultimately show ?thesis
    unfolding head_def [symmetric] classify_def line
    by (simp add: Let_def rest meth find keys header_contains_def soap_class_def service)
qed

text \<open>The services and their actions, checked one by one.\<close>

definition service_ok :: "bool \<Rightarrow> ServiceDesc \<Rightarrow> bool" where
  "service_ok v2 sv \<longleftrightarrow> plain_word (sv_control sv) \<and> plain_word (sv_type sv)
     \<and> (case service_of_path (sv_control sv) of
          Some service \<Rightarrow> service_urn_v service v2 = sv_type sv
            \<and> eq_ia (sv_type sv) ''urn:schemas-upnp-org:service:WANIPConnection:2'' = (v2 \<and> service = WanIpConn)
        | None \<Rightarrow> False)"

text \<open>The answers that are documents of their own.\<close>

definition document_answers :: "string list" where
  "document_answers = [''GetSupportedProtocols'', ''GetACLData'', ''AddIdentityList'']"

definition action_ok :: "ServiceDesc \<Rightarrow> ScpdAction \<Rightarrow> bool" where
  "action_ok sv a = (case a of Act name args \<Rightarrow> plain_word name
     \<and> (case find (\<lambda>b. soap_action_name b = name) soap_actions of
          Some b \<Rightarrow> knows (the (service_of_path (sv_control sv))) b
            \<and> action_outputs b = (if name \<in> set document_answers then None else Some (outputs args))
        | None \<Rightarrow> False))"

lemma services_ok: "list_all (service_ok v2) (described_services v2)"
  by (cases v2; simp only:; code_simp)

lemma actions_ok: "list_all (\<lambda>sv. list_all (action_ok sv) (described_actions sv)) (described_services v2)"
  by (cases v2; simp only:; code_simp)

text \<open>C10 (functional): the descriptions tell the truth. For every action that the description of a service lists, the
  request a control point makes from the root description (the control path, the service type, the
  action name) is taken for this action of this service, on the right version; it is never refused as
  an invalid action; and when it succeeds, the answer consists of the declared outputs, in their order,
  for all but the three actions whose answer is a document of its own.\<close>

theorem described_action_is_served:
  assumes sv: "sv \<in> set (described_services v2)" and act: "Act name args \<in> set (described_actions sv)"
  shows "\<exists>service action. classify (action_head (sv_control sv) (sv_type sv) name) = Soap service action (v2 \<and> service = WanIpConn)
    \<and> service_urn_v service v2 = sv_type sv \<and> soap_action_name action = name
    \<and> answers_with (if name \<in> set document_answers then None else Some (outputs args))
        (fst (handle_soap C V nonce service action (v2 \<and> service = WanIpConn) client body F))"
proof -
  have "service_ok v2 sv" using services_ok sv by (auto simp: list_all_iff)
  then obtain service where s: "plain_word (sv_control sv)" "plain_word (sv_type sv)"
    "service_of_path (sv_control sv) = Some service" "service_urn_v service v2 = sv_type sv"
    "eq_ia (sv_type sv) ''urn:schemas-upnp-org:service:WANIPConnection:2'' = (v2 \<and> service = WanIpConn)"
    by (auto simp: service_ok_def split: option.splits)
  have "action_ok sv (Act name args)" using actions_ok sv act by (fastforce simp: list_all_iff)
  then obtain action where a: "plain_word name" "soap_action_name action = name" "knows service action"
    "action_outputs action = (if name \<in> set document_answers then None else Some (outputs args))"
    using s(3) by (auto simp: action_ok_def find_Some_iff split: option.splits)
  have c: "classify (action_head (sv_control sv) (sv_type sv) name) = Soap service action (v2 \<and> service = WanIpConn)"
    using classify_action [OF s(1,2) _ s(3), of action] a(1,2) s(5) by simp
  have "answers_with (if name \<in> set document_answers then None else Some (outputs args))
      (fst (handle_soap C V nonce service action (v2 \<and> service = WanIpConn) client body F))"
    using soap_answers [OF a(3)] unfolding a(4) .
  with c s(4) a(2) show ?thesis by blast
qed

text \<open>The port of a mapping chosen for a device that asks by the version 2 description.\<close>

theorem described_action_is_served_witness:
  "classify (action_head ''/ctl/IPConn'' (sv_type wan_ip2) ''AddAnyPortMapping'') = Soap WanIpConn AddAnyPortMapping True
    \<and> (\<forall>C V nonce client body F. answers_with (Some [''NewReservedPort''])
          (fst (handle_soap C V nonce WanIpConn AddAnyPortMapping True client body F)))"
proof -
  define args where "args = [Arg ''NewRemoteHost'' D_in ''RemoteHost'', Arg ''NewExternalPort'' D_in ''ExternalPort'',
    Arg ''NewProtocol'' D_in ''PortMappingProtocol'', Arg ''NewInternalPort'' D_in ''InternalPort'',
    Arg ''NewInternalClient'' D_in ''InternalClient'', Arg ''NewEnabled'' D_in ''PortMappingEnabled'',
    Arg ''NewPortMappingDescription'' D_in ''PortMappingDescription'',
    Arg ''NewLeaseDuration'' D_in ''PortMappingLeaseDuration'', Arg ''NewReservedPort'' D_out ''ExternalPort'']"
  have wan: "wan_ip2 \<in> set (described_services True)" by (simp add: described_services_def)
  have "list_ex (\<lambda>a. a = Act ''AddAnyPortMapping'' args) (described_actions wan_ip2)"
    unfolding args_def by code_simp
  then have "Act ''AddAnyPortMapping'' args \<in> set (described_actions wan_ip2)" by (simp add: list_ex_iff)
  note mem = wan this
  have o: "outputs args = [''NewReservedPort'']" "sv_control wan_ip2 = ''/ctl/IPConn''"
    by (simp_all add: args_def outputs_def List.map_filter_simps wan_ip2_def)
  have n: "''AddAnyPortMapping'' \<notin> set document_answers" by (simp add: document_answers_def)
  have svc: "service = WanIpConn" if "service_urn_v service True = sv_type wan_ip2" for service
    using that by (cases service) (simp_all add: wan_ip2_def service_urn_v_def)
  have act: "action = AddAnyPortMapping" if "soap_action_name action = ''AddAnyPortMapping''" for action
    using that by (cases action) simp_all
  note served = described_action_is_served [of wan_ip2 True "''AddAnyPortMapping''" args, unfolded o]
  have "classify (action_head ''/ctl/IPConn'' (sv_type wan_ip2) ''AddAnyPortMapping'') = Soap WanIpConn AddAnyPortMapping True
    \<and> answers_with (Some [''NewReservedPort''])
          (fst (handle_soap C V nonce WanIpConn AddAnyPortMapping True client body F))" for C V nonce client body F
  proof -
    obtain service action where r:
      "classify (action_head ''/ctl/IPConn'' (sv_type wan_ip2) ''AddAnyPortMapping'') = Soap service action (True \<and> service = WanIpConn)"
      "service_urn_v service True = sv_type wan_ip2" "soap_action_name action = ''AddAnyPortMapping''"
      "answers_with (if ''AddAnyPortMapping'' \<in> set document_answers then None else Some [''NewReservedPort''])
        (fst (handle_soap C V nonce service action (True \<and> service = WanIpConn) client body F))"
      using served [OF mem, of C V nonce client body F] by blast
    with svc [OF r(2)] act [OF r(3)] n show ?thesis by simp
  qed
  then show ?thesis by blast
qed

text \<open>The documents themselves: the two root descriptions and the description of every service.\<close>

definition get_head :: "string \<Rightarrow> string" where
  "get_head path = ''GET'' @ '' '' @ path @ '' HTTP/1.1'' @ crlf @ crlf"

definition documents :: "bool \<Rightarrow> (string \<times> Doc) list" where
  "documents v2 = (if v2 then (DOC_V2, Root_desc_v2) else (DOC_V1, Root_desc))
     # List.map_filter (\<lambda>sv. map_option (\<lambda>d. (sv_scpd sv, d)) (doc_of_path (sv_scpd sv))) (described_services v2)"

lemma documents_ok: "length (documents v2) = 4
    \<and> list_all (\<lambda>(path, d). plain_word path \<and> doc_path path \<and> doc_of_path path = Some d) (documents v2)"
  by (cases v2; simp only:; code_simp)

lemma document_is_served:
  assumes "(path, d) \<in> set (documents v2)"
  shows "handle_conn C V docs nonce sid client (get_head path) body F = (ok_response (docs d) [], F)"
proof -
  have path: "plain_word path" and d: "doc_path path" "doc_of_path path = Some d"
    using documents_ok [of v2] assms by (auto simp: list_all_iff)
  have get: "''GET'' \<in> {''GET'', ''POST''}" by simp
  note line = request_line(1,2) [OF path get, of crlf, folded get_head_def] request_line(3,4) [OF path get]
  have "classify (get_head path) = Get_doc"
    unfolding classify_def using line d(1) by (simp add: Let_def btrim_keep is_bws_def tab_def cr_def nl_def)
  moreover have "request_path (get_head path) = Some path" using line by (simp add: request_path_def)
  ultimately show ?thesis using d(2) by (simp add: handle_conn_def)
qed

section \<open>Where the documents are not true\<close>

text \<open>Three actions answer with a document of their own, without the output they declare.\<close>

lemma declared_outputs_missing:
  "\<not> str_contains supported_protocols_xml ''ProtocolList''"
  "\<not> str_contains (identity_list_xml []) ''IdentityListResult''"
  "starts_with (acl_xml []) ''<?xml''"
  by code_simp+

text \<open>
  No path that the version 2 description gives for subscribing is one that a subscription is taken for
  version 2 by.\<close>

lemma version_two_events_unreachable:
  "list_all (\<lambda>sv. \<not> starts_with (sv_event sv) ''/igd/v2/'') (described_services True)"
  by code_simp

text \<open>The comment on the second description speaks of twenty-one actions.\<close>

lemma wip2_counts: "length (scpd_actions SCPD_WIP2) = 14" "length (scpd_vars SCPD_WIP2) = 23"
  by code_simp+

end
