(* ===== verification/Netlink.thy ===== *)
theory Netlink
  imports Bytes
begin

text \<open>
  The conntrack delete request (\<open>src/src/ct.rs\<close>): the builder of the netlink message, the reading of the
  kernel's answer, and a reader of the netlink layout that gets the tuple back. \<open>le\<close> is the byte order
  of the host.
\<close>

unbundle bit_operations_syntax

section \<open>The request\<close>

definition NLM_F_REQUEST :: u16 where "NLM_F_REQUEST = 0x1"
definition NLM_F_ACK :: u16 where "NLM_F_ACK = 0x4"
definition NFNL_SUBSYS_CTNETLINK :: u16 where "NFNL_SUBSYS_CTNETLINK = 1"
definition IPCTNL_MSG_CT_DELETE :: u8 where "IPCTNL_MSG_CT_DELETE = 2"
definition NFNETLINK_V0 :: u8 where "NFNETLINK_V0 = 0"
definition AF_INET :: u8 where "AF_INET = 2"
definition NLMSG_ERROR :: u16 where "NLMSG_ERROR = 2"
definition IPPROTO_UDP :: u8 where "IPPROTO_UDP = 17"

definition CTA_TUPLE_IP :: u16 where "CTA_TUPLE_IP = 1"
definition CTA_TUPLE_PROTO :: u16 where "CTA_TUPLE_PROTO = 2"
definition CTA_IP_V4_SRC :: u16 where "CTA_IP_V4_SRC = 1"
definition CTA_IP_V4_DST :: u16 where "CTA_IP_V4_DST = 2"
definition CTA_PROTO_NUM :: u16 where "CTA_PROTO_NUM = 1"
definition CTA_PROTO_SRC_PORT :: u16 where "CTA_PROTO_SRC_PORT = 3"
definition CTA_PROTO_DST_PORT :: u16 where "CTA_PROTO_DST_PORT = 4"
definition CTA_TUPLE_ORIG :: u16 where "CTA_TUPLE_ORIG = 1"
definition CTA_ZONE :: u16 where "CTA_ZONE = 23"

text \<open>\<open>to_ne_bytes\<close> and \<open>from_ne_bytes\<close>.\<close>

definition to_ne :: "bool \<Rightarrow> 'a::len word \<Rightarrow> u8 list" where
  "to_ne le w = (if le then rev (to_be w) else to_be w)"

definition from_ne :: "bool \<Rightarrow> u8 list \<Rightarrow> 'a::len word" where
  "from_ne le bs = from_be (if le then rev bs else bs)"

text \<open>The loop that pads the buffer.\<close>

lemma pad_nearer: "n mod 4 \<noteq> (0::nat) \<Longrightarrow> (4 - Suc n mod 4) mod 4 < 4 - n mod 4"
proof -
  assume "n mod 4 \<noteq> 0"
  then have "n mod 4 = 1 \<or> n mod 4 = 2 \<or> n mod 4 = 3" using mod_less_divisor [of 4 n] by linarith
  then show ?thesis by (auto simp: mod_Suc)
qed

function pad_four :: "u8 list \<Rightarrow> u8 list" where
  "pad_four buf = (if length buf mod 4 \<noteq> 0 then pad_four (buf @ [0]) else buf)"
  by pat_completeness auto
termination by (relation "measure (\<lambda>buf. (4 - length buf mod 4) mod 4)") (simp_all add: pad_nearer)

declare pad_four.simps [simp del]

definition put_attr :: "bool \<Rightarrow> u8 list \<Rightarrow> u16 \<Rightarrow> u8 list \<Rightarrow> bool \<Rightarrow> u8 list" where
  "put_attr le buf ty octs nested =
     (let nty = (if nested then ty OR 0x8000 else ty)
      in pad_four (buf @ to_ne le (of_nat (4 + length octs) :: u16) @ to_ne le nty @ octs))"

definition build_msg :: "bool \<Rightarrow> u8 \<Rightarrow> bool \<Rightarrow> bool \<Rightarrow> tuple4 \<Rightarrow> tuple4 \<Rightarrow> bool \<Rightarrow> u8 list" where
  "build_msg le family nested dir_reply a b with_zone =
     (let (src, dst) = (if dir_reply then (b, a) else (a, b));
          ip = put_attr le (put_attr le [] CTA_IP_V4_SRC (octets (fst src)) False) CTA_IP_V4_DST (octets (fst dst)) False;
          proto = put_attr le (put_attr le (put_attr le [] CTA_PROTO_NUM [IPPROTO_UDP] False)
            CTA_PROTO_SRC_PORT (to_be (snd src)) False) CTA_PROTO_DST_PORT (to_be (snd dst)) False;
          tuple = put_attr le (put_attr le [] CTA_TUPLE_IP ip nested) CTA_TUPLE_PROTO proto nested;
          orig = put_attr le [] CTA_TUPLE_ORIG tuple nested;
          attrs = (if with_zone then put_attr le orig CTA_ZONE (to_be (0 :: u16)) False else orig);
          total = 16 + 4 + length attrs;
          nl_type = push_bit 8 NFNL_SUBSYS_CTNETLINK OR ucast IPCTNL_MSG_CT_DELETE
      in to_ne le (of_nat total :: u32) @ to_ne le nl_type @ to_ne le (NLM_F_REQUEST OR NLM_F_ACK)
         @ to_ne le (1 :: u32) @ [0, 0, 0, 0] @ [family, NFNETLINK_V0, 0, 0] @ attrs)"

definition build_del_msg :: "bool \<Rightarrow> ipv4 \<Rightarrow> u16 \<Rightarrow> ipv4 \<Rightarrow> u16 \<Rightarrow> u8 list" where
  "build_del_msg le host host_port peer peer_port =
     build_msg le AF_INET True False (host, host_port) (peer, peer_port) False"

section \<open>The answer\<close>

text \<open>
  What the socket gives: the failure of a call before the answer, no answer within the second, or the
  octets received. An error code is an \<open>i32\<close>.
\<close>

datatype KernelAnswer = Call_failed "32 word" | No_answer | Received "u8 list"

definition ct_delete :: "bool \<Rightarrow> KernelAnswer \<Rightarrow> 32 word + 32 word" where
  "ct_delete le answer = (case answer of
       Call_failed e \<Rightarrow> Inl e
     | No_answer \<Rightarrow> Inr 0
     | Received buf \<Rightarrow>
         if 20 \<le> length buf \<and> from_ne le (slice 4 6 buf) = NLMSG_ERROR
         then Inr (from_ne le (slice 16 20 buf)) else Inr 0)"

definition ENOENT :: "32 word" where "ENOENT = 2"

text \<open>\<open>unsigned_abs() as i32\<close>.\<close>

definition unsigned_abs :: "32 word \<Rightarrow> 32 word" where
  "unsigned_abs e = (if 0 \<le> sint e then e else - e)"

definition del_orig :: "bool \<Rightarrow> KernelAnswer \<Rightarrow> 32 word + unit" where
  "del_orig le answer = (case ct_delete le answer of
       Inl e \<Rightarrow> Inl e
     | Inr e \<Rightarrow> if e = 0 \<or> e = - ENOENT then Inr () else Inl (unsigned_abs e))"

text \<open>A request that the kernel leaves unanswered is reported as a deletion.\<close>

lemma silence_is_success: "ct_delete le No_answer = Inr 0" "del_orig le No_answer = Inr ()"
  by (simp_all add: ct_delete_def del_orig_def)

section \<open>Reading the layout\<close>

text \<open>
  The netlink layout: attributes of a length, a type whose upper bits are flags, a value and a padding to
  four octets.
\<close>

definition aligned :: "nat \<Rightarrow> nat" where
  "aligned n = 4 * ((n + 3) div 4)"

function read_attrs :: "bool \<Rightarrow> u8 list \<Rightarrow> (u16 \<times> u8 list) list" where
  "read_attrs le bs =
     (let n = unat (from_ne le (slice 0 2 bs) :: u16)
      in if n < 4 \<or> length bs < n then []
         else (from_ne le (slice 2 4 bs) AND 0x3fff, slice 4 n bs) # read_attrs le (drop (aligned n) bs))"
  by pat_completeness auto
termination
  by (relation "measure (\<lambda>(le, bs). length bs)") (auto simp: aligned_def)

declare read_attrs.simps [simp del]

text \<open>The tuple in a list of attributes: the addresses, the ports and the protocol.\<close>

definition attr :: "bool \<Rightarrow> u16 \<Rightarrow> u8 list \<Rightarrow> u8 list option" where
  "attr le ty bs = map_of (read_attrs le bs) ty"

definition read_tuple :: "bool \<Rightarrow> u8 list \<Rightarrow> (tuple4 \<times> tuple4 \<times> u8) option" where
  "read_tuple le bs =
     (case (attr le CTA_TUPLE_IP bs, attr le CTA_TUPLE_PROTO bs) of
        (Some ip, Some proto) \<Rightarrow>
          (case (attr le CTA_IP_V4_SRC ip, attr le CTA_IP_V4_DST ip, attr le CTA_PROTO_NUM proto,
                 attr le CTA_PROTO_SRC_PORT proto, attr le CTA_PROTO_DST_PORT proto) of
             (Some s, Some d, Some [num], Some sp, Some dp) \<Rightarrow>
               Some ((from_be s, from_be sp), (from_be d, from_be dp), num)
           | _ \<Rightarrow> None)
      | _ \<Rightarrow> None)"

record request =
  rq_length :: u32
  rq_type :: u16
  rq_flags :: u16
  rq_family :: u8
  rq_tuple :: "(tuple4 \<times> tuple4 \<times> u8) option"
  rq_zone :: "u16 option"

definition read_request :: "bool \<Rightarrow> u8 list \<Rightarrow> request" where
  "read_request le msg =
     \<lparr>rq_length = from_ne le (slice 0 4 msg), rq_type = from_ne le (slice 4 6 msg), rq_flags = from_ne le (slice 6 8 msg),
      rq_family = msg ! 16, rq_tuple = Option.bind (attr le CTA_TUPLE_ORIG (drop 20 msg)) (read_tuple le),
      rq_zone = map_option from_be (attr le CTA_ZONE (drop 20 msg))\<rparr>"

section \<open>Reading what was built\<close>

lemma from_to_ne [simp]: "from_ne le (to_ne le (w :: u16)) = w" "from_ne le (to_ne le (w32 :: u32)) = w32"
  by (simp_all add: from_ne_def to_ne_def from_to_be)

lemma length_to_ne [simp]: "length (to_ne le (w :: 'a::len word)) = LENGTH('a) div 8"
  by (simp add: to_ne_def)

lemma pad_four_done: "length buf mod 4 = 0 \<Longrightarrow> pad_four buf = buf"
  by (simp add: pad_four.simps)

lemma pad_four_length: "length (pad_four buf) = aligned (length buf) \<and> (\<exists>pad. pad_four buf = buf @ pad)"
proof (induction buf rule: pad_four.induct)
  case (1 buf)
  show ?case
  proof (cases "length buf mod 4 = 0")
    case True
    then show ?thesis by (auto simp: pad_four_done aligned_def)
  next
    case False
    have "aligned (Suc (length buf)) = aligned (length buf)" using False unfolding aligned_def by presburger
    with 1 [OF False] False show ?thesis by (auto simp: pad_four.simps [of buf])
  qed
qed

lemma pad_four_append:
  assumes "length pre mod 4 = 0"
  shows "pad_four (pre @ buf) = pre @ pad_four buf"
proof (induction buf rule: pad_four.induct)
  case (1 buf)
  have "length (pre @ buf) mod 4 = length buf mod 4" using assms by (simp add: mod_add_left_eq [symmetric])
  then show ?case using 1 by (cases "length buf mod 4 = 0") (simp_all add: pad_four.simps [of buf] pad_four.simps [of "pre @ buf"])
qed

text \<open>An attribute on its own.\<close>

definition nla :: "bool \<Rightarrow> u16 \<Rightarrow> u8 list \<Rightarrow> bool \<Rightarrow> u8 list" where
  "nla le ty octs nested = pad_four
     (to_ne le (of_nat (4 + length octs) :: u16) @ to_ne le (if nested then ty OR 0x8000 else ty) @ octs)"

lemma put_attr_at: "length buf mod 4 = 0 \<Longrightarrow> put_attr le buf ty octs nested = buf @ nla le ty octs nested"
  by (simp add: put_attr_def nla_def Let_def pad_four_append)

lemma nla_length [simp]: "length (nla le ty octs nested) = aligned (4 + length octs)"
proof -
  have "length (to_ne le (of_nat (4 + length octs) :: u16) @ to_ne le (if nested then ty OR 0x8000 else ty) @ octs)
      = 4 + length octs" by simp
  then show ?thesis unfolding nla_def by (simp only: pad_four_length)
qed

lemma aligned_mod [simp]: "aligned n mod 4 = 0"
  by (simp add: aligned_def)

lemma aligned_sum [simp]: "(aligned m + aligned n) mod 4 = 0"
  by (simp add: mod_add_eq [symmetric])

lemma type_flags: "ty AND 0x3fff = ty \<Longrightarrow> (if nested then ty OR 0x8000 else ty) AND 0x3fff = (ty :: u16)"
  by (simp add: bit.conj_disj_distrib2)

lemma read_put:
  assumes "length octs < 2 ^ 16 - 4" and ty: "ty AND 0x3fff = ty"
  shows "read_attrs le (nla le ty octs nested @ rest) = (ty, octs) # read_attrs le rest"
proof -
  define n where "n = 4 + length octs"
  define nty where "nty = (if nested then ty OR 0x8000 else ty)"
  define head where "head = to_ne le (of_nat n :: u16) @ to_ne le nty"
  have put: "nla le ty octs nested = pad_four (head @ octs)"
    by (simp add: nla_def n_def nty_def head_def)
  then obtain pad where pad: "nla le ty octs nested = head @ octs @ pad"
    using pad_four_length [of "head @ octs"] by auto
  define msg where "msg = nla le ty octs nested @ rest"
  have msg: "msg = head @ octs @ pad @ rest" by (simp add: msg_def pad)
  have "n < 2 ^ 16" using assms(1) by (simp add: n_def)
  then have n: "unat (of_nat n :: u16) = n" by (simp add: unat_of_nat take_bit_nat_eq_self)
  have "length head = 4" by (simp add: head_def)
  then have "slice 0 2 msg = to_ne le (of_nat n :: u16)" "slice 2 4 msg = to_ne le nty" "slice 4 n msg = octs"
    by (simp_all add: msg head_def slice_def n_def)
  moreover have "n \<le> length msg" "\<not> n < 4" using \<open>length head = 4\<close> by (simp_all add: msg n_def)
  moreover have "drop (aligned n) msg = rest" by (simp add: msg_def n_def)
  moreover have "nty AND 0x3fff = ty" using type_flags [OF ty] by (simp add: nty_def)
  ultimately have "read_attrs le msg = (ty, octs) # read_attrs le rest"
    by (subst read_attrs.simps) (simp add: n Let_def)
  then show ?thesis by (simp add: msg_def)
qed

lemma read_done: "read_attrs le [] = []"
  by (subst read_attrs.simps) (simp add: slice_def from_ne_def from_be_def)

lemma read_one: "length octs < 2 ^ 16 - 4 \<Longrightarrow> ty AND 0x3fff = ty
    \<Longrightarrow> read_attrs le (nla le ty octs nested) = [(ty, octs)]"
  using read_put [of octs ty le nested "[]"] by (simp add: read_done)

lemma length_packed [simp]: "length (octets x) = 4"
  by (rule octets_cases [of x]) simp

lemma from_be_octets [simp]: "from_be (octets x) = x"
  by (simp add: octets_def w32.dec_enc)

text \<open>The two levels below the tuple.\<close>

definition ip_attrs :: "bool \<Rightarrow> tuple4 \<Rightarrow> tuple4 \<Rightarrow> u8 list" where
  "ip_attrs le src dst = put_attr le (put_attr le [] CTA_IP_V4_SRC (octets (fst src)) False) CTA_IP_V4_DST (octets (fst dst)) False"

definition proto_attrs :: "bool \<Rightarrow> tuple4 \<Rightarrow> tuple4 \<Rightarrow> u8 list" where
  "proto_attrs le src dst = put_attr le (put_attr le (put_attr le [] CTA_PROTO_NUM [IPPROTO_UDP] False)
     CTA_PROTO_SRC_PORT (to_be (snd src)) False) CTA_PROTO_DST_PORT (to_be (snd dst)) False"

definition tuple_attrs :: "bool \<Rightarrow> bool \<Rightarrow> tuple4 \<Rightarrow> tuple4 \<Rightarrow> u8 list" where
  "tuple_attrs le nested src dst = put_attr le (put_attr le [] CTA_TUPLE_IP (ip_attrs le src dst) nested)
     CTA_TUPLE_PROTO (proto_attrs le src dst) nested"

lemma ip_read: "read_attrs le (ip_attrs le src dst) = [(CTA_IP_V4_SRC, octets (fst src)), (CTA_IP_V4_DST, octets (fst dst))]"
  and ip_length: "length (ip_attrs le src dst) = 16"
  by (simp_all add: ip_attrs_def put_attr_at read_put read_one CTA_IP_V4_SRC_def CTA_IP_V4_DST_def)
    (simp_all add: aligned_def)

lemma proto_read: "read_attrs le (proto_attrs le src dst)
    = [(CTA_PROTO_NUM, [IPPROTO_UDP]), (CTA_PROTO_SRC_PORT, to_be (snd src)), (CTA_PROTO_DST_PORT, to_be (snd dst))]"
  and proto_length: "length (proto_attrs le src dst) = 24"
  by (simp_all add: proto_attrs_def put_attr_at read_put read_one CTA_PROTO_NUM_def CTA_PROTO_SRC_PORT_def CTA_PROTO_DST_PORT_def)
    (simp_all add: aligned_def)

lemma tuple_read: "read_attrs le (tuple_attrs le nested src dst)
    = [(CTA_TUPLE_IP, ip_attrs le src dst), (CTA_TUPLE_PROTO, proto_attrs le src dst)]"
  and tuple_length: "length (tuple_attrs le nested src dst) = 48"
  by (simp_all add: tuple_attrs_def put_attr_at read_put read_one ip_length proto_length CTA_TUPLE_IP_def CTA_TUPLE_PROTO_def)
    (simp_all add: aligned_def)

lemma tuple_back: "read_tuple le (tuple_attrs le nested src dst) = Some (src, dst, IPPROTO_UDP)"
  by (simp add: read_tuple_def attr_def tuple_read ip_read proto_read CTA_TUPLE_IP_def CTA_TUPLE_PROTO_def
      CTA_IP_V4_SRC_def CTA_IP_V4_DST_def CTA_PROTO_NUM_def CTA_PROTO_SRC_PORT_def CTA_PROTO_DST_PORT_def from_to_be)

text \<open>The attributes of the message, and its fields by their offsets.\<close>

definition msg_attrs :: "bool \<Rightarrow> bool \<Rightarrow> tuple4 \<Rightarrow> tuple4 \<Rightarrow> bool \<Rightarrow> u8 list" where
  "msg_attrs le nested src dst with_zone = nla le CTA_TUPLE_ORIG (tuple_attrs le nested src dst) nested
     @ (if with_zone then nla le CTA_ZONE (to_be (0 :: u16)) False else [])"

lemma attrs_read: "read_attrs le (msg_attrs le nested src dst with_zone)
    = (CTA_TUPLE_ORIG, tuple_attrs le nested src dst) # (if with_zone then [(CTA_ZONE, to_be (0 :: u16))] else [])"
  by (simp add: msg_attrs_def read_put read_one read_done tuple_length CTA_TUPLE_ORIG_def CTA_ZONE_def)

lemma build_msg_parts:
  assumes "(src, dst) = (if dir_reply then (b, a) else (a, b))"
  shows "build_msg le family nested dir_reply a b with_zone =
    (let attrs = msg_attrs le nested src dst with_zone
     in to_ne le (of_nat (20 + length attrs) :: u32) @ to_ne le (0x0102 :: u16) @ to_ne le (5 :: u16) @ to_ne le (1 :: u32)
        @ [0, 0, 0, 0, family, 0, 0, 0] @ attrs)"
  using assms by (auto simp: build_msg_def Let_def msg_attrs_def tuple_attrs_def ip_attrs_def proto_attrs_def
      put_attr_at
      NFNL_SUBSYS_CTNETLINK_def IPCTNL_MSG_CT_DELETE_def NLM_F_REQUEST_def NLM_F_ACK_def NFNETLINK_V0_def)

text \<open>
  The request names the flow. Read by the layout of the netlink protocol, in either byte order, the
  message that is built carries its own length, the delete command with a request for an
  acknowledgement, the address family, the source and destination of the flow (swapped for the reply
  direction) with the protocol UDP, and the zone attribute exactly when it is asked for.\<close>

theorem delete_request_back:
  "let msg = build_msg le family nested dir_reply a b with_zone
   in read_request le msg = \<lparr>rq_length = of_nat (length msg), rq_type = 0x0102, rq_flags = 5, rq_family = family,
        rq_tuple = Some (if dir_reply then (b, a, 17) else (a, b, 17)), rq_zone = (if with_zone then Some 0 else None)\<rparr>"
proof -
  obtain src dst where sd: "(src, dst) = (if dir_reply then (b, a) else (a, b))"
    by (cases dir_reply) auto
  define attrs where "attrs = msg_attrs le nested src dst with_zone"
  define head where "head = to_ne le (of_nat (20 + length attrs) :: u32) @ to_ne le (0x0102 :: u16) @ to_ne le (5 :: u16)
    @ to_ne le (1 :: u32) @ [0, 0, 0, 0, family, 0, 0, 0]"
  have msg: "build_msg le family nested dir_reply a b with_zone = head @ attrs" and len: "length head = 20"
    using build_msg_parts [OF sd] by (simp_all add: head_def attrs_def Let_def)
  have fields: "slice 0 4 (head @ attrs) = to_ne le (of_nat (20 + length attrs) :: u32)"
    "slice 4 6 (head @ attrs) = to_ne le (0x0102 :: u16)" "slice 6 8 (head @ attrs) = to_ne le (5 :: u16)"
    "(head @ attrs) ! 16 = family"
    by (simp_all add: head_def slice_def nth_append)
  have tuple: "Option.bind (attr le CTA_TUPLE_ORIG attrs) (read_tuple le) = Some (src, dst, IPPROTO_UDP)"
    by (simp add: attr_def attrs_def attrs_read tuple_back)
  have zone: "map_option from_be (attr le CTA_ZONE attrs) = (if with_zone then Some (0 :: u16) else None)"
    by (simp add: attr_def attrs_def attrs_read CTA_TUPLE_ORIG_def CTA_ZONE_def from_to_be)
  show ?thesis
    using sd by (simp add: msg Let_def read_request_def fields len tuple zone IPPROTO_UDP_def split: if_splits)
qed

end
