(* ===== verification/Front.thy ===== *)
theory Front
  imports Slot_Table Publish
begin

text \<open>
  The control channel to the front (\<open>src/src/front.rs\<close>, \<open>push_to_front\<close> of \<open>src/src/main.rs\<close>): the routing
  table, the endpoint, the push that is sent whole until it is accepted, and the tuples in the answer.
  One exchange over TLS is a parameter.
\<close>

section \<open>The table and the endpoint\<close>

definition front_row :: "u16 \<times> u8 \<times> string \<Rightarrow> string" where
  "front_row e = (case e of (slot, proto, tuple) \<Rightarrow> show_word slot @ '' '' @ show_word proto @ '' '' @ tuple)"

definition front_table :: "(u16 \<times> u8 \<times> string) list \<Rightarrow> string" where
  "front_table entries = concat (map (\<lambda>e. front_row e @ [nl]) entries)"

datatype EndpointErr = No_colon | Bad_port | No_host

definition rsplit_once :: "char \<Rightarrow> string \<Rightarrow> (string \<times> string) option" where
  "rsplit_once c s = map_option (\<lambda>(a, b). (rev b, rev a)) (split_once c (rev s))"

definition split_endpoint :: "string \<Rightarrow> EndpointErr + string \<times> u16" where
  "split_endpoint endpoint =
     (case rsplit_once CHR '':'' endpoint of
        None \<Rightarrow> Inl No_colon
      | Some (host, port) \<Rightarrow> (case parse_word port of
            None \<Rightarrow> Inl Bad_port
          | Some p \<Rightarrow> if host = [] then Inl No_host else Inr (host, p)))"

section \<open>The push\<close>

text \<open>The failure of the exchange itself keeps its message; a refusal keeps the first line of the answer.\<close>

datatype PushErr = Endpoint_err EndpointErr | Exchange_failed string | Refused string | No_attempt

definition push_request :: "string \<Rightarrow> string \<Rightarrow> string \<Rightarrow> string" where
  "push_request name path body =
     ''POST '' @ path @ '' HTTP/1.0'' @ [cr, nl] @ ''Host: '' @ name @ [cr, nl]
       @ ''Content-Length: '' @ show_nat (length body) @ [cr, nl, cr, nl] @ body"

type_synonym exchange = "string \<Rightarrow> u16 \<Rightarrow> string \<Rightarrow> string \<Rightarrow> string + string"

definition push :: "exchange \<Rightarrow> string \<Rightarrow> string \<Rightarrow> string \<Rightarrow> string \<Rightarrow> PushErr + string" where
  "push net endpoint name path body =
     (case split_endpoint endpoint of
        Inl e \<Rightarrow> Inl (Endpoint_err e)
      | Inr (host, port) \<Rightarrow> (case net host port name (push_request name path body) of
            Inl m \<Rightarrow> Inl (Exchange_failed m)
          | Inr response \<Rightarrow> Inr response))"

definition first_line :: "string \<Rightarrow> string" where
  "first_line response = (case lines response of [] \<Rightarrow> [] | l # ls \<Rightarrow> l)"

definition accepted :: "string \<Rightarrow> bool" where
  "accepted response \<longleftrightarrow> str_contains (first_line response) ''200'' \<or> str_contains (first_line response) ''204''"

text \<open>The attempts from the \<open>k\<close>-th on, with \<open>net k\<close> what the network does to it.\<close>

fun push_from :: "(nat \<Rightarrow> PushErr + string) \<Rightarrow> nat \<Rightarrow> nat \<Rightarrow> PushErr \<Rightarrow> PushErr + string" where
  "push_from attempt k 0 e = Inl e"
| "push_from attempt k (Suc n) e = (case attempt k of
     Inr response \<Rightarrow> if accepted response then Inr response
       else push_from attempt (Suc k) n (Refused (first_line response))
   | Inl e1 \<Rightarrow> push_from attempt (Suc k) n e1)"

definition push_whole :: "(nat \<Rightarrow> exchange) \<Rightarrow> string \<Rightarrow> string \<Rightarrow> string \<Rightarrow> string \<Rightarrow> u32 \<Rightarrow> PushErr + string" where
  "push_whole net endpoint name path body attempts =
     push_from (\<lambda>k. push (net k) endpoint name path body) 0 (unat (max attempts 1)) No_attempt"

section \<open>The answer\<close>

definition trim_semicolons :: "string \<Rightarrow> string" where
  "trim_semicolons s = rev (dropWhile (\<lambda>c. c = CHR '';'') (rev s))"

definition reported_line :: "string \<Rightarrow> (string \<times> string \<times> string) list \<Rightarrow> (string \<times> string \<times> string) list" where
  "reported_line line found =
     (case split_ws line of
        proto # tuple # rest \<Rightarrow>
          if proto \<noteq> ''udp'' \<and> proto \<noteq> ''tcp'' then found
          else if list_ex (\<lambda>(p, t, f). p = proto) found then found
          else found @ [(proto, trim_semicolons tuple,
                 trim_semicolons (case rest of [] \<Rightarrow> ''poke'' | f # fs \<Rightarrow> f))]
      | _ \<Rightarrow> found)"

definition reported :: "string \<Rightarrow> (string \<times> string \<times> string) list" where
  "reported response = fold reported_line (lines response) []"

section \<open>One report\<close>

definition front_entries :: "LeaseTable \<Rightarrow> Publisher \<Rightarrow> (u16 \<times> u8 \<times> string) list" where
  "front_entries T pub = List.map_filter (\<lambda>s. map_option (\<lambda>t. (s_bind_port s, proto_code (s_proto s), tuple_text t))
     (slot_tuple (s_bind_port s) pub)) (t_slots T)"

text \<open>A tick of the loop: nothing is pushed while no slot has a tuple, and what the front reports is logged.\<close>

definition front_round :: "(nat \<Rightarrow> exchange) \<Rightarrow> string \<Rightarrow> string \<Rightarrow> LeaseTable \<Rightarrow> Publisher
    \<Rightarrow> (PushErr + (string \<times> string \<times> string) list) option" where
  "front_round net endpoint name T pub =
     (let entries = front_entries T pub
      in if entries = [] then None
         else Some (case push_whole net endpoint name ''/table'' (front_table entries) 3 of
                Inl e \<Rightarrow> Inl e | Inr response \<Rightarrow> Inr (reported response)))"

section \<open>What the two sides learn\<close>

text \<open>The table as the front reads it: a port, a protocol and a tuple to a line.\<close>

definition read_front_row :: "string \<Rightarrow> (u16 \<times> Proto \<times> tuple4) option" where
  "read_front_row line = (case split_ws line of
       [slot, proto, tuple] \<Rightarrow>
         (case (parse_word slot, parse_word proto :: u8 option, parse_tuple tuple) of
            (Some p, Some c, Some t) \<Rightarrow>
              if c = 17 then Some (p, Udp, t) else if c = 6 then Some (p, Tcp, t) else None
          | _ \<Rightarrow> None)
     | _ \<Rightarrow> None)"

lemma split_ws_word: "s \<noteq> [] \<Longrightarrow> \<forall>c \<in> set s. \<not> is_ws c \<Longrightarrow> split_ws (s @ '' '' @ rest) = s # split_ws rest"
proof -
  assume s: "s \<noteq> []" "\<forall>c \<in> set s. \<not> is_ws c"
  then have "dropWhile is_ws (s @ '' '' @ rest) = s @ '' '' @ rest" by (cases s) simp_all
  moreover have "takeWhile (\<lambda>c. \<not> is_ws c) (s @ '' '' @ rest) = s" "dropWhile (\<lambda>c. \<not> is_ws c) (s @ '' '' @ rest) = '' '' @ rest"
    using s by (simp_all add: takeWhile_append dropWhile_append is_ws_def)
  moreover have "split_ws ('' '' @ rest) = split_ws rest"
    by (subst (1 2) split_ws.simps) (simp add: is_ws_def)
  ultimately show ?thesis using s by (subst split_ws.simps) simp
qed

lemma split_ws_last: "s \<noteq> [] \<Longrightarrow> \<forall>c \<in> set s. \<not> is_ws c \<Longrightarrow> split_ws s = [s]"
proof -
  assume s: "s \<noteq> []" "\<forall>c \<in> set s. \<not> is_ws c"
  then have "dropWhile is_ws s = s" by (cases s) simp_all
  moreover have "takeWhile (\<lambda>c. \<not> is_ws c) s = s" "dropWhile (\<lambda>c. \<not> is_ws c) s = []"
    using s by (auto simp: takeWhile_eq_all_conv)
  moreover have "split_ws [] = []" by (simp add: split_ws.simps)
  ultimately show ?thesis using s by (subst split_ws.simps) (simp only: Let_def simp_thms if_False)
qed

lemma word_text: "show_word w \<noteq> [] \<and> (\<forall>c \<in> set (show_word w). \<not> is_ws c)"
  using show_word_plain [of _ w] by simp

lemma tuple_word: "tuple_text t \<noteq> [] \<and> (\<forall>c \<in> set (tuple_text t). \<not> is_ws c)"
  by (auto simp: tuple_text_def is_ws_def dest: show_ipv4_plain show_word_plain)

lemma front_row_back: "read_front_row (front_row (p, proto_code proto, tuple_text t)) = Some (p, proto, t)"
proof -
  have "split_ws (front_row (p, proto_code proto, tuple_text t)) = [show_word p, show_word (proto_code proto), tuple_text t]"
    by (simp only: front_row_def prod.case split_ws_word [OF word_text [THEN conjunct1] word_text [THEN conjunct2]]
        split_ws_last [OF tuple_word [THEN conjunct1] tuple_word [THEN conjunct2]])
  moreover have "parse_tuple (tuple_text t) = Some t"
  proof -
    have "trim (tuple_text t) = tuple_text t" using tuple_word by (intro trim_plain) blast
    moreover have "CHR '':'' \<notin> set (show_ipv4 (fst t))" by (auto dest: show_ipv4_plain)
    ultimately show ?thesis using split_once_append [of "CHR '':''" "show_ipv4 (fst t)" "show_word (snd t)"]
      by (simp add: parse_tuple_def) (simp add: tuple_text_def)
  qed
  ultimately show ?thesis by (cases proto) (simp_all add: read_front_row_def proto_code_def)
qed

lemma front_row_line: "nl \<notin> set (front_row (p, c, tuple_text t)) \<and> cr \<notin> set (front_row (p, c, tuple_text t))"
proof -
  have "is_ws nl" "is_ws cr" by (simp_all add: is_ws_def nl_def cr_def)
  then have "x \<notin> set (show_word p)" "x \<notin> set (show_word c)" "x \<notin> set (tuple_text t)" if "x = nl \<or> x = cr" for x
    using that word_text [of p] word_text [of c] tuple_word [of t] by blast+
  then show ?thesis by (simp add: front_row_def) (simp add: nl_def cr_def)
qed

definition held_tuples :: "LeaseTable \<Rightarrow> Publisher \<Rightarrow> (u16 \<times> Proto \<times> tuple4) list" where
  "held_tuples T pub = List.map_filter (\<lambda>s. map_option (\<lambda>t. (s_bind_port s, s_proto s, t))
     (slot_tuple (s_bind_port s) pub)) (t_slots T)"

lemma front_entries_held: "front_entries T pub = map (\<lambda>(p, proto, t). (p, proto_code proto, tuple_text t)) (held_tuples T pub)"
proof -
  have "List.map_filter (\<lambda>s. map_option (\<lambda>t. (s_bind_port s, proto_code (s_proto s), tuple_text t))
        (slot_tuple (s_bind_port s) pub)) ss
      = map (\<lambda>(p, proto, t). (p, proto_code proto, tuple_text t)) (List.map_filter (\<lambda>s. map_option
        (\<lambda>t. (s_bind_port s, s_proto s, t)) (slot_tuple (s_bind_port s) pub)) ss)" for ss
    by (induction ss) (simp_all add: List.map_filter_simps split: option.split)
  then show ?thesis by (simp add: front_entries_def held_tuples_def)
qed

text \<open>The front learns every tuple. Read line by line, the table of a report is, in the order of the slots,
  the port, the protocol and the published tuple of each slot that has one, and nothing else.\<close>

theorem front_learns_every_tuple:
  "map read_front_row (lines (front_table (front_entries T pub))) = map Some (held_tuples T pub)"
proof -
  define rows where "rows = map (\<lambda>(p, proto, t). front_row (p, proto_code proto, tuple_text t)) (held_tuples T pub)"
  have "front_table (front_entries T pub) = concat (map (\<lambda>r. r @ [nl]) rows)"
    by (simp add: front_table_def front_entries_held rows_def comp_def case_prod_beta)
  moreover have "nl \<notin> set r \<and> cr \<notin> set r" if "r \<in> set rows" for r
    using that front_row_line by (auto simp: rows_def)
  ultimately have "lines (front_table (front_entries T pub)) = rows" using lines_concat by metis
  moreover have "map read_front_row rows = map Some (held_tuples T pub)"
    by (auto simp: rows_def front_row_back)
  ultimately show ?thesis by simp
qed

text \<open>The push stops at the first attempt that is accepted, and fails only when none of them is.\<close>

lemma push_from_result:
  "case push_from attempt k n e of
     Inr r \<Rightarrow> \<exists>i<n. attempt (k + i) = Inr r \<and> accepted r \<and> (\<forall>j<i. \<forall>x. attempt (k + j) = Inr x \<longrightarrow> \<not> accepted x)
   | Inl e1 \<Rightarrow> \<forall>i<n. \<forall>x. attempt (k + i) = Inr x \<longrightarrow> \<not> accepted x"
proof (induction n arbitrary: k e)
  case 0
  show ?case by simp
next
  case (Suc n)
  have later: "case push_from attempt (Suc k) n e1 of
       Inr r \<Rightarrow> \<exists>i<Suc n. attempt (k + i) = Inr r \<and> accepted r \<and> (\<forall>j<i. \<forall>x. attempt (k + j) = Inr x \<longrightarrow> \<not> accepted x)
     | Inl e2 \<Rightarrow> \<forall>i<Suc n. \<forall>x. attempt (k + i) = Inr x \<longrightarrow> \<not> accepted x"
    if now: "\<forall>x. attempt k = Inr x \<longrightarrow> \<not> accepted x" for e1
  proof (cases "push_from attempt (Suc k) n e1")
    case (Inl e2)
    then have "\<forall>i<n. \<forall>x. attempt (Suc k + i) = Inr x \<longrightarrow> \<not> accepted x" using Suc [of "Suc k" e1] by simp
    with now Inl show ?thesis by (auto simp: less_Suc_eq_0_disj)
  next
    case (Inr r)
    then obtain i where "i < n" "attempt (Suc k + i) = Inr r" "accepted r"
      "\<forall>j<i. \<forall>x. attempt (Suc k + j) = Inr x \<longrightarrow> \<not> accepted x" using Suc [of "Suc k" e1] by auto
    with now have "Suc i < Suc n \<and> attempt (k + Suc i) = Inr r \<and> accepted r
        \<and> (\<forall>j<Suc i. \<forall>x. attempt (k + j) = Inr x \<longrightarrow> \<not> accepted x)"
      by (auto simp: less_Suc_eq_0_disj)
    with Inr show ?thesis by (simp only: sum.case) blast
  qed
  show ?case
  proof (cases "attempt k")
    case (Inl e1)
    with later [of e1] show ?thesis by simp
  next
    case (Inr r)
    with later show ?thesis by (cases "accepted r") (auto intro: exI [of _ "0::nat"])
  qed
qed

text \<open>At most one report to a protocol.\<close>

lemma reported_step:
  "distinct (map fst found) \<and> fst ` set found \<subseteq> {''udp'', ''tcp''} \<Longrightarrow>
   distinct (map fst (reported_line line found)) \<and> fst ` set (reported_line line found) \<subseteq> {''udp'', ''tcp''}"
  by (auto simp: reported_line_def list_ex_iff split: list.splits)

lemma reported_once: "distinct (map fst (reported response)) \<and> fst ` set (reported response) \<subseteq> {''udp'', ''tcp''}"
proof -
  have "distinct (map fst (fold reported_line ls found)) \<and> fst ` set (fold reported_line ls found) \<subseteq> {''udp'', ''tcp''}"
    if "distinct (map fst found) \<and> fst ` set found \<subseteq> {''udp'', ''tcp''}" for ls found
    using that
  proof (induction ls arbitrary: found)
    case (Cons l ls)
    from Cons.IH [OF reported_step [OF Cons.prems]] show ?case by simp
  qed simp
  from this [of "[]"] show ?thesis by (simp add: reported_def)
qed

text \<open>The example of the source's test.\<close>

lemma reported_example:
  "reported (''HTTP/1.0 200 OK'' @ [cr, nl, cr, nl] @ ''udp 37.228.213.83:59348 poke;'' @ [nl]
     @ ''tcp 37.228.213.83:59237 push;'' @ [nl])
   = [(''udp'', ''37.228.213.83:59348'', ''poke''), (''tcp'', ''37.228.213.83:59237'', ''push'')]"
  by code_simp

end
