(* ===== verification/Store.thy ===== *)
theory Store
  imports Persist
begin

text \<open>
  How the state files are replaced (\<open>write_leases\<close> and \<open>write_entries\<close> of \<open>src/src/persist.rs\<close>, \<open>dp_save\<close> of
  \<open>src/src/upnpsvc.rs\<close>): written beside, then renamed. A crash may fall between two steps or inside a
  write, and any step may fail.
\<close>

section \<open>Files and their steps\<close>

text \<open>The state directory: the files in it by name.\<close>

type_synonym dir = "string \<Rightarrow> string option"

text \<open>\<open>create_dir_all\<close>, \<open>File::create\<close>, which empties a file, \<open>write_all\<close> and \<open>rename\<close>.\<close>

datatype FsOp = Make_dir | Create string | Write_all string string | Rename string string

fun fs_do :: "FsOp \<Rightarrow> dir \<Rightarrow> dir" where
  "fs_do Make_dir d = d"
| "fs_do (Create n) d = d(n \<mapsto> [])"
| "fs_do (Write_all n octs) d = (case d n of Some s \<Rightarrow> d(n \<mapsto> s @ octs) | None \<Rightarrow> d)"
| "fs_do (Rename a b) d = (case d a of Some s \<Rightarrow> d(a := None, b \<mapsto> s) | None \<Rightarrow> d)"

definition write_leases :: "PersistedSlot list \<Rightarrow> FsOp list" where
  "write_leases slots = [Make_dir, Create ''leases.tsv.tmp'', Write_all ''leases.tsv.tmp'' (tsv slots),
     Rename ''leases.tsv.tmp'' ''leases.tsv'']"

definition write_entries :: "string \<Rightarrow> FsOp list" where
  "write_entries body = [Make_dir, Create ''upnp.tsv.tmp'', Write_all ''upnp.tsv.tmp'' body,
     Rename ''upnp.tsv.tmp'' ''upnp.tsv'']"

text \<open>\<open>fs::write\<close> is a create and a write.\<close>

definition dp_save_ops :: "string \<Rightarrow> FsOp list" where
  "dp_save_ops text = [Make_dir, Create ''dp.tsv.tmp'', Write_all ''dp.tsv.tmp'' text, Rename ''dp.tsv.tmp'' ''dp.tsv'']"

text \<open>
  What the directory may hold at any moment, or be left with: the steps so far, with a write that got
  as far as its first \<open>k\<close> octets.
\<close>

inductive left_with :: "FsOp list \<Rightarrow> dir \<Rightarrow> dir \<Rightarrow> bool" where
  stopped: "left_with ops d d"
| partial_write: "d n = Some s \<Longrightarrow> left_with (Write_all n octs # ops) d (d(n \<mapsto> s @ take k octs))"
| one_more: "left_with ops (fs_do op d) d' \<Longrightarrow> left_with (op # ops) d d'"

inductive_cases left_with_nilE: "left_with [] d d'"
inductive_cases left_with_consE: "left_with (op # ops) d d'"

section \<open>The reader finds a whole file\<close>

definition replace_ops :: "string \<Rightarrow> string \<Rightarrow> string \<Rightarrow> FsOp list" where
  "replace_ops tmp name body = [Make_dir, Create tmp, Write_all tmp body, Rename tmp name]"

lemma replaced_whole:
  assumes "left_with (replace_ops tmp name body) d d'" and "tmp \<noteq> name"
  shows "d' name \<in> {d name, Some body} \<and> (\<forall>n. n \<notin> {tmp, name} \<longrightarrow> d' n = d n)"
  using assms unfolding replace_ops_def by (auto elim!: left_with_consE left_with_nilE split: if_splits)

lemma replaced: "fold fs_do (replace_ops tmp name body) d = d(tmp := None, name \<mapsto> body)"
  by (simp add: replace_ops_def)

text \<open>C16 (safety): a crash never costs a table. Wherever the writing of the leases, of the index or of the
  records of device protection stops, the reader of the file finds what was there before or the whole
  new text, and every file of the directory other than the file and its \<open>.tmp\<close> is as it was; in
  particular the leases are read as before while another file is written. A writing that runs to
  its end has put the new text in place, left no \<open>.tmp\<close>, and touched nothing else.\<close>

theorem crash_keeps_a_whole_file:
  assumes "(ops, name, body) \<in> set [(write_leases slots, ''leases.tsv'', tsv slots),
      (write_entries index, ''upnp.tsv'', index), (dp_save_ops records, ''dp.tsv'', records)]"
    and "left_with ops d d'"
  shows "(d' name = d name \<or> d' name = Some body)
    \<and> (\<forall>n. n \<noteq> name \<and> n \<noteq> name @ ''.tmp'' \<longrightarrow> d' n = d n)
    \<and> (name \<noteq> ''leases.tsv'' \<longrightarrow> read_leases (d' ''leases.tsv'') = read_leases (d ''leases.tsv''))
    \<and> fold fs_do ops d = d(name @ ''.tmp'' := None, name \<mapsto> body)"
proof -
  have ops: "ops = replace_ops (name @ ''.tmp'') name body" and name: "name \<in> {''leases.tsv'', ''upnp.tsv'', ''dp.tsv''}"
    using assms(1) by (auto simp: replace_ops_def write_leases_def write_entries_def dp_save_ops_def)
  have w: "d' name \<in> {d name, Some body}" "n \<notin> {name @ ''.tmp'', name} \<Longrightarrow> d' n = d n" for n
    using replaced_whole [OF assms(2) [unfolded ops]] by simp_all
  have "d' ''leases.tsv'' = d ''leases.tsv''" if "name \<noteq> ''leases.tsv''"
    using w(2) [of "''leases.tsv''"] name that by auto
  then show ?thesis using w replaced [of "name @ ''.tmp''" name body d] by (auto simp: ops)
qed

text \<open>A crash in the middle of the second row of the index.\<close>

theorem crash_keeps_a_whole_file_witness:
  "\<exists>d'. left_with (write_entries ''ab'') [''upnp.tsv'' \<mapsto> ''old''] d' \<and> d' ''upnp.tsv.tmp'' = Some ''a''
     \<and> d' ''leases.tsv'' = None \<and> d' ''leases.tsv'' = None \<and> (d' ''upnp.tsv'' = Some ''old'' \<or> d' ''upnp.tsv'' = Some ''ab'')"
proof -
  define d :: dir where "d = [''upnp.tsv'' \<mapsto> ''old'']"
  define d1 :: dir where "d1 = fs_do (Create ''upnp.tsv.tmp'') (fs_do Make_dir d)"
  have "left_with [Write_all ''upnp.tsv.tmp'' ''ab'', Rename ''upnp.tsv.tmp'' ''upnp.tsv''] d1
      (d1(''upnp.tsv.tmp'' \<mapsto> [] @ take 1 ''ab''))"
    by (rule partial_write) (simp add: d1_def)
  then have "left_with (write_entries ''ab'') d (d1(''upnp.tsv.tmp'' \<mapsto> [] @ take 1 ''ab''))"
    unfolding write_entries_def d1_def by (rule one_more [OF one_more])
  then obtain d' where d': "left_with (write_entries ''ab'') d d'" "d' ''upnp.tsv.tmp'' = Some ''a''" by auto
  have "(write_entries ''ab'', ''upnp.tsv'', ''ab'') \<in> set [(write_leases [], ''leases.tsv'', tsv []),
      (write_entries ''ab'', ''upnp.tsv'', ''ab''), (dp_save_ops [], ''dp.tsv'', [])]" by simp
  note crash_keeps_a_whole_file [OF this d'(1)]
  then have "d' ''upnp.tsv'' = d ''upnp.tsv'' \<or> d' ''upnp.tsv'' = Some ''ab''"
    and "d' ''leases.tsv'' = d ''leases.tsv''" by (blast, simp)
  then have "d' ''leases.tsv'' = None" "d' ''upnp.tsv'' = Some ''old'' \<or> d' ''upnp.tsv'' = Some ''ab''"
    by (simp_all add: d_def)
  with d' show ?thesis unfolding d_def by blast
qed

end
