(* ===== verification/Presence.thy ===== *)
theory Presence
  imports Health Text
begin

text \<open>
  Whether a device is on the LAN (\<open>device_up\<close> and \<open>neigh_answers\<close> of \<open>src/src/presence.rs\<close>), from what the
  neighbour table says before and after a ping.
\<close>

definition neigh_answers :: "string \<Rightarrow> bool" where
  "neigh_answers listing =
     (let l = trim listing
      in if l = [] then True
         else if str_contains l ''FAILED'' \<or> str_contains l ''INCOMPLETE'' then False else True)"

text \<open>A listing that cannot be had reads as an empty one; the ping only wakes the table.\<close>

definition device_up :: "string option \<Rightarrow> string option \<Rightarrow> bool" where
  "device_up before after =
     (let first = (case before of Some s \<Rightarrow> s | None \<Rightarrow> [])
      in if trim first = []
         then (let second = (case after of Some s \<Rightarrow> s | None \<Rightarrow> [])
               in if trim second = [] then True else neigh_answers second)
         else neigh_answers first)"

text \<open>A device counts as gone only when the table names a failure, and never because a probe could not run.\<close>

lemma gone_is_a_named_failure:
  "\<not> device_up before after \<longleftrightarrow> (\<exists>l. (before = Some l \<or> (\<forall>b. before = Some b \<longrightarrow> trim b = []) \<and> after = Some l)
     \<and> (str_contains (trim l) ''FAILED'' \<or> str_contains (trim l) ''INCOMPLETE''))"
proof -
  have "trim [] = []" by (simp add: trim_def trim_start_def trim_end_def)
  moreover have "\<not> str_contains [] ''FAILED''" "\<not> str_contains [] ''INCOMPLETE''" by simp_all
  ultimately show ?thesis
    by (cases before; cases after) (auto simp: device_up_def neigh_answers_def Let_def)
qed

end
