(* ===== verification/Shadow.thy ===== *)
theory Shadow
  imports Udp_Slot Args
begin

text \<open>
  The shadow task of a claimed flow (\<open>spawn_shadow\<close> of \<open>src/src/engine.rs\<close>): a keepalive on each tick, the
  flow's external tuple from the answers, and the datagrams of peers forwarded to the device.
\<close>

record Shadow =
  sh_cursor :: u64
  sh_external :: "tuple4 option"
  sh_inbound :: u64

definition shadow_server :: "tuple4 list \<Rightarrow> Shadow \<Rightarrow> tuple4" where
  "shadow_server servers S = servers ! (unat (sh_cursor S) mod length servers)"

text \<open>A tick; \<open>None\<close> is the end of the task. \<open>sent\<close> says whether the send succeeds.\<close>

definition shadow_tick :: "tuple4 list \<Rightarrow> bool \<Rightarrow> u64 \<Rightarrow> bool \<Rightarrow> Shadow \<Rightarrow> (Send list \<times> Shadow) option" where
  "shadow_tick servers stop seed sent S =
     (if stop then None
      else if servers = [] then Some ([], S)
      else Some ([From_slot (binding_request (random_txn seed)) (shadow_server servers S)],
             if sent then S else S\<lparr>sh_cursor := sh_cursor S + 1\<rparr>))"

definition shadow_recv :: "tuple4 list \<Rightarrow> tuple4 \<Rightarrow> u64 \<Rightarrow> bool \<Rightarrow> SocketAddr \<Rightarrow> u8 list \<Rightarrow> Shadow \<Rightarrow> Send list \<times> Shadow" where
  "shadow_recv servers target now forwarded src pkt S =
     (case src of
        V4 peer \<Rightarrow>
          if peer \<in> set servers
          then ([], case parse_mapped pkt of Some t \<Rightarrow> S\<lparr>sh_external := Some t\<rparr> | None \<Rightarrow> S)
          else ([Forward pkt peer target], if forwarded then S\<lparr>sh_inbound := now\<rparr> else S)
      | _ \<Rightarrow> ([], S))"

datatype ShadowEvent = Tick u64 bool | Arrival u64 bool SocketAddr "u8 list"

fun shadow_event :: "tuple4 list \<Rightarrow> tuple4 \<Rightarrow> ShadowEvent \<Rightarrow> Shadow \<Rightarrow> Send list \<times> Shadow" where
  "shadow_event servers target (Tick seed sent) S =
     (case shadow_tick servers False seed sent S of Some r \<Rightarrow> r | None \<Rightarrow> ([], S))"
| "shadow_event servers target (Arrival now forwarded src pkt) S = shadow_recv servers target now forwarded src pkt S"

text \<open>
  While the sends succeed the task keeps to one server, so that the carrier keeps to one tuple; and only
  an answer of a configured server changes the tuple it reports.
\<close>

lemma shadow_keeps_its_server:
  assumes "\<forall>seed. e \<noteq> Tick seed False"
  shows "sh_cursor (snd (shadow_event servers target e S)) = sh_cursor S
    \<and> (From_slot pkt dst \<in> set (fst (shadow_event servers target e S)) \<longrightarrow> dst = shadow_server servers S)"
  using assms
  by (cases e) (auto simp: shadow_tick_def shadow_recv_def split: SocketAddr.splits option.splits)

lemma shadow_trusts_servers:
  assumes "sh_external (snd (shadow_event servers target e S)) \<noteq> sh_external S"
  shows "\<exists>now f src pkt t. e = Arrival now f (V4 src) pkt \<and> src \<in> set servers \<and> parse_mapped pkt = Some t
    \<and> sh_external (snd (shadow_event servers target e S)) = Some t"
  using assms
  by (cases e) (auto simp: shadow_tick_def shadow_recv_def split: SocketAddr.splits option.splits if_splits)

end
