(* ===== verification/Http.thy ===== *)
theory Http
  imports Discovery Identity Facade_Props
begin

text \<open>
  One connection of the facade's HTTP server (\<open>read_head\<close>, \<open>read_body\<close> and \<open>write_response\<close> of
  \<open>src/src/upnpsvc.rs\<close>): what is read from the stream, however the network cuts it, and the octets that
  go back. The dispatch between the two is \<open>handle_conn\<close> of \<open>Control\<close>.
\<close>

section \<open>The stream\<close>

text \<open>
  The octets still to arrive, the sizes in which they arrive (without bound once the list is used up),
  and whether the peer then closes; a peer that does not is an error or the time limit, and both drop
  the connection.
\<close>

record HttpStream =
  st_data :: string
  st_cuts :: "nat list"
  st_closes :: bool

definition arriving :: "nat \<Rightarrow> HttpStream \<Rightarrow> nat" where
  "arriving room S = min room (case st_cuts S of [] \<Rightarrow> room | c # _ \<Rightarrow> max 1 c)"

definition recv :: "nat \<Rightarrow> HttpStream \<Rightarrow> (string \<times> HttpStream) option" where
  "recv room S =
     (if st_data S = [] then (if st_closes S then Some ([], S) else None)
      else Some (take (arriving room S) (st_data S),
                 S\<lparr>st_data := drop (arriving room S) (st_data S), st_cuts := tl (st_cuts S)\<rparr>))"

section \<open>Reading a request\<close>

definition HTTP_CAP :: nat where "HTTP_CAP = 8192"

text \<open>\<open>windows(n).any(..)\<close> over the octets read.\<close>

definition head_done :: "string \<Rightarrow> bool" where
  "head_done buf \<longleftrightarrow> str_contains buf [cr, nl, cr, nl] \<or> str_contains buf [nl, nl]"

function read_head :: "string \<Rightarrow> HttpStream \<Rightarrow> (string \<times> HttpStream) option" where
  "read_head buf S =
     (case recv 512 S of
        None \<Rightarrow> None
      | Some (new, S') \<Rightarrow>
          if new = [] then Some (buf, S')
          else if HTTP_CAP \<le> length (buf @ new) \<or> head_done (buf @ new) then Some (buf @ new, S')
          else read_head (buf @ new) S')"
  by pat_completeness auto

lemma arriving_pos: "0 < room \<Longrightarrow> 0 < arriving room S"
  by (auto simp: arriving_def less_max_iff_disj split: list.split)

lemma recv_shrinks:
  assumes "recv room S = Some (new, S')" and "new \<noteq> []"
  shows "length (st_data S') < length (st_data S)"
  using assms by (auto simp: recv_def split: if_splits)

termination read_head
  by (relation "measure (\<lambda>(_, S). length (st_data S))") (auto dest: recv_shrinks)

declare read_head.simps [simp del]

function read_more :: "nat \<Rightarrow> string \<Rightarrow> HttpStream \<Rightarrow> (string \<times> HttpStream) option" where
  "read_more want body S =
     (if want \<le> length body then Some (body, S)
      else (case recv 1024 S of
              None \<Rightarrow> None
            | Some (new, S') \<Rightarrow>
                if new = [] then Some (body, S')
                else read_more want (body @ take (min (length new) (want - length body)) new) S'))"
  by pat_completeness auto

termination read_more
  by (relation "measure (\<lambda>(_, _, S). length (st_data S))") (auto dest: recv_shrinks)

declare read_more.simps [simp del]

definition read_body :: "nat \<Rightarrow> HttpStream \<Rightarrow> (string \<times> HttpStream) option" where
  "read_body want S = read_more (min want HTTP_CAP) [] S"

section \<open>The response\<close>

text \<open>\<open>write_soap_fault\<close> writes the same lines, with its status and no extra header.\<close>

definition write_response :: "Response \<Rightarrow> string" where
  "write_response r =
     ''HTTP/1.1 '' @ r_status r @ crlf @ r_extra r @ header_line ''SERVER'' SERVER_LINE
     @ header_line ''Content-Type'' (''text/xml; charset='' @ dquote @ ''utf-8'' @ dquote)
     @ header_line ''Content-Length'' (show_nat (length (r_body r)))
     @ header_line ''Connection'' ''close'' @ crlf @ r_body r"

section \<open>One connection\<close>

text \<open>What the peer is sent, if anything, and the facade after.\<close>

definition serve_conn ::
  "UpnpConfig \<Rightarrow> Env \<Rightarrow> (Doc \<Rightarrow> string) \<Rightarrow> u8 list \<Rightarrow> Sid \<Rightarrow> ipv4 \<Rightarrow> HttpStream
     \<Rightarrow> Facade \<Rightarrow> string option \<times> Facade" where
  "serve_conn C V docs nonce sid client S F =
     (case read_head [] S of
        None \<Rightarrow> (None, F)
      | Some (raw, S1) \<Rightarrow>
          (case request_parts raw (\<lambda>want. map_option fst (read_body want S1)) of
             None \<Rightarrow> (None, F)
           | Some (head, body) \<Rightarrow>
               (let (r, F1) = handle_conn C V docs nonce sid client head body F
                in (Some (write_response r), F1))))"

section \<open>The end of the head\<close>

text \<open>Where the head ends: \<open>blank_at\<close> is the blank line at the front, in either line ending.\<close>

definition blank_at :: "string \<Rightarrow> nat" where
  "blank_at xs = (if take 4 xs = [cr, nl, cr, nl] then 4 else if take 2 xs = [nl, nl] then 2 else 0)"

lemma split_head_Cons:
  "split_head (c # cs) = (if 0 < blank_at (c # cs) then Some (take (blank_at (c # cs)) (c # cs), drop (blank_at (c # cs)) (c # cs))
     else map_option (\<lambda>(h, b). (c # h, b)) (split_head cs))"
  by (simp add: blank_at_def)

declare split_head.simps(2) [simp del]

lemma split_head_parts: "split_head xs = Some (h, b) \<Longrightarrow> xs = h @ b"
  by (induction xs arbitrary: h b) (auto simp: split_head_Cons split: if_splits)

lemma cr_not_nl [simp]: "cr \<noteq> nl" "nl \<noteq> cr"
  by (simp_all add: cr_def nl_def)

lemma blank_at_le: "blank_at xs \<le> length xs"
proof -
  have "take 4 xs = [cr, nl, cr, nl] \<Longrightarrow> 4 \<le> length xs" "take 2 xs = [nl, nl] \<Longrightarrow> 2 \<le> length xs"
    by (drule arg_cong [where f = length], simp)+
  then show ?thesis by (simp add: blank_at_def)
qed

text \<open>Two octets after the front decide it; only the four of a blank line may be cut short.\<close>

lemma blank_at_append:
  assumes "0 < blank_at xs"
  shows "blank_at (xs @ ys) = blank_at xs"
proof -
  have "take 4 xs = [cr, nl, cr, nl] \<Longrightarrow> take 4 (xs @ ys) = [cr, nl, cr, nl]"
    and "take 2 xs = [nl, nl] \<Longrightarrow> take 4 (xs @ ys) \<noteq> [cr, nl, cr, nl] \<and> take 2 (xs @ ys) = [nl, nl]"
    by (cases xs; cases "tl xs"; cases "tl (tl xs)"; cases "tl (tl (tl xs))"; simp add: numeral_eq_Suc)+
  then show ?thesis using assms by (auto simp: blank_at_def split: if_splits)
qed

lemma blank_at_none:
  assumes "blank_at (c # cs) = 0" and "split_head cs = Some r"
  shows "blank_at (c # cs @ ys) = 0"
proof -
  have "0 < blank_at cs \<or> 3 \<le> length cs"
  proof (cases cs)
    case (Cons a as)
    then show ?thesis using assms(2)
      by (cases as; cases "tl as") (auto simp: split_head_Cons blank_at_def numeral_eq_Suc split: if_splits)
  qed (use assms(2) in simp)
  then show ?thesis
    using assms(1) by (cases cs; cases "tl cs"; cases "tl (tl cs)") (auto simp: blank_at_def numeral_eq_Suc split: if_splits)
qed

lemma split_head_append:
  "split_head xs = Some (h, b) \<Longrightarrow> split_head (xs @ ys) = Some (h, b @ ys)"
proof (induction xs arbitrary: h b)
  case (Cons c cs)
  show ?case
  proof (cases "0 < blank_at (c # cs)")
    case True
    have "take (blank_at (c # cs)) (c # cs @ ys) = take (blank_at (c # cs)) (c # cs)"
      and "drop (blank_at (c # cs)) (c # cs @ ys) = drop (blank_at (c # cs)) (c # cs) @ ys"
      using take_append [of "blank_at (c # cs)" "c # cs" ys] drop_append [of "blank_at (c # cs)" "c # cs" ys]
        blank_at_le [of "c # cs"] by simp_all
    then show ?thesis
      using Cons.prems True blank_at_append [OF True, of ys] by (simp add: split_head_Cons)
  next
    case False
    then obtain h' where h: "split_head cs = Some (h', b)" "h = c # h'"
      using Cons.prems by (auto simp: split_head_Cons)
    show ?thesis
      using False blank_at_none [OF _ h(1), of c ys] Cons.IH [OF h(1)] h(2) by (simp add: split_head_Cons)
  qed
qed simp

lemma head_done_iff: "head_done buf \<longleftrightarrow> split_head buf \<noteq> None"
  by (induction buf) (auto simp: head_done_def split_head_Cons blank_at_def starts_with_def numeral_eq_Suc split: if_splits)

lemma blank_at_take: "0 < blank_at xs \<Longrightarrow> blank_at (take (blank_at xs) xs) = blank_at xs"
  by (auto simp: blank_at_def split: if_splits)

lemma split_head_self: "split_head msg = Some (head, rest) \<Longrightarrow> split_head head = Some (head, [])"
proof (induction msg arbitrary: head)
  case (Cons c cs)
  show ?case
  proof (cases "0 < blank_at (c # cs)")
    case True
    then have h: "head = take (blank_at (c # cs)) (c # cs)" using Cons.prems by (simp add: split_head_Cons)
    then have "head \<noteq> []" and "length head \<le> blank_at (c # cs)" using True by simp_all
    from this(1) obtain d ds where "head = d # ds" by (cases head) blast+
    then show ?thesis using True blank_at_take [OF True] h \<open>length head \<le> _\<close>
      by (simp add: split_head_Cons)
  next
    case False
    then obtain h' where h: "split_head cs = Some (h', rest)" "head = c # h'"
      using Cons.prems by (auto simp: split_head_Cons)
    have "blank_at (c # h') = 0"
      using False blank_at_append [of "c # h'" rest] split_head_parts [OF h(1)] by fastforce
    then show ?thesis using Cons.IH [OF h(1)] h(2) by (simp add: split_head_Cons)
  qed
qed simp

lemma head_done_prefix:
  assumes "split_head (buf @ later) = Some (head, rest)"
  shows "head_done buf \<longleftrightarrow> length head \<le> length buf"
proof
  assume "head_done buf"
  then obtain h b where s: "split_head buf = Some (h, b)" by (auto simp: head_done_iff)
  from split_head_append [OF s, of later] assms have "h = head" by simp
  then show "length head \<le> length buf" using split_head_parts [OF s] by simp
next
  assume "length head \<le> length buf"
  then obtain b where "buf = head @ b"
    using split_head_parts [OF assms] by (metis append_eq_append_conv_if append_take_drop_id)
  then show "head_done buf"
    using split_head_append [OF split_head_self [OF assms], of b] by (simp add: head_done_iff)
qed

section \<open>However the network cuts it\<close>

lemma recv_data:
  assumes "st_data S \<noteq> []" and "0 < room"
  obtains new S' where "recv room S = Some (new, S')" "new \<noteq> []" "st_data S = new @ st_data S'" "length new \<le> room"
proof (rule that)
  show "recv room S = Some (take (arriving room S) (st_data S),
      S\<lparr>st_data := drop (arriving room S) (st_data S), st_cuts := tl (st_cuts S)\<rparr>)"
    using assms(1) by (simp add: recv_def)
  show "take (arriving room S) (st_data S) \<noteq> []" using assms arriving_pos [of room S] by simp
qed (simp_all add: arriving_def)

lemma read_head_whole:
  assumes "split_head (buf @ st_data S) = Some (head, rest)"
    and "length head \<le> HTTP_CAP" and "length buf < length head"
  shows "\<exists>raw S'. read_head buf S = Some (raw, S') \<and> raw @ st_data S' = buf @ st_data S \<and> length head \<le> length raw"
  using assms
proof (induction buf S rule: read_head.induct)
  case (1 buf S)
  have "st_data S \<noteq> []" using split_head_parts [OF 1(2)] 1(4) by (cases "st_data S") auto
  then obtain new S' where r: "recv 512 S = Some (new, S')" "new \<noteq> []" "st_data S = new @ st_data S'"
    by (rule recv_data [of S 512]) simp_all
  have again: "split_head ((buf @ new) @ st_data S') = Some (head, rest)" using 1(2) r(3) by simp
  show ?case
  proof (cases "length head \<le> length (buf @ new)")
    case True
    then show ?thesis using r head_done_prefix [OF again] by (subst read_head.simps) simp
  next
    case False
    then have more: "\<not> (HTTP_CAP \<le> length (buf @ new) \<or> head_done (buf @ new))"
      using head_done_prefix [OF again] 1(3) by auto
    have "\<exists>raw S''. read_head (buf @ new) S' = Some (raw, S'') \<and> raw @ st_data S'' = (buf @ new) @ st_data S'
        \<and> length head \<le> length raw"
      using 1(1) [OF r(1) refl r(2) more again 1(3)] False by simp
    then show ?thesis using r more by (subst read_head.simps) simp
  qed
qed

lemma read_more_whole:
  assumes "want \<le> length body + length (st_data S)" and "length body \<le> want"
  shows "map_option fst (read_more want body S) = Some (take want (body @ st_data S))"
  using assms
proof (induction want body S rule: read_more.induct)
  case (1 want body S)
  show ?case
  proof (cases "want \<le> length body")
    case False
    then have "st_data S \<noteq> []" using 1(2) by auto
    then obtain new S' where r: "recv 1024 S = Some (new, S')" "new \<noteq> []" "st_data S = new @ st_data S'"
      by (rule recv_data [of S 1024]) simp_all
    let ?got = "body @ take (min (length new) (want - length body)) new"
    have "map_option fst (read_more want ?got S') = Some (take want (?got @ st_data S'))"
      using 1(2,3) r False by (intro 1(1)) auto
    moreover have "take want (?got @ st_data S') = take want (body @ st_data S)"
      using r(3) by (simp add: min_def)
    ultimately show ?thesis using r False by (subst read_more.simps) simp
  qed (use 1 in \<open>subst read_more.simps, simp\<close>)
qed

lemma request_parts_whole:
  assumes "split_head (head @ body @ later) = Some (head, body @ later)"
    and cl: "content_length head = Some (length body)" and "length body \<le> HTTP_CAP"
    and "raw @ st_data S = head @ body @ later" and "length head \<le> length raw"
  shows "request_parts raw (\<lambda>want. map_option fst (read_body want S)) = Some (head, body)"
proof -
  obtain excess where raw: "raw = head @ excess" and rest: "excess @ st_data S = body @ later"
    using assms(4,5) by (metis append_assoc append_eq_append_conv2 append_eq_append_conv_if append_take_drop_id)
  have "split_head raw = Some (head, excess)"
    using split_head_append [OF split_head_self [OF assms(1)], of excess] raw by simp
  moreover have "take (length body) (excess @ st_data S) = body" using rest by simp
  moreover have "map_option fst (read_body (length body - length excess) S)
      = Some (take (length body - length excess) (st_data S))" if "length excess < length body"
  proof -
    have "length (excess @ st_data S) = length (body @ later)" using rest by simp
    then have "length body - length excess \<le> length (st_data S)" by simp
    moreover have "min (length body - length excess) HTTP_CAP = length body - length excess" using assms(3) by simp
    ultimately show ?thesis
      using read_more_whole [of "length body - length excess" "[]" S] by (simp add: read_body_def)
  qed
  ultimately show ?thesis using cl by (auto simp: request_parts_def)
qed

section \<open>The response is framed\<close>

text \<open>Lines without a line feed do not hold the end of a head.\<close>

lemma blank_in_line: "nl \<notin> set (c # l) \<Longrightarrow> blank_at (c # l @ cr # rest) = 0"
  by (cases l) (auto simp: blank_at_def numeral_eq_Suc)

lemma split_head_line:
  "nl \<notin> set l \<Longrightarrow> split_head (l @ cr # rest) = map_option (\<lambda>(h, b). (l @ h, b)) (split_head (cr # rest))"
proof (induction l)
  case Nil
  show ?case by (cases "split_head (cr # rest)") auto
next
  case (Cons c l)
  have "split_head ((c # l) @ cr # rest) = map_option (\<lambda>(h, b). (c # h, b)) (split_head (l @ cr # rest))"
    using blank_in_line [OF Cons.prems, of rest] by (simp add: split_head_Cons)
  then show ?case using Cons by (simp add: option.map_comp comp_def split_beta)
qed

lemma split_head_next:
  assumes "c \<noteq> cr" and "c \<noteq> nl"
  shows "split_head (cr # nl # c # rest) = map_option (\<lambda>(h, b). (cr # nl # h, b)) (split_head (c # rest))"
proof -
  have "blank_at (cr # nl # c # rest) = 0" "blank_at (nl # c # rest) = 0"
    using assms by (auto simp: blank_at_def numeral_eq_Suc)
  then show ?thesis
    by (cases "split_head (c # rest)") (auto simp: split_head_Cons [of cr] split_head_Cons [of nl])
qed

lemma split_head_end: "split_head (crlf @ crlf @ body) = Some (crlf @ crlf, body)"
  by (simp add: crlf_def split_head_Cons blank_at_def)

definition header_ok :: "string \<times> string \<Rightarrow> bool" where
  "header_ok h \<longleftrightarrow> header_name (fst h) \<and> nl \<notin> set (snd h)"

abbreviation header_lines :: "(string \<times> string) list \<Rightarrow> string" where
  "header_lines hs \<equiv> concat (map (\<lambda>(k, v). header_line k v) hs)"

lemma split_head_lines:
  assumes "nl \<notin> set l" and "list_all header_ok hs"
  shows "split_head (l @ crlf @ header_lines hs @ crlf @ body) = Some (l @ crlf @ header_lines hs @ crlf, body)"
  using assms
proof (induction hs arbitrary: l)
  case Nil
  then show ?case
    using split_head_line [of l "nl # crlf @ body"] split_head_end [of body] by (simp add: crlf_def)
next
  case (Cons h hs)
  obtain k v where h: "h = (k, v)" by (cases h)
  have k: "header_name k" and v: "nl \<notin> set v" using Cons.prems(2) h by (simp_all add: header_ok_def)
  then obtain c k' where c: "k = c # k'" "c \<noteq> cr" "c \<noteq> nl" "nl \<notin> set k"
    by (cases k) (auto simp: header_name_def is_bws_def)
  let ?line = "k @ '': '' @ v" and ?rest = "crlf @ header_lines hs @ crlf"
  have "nl \<notin> set ?line" using c v by (simp add: nl_def)
  then have "split_head (?line @ ?rest @ body) = Some (?line @ ?rest, body)"
    using Cons.IH [of ?line] Cons.prems(2) by simp
  then show ?case
    using split_head_line [OF Cons.prems(1), of "nl # ?line @ ?rest @ body"]
      split_head_next [OF c(2,3), of "k' @ '': '' @ v @ ?rest @ body"] h c(1)
    by (simp add: header_line_def crlf_def)
qed

lemma header_in_lines:
  assumes "list_all header_ok hs"
  shows "header_in (split_on nl (header_lines hs @ crlf)) key
    = map_option (btrim \<circ> snd) (find (\<lambda>h. eq_ia (fst h) key) hs)"
  using assms
proof (induction hs)
  case Nil
  show ?case by (simp add: crlf_def nl_def cr_def strip_cr_def)
next
  case (Cons h hs)
  then show ?case by (cases h) (simp add: header_ok_def header_in_line)
qed

lemma find_after: "find P xs = None \<Longrightarrow> find P (xs @ ys) = find P ys"
  by (induction xs) (auto split: if_splits)

text \<open>Every response of the dispatch has one of three statuses, and the two lines of a subscription or none.\<close>

definition response_ok :: "Response \<Rightarrow> bool" where
  "response_ok r \<longleftrightarrow> nl \<notin> set (r_status r)
     \<and> (r_extra r = [] \<or> (\<exists>sid timeout. r_extra r = sub_reply sid timeout))"

lemma response_ok_simps [simp]:
  "response_ok (ok_response body [])" "response_ok not_found" "response_ok (fault_response e)"
  "response_ok (ok_response body (sub_reply sid timeout))"
  by (auto simp: response_ok_def ok_response_def not_found_def fault_response_def nl_def)

lemma subscribe_reply:
  "fst (gena_subscribe C V sid cb t client v2 F) = Inr x \<Longrightarrow> \<exists>s u. x = sub_reply s u"
  by (auto simp: gena_subscribe_def Let_def split: prod.splits sum.splits)

lemma renew_reply: "fst (gena_renew sid t now G) = Inr x \<Longrightarrow> \<exists>s u. x = sub_reply s u"
  by (auto simp: gena_renew_def Let_def split: option.splits)

lemma response_of_ok: "(\<And>x. r = Inr x \<Longrightarrow> response_ok (ok x)) \<Longrightarrow> response_ok (response_of ok r)"
  by (simp add: response_of_def split: sum.split)

lemma conn_response_ok: "response_ok (fst (handle_conn C V docs nonce sid client head body F))"
  by (auto simp: handle_conn_def Let_def split_beta split: ReqClass.split option.split
      intro!: response_of_ok dest: subscribe_reply renew_reply)

lemma response_framed:
  assumes "response_ok r" and "length (r_body r) < 2 ^ 64"
  obtains h where "split_head (write_response r) = Some (h, r_body r)" and "content_length h = Some (length (r_body r))"
proof -
  obtain es where es: "list_all header_ok es" "r_extra r = header_lines es" "find (\<lambda>h. eq_ia (fst h) ''Content-Length'') es = None"
  proof (cases "r_extra r = []")
    case True
    show ?thesis by (rule that [of "[]"]) (simp_all add: True)
  next
    case False
    then obtain sid t where x: "r_extra r = sub_reply sid t" using assms(1) by (auto simp: response_ok_def)
    have names: "header_name ''SID''" "header_name ''TIMEOUT''" "\<not> eq_ia ''SID'' ''Content-Length''"
      "\<not> eq_ia ''TIMEOUT'' ''Content-Length''" by code_simp+
    have "nl \<notin> set (sid_wire sid)" using uuid_word [of nl sid] by (auto simp: sid_wire_def nl_def is_ws_def)
    moreover have "nl \<notin> set (''Second-'' @ show_word t)" using show_word_plain [of nl t] by (auto simp: nl_def)
    ultimately show ?thesis
      by (intro that [of "[(''SID'', sid_wire sid), (''TIMEOUT'', ''Second-'' @ show_word t)]"])
        (simp_all add: x header_ok_def names sub_reply_def header_line_def crlf_def)
  qed
  let ?hs = "es @ [(''SERVER'', SERVER_LINE), (''Content-Type'', ''text/xml; charset='' @ dquote @ ''utf-8'' @ dquote),
    (''Content-Length'', show_nat (length (r_body r))), (''Connection'', ''close'')]"
  have names: "header_name ''SERVER''" "header_name ''Content-Type''" "header_name ''Content-Length''" "header_name ''Connection''"
    "\<not> eq_ia ''SERVER'' ''Content-Length''" "\<not> eq_ia ''Content-Type'' ''Content-Length''"
    "eq_ia ''Content-Length'' ''Content-Length''" by code_simp+
  have digits: "nl \<notin> set (show_nat n)" "\<not> is_bws (hd (show_nat n))" "\<not> is_bws (last (show_nat n))" "trim (show_nat n) = show_nat n" for n
  proof -
    have each: "nl \<noteq> c \<and> \<not> is_bws c \<and> \<not> is_ws c" if "c \<in> set (show_nat n)" for c
      using digit_not_special [OF show_nat_chars [OF that]] by (auto simp: is_bws_def is_ws_def)
    have "show_nat n \<noteq> []" by (rule show_nat_ne)
    then show "nl \<notin> set (show_nat n)" "\<not> is_bws (hd (show_nat n))" "\<not> is_bws (last (show_nat n))"
      using each hd_in_set last_in_set by blast+
    show "trim (show_nat n) = show_nat n" using each by (intro trim_plain) blast
  qed
  have plain: "nl \<notin> set SERVER_LINE" "nl \<notin> set (''text/xml; charset='' @ dquote @ ''utf-8'' @ dquote)" "nl \<notin> set ''close''"
    by code_simp+
  have ok: "list_all header_ok ?hs" using es(1) names digits(1) plain by (simp add: header_ok_def)
  let ?line = "''HTTP/1.1 '' @ r_status r"
  have "nl \<notin> set ?line" using assms(1) by (simp add: response_ok_def nl_def)
  then have "split_head (?line @ crlf @ header_lines ?hs @ crlf @ r_body r)
      = Some (?line @ crlf @ header_lines ?hs @ crlf, r_body r)"
    using ok by (rule split_head_lines)
  moreover have "write_response r = ?line @ crlf @ header_lines ?hs @ crlf @ r_body r"
    by (simp add: write_response_def es(2))
  moreover have "tl (split_on nl (?line @ crlf @ rest)) = split_on nl rest" for rest
    using split_on_append [of nl "?line @ [cr]" rest] \<open>nl \<notin> set ?line\<close> by (simp add: crlf_def)
  moreover have "find (\<lambda>h. eq_ia (fst h) ''Content-Length'') ?hs = Some (''Content-Length'', show_nat (length (r_body r)))"
    using find_after [OF es(3)] names by simp
  ultimately show ?thesis
    using header_in_lines [OF ok, of "''Content-Length''"] assms(2) digits
    by (intro that) (auto simp: content_length_def find_header_def btrim_keep parse_uint_show_nat)
qed

text \<open>C11 (equivalence): the network cannot change a request by cutting it. Whatever the sizes in which a
  head and its declared body arrive, each no longer than the cap, whatever follows them on the
  connection and whether or not the peer closes, the facade becomes what the dispatch makes of
  exactly that head and body, and the peer is sent the response of the dispatch: split at its first
  blank line it gives back the body, whose length the head declares.\<close>

theorem request_read_whole:
  assumes "split_head head = Some (head, [])" and "content_length head = Some (length body)"
    and "length head \<le> HTTP_CAP" and "length body \<le> HTTP_CAP"
    and "handle_conn C V docs nonce sid client head body F = (r, F')" and "length (r_body r) < 2 ^ 64"
  shows "\<exists>h. serve_conn C V docs nonce sid client \<lparr>st_data = head @ body @ later, st_cuts = cuts, st_closes = closes\<rparr> F
       = (Some (write_response r), F')
     \<and> split_head (write_response r) = Some (h, r_body r) \<and> content_length h = Some (length (r_body r))"
proof -
  let ?S = "\<lparr>st_data = head @ body @ later, st_cuts = cuts, st_closes = closes\<rparr>"
  have whole: "split_head (head @ body @ later) = Some (head, body @ later)"
    using split_head_append [OF assms(1), of "body @ later"] by simp
  moreover have "head \<noteq> []" using assms(1) by auto
  ultimately obtain raw S' where raw: "read_head [] ?S = Some (raw, S')"
      "raw @ st_data S' = head @ body @ later" "length head \<le> length raw"
    using read_head_whole [of "[]" ?S head "body @ later"] assms(3) by auto
  have "serve_conn C V docs nonce sid client ?S F = (Some (write_response r), F')"
    using raw(1) request_parts_whole [OF whole assms(2,4) raw(2,3)] assms(5) by (simp add: serve_conn_def)
  moreover have "response_ok r" using conn_response_ok assms(5) by (metis fst_conv)
  ultimately show ?thesis using assms(6) by (meson response_framed)
qed

text \<open>A request that arrives in four pieces, the last one shared with the next request.\<close>

definition demo_get :: string where
  "demo_get = ''GET /rootDesc.xml HTTP/1.1'' @ crlf @ header_line ''Content-Length'' ''2'' @ crlf"

theorem request_read_whole_witness:
  "\<exists>h. serve_conn demo_config demo_env (\<lambda>_. ''doc'') [] zero_id demo_client
       \<lparr>st_data = demo_get @ ''hi'' @ ''GET /'', st_cuts = [20, 1, 28], st_closes = False\<rparr> demo_start
     = (Some (write_response (ok_response ''doc'' [])), demo_start)
   \<and> split_head (write_response (ok_response ''doc'' [])) = Some (h, ''doc'') \<and> content_length h = Some 3"
proof -
  have 1: "split_head demo_get = Some (demo_get, [])" "content_length demo_get = Some (length ''hi'')"
    "length demo_get \<le> HTTP_CAP" "length ''hi'' \<le> HTTP_CAP" by code_simp+
  have 2: "classify demo_get = Get_doc" "request_path demo_get = Some ''/rootDesc.xml''"
    "doc_of_path ''/rootDesc.xml'' = Some Root_desc" by code_simp+
  then have "handle_conn demo_config demo_env (\<lambda>_. ''doc'') [] zero_id demo_client demo_get ''hi'' demo_start
      = (ok_response ''doc'' [], demo_start)"
    by (simp add: handle_conn_def)
  from request_read_whole [OF 1 this, of "''GET /''" "[20, 1, 28]" False]
  obtain h where "serve_conn demo_config demo_env (\<lambda>_. ''doc'') [] zero_id demo_client
       \<lparr>st_data = demo_get @ ''hi'' @ ''GET /'', st_cuts = [20, 1, 28], st_closes = False\<rparr> demo_start
     = (Some (write_response (ok_response ''doc'' [])), demo_start)"
    "split_head (write_response (ok_response ''doc'' [])) = Some (h, r_body (ok_response ''doc'' []))"
    "content_length h = Some (length (r_body (ok_response ''doc'' [])))"
    by (auto simp: ok_response_def)
  then show ?thesis by (intro exI [of _ h]) (simp only: ok_response_def Response.simps, simp)
qed

end
