(* ===== verification/Install.thy ===== *)
theory Install
  imports Nft_Props Health Args
begin

text \<open>
  The installation of the fixed rules (\<open>ensure_ruleset\<close>, \<open>ensure_inbound\<close>, \<open>ensure_accept_sets\<close>,
  \<open>ensure_flow_obs\<close>, \<open>ensure_carrier_probe\<close> and \<open>remove_ruleset\<close> of \<open>src/src/nft.rs\<close>), the task that keeps the
  counting rules in place, and the servers and routes at the start (\<open>src/src/main.rs\<close>).
\<close>

section \<open>The tool\<close>

text \<open>
  The state of the firewall is what \<open>nft\<close> makes of it: a command succeeds or not and leaves a state, a
  listing shows its status and its text, or cannot be started at all.
\<close>

record 'n NftTool =
  nt_run :: "argv \<Rightarrow> 'n \<Rightarrow> bool \<times> 'n"
  nt_list :: "argv \<Rightarrow> 'n \<Rightarrow> (bool \<times> string) option"

text \<open>A command whose failure is ignored, and one the caller stops at (\<open>None\<close> is the error).\<close>

definition quietly :: "'n NftTool \<Rightarrow> argv \<Rightarrow> 'n \<Rightarrow> 'n" where
  "quietly T a n = snd (nt_run T a n)"

definition insist :: "'n NftTool \<Rightarrow> argv \<Rightarrow> ('n \<Rightarrow> 'a option \<times> 'n) \<Rightarrow> 'n \<Rightarrow> 'a option \<times> 'n" where
  "insist T a k n = (case nt_run T a n of (True, n') \<Rightarrow> k n' | (False, n') \<Rightarrow> (None, n'))"

section \<open>Accept sets\<close>

definition chain_listing_args :: argv where
  "chain_listing_args = [''-a'', ''list'', ''chain'', ''inet'', ''fw4'', ''input'']"

definition delete_quietly :: "'n NftTool \<Rightarrow> u64 list \<Rightarrow> 'n \<Rightarrow> 'n" where
  "delete_quietly T hs n = fold (\<lambda>h. quietly T (delete_rule_argv ''input'' h)) hs n"

fun install_accept_from :: "'n NftTool \<Rightarrow> string option \<Rightarrow> string list \<Rightarrow> 'n \<Rightarrow> unit option \<times> 'n" where
  "install_accept_from T listing [] n =
     (Some (), (case listing of Some l \<Rightarrow> delete_quietly T (legacy_rule_handles l) n | None \<Rightarrow> n))"
| "install_accept_from T listing (text # texts) n =
     (let tcp = str_contains text ACCEPT_SET_TCP;
          n1 = quietly T (add_set_argv tcp) n;
          rest = (\<lambda>m. install_accept_from T listing texts (quietly T (flush_set_argv tcp) m))
      in (case listing of
            None \<Rightarrow> rest n1
          | Some l \<Rightarrow> insist T (place_rule_argv l text) rest (delete_quietly T (rule_handles l text) n1)))"

definition install_accept_sets :: "'n NftTool \<Rightarrow> 'n \<Rightarrow> unit option \<times> 'n" where
  "install_accept_sets T n =
     install_accept_from T (map_option snd (nt_list T chain_listing_args n)) accept_rule_text n"

section \<open>Inbound translation\<close>

definition inbound_chain_argv :: argv where
  "inbound_chain_argv = [''add'', ''chain'', ''ip'', ''dslp'', ''prerouting'',
     ''{ type nat hook prerouting priority -150 ; policy accept ; }'']"

definition inbound_argvs :: "bool \<Rightarrow> argv list" where
  "inbound_argvs tcp =
     [[''add'', ''set'', ''ip'', ''dslp'', inbound_set tcp, ''{ type inet_service ; size 65535 ; }''],
      [''add'', ''map'', ''ip'', ''dslp'', inbound_map tcp,
       ''{ type inet_service : ipv4_addr . inet_service ; size 65535 ; }'']]"

definition inbound_rule_argv :: "bool \<Rightarrow> argv" where
  "inbound_rule_argv tcp = [''add'', ''rule'', ''ip'', ''dslp'', ''prerouting'', inbound_rule_text tcp]"

fun inbound_from :: "'n NftTool \<Rightarrow> string \<Rightarrow> bool list \<Rightarrow> 'n \<Rightarrow> unit option \<times> 'n" where
  "inbound_from T listing [] n = (Some (), n)"
| "inbound_from T listing (tcp # ps) n =
     (let n1 = fold (quietly T) (inbound_argvs tcp) n;
          rest = (\<lambda>m. inbound_from T listing ps
             (quietly T [''flush'', ''set'', ''ip'', ''dslp'', inbound_set tcp] m))
      in if str_contains listing (inbound_rule_text tcp) then rest n1
         else insist T (inbound_rule_argv tcp) rest n1)"

text \<open>A chain that cannot be listed counts as empty.\<close>

definition ensure_inbound :: "'n NftTool \<Rightarrow> 'n \<Rightarrow> unit option \<times> 'n" where
  "ensure_inbound T n =
     (let n1 = quietly T inbound_chain_argv n;
          listing = (case nt_list T [''list'', ''chain'', ''ip'', ''dslp'', ''prerouting''] n1 of
             Some (_, out) \<Rightarrow> out | None \<Rightarrow> [])
      in inbound_from T listing [False, True] n1)"

section \<open>The table of the daemon\<close>

definition base_argvs :: "argv list" where
  "base_argvs =
     [[''add'', ''table'', ''ip'', ''dslp''],
      [''add'', ''map'', ''ip'', ''dslp'', ''snat_map'',
       ''{ type ipv4_addr . inet_service : ipv4_addr . inet_service ; }''],
      [''add'', ''chain'', ''ip'', ''dslp'', ''postrouting'',
       ''{ type nat hook postrouting priority -150 ; policy accept ; }'']]"

definition proto_word :: "bool \<Rightarrow> string" where
  "proto_word tcp = (if tcp then ''tcp'' else ''udp'')"

definition snat_rule_argv :: "bool \<Rightarrow> argv" where
  "snat_rule_argv tcp =
     [''add'', ''rule'', ''ip'', ''dslp'', ''postrouting'', ''oifname'', dquote @ ''eth1'' @ dquote, ''meta'', ''l4proto'',
      proto_word tcp, ''snat'', ''to'', ''ip'', ''saddr'', ''.'', proto_word tcp, ''sport'', ''map'', ''@snat_map'']"

definition has_rule :: "'n NftTool \<Rightarrow> bool \<Rightarrow> 'n \<Rightarrow> bool option" where
  "has_rule T tcp n = map_option (\<lambda>(_, out). str_contains out (proto_word tcp @ '' sport map @snat_map''))
     (nt_list T [''list'', ''chain'', ''ip'', ''dslp'', ''postrouting''] n)"

text \<open>A rule is added unless the listing shows it; a listing that cannot be had is an error.\<close>

definition rule_unless :: "'n NftTool \<Rightarrow> bool option \<Rightarrow> argv \<Rightarrow> ('n \<Rightarrow> 'a option \<times> 'n) \<Rightarrow> 'n \<Rightarrow> 'a option \<times> 'n" where
  "rule_unless T there a k n =
     (case there of None \<Rightarrow> (None, n) | Some True \<Rightarrow> k n | Some False \<Rightarrow> insist T a k n)"

definition on_success :: "unit option \<times> 'n \<Rightarrow> ('n \<Rightarrow> 'a option \<times> 'n) \<Rightarrow> 'a option \<times> 'n" where
  "on_success r k = (case r of (Some _, n) \<Rightarrow> k n | (None, n) \<Rightarrow> (None, n))"

definition ensure_ruleset :: "'n NftTool \<Rightarrow> 'n \<Rightarrow> unit option \<times> 'n" where
  "ensure_ruleset T n =
     (let n1 = fold (quietly T) base_argvs n
      in rule_unless T (has_rule T False n1) (snat_rule_argv False) (\<lambda>n2.
         rule_unless T (has_rule T True n2) (snat_rule_argv True) (\<lambda>n3.
         on_success (install_accept_sets T n3) (ensure_inbound T)) n2) n1)"

text \<open>The accept rules stay: they accept a set that is then empty.\<close>

definition remove_ruleset :: "'n NftTool \<Rightarrow> 'n \<Rightarrow> 'n" where
  "remove_ruleset T n = fold (quietly T) [[''delete'', ''table'', ''ip'', ''dslp''], flush_set_argv False, flush_set_argv True] n"

section \<open>The mirror of live flows\<close>

definition cdc_listing :: argv where "cdc_listing = [''list'', ''chain'', ''ip'', ''dslp'', ''cdc'']"

definition has_flow_obs_chain :: "'n NftTool \<Rightarrow> 'n \<Rightarrow> bool option" where
  "has_flow_obs_chain T n = map_option (\<lambda>(_, out). out \<noteq> []) (nt_list T cdc_listing n)"

definition has_flow_obs_rule :: "'n NftTool \<Rightarrow> 'n \<Rightarrow> bool option" where
  "has_flow_obs_rule T n = map_option (\<lambda>(_, out). str_contains out ''update @flow_obs'') (nt_list T cdc_listing n)"

definition ensure_flow_obs :: "'n NftTool \<Rightarrow> 'n \<Rightarrow> unit option \<times> 'n" where
  "ensure_flow_obs T n =
     (let n1 = quietly T [''add'', ''set'', ''ip'', ''dslp'', ''flow_obs'',
            ''{ type ipv4_addr . inet_service ; flags timeout ; timeout 15s ; }''] n
      in rule_unless T (has_flow_obs_chain T n1)
           [''add'', ''chain'', ''ip'', ''dslp'', ''cdc'',
            ''{ type filter hook postrouting priority 110 ; policy accept ; }''] (\<lambda>n2.
         rule_unless T (has_flow_obs_rule T n2)
           [''add'', ''rule'', ''ip'', ''dslp'', ''cdc'', ''oifname'', dquote @ ''eth1'' @ dquote, ''meta'', ''l4proto'', ''udp'',
            ''update'', ''@flow_obs'', ''{ ip saddr . udp sport }''] (\<lambda>n3. (Some (), n3)) n2) n1)"

definition list_flow_obs :: "'n NftTool \<Rightarrow> 'n \<Rightarrow> tuple4 list option" where
  "list_flow_obs T n = (case nt_list T [''list'', ''set'', ''ip'', ''dslp'', ''flow_obs''] n of
     Some (True, out) \<Rightarrow> Some (parse_flow_obs out) | _ \<Rightarrow> None)"

section \<open>The counting rules of the carrier probe\<close>

definition CARRIER_CHAINS :: "string list" where "CARRIER_CHAINS = [''input'', ''forward'']"

definition carrier_probe_rule_argv :: "string \<Rightarrow> argv" where
  "carrier_probe_rule_argv chain = [''insert'', ''rule'', ''inet'', ''fw4'', chain, carrier_probe_rule_text chain]"

definition counter_listing :: argv where
  "counter_listing = [''list'', ''counter'', ''inet'', ''fw4'', CARRIER_COUNTER]"

definition chain_listing :: "string \<Rightarrow> argv" where
  "chain_listing chain = [''list'', ''chain'', ''inet'', ''fw4'', chain]"

definition carrier_counter_reads :: "'n NftTool \<Rightarrow> 'n \<Rightarrow> bool" where
  "carrier_counter_reads T n = (case nt_list T counter_listing n of Some (ok, _) \<Rightarrow> ok | None \<Rightarrow> False)"

definition read_carrier_chain :: "'n NftTool \<Rightarrow> string \<Rightarrow> 'n \<Rightarrow> string option" where
  "read_carrier_chain T chain n = (case nt_list T (chain_listing chain) n of Some (True, out) \<Rightarrow> Some out | _ \<Rightarrow> None)"

fun delete_stale :: "'n NftTool \<Rightarrow> string \<Rightarrow> u64 list \<Rightarrow> ('n \<Rightarrow> 'a option \<times> 'n) \<Rightarrow> 'n \<Rightarrow> 'a option \<times> 'n" where
  "delete_stale T chain [] k n = k n"
| "delete_stale T chain (h # hs) k n = insist T (delete_rule_argv chain h) (delete_stale T chain hs k) n"

text \<open>The flag is whether anything was changed so far.\<close>

definition place_counting_rule :: "'n NftTool \<Rightarrow> string \<Rightarrow> bool \<Rightarrow> (bool \<Rightarrow> 'n \<Rightarrow> 'a option \<times> 'n) \<Rightarrow> 'n \<Rightarrow> 'a option \<times> 'n" where
  "place_counting_rule T chain changed k n =
     (case read_carrier_chain T chain n of
        None \<Rightarrow> (None, n)
      | Some listing \<Rightarrow>
          (let text = carrier_probe_rule_text chain; st = carrier_probe_chain_state listing text
           in delete_stale T chain (stale st) (\<lambda>n1.
                if \<not> missing st then k (changed \<or> stale st \<noteq> []) n1
                else insist T (carrier_probe_rule_argv chain) (\<lambda>n2.
                  case read_carrier_chain T chain n2 of
                    None \<Rightarrow> (None, n2)
                  | Some back \<Rightarrow> if str_contains back text then k True n2 else (None, n2)) n1) n))"

fun place_counting_rules :: "'n NftTool \<Rightarrow> string list \<Rightarrow> bool \<Rightarrow> 'n \<Rightarrow> bool option \<times> 'n" where
  "place_counting_rules T [] changed n = (Some changed, n)"
| "place_counting_rules T (c # cs) changed n = place_counting_rule T c changed (place_counting_rules T cs) n"

definition ensure_carrier_probe :: "'n NftTool \<Rightarrow> 'n \<Rightarrow> bool option \<times> 'n" where
  "ensure_carrier_probe T n =
     (if carrier_counter_reads T n then place_counting_rules T CARRIER_CHAINS False n
      else insist T [''add'', ''counter'', ''inet'', ''fw4'', CARRIER_COUNTER] (\<lambda>n1.
        if \<not> carrier_counter_reads T n1 then (None, n1) else place_counting_rules T CARRIER_CHAINS True n1) n)"

definition list_carrier_probe :: "'n NftTool \<Rightarrow> 'n \<Rightarrow> u64 option" where
  "list_carrier_probe T n = (case nt_list T counter_listing n of
     Some (True, out) \<Rightarrow> Some (parse_carrier_probe out) | _ \<Rightarrow> None)"

text \<open>One round of the watch task: whether it reports a reinstallation, and the events of the counter.\<close>

definition carrier_round :: "'n NftTool \<Rightarrow> u64 \<Rightarrow> u64 \<Rightarrow> u64 \<Rightarrow> Watch \<times> 'n \<Rightarrow> (bool \<times> Event list) \<times> Watch \<times> 'n" where
  "carrier_round T interval misses now s =
     (let (w, n) = s; (r, n1) = ensure_carrier_probe T n
      in (case list_carrier_probe T n1 of
            None \<Rightarrow> ((r = Some True, []), w, n1)
          | Some reading \<Rightarrow> let (es, w1) = poll now reading interval misses w in ((r = Some True, es), w1, n1)))"

text \<open>Between two rounds the firewall may be rebuilt into any state.\<close>

fun carrier_rounds :: "'n NftTool \<Rightarrow> u64 \<Rightarrow> u64 \<Rightarrow> (u64 \<times> 'n option) list \<Rightarrow> Watch \<times> 'n
    \<Rightarrow> (bool \<times> Event list) list" where
  "carrier_rounds T interval misses [] s = []"
| "carrier_rounds T interval misses ((now, rebuilt) # rs) s =
     (let (out, s1) = carrier_round T interval misses now
            (fst s, case rebuilt of Some n \<Rightarrow> n | None \<Rightarrow> snd s)
      in out # carrier_rounds T interval misses rs s1)"

section \<open>Servers and routes\<close>

text \<open>The first IPv4 address of each host that resolves, in the order of the hosts.\<close>

fun first_v4 :: "SocketAddr list \<Rightarrow> tuple4 option" where
  "first_v4 [] = None"
| "first_v4 (V4 a # as) = Some a"
| "first_v4 (V6 _ _ _ # as) = first_v4 as"

definition resolve_stun :: "(string \<Rightarrow> SocketAddr list option) \<Rightarrow> string list \<Rightarrow> tuple4 list" where
  "resolve_stun lookup hosts =
     List.map_filter (\<lambda>h. case lookup h of Some as \<Rightarrow> first_v4 as | None \<Rightarrow> None) hosts"

definition add_stun_routes :: "tuple4 list \<Rightarrow> string \<Rightarrow> argv list" where
  "add_stun_routes servers gateway =
     map (\<lambda>s. [''ip'', ''route'', ''replace'', show_ipv4 (fst s), ''via'', gateway]) servers"

section \<open>What the installers do\<close>

text \<open>With a tool that only records, the installer issues the commands of \<open>ensure_accept_sets\<close>.\<close>

definition recorder :: "(argv \<Rightarrow> bool) \<Rightarrow> (argv \<Rightarrow> argv list \<Rightarrow> (bool \<times> string) option) \<Rightarrow> argv list NftTool" where
  "recorder ok list = \<lparr>nt_run = (\<lambda>a log. (ok a, log @ [a])), nt_list = list\<rparr>"

lemma recorder_quietly [simp]: "quietly (recorder ok list) a log = log @ [a]"
  by (simp add: quietly_def recorder_def)

lemma recorder_insist [simp]:
  "insist (recorder ok list) a k log = (if ok a then k (log @ [a]) else (None, log @ [a]))"
  by (simp add: insist_def recorder_def)

lemma recorder_delete [simp]:
  "delete_quietly (recorder ok list) hs log = log @ map (delete_rule_argv ''input'') hs"
  unfolding delete_quietly_def by (induction hs arbitrary: log) simp_all

lemma accept_commands:
  "install_accept_from (recorder ok list) listing texts log
   = (let (cs, r) = accept_sets_from ok listing texts in (if r then Some () else None, log @ cs))"
  by (induction texts arbitrary: log) (simp_all add: Let_def split_beta split: option.split)

text \<open>
  What the watch relies on: a rule placed in one chain shows up in no other chain's listing and leaves
  the counter alone, and a listing asked for without \<open>-a\<close> names no handle.
\<close>

definition listings_apart :: "'n NftTool \<Rightarrow> bool" where
  "listings_apart T \<longleftrightarrow>
     (\<forall>c d n. c \<noteq> d \<longrightarrow> nt_list T (chain_listing d) (snd (nt_run T (carrier_probe_rule_argv c) n)) = nt_list T (chain_listing d) n)
   \<and> (\<forall>c n. nt_list T counter_listing (snd (nt_run T (carrier_probe_rule_argv c) n)) = nt_list T counter_listing n)"

definition no_handles :: "'n NftTool \<Rightarrow> bool" where
  "no_handles T \<longleftrightarrow> (\<forall>c n out. nt_list T (chain_listing c) n = Some (True, out) \<longrightarrow> \<not> str_contains out ''handle '')"

definition rule_there :: "'n NftTool \<Rightarrow> string \<Rightarrow> 'n \<Rightarrow> bool" where
  "rule_there T c n \<longleftrightarrow> (case read_carrier_chain T c n of
     Some out \<Rightarrow> str_contains out (carrier_probe_rule_text c) | None \<Rightarrow> False)"

definition in_place :: "'n NftTool \<Rightarrow> 'n \<Rightarrow> bool" where
  "in_place T n \<longleftrightarrow> carrier_counter_reads T n \<and> rule_there T ''input'' n \<and> rule_there T ''forward'' n"

lemma no_stale:
  assumes "no_handles T" and "read_carrier_chain T c n = Some out"
  shows "carrier_probe_stale_handles out text = []"
proof -
  have "nt_list T (chain_listing c) n = Some (True, out)"
    using assms(2) by (auto simp: read_carrier_chain_def split: option.splits prod.splits bool.splits)
  then show ?thesis using assms(1) carrier_probe_never_sees_stale by (simp add: no_handles_def)
qed

text \<open>Placing one rule: nothing to do, or the rule is inserted and read back, or an error.\<close>

lemma placed_there:
  assumes "no_handles T" and "rule_there T c n"
  shows "place_counting_rule T c changed k n = k changed n"
  using assms(2) no_stale [OF assms(1)]
  by (auto simp: place_counting_rule_def rule_there_def carrier_probe_chain_state_def Let_def split: option.splits)

lemma placed_cases:
  assumes "no_handles T" and "place_counting_rule T c changed k n = (Some r, n')"
  obtains "rule_there T c n" and "k changed n = (Some r, n')"
  | m where "m = snd (nt_run T (carrier_probe_rule_argv c) n)" and "rule_there T c m" and "k True m = (Some r, n')"
proof (cases "rule_there T c n")
  case True
  then show ?thesis using assms(2) placed_there [OF assms(1) True] that(1) by metis
next
  case False
  obtain out where out: "read_carrier_chain T c n = Some out"
    using assms(2) by (auto simp: place_counting_rule_def split: option.splits)
  then have state: "carrier_probe_chain_state out (carrier_probe_rule_text c) = \<lparr>stale = [], missing = True\<rparr>"
    using False no_stale [OF assms(1) out] by (simp add: carrier_probe_chain_state_def rule_there_def)
  obtain ok m where run: "nt_run T (carrier_probe_rule_argv c) n = (ok, m)" by fastforce
  have "ok" and "(case read_carrier_chain T c m of None \<Rightarrow> (None, m)
      | Some back \<Rightarrow> if str_contains back (carrier_probe_rule_text c) then k True m else (None, m)) = (Some r, n')"
    using assms(2) run by (cases ok; simp add: place_counting_rule_def out state insist_def Let_def)+
  then show ?thesis
    by (intro that(2) [of m]) (auto simp: run rule_there_def split: option.splits if_splits)
qed

lemma idle_when_in_place: "no_handles T \<Longrightarrow> in_place T n \<Longrightarrow> ensure_carrier_probe T n = (Some False, n)"
  by (simp add: ensure_carrier_probe_def in_place_def CARRIER_CHAINS_def placed_there)

lemma insert_keeps:
  assumes "listings_apart T"
  shows "c \<noteq> d \<Longrightarrow> rule_there T d (snd (nt_run T (carrier_probe_rule_argv c) n)) = rule_there T d n"
    and "carrier_counter_reads T (snd (nt_run T (carrier_probe_rule_argv c) n)) = carrier_counter_reads T n"
  using assms by (simp_all add: listings_apart_def rule_there_def read_carrier_chain_def carrier_counter_reads_def)

lemma placed_next:
  assumes laws: "listings_apart T" "no_handles T" and "carrier_counter_reads T n"
    and "place_counting_rule T c changed k n = (Some r, n')"
  obtains m b where "carrier_counter_reads T m" and "rule_there T c m" and "k b m = (Some r, n')"
    and "\<And>d. d \<noteq> c \<Longrightarrow> rule_there T d n \<Longrightarrow> rule_there T d m"
proof (rule placed_cases [OF laws(2) assms(4)])
  assume "rule_there T c n" and "k changed n = (Some r, n')"
  then show ?thesis using that [of n changed] assms(3) by blast
next
  fix m assume m: "m = snd (nt_run T (carrier_probe_rule_argv c) n)" and "rule_there T c m" and "k True m = (Some r, n')"
  then show ?thesis using that [of m True] assms(3) insert_keeps [OF laws(1)] by metis
qed

lemma placed_in_place:
  assumes laws: "listings_apart T" "no_handles T" and "carrier_counter_reads T n"
    and "place_counting_rules T CARRIER_CHAINS changed n = (Some r, n')"
  shows "in_place T n'"
proof -
  have "place_counting_rule T ''input'' changed (place_counting_rules T [''forward'']) n = (Some r, n')"
    using assms(4) by (simp add: CARRIER_CHAINS_def)
  from placed_next [OF laws assms(3) this] obtain m b where m: "carrier_counter_reads T m" "rule_there T ''input'' m"
      "place_counting_rule T ''forward'' b (place_counting_rules T []) m = (Some r, n')"
    unfolding place_counting_rules.simps by blast
  show ?thesis
  proof (rule placed_next [OF laws m(1,3)])
    fix m' b'
    assume "carrier_counter_reads T m'" "rule_there T ''forward'' m'" "place_counting_rules T [] b' m' = (Some r, n')"
      and "\<And>d. d \<noteq> ''forward'' \<Longrightarrow> rule_there T d m \<Longrightarrow> rule_there T d m'"
    then show ?thesis using m(2) by (simp add: in_place_def)
  qed
qed

lemma ensure_in_place:
  assumes "listings_apart T" "no_handles T" and "ensure_carrier_probe T n = (Some r, n')"
  shows "in_place T n'"
  using assms(3) placed_in_place [OF assms(1,2)]
  by (auto simp: ensure_carrier_probe_def insist_def split: if_splits prod.splits bool.splits)

lemma round_ensures: "carrier_round T i m now s = ((b, es), w, n) \<Longrightarrow> \<exists>r. ensure_carrier_probe T (snd s) = (r, n) \<and> b = (r = Some True)"
  by (cases s) (auto simp: carrier_round_def split: prod.splits option.splits)

lemma reports_bound:
  assumes "listings_apart T" "no_handles T"
  shows "length (filter fst (carrier_rounds T i m rs s))
    \<le> (if in_place T (snd s) then 0 else 1) + length (filter (\<lambda>r. snd r \<noteq> None) rs)"
proof (induction rs arbitrary: s)
  case (Cons r rs)
  obtain now rebuilt where r: "r = (now, rebuilt)" by (cases r)
  let ?n = "case rebuilt of Some n \<Rightarrow> n | None \<Rightarrow> snd s"
  obtain b es w n where o: "carrier_round T i m now (fst s, ?n) = ((b, es), w, n)" by (metis prod.exhaust)
  have tail: "length (filter fst (carrier_rounds T i m rs (w, n))) \<le> (if in_place T n then 0 else 1) + length (filter (\<lambda>r. snd r \<noteq> None) rs)"
    using Cons.IH [of "(w, n)"] by simp
  from round_ensures [OF o] obtain x where x: "ensure_carrier_probe T ?n = (x, n)" "b = (x = Some True)" by auto
  have "b \<Longrightarrow> in_place T n" using x ensure_in_place [OF assms, of ?n True n] by simp
  moreover have "in_place T ?n \<Longrightarrow> \<not> b \<and> in_place T n" using idle_when_in_place [OF assms(2), of ?n] x by auto
  ultimately show ?case using tail o r by (cases rebuilt) (auto split: if_splits)
qed simp

text \<open>The watch reports a reinstallation only for a reason. When a rule placed in one
  chain is not seen in another and listings name no handles, then in any run of rounds, whatever
  commands and listings fail, the number of reports that the counting rules were put back is at most
  one more than the number of times the firewall was rebuilt between rounds.\<close>

theorem reinstalls_have_reasons:
  assumes "listings_apart T" "no_handles T"
  shows "length (filter fst (carrier_rounds T interval misses rs (w, n)))
    \<le> Suc (length (filter (\<lambda>r. snd r \<noteq> None) rs))"
  using reports_bound [OF assms, of interval misses rs "(w, n)"] by (simp split: if_splits)

text \<open>A firewall with a counter and a rule in each chain, shown without handles. It is rebuilt once, empty,
  and the two rounds that find the rules missing are the two that report.\<close>

definition demo_tool :: "(bool \<times> bool \<times> bool) NftTool" where
  "demo_tool = \<lparr>
     nt_run = (\<lambda>a (c, i, f).
       if a = [''add'', ''counter'', ''inet'', ''fw4'', CARRIER_COUNTER] then (True, True, i, f)
       else if a = carrier_probe_rule_argv ''input'' then (True, c, True, f)
       else if a = carrier_probe_rule_argv ''forward'' then (True, c, i, True) else (False, c, i, f)),
     nt_list = (\<lambda>a (c, i, f).
       if a = counter_listing then Some (c, [])
       else if a = chain_listing ''input'' then Some (True, if i then carrier_probe_rule_text ''input'' else [])
       else if a = chain_listing ''forward'' then Some (True, if f then carrier_probe_rule_text ''forward'' else [])
       else None)\<rparr>"

lemma demo_tool_laws: "listings_apart demo_tool" "no_handles demo_tool"
proof -
  have texts: "\<not> str_contains (carrier_probe_rule_text ''input'') ''handle ''" "\<not> str_contains (carrier_probe_rule_text ''forward'') ''handle ''"
    "\<not> str_contains [] ''handle ''" by code_simp+
  show "no_handles demo_tool"
    unfolding no_handles_def demo_tool_def by (auto simp: texts split: if_splits)
  show "listings_apart demo_tool"
    unfolding listings_apart_def demo_tool_def
    by (auto simp: carrier_probe_rule_argv_def counter_listing_def chain_listing_def)
qed

theorem reinstalls_have_reasons_witness:
  "length (filter fst (carrier_rounds demo_tool 60 3 [(10, None), (20, None), (30, Some (False, False, False)), (40, None)]
      (Watch_new 0, (True, True, False)))) = 2"
proof -
  let ?rs = "[(10 :: u64, None), (20, None), (30, Some (False, False, False)), (40, None)]"
  have le: "length (filter fst (carrier_rounds demo_tool 60 3 ?rs (Watch_new 0, (True, True, False))))
      \<le> Suc (length (filter (\<lambda>r. snd r \<noteq> None) ?rs))"
    by (rule reinstalls_have_reasons [OF demo_tool_laws])
  have one: "length (filter (\<lambda>r. snd r \<noteq> None) ?rs) = 1" by (simp del: not_None_eq)
  have "2 \<le> length (filter fst (carrier_rounds demo_tool 60 3 ?rs (Watch_new 0, (True, True, False))))"
    by code_simp
  with le show ?thesis by (intro le_antisym) (simp_all only: one Suc_1)
qed

end
