(* ===== verification/Spec2Isabelle.thy ===== *)
theory Spec2Isabelle
  imports Vote Health Stun Conntrack Lease_Props Persist Pcp_Props Engine_Props Crypto Dp_Props
    Nft_Props Upnp_Props Gena_Props Index_Props Publish Control Facade_Auth
    Udp_Slot Boot_Props Documents_Props Netlink Front Store Presence Shadow
    Http Install
begin

text \<open>
  ds-lite-punch (\<open>src/src/*.rs\<close>) runs on a home router behind a carrier's NAT. It keeps UDP and TCP
  ports open at the carrier (\<^emph>\<open>slots\<close>), learns by STUN which external tuple each slot has, hands slots
  to the devices of the LAN through UPnP-IGD, PCP and NAT-PMP, and installs the nftables elements
  that let traffic in. This development models its logic and proves what makes it correct.

  \<^bold>\<open>The parts, and how they meet.\<close> A slot is a row of the lease table (\<open>slot.rs\<close>). The operator's static
  slots come from the command line; the others are granted by the facade (\<open>upnpsvc.rs\<close>), which
  receives control requests over HTTP (parsed by \<open>upnp.rs\<close>, authorized by \<open>dp.rs\<close>) and datagrams
  (parsed by \<open>pcp.rs\<close>), updates the table and its own index of entries, installs the datapath
  (\<open>nft.rs\<close>), starts the slot's tasks, publishes events, and writes the state files (\<open>persist.rs\<close>,
  \<open>publish.rs\<close>). A slot's tasks probe the STUN servers (\<open>stun.rs\<close>, \<open>mapping.rs\<close>, \<open>tcpslot.rs\<close>), vote
  on the reports (\<open>vote.rs\<close>) and publish the confirmed tuple. Beside the facade the observation engine
  (\<open>engine.rs\<close>) reads the connection table (\<open>obs.rs\<close>, \<open>cdc.rs\<close>), pins quiet flows of devices and lets
  them go; the carrier watch (\<open>carrier.rs\<close>) looks at a probe counter; the collector of the facade
  frees what expired and what belongs to devices that left (\<open>presence.rs\<close>).

  \<^bold>\<open>Theories.\<close>
  \<^item> \<open>Prelude\<close>, \<open>Bytes\<close>, \<open>Text\<close>: words, saturating arithmetic, lists updated in place, big-endian codecs
    and the operations of Rust's \<open>str\<close>; the locales \<open>wire_codec\<close> and \<open>row_format\<close> with the round trip of
    a file of rows.
  \<^item> \<open>Vote\<close> (\<open>vote.rs\<close>), \<open>Health\<close> (\<open>mapping.rs\<close>, \<open>presence.rs\<close>, \<open>carrier.rs\<close>, \<open>tcpslot.rs\<close>), \<open>Stun\<close>
    (\<open>stun.rs\<close>): the tuple machine of a slot.
  \<^item> \<open>Udp_Slot\<close> (\<open>run_slot\<close> and \<open>keepalive_loop\<close> of \<open>main.rs\<close>): the tasks of a UDP slot, over \<open>Health\<close>, \<open>Vote\<close>,
    \<open>Stun\<close>, the table and the publisher.
  \<^item> \<open>Conntrack\<close> (\<open>obs.rs\<close>, \<open>cdc.rs\<close>), \<open>Engine\<close> and \<open>Engine_Props\<close> (\<open>engine.rs\<close>): the observation engine.
  \<^item> \<open>Slot_Table\<close>, \<open>Slot_Facts\<close>, \<open>Lease_Props\<close> (\<open>slot.rs\<close>): the lease table with every operation, its
    invariant \<open>tbl_inv\<close>, its refinement of a finite map, and the locale \<open>lease_store\<close>; \<open>Persist\<close>
    (\<open>persist.rs\<close> and the boot of \<open>main.rs\<close>): what a restart brings back.
  \<^item> \<open>Pcp\<close>, \<open>Pcp_Props\<close> (\<open>pcp.rs\<close>); \<open>Nft\<close>, \<open>Nft_Props\<close> (\<open>nft.rs\<close>); \<open>Publish\<close> (\<open>publish.rs\<close>).
  \<^item> \<open>Crypto\<close>, \<open>Dp\<close>, \<open>Dp_Props\<close> (\<open>dp.rs\<close>): the digests as the code computes them, the login ceremony,
    sessions, roles and records, with the history of a session back to a verified login.
  \<^item> \<open>Upnp\<close>, \<open>Upnp_Props\<close> (\<open>upnp.rs\<close>); \<open>Gena\<close>, \<open>Gena_Props\<close> (events of \<open>upnpsvc.rs\<close>); \<open>Facade_Index\<close>,
    \<open>Index_Props\<close> (its index).
  \<^item> \<open>Facade\<close>, \<open>Facade_Run\<close> (\<open>upnpsvc.rs\<close>): the state record \<open>Facade\<close> and each operation on it, one definition
    for one function, composed as the code composes them; \<open>Soap\<close>, \<open>Control\<close>: the control dispatch, from
    the octets of a request to its response.
  \<^item> \<open>Facade_Inv\<close>, \<open>Facade_Keeps\<close>, \<open>Facade_Props\<close>: the invariant that ties entries, leases, tasks and rules
    together, its preservation by every operation, and the machine \<open>facade_step\<close> of datagrams,
    requests, learned tuples and ticks. \<open>Facade_Safety\<close>, \<open>Facade_Auth\<close>: what one caller can do to the
    others, and what needs a login.
  \<^item> \<open>Identity\<close>, \<open>Calendar\<close>, \<open>Discovery\<close>, \<open>Documents\<close>, \<open>Documents_Props\<close> (\<open>upnpsvc.rs\<close>): the names of the
    device and how they are kept, the \<open>Date\<close> header, the SSDP responder as a step relation, and the
    descriptions the device serves, set against what its control dispatch answers.
  \<^item> \<open>Http\<close> (\<open>upnpsvc.rs\<close>): the reading of a request from its stream and the response on the wire; \<open>Install\<close>
    (\<open>nft.rs\<close>, \<open>main.rs\<close>): the installers of the fixed rules, and the task that keeps the counting rules.
  \<^item> \<open>Presence\<close> (\<open>presence.rs\<close>): when a device counts as reachable; \<open>Netlink\<close> (\<open>ct.rs\<close>): the request that
    forgets one flow, octet by octet; \<open>Shadow\<close> (\<open>engine.rs\<close>): the task of a pinned flow.
  \<^item> \<open>Keepalive\<close> (\<open>keepalive.rs\<close>, \<open>nft.rs\<close>): the allowlist of devices whose quiet flows are pinned. \<open>Store\<close>
    (\<open>persist.rs\<close>, \<open>upnpsvc.rs\<close>): a state file is replaced whole, also across a crash. \<open>Front\<close>
    (\<open>front.rs\<close>): the push of a tuple to the front.
  \<^item> \<open>Args\<close>, \<open>Args_Props\<close> (\<open>main.rs\<close>, \<open>identity.rs\<close>): the command line, what an accepted one satisfies, and
    the PEM reader; \<open>Boot\<close>, \<open>Boot_Props\<close> (\<open>main.rs\<close>): the start of the process and what a restart brings
    back to life.

  \<^bold>\<open>Reading the definitions.\<close> A Rust struct is a record (its fields carry a short prefix), an enum a
  datatype, a machine integer a word of its width; saturating operations are \<open>sat_add\<close>, \<open>sat_sub\<close>,
  \<open>sat_mul\<close>, and other arithmetic wraps only where the code's does. Addresses are 32-bit words, text and
  wire data lists of characters and of octets; text is ASCII. A hash map is a partial function. An
  operation that can fail returns a sum or an option, with one branch for each early return. What
  the outside answers during one operation (\<open>nft\<close>, sockets, files, the clock, the connection table) is
  an argument, gathered in the record \<open>Env\<close> for the facade, so every theorem holds for all answers. No
  fuel is used: recursions are structural or have a proved measure, and the two loops without an
  obvious one are proved to return on every input (\<open>scans_end\<close>); a stream is read by the octets left in it.

  \<^bold>\<open>Steps.\<close> The code holds its locks for parts of an operation. The model takes one operation of the
  facade as one step, with the clock read once; interleavings inside an operation are not modelled.
  An interleaving of whole operations is any order of steps.

  \<^bold>\<open>What the invariant of the facade asks for.\<close> \<open>facade_step\<close> holds the requests in which a device maps for
  itself, which are all requests of devices without an authenticated session. With a session a
  caller may map for another host; the index is then keyed by the requester and the table by the
  target, and an entry can be left without its lease (\<open>entry_left_without_lease\<close>). The collector's yield to
  a device's flow goes on when \<open>nft\<close> refuses the new rules, so after such a tick (\<open>refused_tick\<close> of
  \<open>facade_reach\<close>) the entry it moved has its lease and its task, but perhaps no rules; the invariant
  \<open>facade_inv_on W\<close> says this of the ports \<open>W\<close> that appeared in the table in such ticks, and of no others.

  \<^bold>\<open>Not modelled.\<close> Sockets, processes and threads; the transparent forward (\<open>forward.rs\<close>), which is one
  raw send; the thirty seconds after which an HTTP connection is dropped, and the sixteen connections
  served at a time; the client configuration of TLS and the one exchange with the front over it, which are the
  TLS library's; the netlink socket under the request of \<open>ct.rs\<close>, and its self test; the policy route and
  the signals of \<open>main.rs\<close>; the delivery of events to their callbacks. These are calls into the system or
  into libraries with no decision of the program in them beyond what the operations above take as
  their answers. The strength of the digests is not a subject here: that a login was verified means
  that its authenticator was the one the code computes.
\<close>

end
